(* ===== verification/Sngo_Prelude.thy ===== *)
theory Sngo_Prelude
  imports Main "HOL-Library.Word"
begin

text \<open>
  The vocabulary every component of the development shares: Go's fixed-width integers,
  instants and durations, results that carry an error or a panic, buffered channels with
  their non-blocking operations, the unspecified order in which \<open>range\<close> visits a map,
  and the contract of a table with unique keys, which the router, the service registry
  and the dependency container all offer to their clients.
\<close>

section \<open>Collections of facts\<close>

named_theorems go_defs \<open>definitions of the runtime vocabulary\<close>
named_theorems inv_step \<open>an operation keeps its component's invariant\<close>

section \<open>Machine integers, instants and durations\<close>

type_synonym u8 = "8 word"
type_synonym u16 = "16 word"
type_synonym u32 = "32 word"
type_synonym u64 = "64 word"
type_synonym bytes = "u8 list"

text \<open>
  A \<^verbatim>\<open>time.Time\<close> is the number of nanoseconds since Go's zero time (1 January of year 1),
  so that \<^verbatim>\<open>IsZero\<close> is \<open>t = 0\<close>; a \<^verbatim>\<open>time.Duration\<close> is a number of nanoseconds.
\<close>

type_synonym Time = int
type_synonym Duration = int

abbreviation Millisecond :: Duration where "Millisecond \<equiv> 1000000"
abbreviation Second :: Duration where "Second \<equiv> 1000000000"

text \<open>Seconds from Go's zero time to the Unix epoch, and \<^verbatim>\<open>Time.Unix\<close> and \<^verbatim>\<open>time.Unix(s, 0)\<close>.\<close>

definition unix_epoch_seconds :: int where
  "unix_epoch_seconds = 62135596800"

definition time_Unix :: "Time \<Rightarrow> int" where
  "time_Unix t = t div Second - unix_epoch_seconds"

definition time_of_Unix :: "int \<Rightarrow> Time" where
  "time_of_Unix s = (s + unix_epoch_seconds) * Second"

lemma time_Unix_of_Unix [simp]: "time_Unix (time_of_Unix s) = s"
  by (simp add: time_Unix_def time_of_Unix_def)

lemma time_of_Unix_Unix: "time_of_Unix (time_Unix t) = t - t mod Second"
  by (simp add: time_Unix_def time_of_Unix_def minus_mod_eq_div_mult)

section \<open>Outcomes\<close>

text \<open>
  An operation that can panic returns an \<open>outcome\<close>; one that only returns an error
  beside its value uses the sum type, \<open>Inl\<close> being the error.
\<close>

datatype ('e, 'a) outcome = Ok 'a | Err 'e | Panic

section \<open>Ranging over a map\<close>

text \<open>
  \<^verbatim>\<open>for k, v := range m\<close> visits every key of \<^verbatim>\<open>m\<close> once, in an order the language leaves
  open. A loop of the source therefore takes the order \<open>ks\<close> as an argument, and what is
  proved of it holds for every \<open>ks\<close> with \<open>range_order m ks\<close>.
\<close>

definition range_order :: "('k \<rightharpoonup> 'v) \<Rightarrow> 'k list \<Rightarrow> bool" where
  "range_order m ks \<longleftrightarrow> distinct ks \<and> set ks = dom m"

lemma range_orderD:
  assumes "range_order m ks"
  shows "distinct ks" and "set ks = dom m" and "k \<in> set ks \<Longrightarrow> m k \<noteq> None"
  using assms by (auto simp: range_order_def)

lemma range_order_finite: "range_order m ks \<Longrightarrow> finite (dom m)"
  by (metis List.finite_set range_order_def)

lemma range_order_length: "range_order m ks \<Longrightarrow> length ks = card (dom m)"
  by (metis distinct_card range_order_def)

lemma range_order_exists: "finite (dom m) \<Longrightarrow> \<exists>ks. range_order m ks"
  unfolding range_order_def using finite_distinct_list by metis

lemma range_order_empty [simp]: "range_order Map.empty ks \<longleftrightarrow> ks = []"
  by (auto simp: range_order_def)

text \<open>The values visited, in the order of the keys.\<close>

definition range_values :: "('k \<rightharpoonup> 'v) \<Rightarrow> 'k list \<Rightarrow> 'v list" where
  "range_values m ks = List.map_filter m ks"

lemma range_values_simps [simp]:
  "range_values m [] = []"
  "range_values m (k # ks) = (case m k of None \<Rightarrow> range_values m ks | Some v \<Rightarrow> v # range_values m ks)"
  by (simp_all add: range_values_def map_filter_simps split: option.split)

lemma set_range_values: "range_order m ks \<Longrightarrow> set (range_values m ks) = ran m"
proof -
  assume ro: "range_order m ks"
  have "set (range_values m xs) = {v. \<exists>k \<in> set xs. m k = Some v}" for xs
    by (induction xs) (auto split: option.splits)
  with ro show ?thesis by (auto simp: range_order_def ran_def)
qed

lemma length_range_values: "range_order m ks \<Longrightarrow> length (range_values m ks) = card (dom m)"
proof -
  assume ro: "range_order m ks"
  have "(\<And>k. k \<in> set xs \<Longrightarrow> m k \<noteq> None) \<Longrightarrow> length (range_values m xs) = length xs" for xs
    by (induction xs) (auto split: option.splits)
  with ro show ?thesis by (metis range_orderD(3) range_order_length)
qed

lemma distinct_range_values:
  assumes "distinct ks" "\<And>j k. m j = m k \<Longrightarrow> m j \<noteq> None \<Longrightarrow> j = k"
  shows "distinct (range_values m ks)"
proof -
  have "v \<in> set (range_values m xs) \<longleftrightarrow> (\<exists>k \<in> set xs. m k = Some v)" for v xs
    by (induction xs) (auto split: option.splits)
  then show ?thesis using assms
    by (induction ks) (auto split: option.splits, metis option.distinct(1))
qed

text \<open>Reading a missing key of a Go map gives the zero value of its element type.\<close>

definition go_get :: "'v \<Rightarrow> ('k \<rightharpoonup> 'v) \<Rightarrow> 'k \<Rightarrow> 'v" where
  "go_get z m k = (case m k of None \<Rightarrow> z | Some v \<Rightarrow> v)"

lemma go_get_simps [simp]:
  "m k = None \<Longrightarrow> go_get z m k = z"
  "m k = Some v \<Longrightarrow> go_get z m k = v"
  by (simp_all add: go_get_def)

lemma go_get_upd [simp]: "go_get z (m(k \<mapsto> v)) j = (if j = k then v else go_get z m j)"
  by (simp add: go_get_def)

section \<open>Buffered channels\<close>

text \<open>
  A channel with buffer capacity \<open>ch_cap\<close>. The source only sends with \<^verbatim>\<open>select\<close> and a
  \<^verbatim>\<open>default\<close> branch, so a send succeeds, finds the buffer full, or panics on a closed
  channel; closing a closed channel panics. A receive drains the buffer first, then reports
  that the channel is closed, and otherwise would block.
\<close>

record 'a chan =
  ch_buf :: "'a list"
  ch_cap :: nat
  ch_closed :: bool

definition make_chan :: "nat \<Rightarrow> 'a chan" where
  "make_chan n = \<lparr>ch_buf = [], ch_cap = n, ch_closed = False\<rparr>"

datatype 'a send_outcome = Sent "'a chan" | Send_full | Send_panic

definition try_send :: "'a \<Rightarrow> 'a chan \<Rightarrow> 'a send_outcome" where
  "try_send x c =
     (if ch_closed c then Send_panic
      else if length (ch_buf c) < ch_cap c then Sent (c\<lparr>ch_buf := ch_buf c @ [x]\<rparr>)
      else Send_full)"

datatype 'a recv_outcome = Received 'a "'a chan" | Recv_closed | Recv_empty

definition try_recv :: "'a chan \<Rightarrow> 'a recv_outcome" where
  "try_recv c =
     (case ch_buf c of
        x # xs \<Rightarrow> Received x (c\<lparr>ch_buf := xs\<rparr>)
      | [] \<Rightarrow> if ch_closed c then Recv_closed else Recv_empty)"

definition close_chan :: "'a chan \<Rightarrow> 'a chan option" where
  "close_chan c = (if ch_closed c then None else Some (c\<lparr>ch_closed := True\<rparr>))"

text \<open>A send whose \<^verbatim>\<open>default\<close> branch drops the value.\<close>

definition offer :: "'a \<Rightarrow> 'a chan \<Rightarrow> 'a chan" where
  "offer x c = (case try_send x c of Sent c' \<Rightarrow> c' | _ \<Rightarrow> c)"

definition chan_ok :: "'a chan \<Rightarrow> bool" where
  "chan_ok c \<longleftrightarrow> length (ch_buf c) \<le> ch_cap c"

lemmas chan_defs = make_chan_def try_send_def try_recv_def close_chan_def offer_def chan_ok_def
declare chan_defs [go_defs]

lemma make_chan_simps [simp]:
  "ch_buf (make_chan n) = []" "ch_cap (make_chan n) = n" "ch_closed (make_chan n) = False"
  by (simp_all add: make_chan_def)

lemma chan_ok_make [simp]: "chan_ok (make_chan n)"
  by (simp add: chan_ok_def)

lemma chan_ok_offer [inv_step]: "chan_ok c \<Longrightarrow> chan_ok (offer x c)"
  by (auto simp: go_defs)

lemma chan_ok_try_send: "try_send x c = Sent c' \<Longrightarrow> chan_ok c'"
  by (auto simp: go_defs split: if_splits)

lemma try_send_Sent_iff:
  "try_send x c = Sent c' \<longleftrightarrow>
     \<not> ch_closed c \<and> length (ch_buf c) < ch_cap c \<and> c' = c\<lparr>ch_buf := ch_buf c @ [x]\<rparr>"
  by (auto simp: try_send_def)

lemma try_send_panic_iff: "try_send x c = Send_panic \<longleftrightarrow> ch_closed c"
  by (simp add: try_send_def)

lemma try_send_full_iff:
  "try_send x c = Send_full \<longleftrightarrow> \<not> ch_closed c \<and> ch_cap c \<le> length (ch_buf c)"
  by (simp add: try_send_def)

lemma offer_frame [simp]: "ch_cap (offer x c) = ch_cap c" "ch_closed (offer x c) = ch_closed c"
  by (simp_all add: offer_def try_send_def)

lemma offer_buf:
  "\<not> ch_closed c \<Longrightarrow>
     ch_buf (offer x c) = (if length (ch_buf c) < ch_cap c then ch_buf c @ [x] else ch_buf c)"
  by (simp add: offer_def try_send_def)

section \<open>Strings and bytes\<close>

text \<open>\<^verbatim>\<open>[]byte(s)\<close> and \<^verbatim>\<open>string(b)\<close>; Go strings are byte sequences, as HOL's characters are bytes.\<close>

definition bytes_of_string :: "string \<Rightarrow> bytes" where
  "bytes_of_string s = map (\<lambda>c. of_nat (of_char c)) s"

definition string_of_bytes :: "bytes \<Rightarrow> string" where
  "string_of_bytes b = map (\<lambda>w. char_of (unat w)) b"

lemma unat_of_char_u8: "unat (of_nat (of_char c) :: u8) = of_char c"
  by (simp only: unat_of_nat) simp

lemma string_of_bytes_of_string [simp]: "string_of_bytes (bytes_of_string s) = s"
  by (induction s) (simp_all add: string_of_bytes_def bytes_of_string_def unat_of_char_u8)

text \<open>\<^verbatim>\<open>%d\<close> of a non-negative number, and reading decimal digits back.\<close>

fun decimal :: "nat \<Rightarrow> string" where
  "decimal n = (if n < 10 then [char_of (48 + n)] else decimal (n div 10) @ [char_of (48 + n mod 10)])"

declare decimal.simps [simp del]

text \<open>\<^verbatim>\<open>%d\<close> of a signed number.\<close>

definition int_text :: "int \<Rightarrow> string" where
  "int_text i = (if i < 0 then CHR ''-'' # decimal (nat (- i)) else decimal (nat i))"

definition is_digit :: "char \<Rightarrow> bool" where
  "is_digit c \<longleftrightarrow> 48 \<le> (of_char c :: nat) \<and> (of_char c :: nat) \<le> 57"

fun digits_value :: "nat \<Rightarrow> string \<Rightarrow> nat" where
  "digits_value acc [] = acc"
| "digits_value acc (c # cs) = digits_value (acc * 10 + (of_char c - 48)) cs"

lemma digits_value_append: "digits_value acc (xs @ ys) = digits_value (digits_value acc xs) ys"
  by (induction xs arbitrary: acc) simp_all

lemma decimal_nonempty [simp]: "decimal n \<noteq> []"
  by (subst decimal.simps) simp

lemma decimal_digits: "c \<in> set (decimal n) \<Longrightarrow> is_digit c"
proof (induction n rule: decimal.induct)
  case (1 n)
  have small: "is_digit (char_of (48 + d))" if "d < 10" for d :: nat
    using that by (simp add: is_digit_def)
  show ?case
    using "1.prems" "1.IH" small [of n] small [of "n mod 10"]
    by (subst (asm) decimal.simps) (auto split: if_splits)
qed

lemma digits_value_decimal [simp]: "digits_value 0 (decimal n) = n"
proof (induction n rule: decimal.induct)
  case (1 n)
  then show ?case
    by (subst decimal.simps) (simp add: digits_value_append)
qed

lemma decimal_inject [simp]: "decimal m = decimal n \<longleftrightarrow> m = n"
  using digits_value_decimal by metis

lemma int_text_inject [simp]: "int_text i = int_text j \<longleftrightarrow> i = j"
proof -
  have "decimal n \<noteq> CHR ''-'' # s" for n s
    using decimal_digits [of "CHR ''-''" n] by (auto simp: is_digit_def)
  then show ?thesis by (auto simp: int_text_def) (metis nat_int_comparison(1))+
qed

section \<open>Tables with unique keys\<close>

text \<open>
  Several components keep a map that refuses to overwrite: adding a key that is present is
  an error and changes nothing, removing a key that is absent is an error and changes
  nothing. \<open>look\<close> is the table a client sees, \<open>ok\<close> the component's own invariant.
  \<open>add\<close> and \<open>del\<close> return \<open>None\<close> where the component returns an error.
\<close>

locale unique_table =
  fixes look :: "'s \<Rightarrow> 'k \<Rightarrow> 'v option"
    and add :: "'k \<Rightarrow> 'v \<Rightarrow> 's \<Rightarrow> 's option"
    and del :: "'k \<Rightarrow> 's \<Rightarrow> 's option"
    and ok :: "'s \<Rightarrow> bool"
    and may :: "'k \<Rightarrow> 'v \<Rightarrow> bool"
  assumes add_taken: "ok s \<Longrightarrow> look s k \<noteq> None \<Longrightarrow> add k v s = None"
    and add_fresh: "ok s \<Longrightarrow> may k v \<Longrightarrow> look s k = None \<Longrightarrow>
          \<exists>s'. add k v s = Some s' \<and> ok s' \<and> look s' = (look s)(k \<mapsto> v)"
    and del_absent: "ok s \<Longrightarrow> look s k = None \<Longrightarrow> del k s = None"
    and del_present: "ok s \<Longrightarrow> look s k \<noteq> None \<Longrightarrow>
          \<exists>s'. del k s = Some s' \<and> ok s' \<and> look s' = (look s)(k := None)"
begin

lemma add_Some_look:
  assumes "ok s" "may k v" "add k v s = Some s'"
  shows "ok s'" and "look s' = (look s)(k \<mapsto> v)" and "look s k = None"
proof -
  show none: "look s k = None"
    using assms(1,3) add_taken by fastforce
  from add_fresh [OF assms(1,2) none] assms(3)
  show "ok s'" and "look s' = (look s)(k \<mapsto> v)" by auto
qed

lemma del_Some_look:
  assumes "ok s" "del k s = Some s'"
  shows "ok s'" and "look s' = (look s)(k := None)" and "look s k \<noteq> None"
proof -
  show some: "look s k \<noteq> None"
    using assms del_absent by fastforce
  from del_present [OF assms(1) some] assms(2)
  show "ok s'" and "look s' = (look s)(k := None)" by auto
qed

lemma add_then_add:
  assumes "ok s" "may k v" "add k v s = Some s'"
  shows "add k w s' = None"
  by (rule add_taken) (simp_all add: add_Some_look(1,2) [OF assms])

lemma add_then_del:
  assumes "ok s" "may k v" "add k v s = Some s'"
  obtains s'' where "del k s' = Some s''" "ok s''" "look s'' = look s"
proof -
  note a = add_Some_look [OF assms]
  have "look s' k \<noteq> None" by (simp add: a(2))
  from del_present [OF a(1) this] obtain s'' where
    d: "del k s' = Some s''" "ok s''" "look s'' = (look s')(k := None)" by blast
  have "look s'' = look s" unfolding d(3) a(2) by (simp add: a(3) fun_upd_idem)
  with d(1,2) show ?thesis by (rule that)
qed

text \<open>A history of additions and removals, an error leaving the table as it was.\<close>

fun apply_ops :: "('k \<times> 'v option) list \<Rightarrow> 's \<Rightarrow> 's" where
  "apply_ops [] s = s"
| "apply_ops ((k, Some v) # ops) s = apply_ops ops (case add k v s of None \<Rightarrow> s | Some s' \<Rightarrow> s')"
| "apply_ops ((k, None) # ops) s = apply_ops ops (case del k s of None \<Rightarrow> s | Some s' \<Rightarrow> s')"

text \<open>What the history means on the abstract map: first writer wins until removal.\<close>

fun spec_ops :: "('k \<times> 'v option) list \<Rightarrow> ('k \<rightharpoonup> 'v) \<Rightarrow> ('k \<rightharpoonup> 'v)" where
  "spec_ops [] m = m"
| "spec_ops ((k, Some v) # ops) m = spec_ops ops (if m k = None then m(k \<mapsto> v) else m)"
| "spec_ops ((k, None) # ops) m = spec_ops ops (m(k := None))"

theorem apply_ops_refines:
  assumes "ok s" and "\<And>k v. (k, Some v) \<in> set ops \<Longrightarrow> may k v"
  shows "ok (apply_ops ops s) \<and> look (apply_ops ops s) = spec_ops ops (look s)"
  using assms
proof (induction ops arbitrary: s)
  case Nil
  then show ?case by simp
next
  case (Cons op ops)
  have step: ?case
    if "ok t" "look t = m" "apply_ops (op # ops) s = apply_ops ops t"
      "spec_ops (op # ops) (look s) = spec_ops ops m" for t m
    using Cons.IH [OF that(1)] Cons.prems(2) that by simp
  obtain k x where op: "op = (k, x)" by force
  show ?case
  proof (cases x)
    case (Some v)
    have may: "may k v" using Cons.prems(2) op Some by simp
    show ?thesis
    proof (cases "look s k")
      case None
      from add_fresh [OF Cons.prems(1) may None] obtain t where
        "add k v s = Some t" "ok t" "look t = (look s)(k \<mapsto> v)" by blast
      then show ?thesis using op Some None by (intro step [of t]) auto
    next
      case (Some w)
      with add_taken [OF Cons.prems(1)] have "add k v s = None" by auto
      then show ?thesis using op \<open>x = Some v\<close> Some Cons.prems(1) by (intro step [of s]) auto
    qed
  next
    case None
    show ?thesis
    proof (cases "look s k")
      case None
      with del_absent [OF Cons.prems(1)] have "del k s = None" by auto
      moreover from None have "(look s)(k := None) = look s" by (simp add: fun_upd_idem)
      ultimately show ?thesis
        using op \<open>x = None\<close> Cons.prems(1) by (intro step [of s]) auto
    next
      case (Some w)
      with del_present [OF Cons.prems(1)] obtain t where
        "del k s = Some t" "ok t" "look t = (look s)(k := None)" by blast
      then show ?thesis using op None by (intro step [of t]) auto
    qed
  qed
qed

end

section \<open>Tables that overwrite\<close>

text \<open>
  Other components keep a map in which a write replaces what was there and a removal never
  fails, as Go's maps and \<^verbatim>\<open>sync.Map\<close> do.
\<close>

locale store =
  fixes look :: "'s \<Rightarrow> 'k \<Rightarrow> 'v option"
    and put :: "'k \<Rightarrow> 'v \<Rightarrow> 's \<Rightarrow> 's"
    and del :: "'k \<Rightarrow> 's \<Rightarrow> 's"
  assumes look_put: "look (put k v s) = (look s)(k \<mapsto> v)"
    and look_del: "look (del k s) = (look s)(k := None)"
begin

lemma put_put [simp]: "look (put k v (put k w s)) = look (put k v s)"
  by (simp add: look_put)

lemma put_del [simp]: "look (put k v (del k s)) = look (put k v s)"
  by (simp add: look_put look_del)

lemma del_put: "look s k = None \<Longrightarrow> look (del k (put k v s)) = look s"
  by (auto simp: look_put look_del)

lemma put_other: "j \<noteq> k \<Longrightarrow> look (put k v s) j = look s j \<and> look (del k s) j = look s j"
  by (simp add: look_put look_del)

end

text \<open>A store that can be emptied, and what its users do to it.\<close>

datatype ('k, 'v) kv_write = Put 'k 'v | Del 'k | Reset

fun touches :: "'k \<Rightarrow> ('k, 'v) kv_write \<Rightarrow> bool" where
  "touches k (Put j v) \<longleftrightarrow> j = k"
| "touches k (Del j) \<longleftrightarrow> j = k"
| "touches k Reset \<longleftrightarrow> True"

fun value_written :: "('k, 'v) kv_write \<Rightarrow> 'v option" where
  "value_written (Put k v) = Some v"
| "value_written _ = None"

locale resettable_store = store +
  fixes reset :: "'a \<Rightarrow> 'a"
  assumes look_reset: "look (reset s) = Map.empty"
begin

fun apply_write :: "('b, 'c) kv_write \<Rightarrow> 'a \<Rightarrow> 'a" where
  "apply_write (Put k v) s = put k v s"
| "apply_write (Del k) s = del k s"
| "apply_write Reset s = reset s"

text \<open>After a history a key has what was written to it last.\<close>

lemma last_write:
  "look (foldl (\<lambda>s op. apply_write op s) s ops) k =
     (case find (touches k) (rev ops) of None \<Rightarrow> look s k | Some op \<Rightarrow> value_written op)"
proof (induction ops rule: rev_induct)
  case (snoc op ops)
  then show ?case by (cases op) (auto simp: look_put look_del look_reset)
qed simp

end

end
