(* ===== verification/Byte_Codec.thy ===== *)
theory Byte_Codec
  imports Sngo_Prelude
begin

text \<open>
  Big-endian integers, as \<^verbatim>\<open>encoding/binary\<close> writes and reads them: \<open>be_digits n k\<close> are the
  \<open>n\<close> low bytes of \<open>k\<close>, most significant first, and \<open>be_value\<close> reads them back. The
  network message codec and the game protocol both use them.
\<close>

fun be_digits :: "nat \<Rightarrow> nat \<Rightarrow> bytes" where
  "be_digits 0 k = []"
| "be_digits (Suc n) k = be_digits n (k div 256) @ [of_nat (k mod 256)]"

definition be_value :: "bytes \<Rightarrow> nat" where
  "be_value bs = foldl (\<lambda>acc b. acc * 256 + unat b) 0 bs"

lemma length_be_digits [simp]: "length (be_digits n k) = n"
  by (induction n arbitrary: k) simp_all

lemma be_value_snoc [simp]: "be_value (bs @ [b]) = be_value bs * 256 + unat b"
  by (simp add: be_value_def)

lemma be_value_Nil [simp]: "be_value [] = 0"
  by (simp add: be_value_def)

lemma be_value_digits: "be_value (be_digits n k) = k mod 256 ^ n"
proof (induction n arbitrary: k)
  case (Suc n)
  have "unat (of_nat (k mod 256) :: u8) = k mod 256" by (simp only: unat_of_nat) simp
  then show ?case using Suc [of "k div 256"] by (simp add: mod_mult2_eq mult.commute)
qed simp

lemma be_value_less: "be_value bs < 256 ^ length bs"
proof (induction bs rule: rev_induct)
  case (snoc b bs)
  have "unat b < 256" using unsigned_less [of b, where ?'a = nat] by simp
  with snoc show ?case by simp
qed simp

lemma be_digits_value: "be_digits (length bs) (be_value bs) = bs"
proof (induction bs rule: rev_induct)
  case (snoc b bs)
  have b: "unat b < 256" using unsigned_less [of b, where ?'a = nat] by simp
  have "(be_value bs * 256 + unat b) div 256 = be_value bs" "(be_value bs * 256 + unat b) mod 256 = unat b"
    using b by simp_all
  with snoc show ?case by simp
qed simp

section \<open>The fixed widths\<close>

definition PutUint16 :: "u16 \<Rightarrow> bytes" where "PutUint16 v = be_digits 2 (unat v)"
definition PutUint32 :: "u32 \<Rightarrow> bytes" where "PutUint32 v = be_digits 4 (unat v)"
definition PutUint64 :: "u64 \<Rightarrow> bytes" where "PutUint64 v = be_digits 8 (unat v)"
definition Uint16 :: "bytes \<Rightarrow> u16" where "Uint16 b = of_nat (be_value b)"
definition Uint32 :: "bytes \<Rightarrow> u32" where "Uint32 b = of_nat (be_value b)"
definition Uint64 :: "bytes \<Rightarrow> u64" where "Uint64 b = of_nat (be_value b)"

lemmas uint_defs = PutUint16_def PutUint32_def PutUint64_def Uint16_def Uint32_def Uint64_def

lemma length_PutUint [simp]:
  "length (PutUint16 a) = 2" "length (PutUint32 b) = 4" "length (PutUint64 c) = 8"
  by (simp_all add: uint_defs)

lemma Uint_Put [simp]:
  "Uint16 (PutUint16 a) = a" "Uint32 (PutUint32 b) = b" "Uint64 (PutUint64 c) = c"
  using unsigned_less [of a, where ?'a = nat] unsigned_less [of b, where ?'a = nat] unsigned_less [of c, where ?'a = nat]
  by (simp_all add: uint_defs be_value_digits)

lemma Put_Uint:
  "length x = 2 \<Longrightarrow> PutUint16 (Uint16 x) = x" "length y = 4 \<Longrightarrow> PutUint32 (Uint32 y) = y"
  "length z = 8 \<Longrightarrow> PutUint64 (Uint64 z) = z"
proof -
  show "PutUint16 (Uint16 x) = x" if "length x = 2"
    using be_value_less [of x] be_digits_value [of x] that
    by (simp only: uint_defs unat_of_nat) simp
  show "PutUint32 (Uint32 y) = y" if "length y = 4"
    using be_value_less [of y] be_digits_value [of y] that
    by (simp only: uint_defs unat_of_nat) simp
  show "PutUint64 (Uint64 z) = z" if "length z = 8"
    using be_value_less [of z] be_digits_value [of z] that
    by (simp only: uint_defs unat_of_nat) simp
qed

text \<open>\<^verbatim>\<open>b[i:j]\<close>, for \<open>i \<le> j \<le> len(b)\<close>.\<close>

definition slice :: "nat \<Rightarrow> nat \<Rightarrow> 'a list \<Rightarrow> 'a list" where
  "slice i j b = take (j - i) (drop i b)"

lemma length_slice: "i \<le> j \<Longrightarrow> j \<le> length b \<Longrightarrow> length (slice i j b) = j - i"
  by (simp add: slice_def)

lemma slice_join: "i \<le> j \<Longrightarrow> j \<le> k \<Longrightarrow> slice i j b @ slice j k b = slice i k b"
  using take_add [of "j - i" "k - j" "drop i b"] by (simp add: slice_def)

lemma slice_join_more: "i \<le> j \<Longrightarrow> j \<le> k \<Longrightarrow> slice i j b @ slice j k b @ r = slice i k b @ r"
  by (simp flip: append_assoc add: slice_join)

lemma slice_0: "slice 0 j b = take j b"
  by (simp add: slice_def)

lemma slice_skip: "length a \<le> i \<Longrightarrow> slice i j (a @ b) = slice (i - length a) (j - length a) b"
  by (simp add: slice_def)

lemma slice_front: "i = 0 \<Longrightarrow> j = length a \<Longrightarrow> slice i j (a @ b) = a"
  by (simp add: slice_def)

end
