(* ===== verification/Protocol.thy ===== *)
theory Protocol
  imports Byte_Codec
begin

unbundle bit_operations_syntax

text \<open>
  \<^verbatim>\<open>protocol/protocol.go\<close>: the schemas, the framed binary protocol and the package header. The
  text that \<^verbatim>\<open>encoding/json\<close> writes for a \<^verbatim>\<open>Package\<close> is defined here; its general encoder and
  decoder are arguments, \<open>marshal\<close> and \<open>unmarshal\<close>. A struct seen through \<^verbatim>\<open>reflect\<close> is the list
  of its fields. The orders in which maps are ranged over are arguments.
\<close>

section \<open>Schemas\<close>

record FieldSchema =
  fs_Tag :: int
  fs_Type :: string

record MessageSchema =
  ms_Name :: string
  ms_Type :: int
  ms_Request :: "(string \<rightharpoonup> FieldSchema) option"
  ms_Response :: "(string \<rightharpoonup> FieldSchema) option"

record SimpleProtocol =
  c2sSchema :: "string \<rightharpoonup> MessageSchema"
  s2cSchema :: "string \<rightharpoonup> MessageSchema"

record Package =
  pkg_Type :: int
  pkg_Session :: u32

datatype ProtocolError =
    DecodePackage string
  | UnknownMessageType int
  | NotAStruct
  | MarshalFailed string
  | UnmarshalFailed string
  | DataTooShort
  | IncompleteData
  | InvalidMessageFormat

definition NewSimpleProtocol :: SimpleProtocol where
  "NewSimpleProtocol = \<lparr>c2sSchema = Map.empty, s2cSchema = Map.empty\<rparr>"

definition RegisterC2S ::
  "string \<Rightarrow> int \<Rightarrow> (string \<rightharpoonup> FieldSchema) option \<Rightarrow> (string \<rightharpoonup> FieldSchema) option \<Rightarrow> SimpleProtocol \<Rightarrow> SimpleProtocol" where
  "RegisterC2S name msgType request response sp =
     sp\<lparr>c2sSchema := (c2sSchema sp)(name \<mapsto>
       \<lparr>ms_Name = name, ms_Type = msgType, ms_Request = request, ms_Response = response\<rparr>)\<rparr>"

definition RegisterS2C ::
  "string \<Rightarrow> int \<Rightarrow> (string \<rightharpoonup> FieldSchema) option \<Rightarrow> (string \<rightharpoonup> FieldSchema) option \<Rightarrow> SimpleProtocol \<Rightarrow> SimpleProtocol" where
  "RegisterS2C name msgType request response sp =
     sp\<lparr>s2cSchema := (s2cSchema sp)(name \<mapsto>
       \<lparr>ms_Name = name, ms_Type = msgType, ms_Request = request, ms_Response = response\<rparr>)\<rparr>"

fun find_type :: "(string \<rightharpoonup> MessageSchema) \<Rightarrow> int \<Rightarrow> string list \<Rightarrow> string option" where
  "find_type schemas t [] = None"
| "find_type schemas t (name # names) =
     (case schemas name of
        Some schema \<Rightarrow> if ms_Type schema = t then Some name else find_type schemas t names
      | None \<Rightarrow> find_type schemas t names)"

definition GetMessageType ::
  "(bytes \<Rightarrow> string + Package) \<Rightarrow> string list \<Rightarrow> string list \<Rightarrow> bytes \<Rightarrow> SimpleProtocol \<Rightarrow> ProtocolError + string" where
  "GetMessageType unmarshal cs ss data sp =
     (case unmarshal data of
        Inl err \<Rightarrow> Inl (DecodePackage err)
      | Inr pkg \<Rightarrow>
          (case find_type (c2sSchema sp) (pkg_Type pkg) cs of
             Some name \<Rightarrow> Inr name
           | None \<Rightarrow>
               (case find_type (s2cSchema sp) (pkg_Type pkg) ss of
                  Some name \<Rightarrow> Inr name
                | None \<Rightarrow> Inl (UnknownMessageType (pkg_Type pkg)))))"

definition GetSession :: "(bytes \<Rightarrow> string + Package) \<Rightarrow> bytes \<Rightarrow> ProtocolError + u32" where
  "GetSession unmarshal data =
     (case unmarshal data of Inl err \<Rightarrow> Inl (DecodePackage err) | Inr pkg \<Rightarrow> Inr (pkg_Session pkg))"

definition DefaultProtocol :: SimpleProtocol where
  "DefaultProtocol =
     RegisterS2C ''heartbeat'' 1 None None
     (RegisterC2S ''quit'' 4 None None
     (RegisterC2S ''set'' 3
        (Some [''what'' \<mapsto> \<lparr>fs_Tag = 0, fs_Type = ''string''\<rparr>, ''value'' \<mapsto> \<lparr>fs_Tag = 1, fs_Type = ''string''\<rparr>]) None
     (RegisterC2S ''get'' 2
        (Some [''what'' \<mapsto> \<lparr>fs_Tag = 0, fs_Type = ''string''\<rparr>])
        (Some [''result'' \<mapsto> \<lparr>fs_Tag = 0, fs_Type = ''string''\<rparr>])
     (RegisterC2S ''handshake'' 1 None (Some [''msg'' \<mapsto> \<lparr>fs_Tag = 0, fs_Type = ''string''\<rparr>])
     NewSimpleProtocol))))"

section \<open>The framed binary protocol\<close>

text \<open>A value handed to \<^verbatim>\<open>Encode\<close>: a struct, possibly behind one pointer, or something else.\<close>

record 'v struct_field =
  sf_Name :: string
  sf_Tag :: string
  sf_Exported :: bool
  sf_Value :: 'v

datatype 'v go_value = Struct_value "'v struct_field list" | Ptr_value "'v go_value" | Other_value

definition field_key :: "'v struct_field \<Rightarrow> string" where
  "field_key f =
     (if sf_Tag f \<noteq> []
      then if CHR '','' \<in> set (sf_Tag f) then takeWhile (\<lambda>c. c \<noteq> CHR '','') (sf_Tag f) else sf_Tag f
      else sf_Name f)"

fun fields_to_map :: "'v struct_field list \<Rightarrow> (string \<rightharpoonup> 'v) \<Rightarrow> (string \<rightharpoonup> 'v)" where
  "fields_to_map [] result = result"
| "fields_to_map (f # fs) result =
     (if \<not> sf_Exported f then fields_to_map fs result
      else fields_to_map fs (result(field_key f \<mapsto> sf_Value f)))"

definition structToMap :: "'v go_value \<Rightarrow> ProtocolError + (string \<rightharpoonup> 'v)" where
  "structToMap obj =
     (let v = (case obj of Ptr_value w \<Rightarrow> w | w \<Rightarrow> w)
      in case v of Struct_value fs \<Rightarrow> Inr (fields_to_map fs Map.empty) | _ \<Rightarrow> Inl NotAStruct)"

definition bp_Encode :: "((string \<rightharpoonup> 'v) \<Rightarrow> string + bytes) \<Rightarrow> 'v go_value \<Rightarrow> ProtocolError + bytes" where
  "bp_Encode marshal msg =
     (case structToMap msg of
        Inl err \<Rightarrow> Inl err
      | Inr msgMap \<Rightarrow>
          (case marshal msgMap of
             Inl err \<Rightarrow> Inl (MarshalFailed err)
           | Inr jsonData \<Rightarrow>
               let len = (of_nat (length jsonData) :: u16)
               in Inr ([ucast (drop_bit 8 len), ucast (len AND 0xFF)] @ jsonData)))"

text \<open>The slice \<^verbatim>\<open>data[2 : 2+length]\<close> is taken with 16-bit arithmetic and panics when it wraps.\<close>

datatype 'm decoded = Decoded 'm | Decode_error ProtocolError | Decode_panic

definition bp_Decode :: "(bytes \<Rightarrow> string + 'm) \<Rightarrow> bytes \<Rightarrow> 'm decoded" where
  "bp_Decode unmarshal data =
     (if length data < 2 then Decode_error DataTooShort
      else
        let len = push_bit 8 (ucast (data ! 0) :: u16) OR ucast (data ! 1)
        in if length data < unat len + 2 then Decode_error IncompleteData
           else if unat (2 + len) < 2 then Decode_panic
           else case unmarshal (slice 2 (unat (2 + len)) data) of
                  Inl err \<Rightarrow> Decode_error (UnmarshalFailed err)
                | Inr m \<Rightarrow> Decoded m)"

section \<open>Package headers\<close>

definition int_decimal :: "int \<Rightarrow> string" where
  "int_decimal i = (if i < 0 then CHR ''-'' # decimal (nat (- i)) else decimal (nat i))"

text \<open>What \<^verbatim>\<open>json.Marshal\<close> writes for a \<^verbatim>\<open>Package\<close>: the keys are those of its tags.\<close>

definition marshal_package :: "Package \<Rightarrow> bytes" where
  "marshal_package pkg =
     bytes_of_string (''{'' @ [CHR 0x22] @ ''type'' @ [CHR 0x22] @ '':'' @ int_decimal (pkg_Type pkg) @ '','' @
       [CHR 0x22] @ ''session'' @ [CHR 0x22] @ '':'' @ decimal (unat (pkg_Session pkg)) @ ''}'')"

definition PackMessage :: "int \<Rightarrow> u32 \<Rightarrow> bytes \<Rightarrow> bytes" where
  "PackMessage msgType session data =
     marshal_package \<lparr>pkg_Type = msgType, pkg_Session = session\<rparr> @ data"

text \<open>The bytes the scanner looks for: backslash, quote and the braces.\<close>

fun scan_json :: "bytes \<Rightarrow> nat \<Rightarrow> int \<Rightarrow> bool \<Rightarrow> bool \<Rightarrow> int" where
  "scan_json [] i braceCount inString escape = -1"
| "scan_json (b # bs) i braceCount inString escape =
     (if escape then scan_json bs (i + 1) braceCount inString False
      else if b = 0x5C then scan_json bs (i + 1) braceCount inString True
      else if b = 0x22 then scan_json bs (i + 1) braceCount (\<not> inString) False
      else if inString then scan_json bs (i + 1) braceCount inString False
      else if b = 0x7B then scan_json bs (i + 1) (braceCount + 1) inString False
      else if b = 0x7D then
        (if braceCount - 1 = 0 then int (i + 1) else scan_json bs (i + 1) (braceCount - 1) inString False)
      else scan_json bs (i + 1) braceCount inString False)"

definition findJSONEnd :: "bytes \<Rightarrow> int" where
  "findJSONEnd data = scan_json data 0 0 False False"

definition UnpackMessage :: "(bytes \<Rightarrow> string + Package) \<Rightarrow> bytes \<Rightarrow> ProtocolError + int \<times> u32 \<times> bytes" where
  "UnpackMessage unmarshal data =
     (let headerEnd = findJSONEnd data
      in if headerEnd = -1 then Inl InvalidMessageFormat
         else case unmarshal (take (nat headerEnd) data) of
                Inl err \<Rightarrow> Inl (DecodePackage err)
              | Inr pkg \<Rightarrow> Inr (pkg_Type pkg, pkg_Session pkg, drop (nat headerEnd) data))"

section \<open>Lemmas\<close>

lemma find_type_sound: "find_type S t ns = Some n \<Longrightarrow> n \<in> set ns \<and> (\<exists>s. S n = Some s \<and> ms_Type s = t)"
  by (induction ns) (auto split: option.splits if_splits)

lemma find_type_None: "find_type S t ns = None \<longleftrightarrow> (\<forall>n \<in> set ns. \<forall>s. S n = Some s \<longrightarrow> ms_Type s \<noteq> t)"
  by (induction ns) (auto split: option.splits)

lemma scan_plain:
  "\<forall>b \<in> set xs. b \<notin> {0x5C, 0x22, 0x7B, 0x7D} \<Longrightarrow>
   scan_json (xs @ ys) i c False False = scan_json ys (i + length xs) c False False"
  by (induction xs arbitrary: i) auto

lemma scan_quoted:
  "\<forall>b \<in> set xs. b \<notin> {0x5C, 0x22} \<Longrightarrow>
   scan_json (0x22 # xs @ 0x22 # ys) i c False False = scan_json ys (i + length xs + 2) c False False"
proof -
  assume a: "\<forall>b \<in> set xs. b \<notin> {0x5C, 0x22}"
  then have "scan_json (xs @ zs) i c True False = scan_json zs (i + length xs) c True False" for zs i
    by (induction xs arbitrary: i) auto
  then show ?thesis by simp
qed

lemma number_bytes_plain:
  "b \<in> set (bytes_of_string (decimal n)) \<Longrightarrow> b \<notin> {0x5C, 0x22, 0x7B, 0x7D}"
  "b \<in> set (bytes_of_string (int_decimal i)) \<Longrightarrow> b \<notin> {0x5C, 0x22, 0x7B, 0x7D}"
proof -
  have digit: "b \<notin> {0x5C, 0x22, 0x7B, 0x7D}" if "b \<in> set (bytes_of_string (decimal n))" for b n
  proof -
    from that obtain c where "is_digit c" and b: "b = of_nat (of_char c)"
      using decimal_digits by (auto simp: bytes_of_string_def)
    then have "unat b = of_char c" "48 \<le> (of_char c :: nat)" "(of_char c :: nat) \<le> 57"
      by (simp_all add: is_digit_def unat_of_char_u8)
    then show ?thesis by auto
  qed
  then show "b \<in> set (bytes_of_string (decimal n)) \<Longrightarrow> b \<notin> {0x5C, 0x22, 0x7B, 0x7D}" by blast
  show "b \<in> set (bytes_of_string (int_decimal i)) \<Longrightarrow> b \<notin> {0x5C, 0x22, 0x7B, 0x7D}"
  proof (cases "i < 0")
    case True
    assume "b \<in> set (bytes_of_string (int_decimal i))"
    then have "b = 0x2D \<or> b \<in> set (bytes_of_string (decimal (nat (- i))))"
      using True by (simp add: int_decimal_def bytes_of_string_def)
    then show ?thesis using digit by auto
  next
    case False
    assume "b \<in> set (bytes_of_string (int_decimal i))"
    then show ?thesis using False digit by (simp add: int_decimal_def)
  qed
qed

lemma bytes_of_string_append [simp]: "bytes_of_string (s @ t) = bytes_of_string s @ bytes_of_string t"
  by (simp add: bytes_of_string_def)

text \<open>The header as bytes: a brace, two quoted keys with their numbers, a brace.\<close>

lemma marshal_package_bytes:
  "marshal_package p =
     0x7B # 0x22 # [0x74, 0x79, 0x70, 0x65] @ 0x22 # [0x3A] @ bytes_of_string (int_decimal (pkg_Type p)) @ [0x2C] @
     0x22 # [0x73, 0x65, 0x73, 0x73, 0x69, 0x6F, 0x6E] @ 0x22 # [0x3A] @
     bytes_of_string (decimal (unat (pkg_Session p))) @ [0x7D]"
proof -
  have lits: "bytes_of_string ''{'' = [0x7B]" "bytes_of_string [CHR 0x22] = [0x22]" "bytes_of_string ''type'' = [0x74, 0x79, 0x70, 0x65]"
    "bytes_of_string '':'' = [0x3A]" "bytes_of_string '','' = [0x2C]" "bytes_of_string ''}'' = [0x7D]"
    "bytes_of_string ''session'' = [0x73, 0x65, 0x73, 0x73, 0x69, 0x6F, 0x6E]"
    by (simp_all add: bytes_of_string_def)
  show ?thesis unfolding marshal_package_def bytes_of_string_append lits by simp
qed

lemma findJSONEnd_package: "findJSONEnd (marshal_package p @ data) = int (length (marshal_package p))"
proof -
  let ?a = "bytes_of_string (int_decimal (pkg_Type p))" and ?b = "bytes_of_string (decimal (unat (pkg_Session p)))"
  have q: "scan_json (0x22 # xs @ 0x22 # ys) i c False False = scan_json ys (i + length xs + 2) c False False"
    if "\<forall>b \<in> set xs. b \<notin> {0x5C, 0x22}" for xs ys i c by (rule scan_quoted [OF that])
  have a: "scan_json (?a @ ys) i c False False = scan_json ys (i + length ?a) c False False" for ys i c
    by (rule scan_plain) (use number_bytes_plain in blast)
  have b: "scan_json (?b @ ys) i c False False = scan_json ys (i + length ?b) c False False" for ys i c
    by (rule scan_plain) (use number_bytes_plain in blast)
  have "scan_json (marshal_package p @ data) 0 0 False False =
      scan_json (?a @ [0x2C] @ 0x22 # [0x73, 0x65, 0x73, 0x73, 0x69, 0x6F, 0x6E] @ 0x22 # [0x3A] @ ?b @ [0x7D] @ data)
        (Suc (Suc (Suc (Suc (Suc (Suc (Suc (Suc 0)))))))) 1 False False"
    by (simp add: marshal_package_bytes)
  also have "\<dots> = scan_json (?b @ [0x7D] @ data)
      (Suc (Suc (Suc (Suc (Suc (Suc (Suc (Suc (Suc (Suc (Suc (Suc (Suc (Suc (Suc (Suc (Suc (Suc (Suc (length ?a))))))))))))))))))))
      1 False False"
    unfolding a by simp
  also have "\<dots> = int (8 + length ?a + 11 + length ?b + 1)"
    unfolding b by simp
  finally show ?thesis by (simp add: findJSONEnd_def marshal_package_bytes)
qed

lemma frame_length:
  fixes n :: nat
  defines "len \<equiv> (of_nat n :: u16)"
  shows "push_bit 8 (ucast (ucast (drop_bit 8 len) :: u8) :: u16) OR ucast (ucast (len AND 0xFF) :: u8) = len"
proof (rule bit_word_eqI)
  fix k assume k: "k < LENGTH(16)"
  have "(0xFF :: u16) = mask 8" by (simp add: mask_eq_exp_minus_1)
  then have "bit (0xFF :: u16) k \<longleftrightarrow> k < 8" using k by (simp only: bit_mask_iff) simp
  with k
  show "bit (push_bit 8 (ucast (ucast (drop_bit 8 len) :: u8) :: u16) OR ucast (ucast (len AND 0xFF) :: u8)) k = bit len k"
    by (auto simp: bit_simps le_add_diff_inverse)
qed

lemma GetMessageType_sound:
  assumes "range_order (c2sSchema sp) cs" and "range_order (s2cSchema sp) ss" and "unmarshal data = Inr pkg"
  shows "GetMessageType unmarshal cs ss data sp = Inr n \<Longrightarrow>
           \<exists>s. (c2sSchema sp n = Some s \<or> s2cSchema sp n = Some s) \<and> ms_Type s = pkg_Type pkg"
    and "(\<exists>m s. (c2sSchema sp m = Some s \<or> s2cSchema sp m = Some s) \<and> ms_Type s = pkg_Type pkg) \<Longrightarrow>
           \<exists>n. GetMessageType unmarshal cs ss data sp = Inr n"
    and "c2sSchema sp m = Some s \<Longrightarrow> ms_Type s = pkg_Type pkg \<Longrightarrow>
           GetMessageType unmarshal cs ss data sp = Inr n \<Longrightarrow> \<exists>s. c2sSchema sp n = Some s \<and> ms_Type s = pkg_Type pkg"
proof -
  have c: "set cs = dom (c2sSchema sp)" and s: "set ss = dom (s2cSchema sp)"
    using assms by (simp_all add: range_order_def)
  show "GetMessageType unmarshal cs ss data sp = Inr n \<Longrightarrow>
           \<exists>s. (c2sSchema sp n = Some s \<or> s2cSchema sp n = Some s) \<and> ms_Type s = pkg_Type pkg"
    using assms(3) by (auto simp: GetMessageType_def split: option.splits dest!: find_type_sound)
  show "\<exists>n. GetMessageType unmarshal cs ss data sp = Inr n"
    if "\<exists>m s. (c2sSchema sp m = Some s \<or> s2cSchema sp m = Some s) \<and> ms_Type s = pkg_Type pkg"
    using assms(3) that c s unfolding GetMessageType_def
    by (auto split: option.splits simp: find_type_None domI)
  show "\<exists>s. c2sSchema sp n = Some s \<and> ms_Type s = pkg_Type pkg"
    if "c2sSchema sp m = Some s" "ms_Type s = pkg_Type pkg" "GetMessageType unmarshal cs ss data sp = Inr n"
  proof -
    have "find_type (c2sSchema sp) (pkg_Type pkg) cs \<noteq> None"
      using that(1,2) c by (auto simp: find_type_None domI)
    then show ?thesis
      using assms(3) that(3) by (auto simp: GetMessageType_def split: option.splits dest!: find_type_sound)
  qed
qed

definition default_types :: "(int \<times> string) set" where
  "default_types = {(1, ''handshake''), (2, ''get''), (3, ''set''), (4, ''quit'')}"

lemma default_schemas:
  "(\<exists>s. c2sSchema DefaultProtocol n = Some s \<and> ms_Type s = t) \<longleftrightarrow> (t, n) \<in> default_types"
  "s2cSchema DefaultProtocol n = Some s \<Longrightarrow> ms_Type s = 1"
  by (auto simp: DefaultProtocol_def RegisterC2S_def RegisterS2C_def NewSimpleProtocol_def default_types_def
      split: if_splits)

lemma default_message_types:
  assumes "range_order (c2sSchema DefaultProtocol) cs" and "range_order (s2cSchema DefaultProtocol) ss"
    and "unmarshal data = Inr pkg"
  shows "GetMessageType unmarshal cs ss data DefaultProtocol = Inr n \<longleftrightarrow> (pkg_Type pkg, n) \<in> default_types"
proof -
  note found = GetMessageType_sound [where unmarshal = unmarshal and data = data, OF assms]
  have one: "(1, ''handshake'') \<in> default_types" by (simp add: default_types_def)
  have c2s: "(pkg_Type pkg, k) \<in> default_types"
    if "(pkg_Type pkg, m) \<in> default_types" "GetMessageType unmarshal cs ss data DefaultProtocol = Inr k" for m k
    using that found(3) unfolding default_schemas(1) [symmetric] by blast
  have fwd: "(pkg_Type pkg, k) \<in> default_types" if g: "GetMessageType unmarshal cs ss data DefaultProtocol = Inr k" for k
  proof -
    obtain s where s: "c2sSchema DefaultProtocol k = Some s \<or> s2cSchema DefaultProtocol k = Some s"
      "ms_Type s = pkg_Type pkg" using found(1) [OF g] by blast
    then have "\<exists>m. (pkg_Type pkg, m) \<in> default_types"
      using one default_schemas(2) [of k s] unfolding default_schemas(1) [symmetric] by metis
    with c2s g show ?thesis by blast
  qed
  have "GetMessageType unmarshal cs ss data DefaultProtocol = Inr n" if n: "(pkg_Type pkg, n) \<in> default_types"
  proof -
    obtain k where k: "GetMessageType unmarshal cs ss data DefaultProtocol = Inr k"
      using found(2) n unfolding default_schemas(1) [symmetric] by blast
    with fwd n have "k = n" by (auto simp: default_types_def)
    with k show ?thesis by simp
  qed
  with fwd show ?thesis by blast
qed

lemma frame_wrap: "n < 65536 \<Longrightarrow> (2 + n) mod 65536 < 2 \<longleftrightarrow> 65534 \<le> (n :: nat)"
proof (cases "n < 65534")
  case False
  assume "n < 65536"
  with False have "n = 65534 \<or> n = 65535" by linarith
  then show ?thesis by auto
qed simp

section \<open>Properties\<close>

text \<open>
  Property C23. A packed message unpacks to its type, its session and its data, whatever bytes the
  data are, provided the JSON decoder reads back the header the encoder wrote: the scanner
  finds exactly the end of the header.
\<close>

theorem pack_unpack:
  assumes "unmarshal (marshal_package \<lparr>pkg_Type = t, pkg_Session = s\<rparr>) = Inr \<lparr>pkg_Type = t, pkg_Session = s\<rparr>"
  shows "UnpackMessage unmarshal (PackMessage t s data) = Inr (t, s, data)"
  using assms by (simp add: UnpackMessage_def PackMessage_def findJSONEnd_package Let_def)

theorem pack_unpack_witness:
  "UnpackMessage (\<lambda>_. Inr \<lparr>pkg_Type = - 3, pkg_Session = 7\<rparr>) (PackMessage (- 3) 7 [0x7D, 0x22]) = Inr (- 3, 7, [0x7D, 0x22])"
  by (rule pack_unpack) simp

text \<open>
  Property C26. The binary frame, exactly: JSON of fewer than 65534 bytes is read back whole,
  whatever follows it. The 16-bit length does not hold more: of longer JSON only the length
  modulo 65536 is announced and read back, and when that is 65534 or 65535 the decoder panics,
  because the end of its slice wraps around.
\<close>

theorem binary_frame_exact:
  assumes "structToMap msg = Inr fm" and "marshal fm = Inr json"
  shows "\<exists>frame. bp_Encode marshal msg = Inr frame \<and>
     bp_Decode unmarshal (frame @ rest) =
       (if length json mod 65536 \<ge> 65534 then Decode_panic
        else case unmarshal (take (length json mod 65536) json) of
               Inl err \<Rightarrow> Decode_error (UnmarshalFailed err)
             | Inr m \<Rightarrow> Decoded m)"
proof -
  let ?len = "of_nat (length json) :: u16" and ?n = "length json mod 65536"
  define frame where "frame = [ucast (drop_bit 8 ?len), ucast (?len AND 0xFF)] @ json"
  have enc: "bp_Encode marshal msg = Inr frame" by (simp add: bp_Encode_def assms frame_def Let_def)
  have len: "unat ?len = ?n" by (simp add: unat_of_nat)
  have field: "push_bit 8 (ucast ((frame @ rest) ! 0) :: u16) OR ucast ((frame @ rest) ! 1) = ?len"
    using frame_length [of "length json"] by (simp add: frame_def)
  have frame_size: "length (frame @ rest) = 2 + length json + length rest" by (simp add: frame_def)
  have enough: "\<not> length (frame @ rest) < 2" "\<not> length (frame @ rest) < ?n + 2"
    using mod_less_eq_dividend [of "length json" 65536] frame_size by linarith+
  have "unat (2 + ?len) = (unat (2 :: u16) + unat ?len) mod 2 ^ LENGTH(16)" by (rule unat_word_ariths(1))
  then have wrap: "unat (2 + ?len) = (2 + ?n) mod 65536" unfolding len by simp
  have "unat (2 + ?len) < 2 \<longleftrightarrow> ?n \<ge> 65534" unfolding wrap by (rule frame_wrap) simp
  moreover have "slice 2 (unat (2 + ?len)) (frame @ rest) = take ?n json" if "?n < 65534"
    using that unfolding wrap by (simp add: frame_def slice_def)
  ultimately have "bp_Decode unmarshal (frame @ rest) =
       (if ?n \<ge> 65534 then Decode_panic
        else case unmarshal (take ?n json) of
               Inl err \<Rightarrow> Decode_error (UnmarshalFailed err) | Inr m \<Rightarrow> Decoded m)"
    unfolding bp_Decode_def Let_def field len using enough by auto
  with enc show ?thesis by blast
qed

theorem binary_frame_exact_witness:
  "\<exists>frame. bp_Encode (\<lambda>m. Inr [7, 8, 9]) (Struct_value []) = Inr frame \<and>
     bp_Decode (\<lambda>b. Inr b) (frame @ [5]) = Decoded [7, 8, 9]"
  using binary_frame_exact [of "Struct_value []" Map.empty "\<lambda>m. Inr [7, 8, 9]" "[7, 8, 9]" "\<lambda>b. Inr b" "[5]"]
  by (simp add: structToMap_def)

text \<open>
  The type of a package names its schema: for every order of iteration a type some
  schema has is resolved to a schema of that type, client schemas taking precedence, and other
  types are refused. In the default protocol the types 1 to 4 are \<^verbatim>\<open>handshake\<close>, \<^verbatim>\<open>get\<close>, \<^verbatim>\<open>set\<close>
  and \<^verbatim>\<open>quit\<close>, so that \<^verbatim>\<open>heartbeat\<close>, registered under the type of \<^verbatim>\<open>handshake\<close>, is never found.
\<close>

theorem message_type_lookup:
  assumes "range_order (c2sSchema sp) cs" and "range_order (s2cSchema sp) ss" and "unmarshal data = Inr pkg"
  shows "((\<exists>n. GetMessageType unmarshal cs ss data sp = Inr n) \<longleftrightarrow>
            (\<exists>m s. (c2sSchema sp m = Some s \<or> s2cSchema sp m = Some s) \<and> ms_Type s = pkg_Type pkg)) \<and>
         (sp = DefaultProtocol \<longrightarrow>
            (\<forall>n. GetMessageType unmarshal cs ss data sp = Inr n \<longleftrightarrow>
               (pkg_Type pkg, n) \<in> {(1, ''handshake''), (2, ''get''), (3, ''set''), (4, ''quit'')}))"
proof -
  have "(\<exists>n. GetMessageType unmarshal cs ss data sp = Inr n) \<longleftrightarrow>
      (\<exists>m s. (c2sSchema sp m = Some s \<or> s2cSchema sp m = Some s) \<and> ms_Type s = pkg_Type pkg)"
    using GetMessageType_sound(1,2) [where unmarshal = unmarshal and data = data, OF assms] by blast
  moreover have "GetMessageType unmarshal cs ss data sp = Inr n \<longleftrightarrow> (pkg_Type pkg, n) \<in> default_types"
    if "sp = DefaultProtocol" for n
    using default_message_types assms that by blast
  ultimately show ?thesis by (simp add: default_types_def)
qed

theorem message_type_lookup_witness:
  "GetMessageType (\<lambda>_. Inr \<lparr>pkg_Type = 1, pkg_Session = 0\<rparr>) [''quit'', ''handshake'', ''get'', ''set''] [''heartbeat''] []
     DefaultProtocol = Inr ''handshake''"
proof -
  have "range_order (c2sSchema DefaultProtocol) [''quit'', ''handshake'', ''get'', ''set'']"
    "range_order (s2cSchema DefaultProtocol) [''heartbeat'']"
    by (auto simp: range_order_def DefaultProtocol_def RegisterC2S_def RegisterS2C_def NewSimpleProtocol_def)
  from message_type_lookup [OF this, where unmarshal = "\<lambda>_. Inr \<lparr>pkg_Type = 1, pkg_Session = 0\<rparr>" and data = "[]"] show ?thesis by simp
qed

end
