(* ===== verification/Go_Strings.thy ===== *)
theory Go_Strings
  imports Sngo_Prelude
begin

text \<open>
  The functions of Go's \<^verbatim>\<open>strings\<close>, \<^verbatim>\<open>strconv\<close> and \<^verbatim>\<open>path/filepath\<close> packages that the login
  server, the message server, the configuration loader, the application and the examples use, with their
  laws. A Go string is its byte sequence.
\<close>

section \<open>Splitting and trimming\<close>

text \<open>\<^verbatim>\<open>strings.Split(s, sep)\<close> for a one-byte separator.\<close>

fun Split :: "char \<Rightarrow> string \<Rightarrow> string list" where
  "Split c [] = [[]]"
| "Split c (x # xs) =
     (if x = c then [] # Split c xs
      else case Split c xs of p # ps \<Rightarrow> (x # p) # ps | [] \<Rightarrow> [[x]])"

lemma Split_plain [simp]: "c \<notin> set a \<Longrightarrow> Split c a = [a]"
  by (induction a) auto

lemma Split_append [simp]: "c \<notin> set a \<Longrightarrow> Split c (a @ c # rest) = a # Split c rest"
  by (induction a) auto

lemma Split_parts: "p \<in> set (Split c s) \<Longrightarrow> c \<notin> set p"
  by (induction s arbitrary: p) (auto split: list.splits if_splits)

text \<open>
  \<^verbatim>\<open>strings.TrimSpace\<close> removes leading and trailing white space: the ASCII spaces, and the
  UTF-8 encodings of the other characters with Unicode's White Space property.
\<close>

definition space_codes :: "string list" where
  "space_codes =
     [[CHR 0x09], [CHR 0x0A], [CHR 0x0B], [CHR 0x0C], [CHR 0x0D], [CHR 0x20]] @
     map (map (char_of :: nat \<Rightarrow> char))
       ([[0xC2, 0x85], [0xC2, 0xA0], [0xE1, 0x9A, 0x80]] @ map (\<lambda>k. [0xE2, 0x80, 0x80 + k]) [0..<11] @
        [[0xE2, 0x80, 0xA8], [0xE2, 0x80, 0xA9], [0xE2, 0x80, 0xAF], [0xE2, 0x81, 0x9F], [0xE3, 0x80, 0x80]])"

definition starts_with :: "string \<Rightarrow> string \<Rightarrow> bool" where
  "starts_with p s \<longleftrightarrow> take (length p) s = p"

lemma space_codes_nonempty: "p \<in> set space_codes \<Longrightarrow> p \<noteq> []"
  by (auto simp: space_codes_def)

function strip_codes :: "string list \<Rightarrow> string \<Rightarrow> string" where
  "strip_codes ps s =
     (case find (\<lambda>p. p \<noteq> [] \<and> starts_with p s) ps of None \<Rightarrow> s | Some p \<Rightarrow> strip_codes ps (drop (length p) s))"
  by pat_completeness auto
termination
proof (relation "measure (\<lambda>(ps, s). length s)", goal_cases)
  case (2 ps s p)
  then have "p \<noteq> []" "take (length p) s = p" by (auto simp: find_Some_iff starts_with_def)
  then have "0 < length p" "length p \<le> length s" by (auto dest: arg_cong [of _ _ length])
  then have "length s - length p < length s" by linarith
  then show ?case by simp
qed simp

declare strip_codes.simps [simp del]

definition TrimSpace :: "string \<Rightarrow> string" where
  "TrimSpace s = rev (strip_codes (map rev space_codes) (rev (strip_codes space_codes s)))"

text \<open>A printable character is neither a space nor the first or last byte of one.\<close>

definition printable :: "char \<Rightarrow> bool" where
  "printable c \<longleftrightarrow> (32 :: nat) < of_char c \<and> of_char c < (128 :: nat)"

lemma space_codes_ends: "p \<in> set space_codes \<Longrightarrow> \<not> printable (hd p) \<and> \<not> printable (last p)"
proof -
  have "list_all (\<lambda>p. \<not> printable (hd p) \<and> \<not> printable (last p)) space_codes"
    by (simp add: space_codes_def printable_def list_all_iff)
  then show "p \<in> set space_codes \<Longrightarrow> \<not> printable (hd p) \<and> \<not> printable (last p)" by (simp add: list_all_iff)
qed

lemma no_space_starts:
  assumes "printable c" and "p \<in> set space_codes"
  shows "\<not> starts_with p (c # s)" and "\<not> starts_with (rev p) (c # s)"
proof -
  have "p \<noteq> []" using assms(2) by (rule space_codes_nonempty)
  then obtain x q where p: "p = x # q" by (cases p) auto
  from \<open>p \<noteq> []\<close> obtain y r where r: "rev p = y # r" "y = last p" by (cases "rev p") (auto simp: hd_rev [symmetric])
  show "\<not> starts_with p (c # s)" "\<not> starts_with (rev p) (c # s)"
    using space_codes_ends [OF assms(2)] assms(1) p r by (auto simp: starts_with_def)
qed

lemma strip_front:
  assumes "printable c"
  shows "strip_codes space_codes (c # s) = c # s" and "strip_codes (map rev space_codes) (c # s) = c # s"
proof -
  have "find (\<lambda>p. p \<noteq> [] \<and> starts_with p (c # s)) space_codes = None"
    "find (\<lambda>p. p \<noteq> [] \<and> starts_with p (c # s)) (map rev space_codes) = None"
    using no_space_starts [OF assms] by (auto simp: find_None_iff)
  then show "strip_codes space_codes (c # s) = c # s" "strip_codes (map rev space_codes) (c # s) = c # s"
    by (simp_all add: strip_codes.simps [of _ "c # s"])
qed

lemma strip_Nil [simp]: "strip_codes ps [] = []"
proof -
  have "find (\<lambda>p. p \<noteq> [] \<and> starts_with p []) ps = None" by (auto simp: find_None_iff starts_with_def)
  then show ?thesis by (simp add: strip_codes.simps [of _ "[]"])
qed

lemma strip_newline: "strip_codes (map rev space_codes) (CHR 0x0A # s) = strip_codes (map rev space_codes) s"
proof -
  have "find (\<lambda>p. p \<noteq> [] \<and> starts_with p (CHR 0x0A # s)) (map rev space_codes) = Some [CHR 0x0A]"
    by (simp add: space_codes_def starts_with_def)
  then show ?thesis by (simp add: strip_codes.simps [of _ "CHR 0x0A # s"])
qed

text \<open>A line of printable ends loses exactly its line break.\<close>

lemma TrimSpace_line:
  assumes "s = [] \<or> printable (hd s) \<and> printable (last s)"
  shows "TrimSpace (s @ [CHR 0x0A]) = s" and "TrimSpace s = s"
proof -
  have "TrimSpace (s @ [CHR 0x0A]) = s \<and> TrimSpace s = s"
  proof (cases s)
    case Nil
    have "find (\<lambda>p. p \<noteq> [] \<and> starts_with p [CHR 0x0A]) space_codes = Some [CHR 0x0A]"
      by (simp add: space_codes_def starts_with_def)
    then show ?thesis using Nil by (simp add: TrimSpace_def strip_codes.simps [of _ "[CHR 0x0A]"])
  next
    case (Cons c t)
    then obtain y r where r: "rev s = y # r" "y = last s" by (cases "rev s") (auto simp: hd_rev [symmetric])
    have front: "strip_codes space_codes (s @ w) = s @ w" for w
      using assms Cons strip_front(1) [of c "t @ w"] by simp
    have rear: "strip_codes (map rev space_codes) (rev s) = rev s"
      using assms Cons r strip_front(2) [of y r] by simp
    show ?thesis using front [of "[]"] front [of "[CHR 0x0A]"] rear by (simp add: TrimSpace_def strip_newline)
  qed
  then show "TrimSpace (s @ [CHR 0x0A]) = s" and "TrimSpace s = s" by auto
qed

section \<open>Numbers\<close>

text \<open>\<^verbatim>\<open>strconv.ParseUint(s, 10, 32)\<close> and \<^verbatim>\<open>strconv.Atoi\<close> on a 64-bit platform.\<close>

definition ParseUint32 :: "string \<Rightarrow> nat option" where
  "ParseUint32 s =
     (if s \<noteq> [] \<and> list_all is_digit s \<and> digits_value 0 s < 2 ^ 32 then Some (digits_value 0 s) else None)"

lemma ParseUint32_decimal [simp]: "n < 2 ^ 32 \<Longrightarrow> ParseUint32 (decimal n) = Some n"
  using decimal_digits by (simp add: ParseUint32_def list_all_iff)

definition Atoi :: "string \<Rightarrow> int option" where
  "Atoi s =
     (let (neg, ds) = (case s of [] \<Rightarrow> (False, []) | c # cs \<Rightarrow>
                         if c = CHR ''-'' then (True, cs) else if c = CHR ''+'' then (False, cs) else (False, s));
          v = (if neg then - int (digits_value 0 ds) else int (digits_value 0 ds))
      in if ds \<noteq> [] \<and> list_all is_digit ds \<and> - (2 ^ 63) \<le> v \<and> v < 2 ^ 63 then Some v else None)"

lemma decimal_hd: "\<exists>c cs. decimal n = c # cs \<and> is_digit c"
  using decimal_digits [of _ n] by (cases "decimal n") auto

lemma Atoi_decimal [simp]: "n < 2 ^ 63 \<Longrightarrow> Atoi (decimal n) = Some (int n)"
proof -
  assume n: "n < 2 ^ 63"
  obtain c cs where d: "decimal n = c # cs" "is_digit c" using decimal_hd by blast
  then have "c \<noteq> CHR ''-''" "c \<noteq> CHR ''+''" by (auto simp: is_digit_def)
  moreover have "list_all is_digit (c # cs)" using decimal_digits [of _ n] d by (auto simp: list_all_iff)
  moreover have "digits_value 0 (c # cs) = n" using digits_value_decimal [of n] d by simp
  ultimately show ?thesis using n d by (simp add: Atoi_def)
qed

lemma digit_printable: "is_digit c \<Longrightarrow> printable c"
  by (simp add: is_digit_def printable_def)

section \<open>Names of files\<close>

text \<open>
  \<^verbatim>\<open>strings.ToLower\<close> on ASCII letters. The code compares its results with \<^verbatim>\<open>true\<close>, \<^verbatim>\<open>.yaml\<close>,
  \<^verbatim>\<open>.yml\<close> and \<^verbatim>\<open>.json\<close> only, to whose letters no other character is lowered.
\<close>

definition ToLower :: "string \<Rightarrow> string" where
  "ToLower s = map (\<lambda>c. if 65 \<le> (of_char c :: nat) \<and> (of_char c :: nat) \<le> 90 then char_of ((of_char c :: nat) + 32) else c) s"

text \<open>\<^verbatim>\<open>filepath.Ext\<close>: from the last dot of the last element, empty without one.\<close>

definition Ext :: "string \<Rightarrow> string" where
  "Ext path =
     (let elem = takeWhile (\<lambda>c. c \<noteq> CHR ''/'') (rev path)
      in if CHR ''.'' \<in> set elem then CHR ''.'' # rev (takeWhile (\<lambda>c. c \<noteq> CHR ''.'') elem) else [])"

section \<open>ASCII\<close>

definition ascii :: "string \<Rightarrow> bool" where
  "ascii s \<longleftrightarrow> (\<forall>c\<in>set s. (of_char c :: nat) < 128)"

lemma ascii_simps [simp]:
  "ascii []" "ascii (c # s) \<longleftrightarrow> (of_char c :: nat) < 128 \<and> ascii s" "ascii (s @ t) \<longleftrightarrow> ascii s \<and> ascii t"
  by (auto simp: ascii_def)

lemma ascii_decimal [simp]: "ascii (decimal n)"
  using decimal_digits by (fastforce simp: ascii_def is_digit_def)

lemma ascii_int_text [simp]: "ascii (int_text i)"
  by (simp add: int_text_def)

section \<open>Words and letters\<close>

text \<open>
  \<^verbatim>\<open>strings.ToUpper\<close>; what it does to texts that are not ASCII, by the tables of Unicode, is the
  argument \<open>upper\<close>.
\<close>

definition ToUpper :: "(string \<Rightarrow> string) \<Rightarrow> string \<Rightarrow> string" where
  "ToUpper upper s =
     (if ascii s
      then map (\<lambda>c. if 97 \<le> (of_char c :: nat) \<and> (of_char c :: nat) \<le> 122 then char_of ((of_char c :: nat) - 32) else c) s
      else upper s)"

text \<open>\<^verbatim>\<open>strings.Fields\<close>: the words between white space.\<close>

fun word :: "string \<Rightarrow> string \<times> string" where
  "word [] = ([], [])"
| "word (c # s) =
     (if list_ex (\<lambda>p. starts_with p (c # s)) space_codes then ([], c # s)
      else case word s of (w, r) \<Rightarrow> (c # w, r))"

lemma word_length: "word s = (w, r) \<Longrightarrow> length s = length w + length r"
  by (induction s arbitrary: w r) (auto split: if_splits prod.splits)

lemma strip_codes_length: "length (strip_codes ps s) \<le> length s"
  by (induction ps s rule: strip_codes.induct)
    (subst strip_codes.simps, fastforce split: option.splits)

lemma word_nonempty: "word (strip_codes space_codes s) = ([], r) \<Longrightarrow> strip_codes space_codes s = []"
proof (induction space_codes s rule: strip_codes.induct)
  case (1 s)
  show ?case
  proof (cases "find (\<lambda>p. p \<noteq> [] \<and> starts_with p s) space_codes")
    case None
    then have same: "strip_codes space_codes s = s" by (subst strip_codes.simps) simp
    have "\<not> list_ex (\<lambda>p. starts_with p s) space_codes"
      using None space_codes_nonempty by (auto simp: find_None_iff list_ex_iff)
    then show ?thesis using "1.prems" same by (cases s) (auto split: prod.splits)
  next
    case (Some p)
    then have "strip_codes space_codes s = strip_codes space_codes (drop (length p) s)"
      by (subst strip_codes.simps) simp
    then show ?thesis using "1.hyps" [OF Some] "1.prems" by simp
  qed
qed

function Fields :: "string \<Rightarrow> string list" where
  "Fields s = (case word (strip_codes space_codes s) of (w, r) \<Rightarrow> if w = [] then [] else w # Fields r)"
  by pat_completeness auto
termination
proof (relation "measure length", goal_cases)
  case (2 s w r)
  then have "length (strip_codes space_codes s) = length w + length r" using word_length by metis
  moreover have "length (strip_codes space_codes s) \<le> length s" by (rule strip_codes_length)
  moreover have "0 < length w" using 2 by simp
  ultimately show ?case by (simp del: length_greater_0_conv)
qed simp

declare Fields.simps [simp del]

definition HasPrefix :: "string \<Rightarrow> string \<Rightarrow> bool" where
  "HasPrefix s p \<longleftrightarrow> length p \<le> length s \<and> take (length p) s = p"

definition HasSuffix :: "string \<Rightarrow> string \<Rightarrow> bool" where
  "HasSuffix s p \<longleftrightarrow> length p \<le> length s \<and> drop (length s - length p) s = p"

end
