(* ===== verification/Config.thy ===== *)
theory Config
  imports Go_Strings
begin

text \<open>
  \<^verbatim>\<open>config/types.go\<close>, \<^verbatim>\<open>config/errors.go\<close> and \<^verbatim>\<open>config/loader.go\<close>. A configuration is a record per
  struct. Its \<^verbatim>\<open>Custom\<close> map is shared by the copies that \<^verbatim>\<open>mergeConfig\<close> makes, so it is an
  address into a heap of maps; the other maps are only replaced, and are values (\<open>None\<close> is
  nil). The environment, the file system, the join of paths and the YAML and JSON decoders
  are arguments.
\<close>

section \<open>Types\<close>

type_synonym Environment = string

definition EnvDevelopment :: Environment where "EnvDevelopment = ''development''"
definition EnvTesting :: Environment where "EnvTesting = ''testing''"
definition EnvStaging :: Environment where "EnvStaging = ''staging''"
definition EnvProduction :: Environment where "EnvProduction = ''production''"

definition Environment_IsValid :: "Environment \<Rightarrow> bool" where
  "Environment_IsValid e \<longleftrightarrow> e \<in> {EnvDevelopment, EnvTesting, EnvStaging, EnvProduction}"

type_synonym LogLevel = string

definition LogLevelTrace :: LogLevel where "LogLevelTrace = ''trace''"
definition LogLevelDebug :: LogLevel where "LogLevelDebug = ''debug''"
definition LogLevelInfo :: LogLevel where "LogLevelInfo = ''info''"
definition LogLevelWarn :: LogLevel where "LogLevelWarn = ''warn''"
definition LogLevelError :: LogLevel where "LogLevelError = ''error''"
definition LogLevelFatal :: LogLevel where "LogLevelFatal = ''fatal''"

definition LogLevel_IsValid :: "LogLevel \<Rightarrow> bool" where
  "LogLevel_IsValid l \<longleftrightarrow>
     l \<in> {LogLevelTrace, LogLevelDebug, LogLevelInfo, LogLevelWarn, LogLevelError, LogLevelFatal}"

record AppConfig =
  app_Name :: string
  app_Version :: string
  app_Environment :: Environment
  app_Debug :: bool
  app_Description :: string
  app_Metadata :: "(string \<rightharpoonup> string) option"

record LogRotationConfig =
  rot_Enabled :: bool
  rot_MaxSize :: int
  rot_MaxBackups :: int
  rot_MaxAge :: int
  rot_Compress :: bool

record 'v LogConfig =
  log_Level :: LogLevel
  log_Format :: string
  log_Output :: string
  log_Color :: bool
  log_Rotation :: LogRotationConfig
  log_Fields :: "(string \<rightharpoonup> 'v) option"

record TCPConfig =
  tcp_Address :: string
  tcp_Port :: int
  tcp_KeepAlive :: bool
  tcp_KeepAliveInterval :: Duration
  tcp_BufferSize :: int

record UDPConfig =
  udp_Address :: string
  udp_Port :: int
  udp_BufferSize :: int

record ConnectionLimits =
  lim_MaxConnections :: int
  lim_MaxConnectionsPerIP :: int
  lim_RateLimit :: int

record TimeoutConfig =
  tmo_Read :: Duration
  tmo_Write :: Duration
  tmo_Idle :: Duration
  tmo_Handshake :: Duration

record NetworkConfig =
  net_TCP :: TCPConfig
  net_UDP :: UDPConfig
  net_Limits :: ConnectionLimits
  net_Timeouts :: TimeoutConfig

record ActorTimeoutConfig =
  atc_Creation :: Duration
  atc_Shutdown :: Duration
  atc_MessageSend :: Duration
  atc_Call :: Duration

record RoutingConfig =
  rtc_Strategy :: string
  rtc_Persistence :: bool
  rtc_MessageTTL :: Duration

record ActorConfig =
  act_MaxActors :: int
  act_DefaultMailboxSize :: int
  act_Timeouts :: ActorTimeoutConfig
  act_Routing :: RoutingConfig

record ServiceRegistrationConfig =
  reg_Name :: string
  reg_Version :: string
  reg_Tags :: "string list"
  reg_Metadata :: "(string \<rightharpoonup> string) option"
  reg_TTL :: Duration

record HealthCheckConfig =
  hcc_Enabled :: bool
  hcc_Interval :: Duration
  hcc_Timeout :: Duration
  hcc_Endpoint :: string

record CircuitBreakerConfig =
  cbc_Enabled :: bool
  cbc_FailureThreshold :: int
  cbc_SuccessThreshold :: int
  cbc_Timeout :: Duration

record LoadBalancingConfig =
  lbc_Strategy :: string
  lbc_HealthCheck :: bool
  lbc_CircuitBreaker :: CircuitBreakerConfig

record DiscoveryConfig =
  dis_Enabled :: bool
  dis_Type :: string
  dis_Registration :: ServiceRegistrationConfig
  dis_HealthCheck :: HealthCheckConfig
  dis_LoadBalancing :: LoadBalancingConfig

record HTTPMonitorConfig =
  htm_Enabled :: bool
  htm_Address :: string
  htm_Port :: int
  htm_MetricsPath :: string
  htm_HealthPath :: string

record ProfilingConfig =
  prf_Enabled :: bool
  prf_CPU :: bool
  prf_Memory :: bool
  prf_Block :: bool
  prf_Mutex :: bool

record MonitorConfig =
  mon_Enabled :: bool
  mon_MetricsInterval :: Duration
  mon_HTTP :: HTTPMonitorConfig
  mon_Profiling :: ProfilingConfig

record 'v Config =
  cfg_App :: AppConfig
  cfg_Log :: "'v LogConfig"
  cfg_Network :: NetworkConfig
  cfg_Actor :: ActorConfig
  cfg_Discovery :: DiscoveryConfig
  cfg_Monitor :: MonitorConfig
  cfg_Custom :: "nat option"

abbreviation Minute :: Duration where "Minute \<equiv> 60 * Second"

text \<open>\<^verbatim>\<open>DefaultConfig\<close>; \<open>custom\<close> is the address of the empty map it makes.\<close>

definition DefaultConfig :: "nat \<Rightarrow> 'v Config" where
  "DefaultConfig custom =
     \<lparr>cfg_App = \<lparr>app_Name = ''sngo-app'', app_Version = ''1.0.0'', app_Environment = EnvDevelopment, app_Debug = True,
                 app_Description = ''SNGO application'', app_Metadata = None\<rparr>,
      cfg_Log = \<lparr>log_Level = LogLevelInfo, log_Format = ''text'', log_Output = ''stdout'', log_Color = True,
                 log_Rotation = \<lparr>rot_Enabled = False, rot_MaxSize = 100, rot_MaxBackups = 3, rot_MaxAge = 7,
                                 rot_Compress = True\<rparr>, log_Fields = None\<rparr>,
      cfg_Network = \<lparr>net_TCP = \<lparr>tcp_Address = ''0.0.0.0'', tcp_Port = 8080, tcp_KeepAlive = True,
                                tcp_KeepAliveInterval = 60 * Second, tcp_BufferSize = 4096\<rparr>,
                     net_UDP = \<lparr>udp_Address = ''0.0.0.0'', udp_Port = 8081, udp_BufferSize = 4096\<rparr>,
                     net_Limits = \<lparr>lim_MaxConnections = 1000, lim_MaxConnectionsPerIP = 100, lim_RateLimit = 100\<rparr>,
                     net_Timeouts = \<lparr>tmo_Read = 30 * Second, tmo_Write = 30 * Second, tmo_Idle = 5 * Minute,
                                     tmo_Handshake = 10 * Second\<rparr>\<rparr>,
      cfg_Actor = \<lparr>act_MaxActors = 10000, act_DefaultMailboxSize = 1000,
                   act_Timeouts = \<lparr>atc_Creation = 5 * Second, atc_Shutdown = 10 * Second, atc_MessageSend = 1 * Second,
                                   atc_Call = 30 * Second\<rparr>,
                   act_Routing = \<lparr>rtc_Strategy = ''direct'', rtc_Persistence = False, rtc_MessageTTL = 5 * Minute\<rparr>\<rparr>,
      cfg_Discovery = \<lparr>dis_Enabled = True, dis_Type = ''local'',
                       dis_Registration = \<lparr>reg_Name = ''sngo-service'', reg_Version = ''1.0.0'', reg_Tags = [],
                                           reg_Metadata = None, reg_TTL = 30 * Second\<rparr>,
                       dis_HealthCheck = \<lparr>hcc_Enabled = True, hcc_Interval = 10 * Second, hcc_Timeout = 5 * Second,
                                          hcc_Endpoint = []\<rparr>,
                       dis_LoadBalancing = \<lparr>lbc_Strategy = ''round_robin'', lbc_HealthCheck = True,
                                            lbc_CircuitBreaker = \<lparr>cbc_Enabled = False, cbc_FailureThreshold = 5,
                                              cbc_SuccessThreshold = 3, cbc_Timeout = 60 * Second\<rparr>\<rparr>\<rparr>,
      cfg_Monitor = \<lparr>mon_Enabled = True, mon_MetricsInterval = 10 * Second,
                     mon_HTTP = \<lparr>htm_Enabled = True, htm_Address = ''0.0.0.0'', htm_Port = 9090,
                                 htm_MetricsPath = ''/metrics'', htm_HealthPath = ''/health''\<rparr>,
                     mon_Profiling = \<lparr>prf_Enabled = False, prf_CPU = False, prf_Memory = False, prf_Block = False,
                                      prf_Mutex = False\<rparr>\<rparr>,
      cfg_Custom = Some custom\<rparr>"

datatype ConfigError =
    ErrInvalidAppName | ErrInvalidEnvironment | ErrInvalidLogLevel | ErrInvalidPort | ErrInvalidMaxConnections
  | ErrInvalidMaxActors | ErrInvalidMailboxSize | ErrConfigFileNotFound
  | UnsupportedFileFormat string | UnsupportedFormat string | ReadFileError string | ParseError string

text \<open>The checks of \<^verbatim>\<open>Validate\<close>, in order; \<open>None\<close> is success.\<close>

definition Validate :: "'v Config \<Rightarrow> ConfigError option" where
  "Validate c =
     (if app_Name (cfg_App c) = [] then Some ErrInvalidAppName
      else if \<not> Environment_IsValid (app_Environment (cfg_App c)) then Some ErrInvalidEnvironment
      else if \<not> LogLevel_IsValid (log_Level (cfg_Log c)) then Some ErrInvalidLogLevel
      else if tcp_Port (net_TCP (cfg_Network c)) \<le> 0 \<or> tcp_Port (net_TCP (cfg_Network c)) > 65535 then Some ErrInvalidPort
      else if lim_MaxConnections (net_Limits (cfg_Network c)) \<le> 0 then Some ErrInvalidMaxConnections
      else if act_MaxActors (cfg_Actor c) \<le> 0 then Some ErrInvalidMaxActors
      else if act_DefaultMailboxSize (cfg_Actor c) \<le> 0 then Some ErrInvalidMailboxSize
      else None)"

definition IsDevelopment :: "'v Config \<Rightarrow> bool" where
  "IsDevelopment c \<longleftrightarrow> app_Environment (cfg_App c) = EnvDevelopment"

definition IsProduction :: "'v Config \<Rightarrow> bool" where
  "IsProduction c \<longleftrightarrow> app_Environment (cfg_App c) = EnvProduction"

definition GetServiceName :: "'v Config \<Rightarrow> string" where
  "GetServiceName c =
     (if reg_Name (dis_Registration (cfg_Discovery c)) \<noteq> [] then reg_Name (dis_Registration (cfg_Discovery c))
      else app_Name (cfg_App c))"

definition GetLogLevel :: "'v Config \<Rightarrow> LogLevel" where
  "GetLogLevel c = log_Level (cfg_Log c)"

definition IsDebugEnabled :: "'v Config \<Rightarrow> bool" where
  "IsDebugEnabled c \<longleftrightarrow> app_Debug (cfg_App c) \<or> app_Environment (cfg_App c) = EnvDevelopment"

end
