(* ===== verification/Config_Loader.thy ===== *)
theory Config_Loader
  imports Config
begin

text \<open>
  \<^verbatim>\<open>config/loader.go\<close>. The loader keeps its default configuration by pointer: \<^verbatim>\<open>Load\<close> without a
  file and \<^verbatim>\<open>AutoLoad\<close> without one apply the environment to it in place, and \<^verbatim>\<open>mergeConfig\<close>
  copies it with its \<^verbatim>\<open>Custom\<close> map shared. So operations return the loader too.
\<close>

section \<open>State\<close>

type_synonym ConfigFormat = string

definition FormatYAML :: ConfigFormat where "FormatYAML = ''yaml''"
definition FormatJSON :: ConfigFormat where "FormatJSON = ''json''"

record 'v Loader =
  ld_searchPaths :: "string list"
  ld_envPrefix :: string
  ld_defaultConfig :: "'v Config option"
  ld_heap :: "nat \<rightharpoonup> (string \<rightharpoonup> 'v)"
  ld_fresh :: nat

text \<open>The world outside: \<^verbatim>\<open>os.Getenv\<close>, \<^verbatim>\<open>os.Stat\<close>, \<^verbatim>\<open>os.ReadFile\<close>, \<^verbatim>\<open>filepath.Join\<close>, and the decoders,
  which return the configuration and its custom map apart.\<close>

record 'v os_env =
  os_Getenv :: "string \<Rightarrow> string"
  os_Stat :: "string \<Rightarrow> bool"
  os_ReadFile :: "string \<Rightarrow> string + bytes"
  path_Join :: "string \<Rightarrow> string \<Rightarrow> string"
  unmarshal_yaml :: "bytes \<Rightarrow> string + 'v Config \<times> (string \<rightharpoonup> 'v) option"
  unmarshal_json :: "bytes \<Rightarrow> string + 'v Config \<times> (string \<rightharpoonup> 'v) option"

definition make_map :: "'v Loader \<Rightarrow> nat \<times> 'v Loader" where
  "make_map l = (ld_fresh l, l\<lparr>ld_heap := (ld_heap l)(ld_fresh l \<mapsto> Map.empty), ld_fresh := Suc (ld_fresh l)\<rparr>)"

definition NewLoader :: "'v os_env \<Rightarrow> 'v Loader" where
  "NewLoader os =
     \<lparr>ld_searchPaths = [''.'', ''./config'', ''./configs'', ''/etc/sngo'', os_Getenv os ''HOME'' @ ''/.sngo''],
      ld_envPrefix = ''SNGO'', ld_defaultConfig = Some (DefaultConfig 0), ld_heap = [0 \<mapsto> Map.empty], ld_fresh = 1\<rparr>"

definition SetSearchPaths :: "string list \<Rightarrow> 'v Loader \<Rightarrow> 'v Loader" where
  "SetSearchPaths paths l = l\<lparr>ld_searchPaths := paths\<rparr>"

definition SetEnvPrefix :: "string \<Rightarrow> 'v Loader \<Rightarrow> 'v Loader" where
  "SetEnvPrefix prefix l = l\<lparr>ld_envPrefix := prefix\<rparr>"

definition SetDefaultConfig :: "'v Config option \<Rightarrow> 'v Loader \<Rightarrow> 'v Loader" where
  "SetDefaultConfig config l = l\<lparr>ld_defaultConfig := config\<rparr>"

text \<open>The default of the loader, or a new one.\<close>

definition default_of :: "'v Loader \<Rightarrow> 'v Config \<times> 'v Loader" where
  "default_of l =
     (case ld_defaultConfig l of
        Some c \<Rightarrow> (c, l)
      | None \<Rightarrow> (case make_map l of (a, l') \<Rightarrow> (DefaultConfig a, l')))"

section \<open>The environment\<close>

text \<open>
  \<^verbatim>\<open>fmt.Sscanf(val, "%d", &port)\<close>: spaces, a sign, digits; what follows is ignored, a line
  break before the number is an error, and so is a number beyond 64 bits.
\<close>

definition Sscanf_d :: "string \<Rightarrow> int option" where
  "Sscanf_d val =
     (let s = strip_codes (filter (\<lambda>p. p \<noteq> [CHR 0x0A]) space_codes) val;
          (neg, rest) = (case s of [] \<Rightarrow> (False, []) | c # cs \<Rightarrow>
                           if c = CHR ''-'' then (True, cs) else if c = CHR ''+'' then (False, cs) else (False, s));
          ds = takeWhile is_digit rest;
          v = (if neg then - int (digits_value 0 ds) else int (digits_value 0 ds))
      in if ds \<noteq> [] \<and> - (2 ^ 63) \<le> v \<and> v < 2 ^ 63 then Some v else None)"

definition parsePort :: "string \<Rightarrow> int option" where
  "parsePort val =
     (case Sscanf_d val of
        None \<Rightarrow> None
      | Some port \<Rightarrow> if port \<le> 0 \<or> port > 65535 then None else Some port)"

definition env_string :: "'v os_env \<Rightarrow> 'v Loader \<Rightarrow> string \<Rightarrow> string \<Rightarrow> string" where
  "env_string os l key old = (let val = os_Getenv os (ld_envPrefix l @ key) in if val \<noteq> [] then val else old)"

definition env_bool :: "'v os_env \<Rightarrow> 'v Loader \<Rightarrow> string \<Rightarrow> bool \<Rightarrow> bool" where
  "env_bool os l key old =
     (let val = os_Getenv os (ld_envPrefix l @ key) in if val \<noteq> [] then ToLower val = ''true'' else old)"

definition env_port :: "'v os_env \<Rightarrow> 'v Loader \<Rightarrow> string \<Rightarrow> int \<Rightarrow> int" where
  "env_port os l key old =
     (let val = os_Getenv os (ld_envPrefix l @ key)
      in if val \<noteq> [] then (case parsePort val of Some port \<Rightarrow> port | None \<Rightarrow> old) else old)"

definition loadFromEnv :: "'v os_env \<Rightarrow> 'v Loader \<Rightarrow> 'v Config \<Rightarrow> 'v Config" where
  "loadFromEnv os l c =
     c\<lparr>cfg_App := (cfg_App c)
         \<lparr>app_Name := env_string os l ''_APP_NAME'' (app_Name (cfg_App c)),
          app_Version := env_string os l ''_APP_VERSION'' (app_Version (cfg_App c)),
          app_Environment := env_string os l ''_APP_ENVIRONMENT'' (app_Environment (cfg_App c)),
          app_Debug := env_bool os l ''_APP_DEBUG'' (app_Debug (cfg_App c))\<rparr>,
       cfg_Log := (cfg_Log c)
         \<lparr>log_Level := env_string os l ''_LOG_LEVEL'' (log_Level (cfg_Log c)),
          log_Format := env_string os l ''_LOG_FORMAT'' (log_Format (cfg_Log c)),
          log_Output := env_string os l ''_LOG_OUTPUT'' (log_Output (cfg_Log c))\<rparr>,
       cfg_Network := (cfg_Network c)
         \<lparr>net_TCP := (net_TCP (cfg_Network c))
            \<lparr>tcp_Address := env_string os l ''_NETWORK_TCP_ADDRESS'' (tcp_Address (net_TCP (cfg_Network c))),
             tcp_Port := env_port os l ''_NETWORK_TCP_PORT'' (tcp_Port (net_TCP (cfg_Network c)))\<rparr>\<rparr>,
       cfg_Discovery := (cfg_Discovery c)
         \<lparr>dis_Enabled := env_bool os l ''_DISCOVERY_ENABLED'' (dis_Enabled (cfg_Discovery c)),
          dis_Type := env_string os l ''_DISCOVERY_TYPE'' (dis_Type (cfg_Discovery c)),
          dis_Registration := (dis_Registration (cfg_Discovery c))
            \<lparr>reg_Name := env_string os l ''_SERVICE_NAME'' (reg_Name (dis_Registration (cfg_Discovery c)))\<rparr>\<rparr>,
       cfg_Monitor := (cfg_Monitor c)
         \<lparr>mon_Enabled := env_bool os l ''_MONITOR_ENABLED'' (mon_Enabled (cfg_Monitor c)),
          mon_HTTP := (mon_HTTP (cfg_Monitor c))
            \<lparr>htm_Port := env_port os l ''_MONITOR_PORT'' (htm_Port (mon_HTTP (cfg_Monitor c)))\<rparr>\<rparr>\<rparr>"

section \<open>Parsing and merging\<close>

text \<open>A decoded custom map is a new object.\<close>

definition parseConfig ::
  "'v os_env \<Rightarrow> bytes \<Rightarrow> ConfigFormat \<Rightarrow> 'v Loader \<Rightarrow> (ConfigError + 'v Config) \<times> 'v Loader" where
  "parseConfig os data format l =
     (let keep = (\<lambda>(c, custom).
            case custom of
              None \<Rightarrow> (Inr (c\<lparr>cfg_Custom := None\<rparr>), l)
            | Some m \<Rightarrow> (Inr (c\<lparr>cfg_Custom := Some (ld_fresh l)\<rparr>),
                         l\<lparr>ld_heap := (ld_heap l)(ld_fresh l \<mapsto> m), ld_fresh := Suc (ld_fresh l)\<rparr>))
      in if format = FormatYAML
         then (case unmarshal_yaml os data of Inl err \<Rightarrow> (Inl (ParseError err), l) | Inr r \<Rightarrow> keep r)
         else if format = FormatJSON
         then (case unmarshal_json os data of Inl err \<Rightarrow> (Inl (ParseError err), l) | Inr r \<Rightarrow> keep r)
         else (Inl (UnsupportedFormat format), l))"

definition or_else :: "'a \<Rightarrow> 'a \<Rightarrow> 'a \<Rightarrow> 'a" where
  "or_else zero user def = (if user \<noteq> zero then user else def)"

text \<open>The custom map of the copy is that of the default, and is written in place.\<close>

definition merge_custom :: "nat option \<Rightarrow> nat option \<Rightarrow> 'v Loader \<Rightarrow> nat option \<times> 'v Loader" where
  "merge_custom dcustom ucustom l =
     (case ucustom of
        None \<Rightarrow> (dcustom, l)
      | Some u \<Rightarrow>
          (case (case dcustom of None \<Rightarrow> make_map l | Some a \<Rightarrow> (a, l)) of
             (a, l1) \<Rightarrow> (Some a, l1\<lparr>ld_heap := (ld_heap l1)(a \<mapsto> the (ld_heap l1 a) ++ the (ld_heap l1 u))\<rparr>)))"

definition mergeConfig :: "'v Config \<Rightarrow> 'v Config \<Rightarrow> 'v Loader \<Rightarrow> 'v Config \<times> 'v Loader" where
  "mergeConfig d u l =
     (case merge_custom (cfg_Custom d) (cfg_Custom u) l of
        (custom, l') \<Rightarrow>
          (d\<lparr>cfg_App := (cfg_App d)
               \<lparr>app_Name := or_else [] (app_Name (cfg_App u)) (app_Name (cfg_App d)),
                app_Version := or_else [] (app_Version (cfg_App u)) (app_Version (cfg_App d)),
                app_Environment := or_else [] (app_Environment (cfg_App u)) (app_Environment (cfg_App d)),
                app_Description := or_else [] (app_Description (cfg_App u)) (app_Description (cfg_App d)),
                app_Debug := app_Debug (cfg_App u),
                app_Metadata := (case app_Metadata (cfg_App u) of None \<Rightarrow> app_Metadata (cfg_App d) | m \<Rightarrow> m)\<rparr>,
             cfg_Log := (cfg_Log d)
               \<lparr>log_Level := or_else [] (log_Level (cfg_Log u)) (log_Level (cfg_Log d)),
                log_Format := or_else [] (log_Format (cfg_Log u)) (log_Format (cfg_Log d)),
                log_Output := or_else [] (log_Output (cfg_Log u)) (log_Output (cfg_Log d)),
                log_Color := log_Color (cfg_Log u),
                log_Fields := (case log_Fields (cfg_Log u) of None \<Rightarrow> log_Fields (cfg_Log d) | m \<Rightarrow> m)\<rparr>,
             cfg_Network := (cfg_Network d)
               \<lparr>net_TCP := (net_TCP (cfg_Network d))
                  \<lparr>tcp_Address := or_else [] (tcp_Address (net_TCP (cfg_Network u))) (tcp_Address (net_TCP (cfg_Network d))),
                   tcp_Port := or_else 0 (tcp_Port (net_TCP (cfg_Network u))) (tcp_Port (net_TCP (cfg_Network d)))\<rparr>,
                net_Limits := (net_Limits (cfg_Network d))
                  \<lparr>lim_MaxConnections := or_else 0 (lim_MaxConnections (net_Limits (cfg_Network u)))
                     (lim_MaxConnections (net_Limits (cfg_Network d)))\<rparr>\<rparr>,
             cfg_Actor := (cfg_Actor d)
               \<lparr>act_MaxActors := or_else 0 (act_MaxActors (cfg_Actor u)) (act_MaxActors (cfg_Actor d)),
                act_DefaultMailboxSize := or_else 0 (act_DefaultMailboxSize (cfg_Actor u)) (act_DefaultMailboxSize (cfg_Actor d))\<rparr>,
             cfg_Discovery := (cfg_Discovery d)
               \<lparr>dis_Registration := (dis_Registration (cfg_Discovery d))
                  \<lparr>reg_Name := or_else [] (reg_Name (dis_Registration (cfg_Discovery u))) (reg_Name (dis_Registration (cfg_Discovery d)))\<rparr>\<rparr>,
             cfg_Custom := custom\<rparr>, l'))"

section \<open>Loading\<close>

definition format_of :: "string \<Rightarrow> ConfigFormat option" where
  "format_of ext =
     (if ext \<in> {''.yaml'', ''.yml''} then Some FormatYAML else if ext = ''.json'' then Some FormatJSON else None)"

definition validated :: "'v Config \<Rightarrow> ConfigError + 'v Config" where
  "validated c = (case Validate c of None \<Rightarrow> Inr c | Some e \<Rightarrow> Inl e)"

text \<open>Parse, merge with the default, apply the environment, validate: the common part of loading a file.\<close>

definition load_data ::
  "'v os_env \<Rightarrow> bytes \<Rightarrow> ConfigFormat \<Rightarrow> 'v Loader \<Rightarrow> (ConfigError + 'v Config) \<times> 'v Loader" where
  "load_data os data format l =
     (case parseConfig os data format l of
        (Inl e, l1) \<Rightarrow> (Inl e, l1)
      | (Inr u, l1) \<Rightarrow>
          (case default_of l1 of
             (d, l2) \<Rightarrow>
               (case mergeConfig d u l2 of
                  (m, l3) \<Rightarrow> (validated (loadFromEnv os l3 m), l3))))"

definition loadFromFile :: "'v os_env \<Rightarrow> string \<Rightarrow> 'v Loader \<Rightarrow> (ConfigError + 'v Config) \<times> 'v Loader" where
  "loadFromFile os filename l =
     (case format_of (ToLower (Ext filename)) of
        None \<Rightarrow> (Inl (UnsupportedFileFormat (ToLower (Ext filename))), l)
      | Some format \<Rightarrow>
          (case os_ReadFile os filename of
             Inl err \<Rightarrow> (Inl (ReadFileError err), l)
           | Inr data \<Rightarrow> load_data os data format l))"

text \<open>The environment applied to the loader's own default configuration.\<close>

definition load_default :: "'v os_env \<Rightarrow> 'v Loader \<Rightarrow> (ConfigError + 'v Config) \<times> 'v Loader" where
  "load_default os l =
     (case default_of l of
        (d, l1) \<Rightarrow>
          let c = loadFromEnv os l1 d
          in (validated c, if ld_defaultConfig l = None then l1 else l1\<lparr>ld_defaultConfig := Some c\<rparr>))"

definition loader_Load :: "'v os_env \<Rightarrow> string \<Rightarrow> 'v Loader \<Rightarrow> (ConfigError + 'v Config) \<times> 'v Loader" where
  "loader_Load os filename l =
     (if filename \<noteq> [] then
        (case loadFromFile os filename l of
           (Inl e, l1) \<Rightarrow> (Inl e, l1)
         | (Inr c, l1) \<Rightarrow> (validated (loadFromEnv os l1 c), l1))
      else load_default os l)"

definition LoadFromFile :: "'v os_env \<Rightarrow> string \<Rightarrow> 'v Loader \<Rightarrow> (ConfigError + 'v Config) \<times> 'v Loader" where
  "LoadFromFile os filename l = loadFromFile os filename l"

definition LoadFromReader ::
  "'v os_env \<Rightarrow> (string + bytes) \<Rightarrow> ConfigFormat \<Rightarrow> 'v Loader \<Rightarrow> (ConfigError + 'v Config) \<times> 'v Loader" where
  "LoadFromReader os reader format l =
     (case reader of Inl err \<Rightarrow> (Inl (ReadFileError err), l) | Inr data \<Rightarrow> parseConfig os data format l)"

definition config_filenames :: "string list" where
  "config_filenames = [''sngo.yaml'', ''sngo.yml'', ''config.yaml'', ''config.yml'', ''sngo.json'', ''config.json'']"

definition findConfigFile :: "'v os_env \<Rightarrow> 'v Loader \<Rightarrow> (string \<times> ConfigFormat) option" where
  "findConfigFile os l =
     (case find (\<lambda>(dir, f). os_Stat os (path_Join os dir f) \<and> format_of (ToLower (Ext f)) \<noteq> None)
        (concat (map (\<lambda>dir. map (\<lambda>f. (dir, f)) config_filenames) (ld_searchPaths l))) of
        None \<Rightarrow> None
      | Some (dir, f) \<Rightarrow> Some (path_Join os dir f, the (format_of (ToLower (Ext f)))))"

definition AutoLoad :: "'v os_env \<Rightarrow> 'v Loader \<Rightarrow> (ConfigError + 'v Config) \<times> 'v Loader" where
  "AutoLoad os l =
     (case findConfigFile os l of
        None \<Rightarrow> load_default os l
      | Some (configFile, format) \<Rightarrow>
          (case os_ReadFile os configFile of
             Inl err \<Rightarrow> (Inl (ReadFileError err), l)
           | Inr data \<Rightarrow> load_data os data format l))"

section \<open>Lemmas\<close>

text \<open>What a usable configuration is.\<close>

definition config_wf :: "'v Config \<Rightarrow> bool" where
  "config_wf c \<longleftrightarrow>
     app_Name (cfg_App c) \<noteq> [] \<and>
     app_Environment (cfg_App c) \<in> {''development'', ''testing'', ''staging'', ''production''} \<and>
     log_Level (cfg_Log c) \<in> {''trace'', ''debug'', ''info'', ''warn'', ''error'', ''fatal''} \<and>
     tcp_Port (net_TCP (cfg_Network c)) \<in> {1..65535} \<and>
     lim_MaxConnections (net_Limits (cfg_Network c)) > 0 \<and>
     act_MaxActors (cfg_Actor c) > 0 \<and> act_DefaultMailboxSize (cfg_Actor c) > 0"

lemmas config_consts = EnvDevelopment_def EnvTesting_def EnvStaging_def EnvProduction_def LogLevelTrace_def
  LogLevelDebug_def LogLevelInfo_def LogLevelWarn_def LogLevelError_def LogLevelFatal_def

lemma Validate_wf: "Validate c = None \<longleftrightarrow> config_wf c"
  unfolding Validate_def config_wf_def Environment_IsValid_def LogLevel_IsValid_def config_consts by auto

lemma validated_wf: "validated c = Inr c' \<Longrightarrow> c' = c \<and> config_wf c"
  by (auto simp: validated_def Validate_wf split: option.splits)

lemma DefaultConfig_wf: "config_wf (DefaultConfig a)"
  by (simp add: config_wf_def DefaultConfig_def config_consts)

lemma load_data_wf: "load_data os data fmt l = (Inr c, l') \<Longrightarrow> config_wf c"
  by (auto simp: load_data_def split: prod.splits sum.splits dest!: validated_wf)

lemma loadFromFile_wf: "loadFromFile os f l = (Inr c, l') \<Longrightarrow> config_wf c"
  by (auto simp: loadFromFile_def split: option.splits sum.splits dest!: load_data_wf)

lemma load_default_wf: "load_default os l = (Inr c, l') \<Longrightarrow> config_wf c"
  by (auto simp: load_default_def Let_def split: prod.splits dest!: validated_wf)

text \<open>An environment that sets nothing changes nothing.\<close>

lemma loadFromEnv_silent: "(\<And>k. os_Getenv os (ld_envPrefix l @ k) = []) \<Longrightarrow> loadFromEnv os l c = c"
  by (simp add: loadFromEnv_def env_string_def env_bool_def env_port_def)

lemma merge_fields:
  assumes "mergeConfig d u l = (m, l')"
  shows "log_Rotation (cfg_Log m) = log_Rotation (cfg_Log d)" "net_UDP (cfg_Network m) = net_UDP (cfg_Network d)"
    "net_Timeouts (cfg_Network m) = net_Timeouts (cfg_Network d)" "act_Timeouts (cfg_Actor m) = act_Timeouts (cfg_Actor d)"
    "act_Routing (cfg_Actor m) = act_Routing (cfg_Actor d)" "cfg_Monitor m = cfg_Monitor d"
    "dis_HealthCheck (cfg_Discovery m) = dis_HealthCheck (cfg_Discovery d)"
    "app_Name (cfg_App m) = or_else [] (app_Name (cfg_App u)) (app_Name (cfg_App d))"
    "tcp_Port (net_TCP (cfg_Network m)) = or_else 0 (tcp_Port (net_TCP (cfg_Network u))) (tcp_Port (net_TCP (cfg_Network d)))"
    "app_Debug (cfg_App m) = app_Debug (cfg_App u)"
  using assms by (auto simp: mergeConfig_def split: prod.splits)

text \<open>Loading a file with custom entries writes them into the loader's own map.\<close>

lemma merge_custom_shared:
  assumes "mergeConfig d u l = (m, l')" and "cfg_Custom d = Some a" "cfg_Custom u = Some b"
    and "ld_heap l a = Some base" "ld_heap l b = Some m1"
  shows "cfg_Custom m = Some a" and "l' = l\<lparr>ld_heap := (ld_heap l)(a \<mapsto> base ++ m1)\<rparr>"
  using assms by (auto simp: mergeConfig_def merge_custom_def split: prod.splits)

lemma loadFromEnv_custom [simp]: "cfg_Custom (loadFromEnv os l c) = cfg_Custom c"
  by (simp add: loadFromEnv_def)

definition loader_ok :: "'v Loader \<Rightarrow> bool" where
  "loader_ok l \<longleftrightarrow> (\<forall>a. ld_heap l a \<noteq> None \<longrightarrow> a < ld_fresh l)"

lemma load_data_custom:
  assumes l: "loader_ok l" "ld_defaultConfig l = Some d" "cfg_Custom d = Some a" "ld_heap l a = Some base"
    and yaml: "unmarshal_yaml os data = Inr (u, Some m1)"
    and load: "load_data os data FormatYAML l = (Inr c, l')"
  shows "cfg_Custom c = Some a" and "ld_heap l' a = Some (base ++ m1)" and "ld_defaultConfig l' = Some d" and "loader_ok l'"
proof -
  let ?b = "ld_fresh l"
  define l1 where "l1 = l\<lparr>ld_heap := (ld_heap l)(?b \<mapsto> m1), ld_fresh := Suc ?b\<rparr>"
  have ab: "a \<noteq> ?b" using l(1,4) by (auto simp: loader_ok_def)
  have p: "parseConfig os data FormatYAML l = (Inr (u\<lparr>cfg_Custom := Some ?b\<rparr>), l1)"
    using yaml by (simp add: parseConfig_def l1_def)
  obtain m l3 where mg: "mergeConfig d (u\<lparr>cfg_Custom := Some ?b\<rparr>) l1 = (m, l3)" by force
  have h: "cfg_Custom m = Some a" "l3 = l1\<lparr>ld_heap := (ld_heap l1)(a \<mapsto> base ++ m1)\<rparr>"
    using merge_custom_shared [OF mg l(3)] l(4) ab by (simp_all add: l1_def)
  have "c = loadFromEnv os l3 m" "l' = l3"
    using load l(2) p mg by (auto simp: load_data_def default_of_def l1_def dest!: validated_wf)
  with h show "cfg_Custom c = Some a" "ld_heap l' a = Some (base ++ m1)" by simp_all
  show "ld_defaultConfig l' = Some d" using h \<open>l' = l3\<close> l(2) by (simp add: l1_def)
  show "loader_ok l'"
    using h \<open>l' = l3\<close> l(1,4) unfolding loader_ok_def by (auto simp: l1_def less_Suc_eq)
qed

lemma loaded_wf:
  "loader_Load os f l = (Inr c, l') \<Longrightarrow> config_wf c" "LoadFromFile os f l = (Inr c, l') \<Longrightarrow> config_wf c"
  "AutoLoad os l = (Inr c, l') \<Longrightarrow> config_wf c"
  by (auto simp: loader_Load_def LoadFromFile_def AutoLoad_def split: if_splits prod.splits sum.splits option.splits
      dest: loadFromFile_wf load_default_wf load_data_wf dest!: validated_wf)

section \<open>Properties\<close>

text \<open>
  Property C30. Loading yields well-formed configurations only: whatever the file, the environment
  and the defaults hold, a configuration that Load, LoadFromFile or AutoLoad returns has a
  name, a known environment and log level, a port from 1 to 65535 and positive limits. And
  loading is not vacuous: with no file and an environment that sets nothing, AutoLoad and
  Load return the default configuration.
\<close>

theorem loaded_config_wf:
  "(loader_Load os f l = (Inr c, l') \<or> LoadFromFile os f l = (Inr c, l') \<or> AutoLoad os l = (Inr c, l') \<longrightarrow> config_wf c) \<and>
   ((\<forall>k. os_Getenv os (''SNGO'' @ k) = []) \<longrightarrow> (\<forall>path. \<not> os_Stat os path) \<longrightarrow>
      fst (AutoLoad os (NewLoader os)) = Inr (DefaultConfig 0) \<and> fst (loader_Load os [] (NewLoader os)) = Inr (DefaultConfig 0))"
proof (intro conjI impI)
  show "config_wf c"
    if "loader_Load os f l = (Inr c, l') \<or> LoadFromFile os f l = (Inr c, l') \<or> AutoLoad os l = (Inr c, l')"
    using that loaded_wf by blast
next
  assume env: "\<forall>k. os_Getenv os (''SNGO'' @ k) = []" and stat: "\<forall>path. \<not> os_Stat os path"
  have "loadFromEnv os (NewLoader os) (DefaultConfig 0) = DefaultConfig 0"
    by (rule loadFromEnv_silent) (simp add: NewLoader_def env [rule_format, simplified])
  moreover have "Validate (DefaultConfig 0 :: 'a Config) = None" by (simp add: Validate_wf DefaultConfig_wf)
  ultimately have d: "fst (load_default os (NewLoader os)) = Inr (DefaultConfig 0)"
    by (simp add: load_default_def default_of_def validated_def Let_def NewLoader_def)
  have "find (\<lambda>(dir, f). os_Stat os (path_Join os dir f) \<and> P f) xs = None" for P xs
    using stat by (auto simp: find_None_iff)
  then have "findConfigFile os (NewLoader os) = None" by (simp add: findConfigFile_def)
  with d show "fst (AutoLoad os (NewLoader os)) = Inr (DefaultConfig 0)"
    "fst (loader_Load os [] (NewLoader os)) = Inr (DefaultConfig 0)"
    by (simp_all add: AutoLoad_def loader_Load_def)
qed

text \<open>A system on which every file parses, with one custom entry named after its content.\<close>

definition bare_os :: "nat os_env" where
  "bare_os = \<lparr>os_Getenv = (\<lambda>_. []), os_Stat = (\<lambda>_. False), os_ReadFile = (\<lambda>f. Inr (bytes_of_string f)),
     path_Join = (\<lambda>d f. d @ ''/'' @ f),
     unmarshal_yaml = (\<lambda>b. Inr (DefaultConfig 0, Some [string_of_bytes b \<mapsto> 1])),
     unmarshal_json = (\<lambda>b. Inl ''bad'')\<rparr>"

lemma bare_files: "os_ReadFile bare_os f = Inr (bytes_of_string f)"
  "unmarshal_yaml bare_os (bytes_of_string f) = Inr (DefaultConfig 0, Some [f \<mapsto> 1])"
  by (simp_all add: bare_os_def)

lemma bare_load:
  assumes "format_of (ToLower (Ext f)) = Some FormatYAML" "ld_defaultConfig l = Some (DefaultConfig 0)"
  shows "\<exists>c l'. LoadFromFile bare_os f l = (Inr c, l')"
proof -
  obtain m l3 where "mergeConfig (DefaultConfig 0) ((DefaultConfig 0)\<lparr>cfg_Custom := Some (ld_fresh l)\<rparr>)
      (l\<lparr>ld_heap := (ld_heap l)(ld_fresh l \<mapsto> [f \<mapsto> 1]), ld_fresh := Suc (ld_fresh l)\<rparr>) = (m, l3)" by force
  moreover from this have "Validate m = None" unfolding Validate_wf
    by (auto simp: mergeConfig_def or_else_def config_wf_def DefaultConfig_def config_consts split: prod.splits)
  moreover have "loadFromEnv bare_os l3 m = m" by (rule loadFromEnv_silent) (simp add: bare_os_def)
  ultimately show ?thesis
    using assms by (simp add: LoadFromFile_def loadFromFile_def bare_files load_data_def parseConfig_def default_of_def validated_def)
qed

theorem loaded_config_wf_witness:
  "fst (AutoLoad bare_os (NewLoader bare_os)) = Inr (DefaultConfig 0) \<and> config_wf (DefaultConfig 0 :: nat Config)"
proof -
  have "fst (AutoLoad bare_os (NewLoader bare_os)) = Inr (DefaultConfig 0)"
    using conjunct2 [OF loaded_config_wf, of bare_os] by (simp add: bare_os_def)
  moreover from this obtain l' where "AutoLoad bare_os (NewLoader bare_os) = (Inr (DefaultConfig 0), l')"
    by (cases "AutoLoad bare_os (NewLoader bare_os)") simp
  ultimately show ?thesis using conjunct1 [OF loaded_config_wf] by blast
qed

text \<open>
  Custom settings leak from one configuration into the next and into the defaults:
  merging writes the entries of a file into the map of the loader's default configuration,
  which all the merged configurations share. After a second file was loaded, the first
  configuration shows the entries of the second, and the second those of the first.
\<close>

theorem custom_settings_leak:
  assumes l: "loader_ok l" "ld_defaultConfig l = Some d" "cfg_Custom d = Some a" "ld_heap l a = Some base"
    and f1: "format_of (ToLower (Ext f1)) = Some FormatYAML" "os_ReadFile os f1 = Inr b1" "unmarshal_yaml os b1 = Inr (u1, Some m1)"
    and f2: "format_of (ToLower (Ext f2)) = Some FormatYAML" "os_ReadFile os f2 = Inr b2" "unmarshal_yaml os b2 = Inr (u2, Some m2)"
    and loads: "LoadFromFile os f1 l = (Inr c1, l1)" "LoadFromFile os f2 l1 = (Inr c2, l2)"
  shows "cfg_Custom c1 = Some a \<and> cfg_Custom c2 = Some a \<and> ld_defaultConfig l2 = Some d \<and>
     ld_heap l2 a = Some (base ++ m1 ++ m2)"
proof -
  have "load_data os b1 FormatYAML l = (Inr c1, l1)" "load_data os b2 FormatYAML l1 = (Inr c2, l2)"
    using loads f1 f2 by (simp_all add: LoadFromFile_def loadFromFile_def)
  note one = load_data_custom [OF l f1(3) this(1)]
    and two = load_data_custom [OF _ _ l(3) _ f2(3) this(2)]
  from two [OF one(4,3,2)] one(1) show ?thesis by simp
qed

theorem custom_settings_leak_witness:
  "\<exists>c1 c2 l1 l2. LoadFromFile bare_os ''a.yaml'' (NewLoader bare_os) = (Inr c1, l1) \<and>
     LoadFromFile bare_os ''b.yaml'' l1 = (Inr c2, l2) \<and> cfg_Custom c2 = Some 0 \<and>
     ld_heap l2 0 = Some [''a.yaml'' \<mapsto> 1, ''b.yaml'' \<mapsto> 1]"
proof -
  let ?l = "NewLoader bare_os"
  have fmt: "format_of (ToLower (Ext ''a.yaml'')) = Some FormatYAML" "format_of (ToLower (Ext ''b.yaml'')) = Some FormatYAML"
    by (simp_all add: format_of_def ToLower_def Ext_def Let_def)
  have l: "loader_ok ?l" "ld_defaultConfig ?l = Some (DefaultConfig 0)" "cfg_Custom (DefaultConfig 0 :: nat Config) = Some 0"
    "ld_heap ?l 0 = Some Map.empty"
    by (simp_all add: loader_ok_def NewLoader_def DefaultConfig_def)
  obtain c1 l1 where r1: "LoadFromFile bare_os ''a.yaml'' ?l = (Inr c1, l1)" using bare_load [OF fmt(1) l(2)] by blast
  have "load_data bare_os (bytes_of_string ''a.yaml'') FormatYAML ?l = (Inr c1, l1)"
    using r1 fmt(1) bare_files by (simp add: LoadFromFile_def loadFromFile_def)
  from load_data_custom(3) [OF l bare_files(2) this] obtain c2 l2 where r2: "LoadFromFile bare_os ''b.yaml'' l1 = (Inr c2, l2)"
    using bare_load [OF fmt(2)] by blast
  from custom_settings_leak [OF l fmt(1) bare_files fmt(2) bare_files r1 r2] r1 r2 show ?thesis
    by (intro exI [of _ c1] exI [of _ c2] exI [of _ l1] exI [of _ l2]) simp
qed

end
