(* ===== verification/Config_Watcher.thy ===== *)
theory Config_Watcher
  imports Config_Loader
begin

text \<open>
  \<^verbatim>\<open>config/watcher.go\<close>. The events of the file system watcher and the state of files and environment
  are arguments of the steps. Timers are one-shot: a timer that is not stopped runs its action
  once its time has come. A watch loop is its variable \<^verbatim>\<open>debounceTimer\<close>. Callbacks are user code: their
  calls are recorded with the old and the new configuration.
\<close>

section \<open>State\<close>

datatype timer_action = Reload_config | Readd_file

record 'v Watcher =
  w_configFile :: string
  w_format :: ConfigFormat
  w_loader :: "'v Loader"
  w_config :: "'v Config"
  w_watched :: bool
  w_fsClosed :: bool
  w_cancelled :: bool
  w_loops :: "nat option list"
  w_timers :: "nat \<rightharpoonup> Time \<times> timer_action"
  w_fresh :: nat
  w_callbacks :: "nat list"
  w_calls :: "(nat \<times> 'v Config \<times> 'v Config) list"

text \<open>The operations of an event of the file system.\<close>

datatype fs_op = Fs_Create | Fs_Write | Fs_Remove | Fs_Rename | Fs_Chmod

datatype WatcherError = Unsupported_format string | Fs_watcher_failed | Initial_load_failed ConfigError | Watch_failed | No_watcher

text \<open>\<^verbatim>\<open>filepath.Ext\<close> is compared as it is, unlike in the loader, which lowers it first.\<close>

definition NewWatcher :: "'v os_env \<Rightarrow> bool \<Rightarrow> string \<Rightarrow> 'v Loader \<Rightarrow> (WatcherError + 'v Watcher) \<times> 'v Loader" where
  "NewWatcher os created configFile loader =
     (case format_of (Ext configFile) of
        None \<Rightarrow> (Inl (Unsupported_format (Ext configFile)), loader)
      | Some format \<Rightarrow>
          if \<not> created then (Inl Fs_watcher_failed, loader)
          else (case LoadFromFile os configFile loader of
                  (Inl e, l') \<Rightarrow> (Inl (Initial_load_failed e), l')
                | (Inr c, l') \<Rightarrow>
                    (Inr \<lparr>w_configFile = configFile, w_format = format, w_loader = l', w_config = c, w_watched = False,
                          w_fsClosed = False, w_cancelled = False, w_loops = [], w_timers = Map.empty, w_fresh = 0,
                          w_callbacks = [], w_calls = []\<rparr>, l')))"

section \<open>Operations\<close>

definition w_Start :: "bool \<Rightarrow> 'v Watcher \<Rightarrow> (WatcherError + unit) \<times> 'v Watcher" where
  "w_Start added w =
     (if \<not> added \<or> w_fsClosed w then (Inl Watch_failed, w)
      else (Inr (), w\<lparr>w_watched := True, w_loops := w_loops w @ [None]\<rparr>))"

text \<open>\<^verbatim>\<open>Stop\<close> up to its wait for the loops.\<close>

definition w_Stop_begin :: "'v Watcher \<Rightarrow> 'v Watcher" where
  "w_Stop_begin w = w\<lparr>w_cancelled := True, w_fsClosed := True\<rparr>"

definition w_Stop_done :: "'v Watcher \<Rightarrow> bool" where
  "w_Stop_done w \<longleftrightarrow> w_loops w = []"

definition GetConfig :: "'v Watcher \<Rightarrow> 'v Config" where
  "GetConfig w = w_config w"

definition OnConfigChange :: "nat \<Rightarrow> 'v Watcher \<Rightarrow> 'v Watcher" where
  "OnConfigChange callback w = w\<lparr>w_callbacks := w_callbacks w @ [callback]\<rparr>"

definition notifyCallbacks :: "'v Config \<Rightarrow> 'v Config \<Rightarrow> 'v Watcher \<Rightarrow> 'v Watcher" where
  "notifyCallbacks oldConfig newConfig w = w\<lparr>w_calls := w_calls w @ map (\<lambda>cb. (cb, oldConfig, newConfig)) (w_callbacks w)\<rparr>"

definition reloadConfig :: "'v os_env \<Rightarrow> 'v Watcher \<Rightarrow> (ConfigError + unit) \<times> 'v Watcher" where
  "reloadConfig os w =
     (case LoadFromFile os (w_configFile w) (w_loader w) of
        (Inl e, l') \<Rightarrow> (Inl e, w\<lparr>w_loader := l'\<rparr>)
      | (Inr newConfig, l') \<Rightarrow> (Inr (), notifyCallbacks (w_config w) newConfig (w\<lparr>w_loader := l', w_config := newConfig\<rparr>)))"

definition Reload :: "'v os_env \<Rightarrow> 'v Watcher \<Rightarrow> (ConfigError + unit) \<times> 'v Watcher" where
  "Reload os w = reloadConfig os w"

section \<open>The watch loop\<close>

definition debounceDuration :: Duration where "debounceDuration = 500 * Millisecond"

definition stop_timer :: "nat option \<Rightarrow> 'v Watcher \<Rightarrow> 'v Watcher" where
  "stop_timer t w = (case t of None \<Rightarrow> w | Some t \<Rightarrow> w\<lparr>w_timers := (w_timers w)(t := None)\<rparr>)"

definition after_func :: "Time \<Rightarrow> timer_action \<Rightarrow> 'v Watcher \<Rightarrow> 'v Watcher" where
  "after_func deadline f w = w\<lparr>w_timers := (w_timers w)(w_fresh w \<mapsto> (deadline, f)), w_fresh := Suc (w_fresh w)\<rparr>"

definition loop_event :: "Time \<Rightarrow> string \<Rightarrow> fs_op set \<Rightarrow> nat \<Rightarrow> 'v Watcher \<Rightarrow> 'v Watcher" where
  "loop_event now name op i w =
     (if name \<noteq> w_configFile w then w
      else if Fs_Write \<in> op \<or> Fs_Create \<in> op
      then (let t = w_fresh w
            in (after_func (now + debounceDuration) Reload_config (stop_timer (w_loops w ! i) w))\<lparr>w_loops := (w_loops w)[i := Some t]\<rparr>)
      else if Fs_Remove \<in> op \<or> Fs_Rename \<in> op then after_func (now + 1 * Second) Readd_file w
      else w)"

text \<open>The two ways in which a loop ends: the context is done, or the channels of the file watcher are closed.\<close>

definition drop_loop :: "nat \<Rightarrow> 'v Watcher \<Rightarrow> 'v Watcher" where
  "drop_loop i w = w\<lparr>w_loops := take i (w_loops w) @ drop (Suc i) (w_loops w)\<rparr>"

definition loop_done :: "nat \<Rightarrow> 'v Watcher \<Rightarrow> 'v Watcher" where
  "loop_done i w = drop_loop i (stop_timer (w_loops w ! i) w)"

definition loop_closed :: "nat \<Rightarrow> 'v Watcher \<Rightarrow> 'v Watcher" where
  "loop_closed i w = drop_loop i w"

definition fire :: "'v os_env \<Rightarrow> bool \<Rightarrow> Time \<Rightarrow> nat \<Rightarrow> 'v Watcher \<Rightarrow> 'v Watcher" where
  "fire os added now t w =
     (case w_timers w t of
        None \<Rightarrow> w
      | Some (deadline, f) \<Rightarrow>
          if now < deadline then w
          else let w1 = w\<lparr>w_timers := (w_timers w)(t := None)\<rparr>
               in (case f of
                     Reload_config \<Rightarrow> snd (reloadConfig os w1)
                   | Readd_file \<Rightarrow> if added \<and> \<not> w_fsClosed w1 then w1\<lparr>w_watched := True\<rparr> else w1))"

inductive w_step :: "'v Watcher \<Rightarrow> 'v Watcher \<Rightarrow> bool" where
  start: "w_step w (snd (w_Start added w))"
| stop: "w_step w (w_Stop_begin w)"
| on_change: "w_step w (OnConfigChange cb w)"
| reload: "w_step w (snd (Reload os w))"
| event: "i < length (w_loops w) \<Longrightarrow> w_step w (loop_event now name op i w)"
| ended: "\<lbrakk>i < length (w_loops w); w_cancelled w\<rbrakk> \<Longrightarrow> w_step w (loop_done i w)"
| closed: "\<lbrakk>i < length (w_loops w); w_fsClosed w\<rbrakk> \<Longrightarrow> w_step w (loop_closed i w)"
| timer: "w_step w (fire os added now t w)"

section \<open>File provider\<close>

record 'v FileProvider =
  fp_loader :: "'v Loader"
  fp_watcher :: "'v Watcher option"

definition NewFileProvider :: "'v os_env \<Rightarrow> bool \<Rightarrow> string \<Rightarrow> WatcherError + 'v FileProvider" where
  "NewFileProvider os created configFile =
     (if configFile = [] then Inr \<lparr>fp_loader = NewLoader os, fp_watcher = None\<rparr>
      else case NewWatcher os created configFile (NewLoader os) of
             (Inl e, _) \<Rightarrow> Inl e
           | (Inr w, l') \<Rightarrow> Inr \<lparr>fp_loader = l', fp_watcher = Some w\<rparr>)"

definition fp_Load :: "'v os_env \<Rightarrow> 'v FileProvider \<Rightarrow> (ConfigError + 'v Config) \<times> 'v FileProvider" where
  "fp_Load os fp =
     (case fp_watcher fp of
        Some w \<Rightarrow> (Inr (GetConfig w), fp)
      | None \<Rightarrow> (case AutoLoad os (fp_loader fp) of (r, l') \<Rightarrow> (r, fp\<lparr>fp_loader := l'\<rparr>)))"

definition fp_Watch :: "bool \<Rightarrow> nat \<Rightarrow> 'v FileProvider \<Rightarrow> (WatcherError + unit) \<times> 'v FileProvider" where
  "fp_Watch added callback fp =
     (case fp_watcher fp of
        None \<Rightarrow> (Inl No_watcher, fp)
      | Some w \<Rightarrow> (case w_Start added (OnConfigChange callback w) of (r, w') \<Rightarrow> (r, fp\<lparr>fp_watcher := Some w'\<rparr>)))"

definition fp_Close :: "'v FileProvider \<Rightarrow> 'v FileProvider" where
  "fp_Close fp = fp\<lparr>fp_watcher := map_option w_Stop_begin (fp_watcher fp)\<rparr>"

section \<open>Lemmas\<close>

lemma notify_frame [simp]: "w_config (notifyCallbacks a b w) = w_config w" "w_configFile (notifyCallbacks a b w) = w_configFile w"
  by (simp_all add: notifyCallbacks_def)

lemma reload_cases:
  obtains (failed) e l' where "reloadConfig os w = (Inl e, w\<lparr>w_loader := l'\<rparr>)"
  | (loaded) c l' where "LoadFromFile os (w_configFile w) (w_loader w) = (Inr c, l')" "config_wf c"
      "reloadConfig os w = (Inr (), notifyCallbacks (w_config w) c (w\<lparr>w_loader := l', w_config := c\<rparr>))"
proof (cases "LoadFromFile os (w_configFile w) (w_loader w)")
  case (Pair r l')
  show thesis
  proof (cases r)
    case (Inl e)
    then show thesis using Pair by (intro failed [of e l']) (simp add: reloadConfig_def)
  next
    case (Inr c)
    then show thesis using Pair loadFromFile_wf [of os "w_configFile w" "w_loader w" c l']
      by (intro loaded [of c l']) (simp_all add: reloadConfig_def LoadFromFile_def)
  qed
qed

lemma reload_wf: "config_wf (w_config w) \<Longrightarrow> config_wf (w_config (snd (reloadConfig os w)))"
  by (cases rule: reload_cases [of os w]) auto

lemma w_step_wf: "\<lbrakk>w_step w w'; config_wf (w_config w)\<rbrakk> \<Longrightarrow> config_wf (w_config w')"
proof (induction rule: w_step.induct)
  case (timer w os added now t)
  then show ?case using reload_wf [of "w\<lparr>w_timers := (w_timers w)(t := None)\<rparr>" os]
    by (auto simp: fire_def Let_def split: option.split prod.split timer_action.split)
qed (auto simp: w_Start_def w_Stop_begin_def OnConfigChange_def Reload_def reload_wf loop_event_def after_func_def stop_timer_def
    loop_done_def loop_closed_def drop_loop_def Let_def split: option.split)


text \<open>A watcher for a file that can be read.\<close>

lemma demo_format: "format_of (Ext ''a.yaml'') = Some FormatYAML" "format_of (ToLower (Ext ''a.yaml'')) = Some FormatYAML"
  by (simp_all add: format_of_def ToLower_def Ext_def Let_def)

lemma demo_watcher:
  obtains w l' where "NewWatcher bare_os True ''a.yaml'' (NewLoader bare_os) = (Inr w, l')" "w_loops w = []" "w_timers w = Map.empty"
    "w_fresh w = 0" "w_configFile w = ''a.yaml''"
proof -
  obtain c l' where "LoadFromFile bare_os ''a.yaml'' (NewLoader bare_os) = (Inr c, l')"
    using bare_load [OF demo_format(2), of "NewLoader bare_os"] by (auto simp: NewLoader_def)
  then show thesis using that by (simp add: NewWatcher_def demo_format)
qed


text \<open>A burst of writes to the file, seen by loop \<open>i\<close>.\<close>

definition burst :: "Time list \<Rightarrow> nat \<Rightarrow> 'v Watcher \<Rightarrow> 'v Watcher" where
  "burst nows i w = foldl (\<lambda>w now. loop_event now (w_configFile w) {Fs_Write} i w) w nows"

lemma burst_timers:
  assumes "i < length (w_loops w)" "w_loops w ! i = None" "\<forall>t \<ge> w_fresh w. w_timers w t = None" "nows \<noteq> []"
  shows "w_timers (burst nows i w) = (w_timers w)(w_fresh w + length nows - 1 \<mapsto> (last nows + debounceDuration, Reload_config)) \<and>
     w_loops (burst nows i w) = (w_loops w)[i := Some (w_fresh w + length nows - 1)] \<and>
     w_fresh (burst nows i w) = w_fresh w + length nows \<and> w_config (burst nows i w) = w_config w \<and>
     w_configFile (burst nows i w) = w_configFile w"
  using assms(4)
proof (induction nows rule: rev_induct)
  case (snoc now nows)
  have run: "burst (nows @ [now]) i w = loop_event now (w_configFile (burst nows i w)) {Fs_Write} i (burst nows i w)"
    by (simp add: burst_def)
  show ?case
  proof (cases "nows = []")
    case True
    then show ?thesis using assms(1,2) by (simp add: burst_def loop_event_def stop_timer_def after_func_def Let_def)
  next
    case False
    define t where "t = w_fresh w + length nows - 1"
    have "w_fresh w \<le> t" using False by (cases nows) (simp_all add: t_def)
    then have "w_timers w t = None" using assms(3) by blast
    then have undo: "(w_timers w)(t := None) = w_timers w" by (simp add: fun_upd_idem)
    from snoc.IH [OF False] assms(1) show ?thesis
      unfolding run t_def [symmetric] by (simp add: loop_event_def stop_timer_def after_func_def Let_def undo del: fun_upd_apply)
  qed
qed simp

text \<open>
  Rapid writes are debounced: a burst of writes leaves one timer, set to half a second
  after the last of them. Before that time nothing is reloaded; at the first run after it the file is
  loaded once, and the timer is gone.
\<close>

theorem burst_reloads_once:
  assumes "i < length (w_loops w)" "w_loops w ! i = None" "w_timers w = Map.empty" "nows \<noteq> []"
  shows "\<exists>t. w_timers (burst nows i w) = [t \<mapsto> (last nows + debounceDuration, Reload_config)] \<and>
     w_config (burst nows i w) = w_config w \<and>
     (\<forall>now k. now < last nows + debounceDuration \<longrightarrow> fire os added now k (burst nows i w) = burst nows i w) \<and>
     (\<forall>now. last nows + debounceDuration \<le> now \<longrightarrow>
        fire os added now t (burst nows i w) = snd (reloadConfig os ((burst nows i w)\<lparr>w_timers := Map.empty\<rparr>)))"
proof -
  define t where "t = w_fresh w + length nows - 1"
  have b: "w_timers (burst nows i w) = [t \<mapsto> (last nows + debounceDuration, Reload_config)]" "w_config (burst nows i w) = w_config w"
    using burst_timers [OF assms(1,2) _ assms(4)] assms(3) by (simp_all add: t_def)
  show ?thesis
  proof (intro exI [of _ t] conjI allI impI b)
    fix now k assume "now < last nows + debounceDuration"
    then show "fire os added now k (burst nows i w) = burst nows i w" by (simp add: fire_def b)
  next
    fix now assume "last nows + debounceDuration \<le> now"
    then show "fire os added now t (burst nows i w) = snd (reloadConfig os ((burst nows i w)\<lparr>w_timers := Map.empty\<rparr>))"
      by (simp add: fire_def b)
  qed
qed

theorem burst_reloads_once_witness:
  "\<exists>w l' t. NewWatcher bare_os True ''a.yaml'' (NewLoader bare_os) = (Inr w, l') \<and>
     w_timers (burst [0, 1, 2] 0 (snd (w_Start True w))) = [t \<mapsto> (2 + debounceDuration, Reload_config)]"
proof -
  obtain w :: "nat Watcher" and l' where w: "NewWatcher bare_os True ''a.yaml'' (NewLoader bare_os) = (Inr w, l')" "w_loops w = []"
    "w_timers w = Map.empty" by (rule demo_watcher)
  have "\<not> w_fsClosed w" using w(1) by (auto simp: NewWatcher_def split: option.splits if_splits prod.splits sum.splits)
  then have "0 < length (w_loops (snd (w_Start True w)))" "w_loops (snd (w_Start True w)) ! 0 = None" "w_timers (snd (w_Start True w)) = Map.empty"
    using w(2,3) by (simp_all add: w_Start_def)
  from burst_reloads_once [OF this, of "[0, 1, 2]" bare_os True] w(1) show ?thesis by (auto simp: debounceDuration_def)
qed

text \<open>
  Stopping does not always stop the timer: \<^verbatim>\<open>Stop\<close> ends the context and closes the file watcher, and
  the loop may see either. When it sees the closed channel it leaves its timer running, and the
  configuration is reloaded after \<^verbatim>\<open>Stop\<close> has returned; when it sees the context, nothing is left.
\<close>

theorem reload_after_stop:
  assumes "w_loops w = [Some t]" "w_timers w = [t \<mapsto> (d, Reload_config)]" "d \<le> now"
  shows "w_Stop_done (loop_closed 0 (w_Stop_begin w)) \<and>
     fire os added now t (loop_closed 0 (w_Stop_begin w)) = snd (reloadConfig os ((loop_closed 0 (w_Stop_begin w))\<lparr>w_timers := Map.empty\<rparr>)) \<and>
     w_Stop_done (loop_done 0 (w_Stop_begin w)) \<and> fire os added now k (loop_done 0 (w_Stop_begin w)) = loop_done 0 (w_Stop_begin w)"
  using assms by (simp add: w_Stop_done_def loop_closed_def loop_done_def drop_loop_def w_Stop_begin_def stop_timer_def fire_def)

end
