(* ===== verification/Crypt.thy ===== *)
theory Crypt
  imports Byte_Codec
begin

unbundle bit_operations_syntax

text \<open>
  \<^verbatim>\<open>crypt/crypt.go\<close>. The key exchange, the text encodings and the padding are modelled in
  full. The primitives of Go's \<^verbatim>\<open>crypto\<close> packages are arguments: \<open>hmac_sha1\<close> and \<open>md5\<close> return
  the digest, \<open>encrypt\<close> and \<open>decrypt\<close> treat one block under a key. A panic is \<open>Inl\<close> with its
  message. \<^verbatim>\<open>des.NewCipher\<close> fails only for keys that are not 8 bytes long, which both
  callers have refused before.
\<close>

section \<open>Big integers\<close>

text \<open>\<^verbatim>\<open>big.Int.Exp(x, y, m)\<close> for a positive \<open>m\<close>, by repeated squaring.\<close>

fun big_Exp :: "nat \<Rightarrow> nat \<Rightarrow> nat \<Rightarrow> nat" where
  "big_Exp x y m =
     (if y = 0 then 1 mod m
      else let h = big_Exp (x * x mod m) (y div 2) m in if odd y then x * h mod m else h)"

declare big_Exp.simps [simp del]

lemma big_Exp_eq: "big_Exp x y m = x ^ y mod m"
proof (induction x y m rule: big_Exp.induct)
  case (1 x y m)
  show ?case
  proof (cases "y = 0")
    case False
    have sq: "x ^ (2 * (y div 2)) mod m = (x * x mod m) ^ (y div 2) mod m"
      by (simp add: power_mult power2_eq_square power_mod)
    have "x ^ y mod m = (if odd y then x * ((x * x mod m) ^ (y div 2) mod m) mod m
                         else (x * x mod m) ^ (y div 2) mod m)"
    proof (cases "odd y")
      case True
      then have "x ^ y = x * x ^ (2 * (y div 2))" by (simp flip: power_Suc)
      with True show ?thesis by (simp flip: sq add: mod_mult_right_eq)
    next
      case even: False
      then show ?thesis by (simp flip: sq)
    qed
    with False 1 show ?thesis by (subst big_Exp.simps) (simp add: Let_def)
  qed (subst big_Exp.simps, simp)
qed

text \<open>\<^verbatim>\<open>big.Int.Bytes\<close>: the bytes without leading zeros.\<close>

fun big_Bytes :: "nat \<Rightarrow> bytes" where
  "big_Bytes n = (if n = 0 then [] else big_Bytes (n div 256) @ [of_nat (n mod 256)])"

declare big_Bytes.simps [simp del]

text \<open>The two branches that copy the bytes into an array of 8.\<close>

definition pad_to_8 :: "bytes \<Rightarrow> bytes" where
  "pad_to_8 bs =
     (if length bs \<le> 8 then replicate (8 - length bs) 0 @ bs else drop (length bs - 8) bs)"

section \<open>Key exchange\<close>

definition dhP :: nat where "dhP = 0xFFFFFFFB"
definition dhG :: nat where "dhG = 2"

definition private_exponent :: "bytes \<Rightarrow> nat" where
  "private_exponent key =
     (let private = be_value key AND 0x7FFFFFFF in if private \<le> 1 then 2 else private)"

definition DHExchange :: "bytes \<Rightarrow> string + bytes" where
  "DHExchange key =
     (if length key \<noteq> 8 then Inl ''DH key must be 8 bytes''
      else Inr (pad_to_8 (big_Bytes (big_Exp dhG (private_exponent key) dhP))))"

definition DHSecret :: "bytes \<Rightarrow> bytes \<Rightarrow> string + bytes" where
  "DHSecret privateKey publicKey =
     (if length privateKey \<noteq> 8 \<or> length publicKey \<noteq> 8 then Inl ''DH keys must be 8 bytes''
      else Inr (pad_to_8 (big_Bytes (big_Exp (be_value publicKey) (private_exponent privateKey) dhP))))"

lemma be_digits_big_Bytes:
  "length (big_Bytes n) \<le> k \<Longrightarrow> be_digits k n = replicate (k - length (big_Bytes n)) 0 @ big_Bytes n"
proof (induction n arbitrary: k rule: big_Bytes.induct)
  case (1 n)
  show ?case
  proof (cases "n = 0")
    case True
    have "be_digits k 0 = replicate k 0" for k by (induction k) (simp_all add: replicate_append_same)
    with True show ?thesis by (simp add: big_Bytes.simps)
  next
    case False
    then have b: "big_Bytes n = big_Bytes (n div 256) @ [of_nat (n mod 256)]" by (subst big_Bytes.simps) simp
    with "1.prems" obtain k' where k: "k = Suc k'" and "length (big_Bytes (n div 256)) \<le> k'" by (cases k) auto
    with "1.IH" False show ?thesis by (simp add: b)
  qed
qed

lemma length_big_Bytes: "n < 256 ^ k \<Longrightarrow> length (big_Bytes n) \<le> k"
proof (induction n arbitrary: k rule: big_Bytes.induct)
  case (1 n)
  show ?case
  proof (cases "n = 0")
    case False
    with "1.prems" obtain k' where k: "k = Suc k'" by (cases k) auto
    then have "n div 256 < 256 ^ k'" using "1.prems" by (simp add: less_mult_imp_div_less mult.commute)
    with "1.IH" False have "length (big_Bytes (n div 256)) \<le> k'" by simp
    with False k show ?thesis by (subst big_Bytes.simps) simp
  qed (simp add: big_Bytes.simps)
qed

lemma pad_big_Bytes:
  assumes "n < 256 ^ 8"
  shows "pad_to_8 (big_Bytes n) = be_digits 8 n"
  using length_big_Bytes [OF assms] be_digits_big_Bytes [of n 8] by (simp add: pad_to_8_def)

lemma DHExchange_eq:
  "length key = 8 \<Longrightarrow> DHExchange key = Inr (be_digits 8 (dhG ^ private_exponent key mod dhP))"
proof -
  assume "length key = 8"
  have "dhG ^ private_exponent key mod dhP < dhP" by (simp add: dhP_def)
  then have "dhG ^ private_exponent key mod dhP < 256 ^ 8" by (simp add: dhP_def)
  with \<open>length key = 8\<close> show ?thesis by (simp add: DHExchange_def big_Exp_eq pad_big_Bytes)
qed

lemma DHSecret_eq:
  "length k = 8 \<Longrightarrow> length p = 8 \<Longrightarrow>
   DHSecret k p = Inr (be_digits 8 (be_value p ^ private_exponent k mod dhP))"
proof -
  assume "length k = 8" "length p = 8"
  have "be_value p ^ private_exponent k mod dhP < dhP" by (simp add: dhP_def)
  then have "be_value p ^ private_exponent k mod dhP < 256 ^ 8" by (simp add: dhP_def)
  with \<open>length k = 8\<close> \<open>length p = 8\<close> show ?thesis by (simp add: DHSecret_def big_Exp_eq pad_big_Bytes)
qed

lemma be_value_public: "be_value (be_digits 8 (x mod dhP)) = x mod dhP"
proof -
  have "x mod dhP < dhP" by (simp add: dhP_def)
  then have "x mod dhP < 256 ^ 8" by (simp add: dhP_def)
  then show ?thesis by (simp add: be_value_digits)
qed

section \<open>Text encodings\<close>

text \<open>
  \<^verbatim>\<open>base64.StdEncoding\<close>: the decoder skips line breaks, wants padding, and ignores the bits
  that the padding leaves over. \<open>None\<close> is \<^verbatim>\<open>CorruptInputError\<close>.
\<close>

definition b64_alphabet :: string where
  "b64_alphabet = ''ABCDEFGHIJKLMNOPQRSTUVWXYZabcdefghijklmnopqrstuvwxyz0123456789+/''"

fun index_of :: "'a \<Rightarrow> 'a list \<Rightarrow> nat option" where
  "index_of x [] = None"
| "index_of x (y # ys) = (if x = y then Some 0 else map_option Suc (index_of x ys))"

definition b64_char :: "nat \<Rightarrow> char" where "b64_char n = b64_alphabet ! n"
definition b64_digit :: "char \<Rightarrow> nat option" where "b64_digit c = index_of c b64_alphabet"

fun Base64Encode :: "bytes \<Rightarrow> string" where
  "Base64Encode (a # b # c # rest) =
     (let v = unat a * 65536 + unat b * 256 + unat c
      in [b64_char (v div 262144), b64_char (v div 4096 mod 64), b64_char (v div 64 mod 64), b64_char (v mod 64)]) @
     Base64Encode rest"
| "Base64Encode [a, b] =
     (let v = unat a * 65536 + unat b * 256
      in [b64_char (v div 262144), b64_char (v div 4096 mod 64), b64_char (v div 64 mod 64), CHR ''=''])"
| "Base64Encode [a] =
     (let v = unat a * 65536 in [b64_char (v div 262144), b64_char (v div 4096 mod 64), CHR ''='', CHR ''=''])"
| "Base64Encode [] = []"

definition quantum :: "char list \<Rightarrow> nat option" where
  "quantum cs =
     (if list_all (\<lambda>c. b64_digit c \<noteq> None) cs
      then Some (foldl (\<lambda>v c. v * 64 + the (b64_digit c)) 0 cs) else None)"

fun b64_decode :: "string \<Rightarrow> bytes option" where
  "b64_decode [] = Some []"
| "b64_decode [a, b, c, d] =
     (if c = CHR ''='' \<and> d = CHR ''='' then
        map_option (\<lambda>v. [of_nat (v div 16)]) (quantum [a, b])
      else if d = CHR ''='' then
        map_option (\<lambda>v. [of_nat (v div 1024), of_nat (v div 4 mod 256)]) (quantum [a, b, c])
      else
        map_option (\<lambda>v. [of_nat (v div 65536), of_nat (v div 256 mod 256), of_nat (v mod 256)])
          (quantum [a, b, c, d]))"
| "b64_decode (a # b # c # d # rest) =
     (case quantum [a, b, c, d] of
        None \<Rightarrow> None
      | Some v \<Rightarrow>
          map_option (\<lambda>r. of_nat (v div 65536) # of_nat (v div 256 mod 256) # of_nat (v mod 256) # r)
            (b64_decode rest))"
| "b64_decode _ = None"

definition Base64Decode :: "string \<Rightarrow> bytes option" where
  "Base64Decode s = b64_decode (filter (\<lambda>c. c \<noteq> CHR 0x0A \<and> c \<noteq> CHR 0x0D) s)"

text \<open>\<^verbatim>\<open>encoding/hex\<close>: lower case digits, and both cases are read.\<close>

definition hex_char :: "nat \<Rightarrow> char" where "hex_char n = ''0123456789abcdef'' ! n"

definition hex_digit :: "char \<Rightarrow> nat option" where
  "hex_digit c =
     (case index_of c ''0123456789abcdef'' of
        Some n \<Rightarrow> Some n
      | None \<Rightarrow> map_option (\<lambda>n. n + 10) (index_of c ''ABCDEF''))"

fun HexEncode :: "bytes \<Rightarrow> string" where
  "HexEncode [] = []"
| "HexEncode (b # bs) = hex_char (unat b div 16) # hex_char (unat b mod 16) # HexEncode bs"

fun HexDecode :: "string \<Rightarrow> bytes option" where
  "HexDecode [] = Some []"
| "HexDecode [c] = None"
| "HexDecode (c # d # cs) =
     (case (hex_digit c, hex_digit d) of
        (Some h, Some l) \<Rightarrow> map_option (\<lambda>r. of_nat (h * 16 + l) # r) (HexDecode cs)
      | _ \<Rightarrow> None)"

lemma hex_digit_char: "n < 16 \<Longrightarrow> hex_digit (hex_char n) = Some n"
proof -
  have "\<forall>n \<in> set [0..<16]. hex_digit (hex_char n) = Some n" by code_simp
  then show "n < 16 \<Longrightarrow> hex_digit (hex_char n) = Some n" by simp
qed

lemma unat_u8: "unat (b :: u8) < 256"
  using unsigned_less [of b, where ?'a = nat] by simp

lemma Hex_roundtrip: "HexDecode (HexEncode d) = Some d"
proof (induction d)
  case (Cons b bs)
  have "unat b div 16 < 16" using unat_u8 [of b] by simp
  moreover have "(of_nat (unat b div 16 * 16 + unat b mod 16) :: u8) = b" by (simp only: div_mult_mod_eq) simp
  ultimately show ?case using Cons by (simp add: hex_digit_char)
qed simp

lemma b64_digit_char: "n < 64 \<Longrightarrow> b64_digit (b64_char n) = Some n"
proof -
  have "\<forall>n \<in> set [0..<64]. b64_digit (b64_char n) = Some n" by code_simp
  then show "n < 64 \<Longrightarrow> b64_digit (b64_char n) = Some n" by simp
qed

text \<open>No character of the alphabet is padding, a control character or a space.\<close>

lemma b64_char_plain: "n < 64 \<Longrightarrow> b64_char n \<noteq> CHR ''='' \<and> of_char (b64_char n) > (32 :: nat) \<and> of_char (b64_char n) < (128 :: nat) \<and> b64_char n \<noteq> CHR '':'' \<and> b64_char n \<noteq> CHR ''@''"
proof -
  have "\<forall>n \<in> set [0..<64]. b64_char n \<noteq> CHR ''='' \<and> of_char (b64_char n) > (32 :: nat) \<and> of_char (b64_char n) < (128 :: nat) \<and> b64_char n \<noteq> CHR '':'' \<and> b64_char n \<noteq> CHR ''@''"
    by code_simp
  then show "n < 64 \<Longrightarrow> b64_char n \<noteq> CHR ''='' \<and> of_char (b64_char n) > (32 :: nat) \<and> of_char (b64_char n) < (128 :: nat) \<and> b64_char n \<noteq> CHR '':'' \<and> b64_char n \<noteq> CHR ''@''" by simp
qed

lemma quantum_chars:
  "list_all (\<lambda>n. n < 64) ns \<Longrightarrow> quantum (map b64_char ns) = Some (foldl (\<lambda>v n. v * 64 + n) 0 ns)"
proof -
  assume a: "list_all (\<lambda>n. n < 64) ns"
  then have "list_all (\<lambda>c. b64_digit c \<noteq> None) (map b64_char ns)"
    by (auto simp: list_all_iff b64_digit_char)
  moreover have "foldl (\<lambda>v c. v * 64 + the (b64_digit c)) i (map b64_char ns) = foldl (\<lambda>v n. v * 64 + n) i ns" for i
    using a by (induction ns arbitrary: i) (simp_all add: b64_digit_char)
  ultimately show ?thesis by (simp add: quantum_def)
qed

lemma base_64_digits:
  fixes v :: nat
  shows "v div 4096 = v div 64 div 64" and "v div 262144 = v div 64 div 64 div 64"
    and "v div 65536 = v div 256 div 256"
  by (simp_all flip: div_mult2_eq)

lemma b64_value_3:
  fixes v a b c :: nat
  assumes v: "v = a * 65536 + b * 256 + c" and small: "a < 256" "b < 256" "c < 256"
  shows "v div 262144 < 64"
    and "((v div 262144 * 64 + v div 4096 mod 64) * 64 + v div 64 mod 64) * 64 + v mod 64 = v"
    and "v div 65536 = a" and "v div 256 mod 256 = b" and "v mod 256 = c"
proof -
  have "v < 16777216" using v small by linarith
  then show "v div 262144 < 64" by (simp add: div_less_iff_less_mult)
  show "((v div 262144 * 64 + v div 4096 mod 64) * 64 + v div 64 mod 64) * 64 + v mod 64 = v"
    by (simp only: base_64_digits div_mult_mod_eq)
  have v': "v = (a * 256 + b) * 256 + c" using v by simp
  have d: "v div 256 = a * 256 + b" using small by (simp add: v')
  show "v mod 256 = c" using small unfolding v' by (simp only: mod_mult_self3) simp
  show "v div 256 mod 256 = b" "v div 65536 = a" using small by (simp_all add: base_64_digits d)
qed

text \<open>One group of four characters, with its digits and its value opaque.\<close>

lemma quantum_digits:
  "\<lbrakk>w < 64; x < 64\<rbrakk> \<Longrightarrow> quantum [b64_char w, b64_char x] = Some (w * 64 + x)"
  "\<lbrakk>w < 64; x < 64; y < 64\<rbrakk> \<Longrightarrow> quantum [b64_char w, b64_char x, b64_char y] = Some ((w * 64 + x) * 64 + y)"
  "\<lbrakk>w < 64; x < 64; y < 64; z < 64\<rbrakk> \<Longrightarrow>
     quantum [b64_char w, b64_char x, b64_char y, b64_char z] = Some (((w * 64 + x) * 64 + y) * 64 + z)"
  using quantum_chars [of "[w, x]"] quantum_chars [of "[w, x, y]"] quantum_chars [of "[w, x, y, z]"] by simp_all

lemma mod_64: "(n :: nat) mod 64 < 64"
  by simp

lemma b64_decode_group:
  "\<lbrakk>quantum [w, x, y, z] = Some v; z \<noteq> CHR ''=''\<rbrakk> \<Longrightarrow> b64_decode ([w, x, y, z] @ rest) =
     map_option (\<lambda>r. of_nat (v div 65536) # of_nat (v div 256 mod 256) # of_nat (v mod 256) # r) (b64_decode rest)"
  "\<lbrakk>quantum [w, x, y] = Some v; y \<noteq> CHR ''=''\<rbrakk> \<Longrightarrow>
     b64_decode [w, x, y, CHR ''=''] = Some [of_nat (v div 1024), of_nat (v div 4 mod 256)]"
  "quantum [w, x] = Some v \<Longrightarrow> b64_decode [w, x, CHR ''='', CHR ''=''] = Some [of_nat (v div 16)]"
  by (cases rest; simp) simp_all

lemma b64_char_not_pad: "n < 64 \<Longrightarrow> b64_char n \<noteq> CHR ''=''"
  using b64_char_plain by blast

lemma b64_decode_encode:
  "b64_decode (Base64Encode d) = Some d"
proof (induction d rule: Base64Encode.induct)
  case (1 a b c rest)
  define v where "v = unat a * 65536 + unat b * 256 + unat c"
  note n = b64_value_3 [OF v_def unat_u8 unat_u8 unat_u8]
  have "quantum [b64_char (v div 262144), b64_char (v div 4096 mod 64), b64_char (v div 64 mod 64), b64_char (v mod 64)] = Some v"
    using quantum_digits(3) [OF n(1) mod_64 mod_64 mod_64, of "v div 4096" "v div 64" v] unfolding n(2) .
  from b64_decode_group(1) [OF this b64_char_not_pad [OF mod_64], of "Base64Encode rest"]
  show ?case
    unfolding Base64Encode.simps Let_def v_def [symmetric] 1 n(3-5) by simp
next
  case (2 a b)
  define v where "v = unat a * 65536 + unat b * 256"
  have "v = (unat a * 1024 + unat b * 4) * 64" by (simp add: v_def)
  then have d: "v div 64 = unat a * 1024 + unat b * 4" by simp
  have n: "v div 262144 < 64" using b64_value_3(1) [OF _ unat_u8 unat_u8, of v a b 0] by (simp add: v_def)
  have "(v div 262144 * 64 + v div 4096 mod 64) * 64 + v div 64 mod 64 = v div 64"
    by (simp only: base_64_digits div_mult_mod_eq)
  with quantum_digits(2) [OF n mod_64 mod_64] d
  have q: "quantum [b64_char (v div 262144), b64_char (v div 4096 mod 64), b64_char (v div 64 mod 64)] =
      Some (unat a * 1024 + unat b * 4)"
    by presburger
  have "(unat a * 1024 + unat b * 4) div 1024 = unat a" "(unat a * 1024 + unat b * 4) div 4 mod 256 = unat b"
    using unat_u8 [of b] by (simp_all add: div_add1_eq)
  with b64_decode_group(2) [OF q b64_char_not_pad [OF mod_64]] show ?case
    unfolding Base64Encode.simps Let_def v_def [symmetric] by simp
next
  case (3 a)
  define v where "v = unat a * 65536"
  have "v div 64 div 64 = unat a * 16" by (simp add: v_def flip: div_mult2_eq)
  moreover have "v div 262144 * 64 + v div 4096 mod 64 = v div 64 div 64"
    by (simp only: base_64_digits div_mult_mod_eq)
  moreover have n: "v div 262144 < 64" using b64_value_3(1) [OF _ unat_u8, of v a 0 0] by (simp add: v_def)
  ultimately have "quantum [b64_char (v div 262144), b64_char (v div 4096 mod 64)] = Some (unat a * 16)"
    using quantum_digits(1) [OF n mod_64] by presburger
  from b64_decode_group(3) [OF this] show ?case
    unfolding Base64Encode.simps Let_def v_def [symmetric] by simp
qed simp

lemma Base64Encode_chars: "c \<in> set (Base64Encode d) \<Longrightarrow> of_char c > (32 :: nat) \<and> of_char c < (128 :: nat) \<and> c \<noteq> CHR '':'' \<and> c \<noteq> CHR ''@''"
proof (induction d rule: Base64Encode.induct)
  case (1 a b c' rest)
  define v where "v = unat a * 65536 + unat b * 256 + unat c'"
  have "v div 262144 < 64" using b64_value_3(1) [OF v_def unat_u8 unat_u8 unat_u8] .
  with 1 show ?case unfolding Base64Encode.simps Let_def v_def [symmetric] using b64_char_plain mod_64 by auto
next
  case (2 a b)
  define v where "v = unat a * 65536 + unat b * 256"
  have "v div 262144 < 64" using b64_value_3(1) [OF _ unat_u8 unat_u8, of v a b 0] by (simp add: v_def)
  with 2 show ?case unfolding Base64Encode.simps Let_def v_def [symmetric] using b64_char_plain mod_64 by auto
next
  case (3 a)
  define v where "v = unat a * 65536"
  have "v div 262144 < 64" using b64_value_3(1) [OF _ unat_u8, of v a 0 0] by (simp add: v_def)
  with 3 show ?case unfolding Base64Encode.simps Let_def v_def [symmetric] using b64_char_plain mod_64 by auto
qed simp

lemma Base64Encode_no_breaks: "filter (\<lambda>c. c \<noteq> CHR 0x0A \<and> c \<noteq> CHR 0x0D) (Base64Encode d) = Base64Encode d"
  by (auto intro!: filter_True dest!: Base64Encode_chars)

lemma Base64_roundtrip: "Base64Decode (Base64Encode d) = Some d"
  by (simp add: Base64Decode_def Base64Encode_no_breaks b64_decode_encode)

section \<open>Digests\<close>

definition HMAC64 :: "(bytes \<Rightarrow> bytes \<Rightarrow> bytes) \<Rightarrow> bytes \<Rightarrow> bytes \<Rightarrow> bytes" where
  "HMAC64 hmac_sha1 challenge secret = take 8 (hmac_sha1 secret challenge)"

definition HMACHash :: "(bytes \<Rightarrow> bytes \<Rightarrow> bytes) \<Rightarrow> bytes \<Rightarrow> string \<Rightarrow> bytes" where
  "HMACHash hmac_sha1 secret txt = HMAC64 hmac_sha1 (bytes_of_string txt) secret"

definition HashKey :: "(bytes \<Rightarrow> bytes) \<Rightarrow> string \<Rightarrow> bytes" where
  "HashKey md5 txt = take 8 (md5 (bytes_of_string txt))"

section \<open>Block encryption\<close>

text \<open>The loops over the blocks of 8 bytes; their input is a whole number of blocks.\<close>

function each_block :: "(bytes \<Rightarrow> bytes) \<Rightarrow> bytes \<Rightarrow> bytes" where
  "each_block f data = (if data = [] then [] else f (take 8 data) @ each_block f (drop 8 data))"
  by pat_completeness auto
termination by (relation "measure (\<lambda>(f, data). length data)") auto

declare each_block.simps [simp del]

definition pad_block :: "bytes \<Rightarrow> bytes" where
  "pad_block data =
     (let padLen = 8 - length data mod 8; padLen = (if padLen = 8 then 0 else padLen)
      in data @ replicate padLen (of_nat padLen))"

definition unpad_block :: "bytes \<Rightarrow> bytes" where
  "unpad_block decrypted =
     (if length decrypted > 0 then
        let padLen = unat (last decrypted)
        in if padLen > 0 \<and> padLen \<le> 8 \<and> padLen \<le> length decrypted
           then take (length decrypted - padLen) decrypted else decrypted
      else decrypted)"

definition DESEncode :: "(bytes \<Rightarrow> bytes \<Rightarrow> bytes) \<Rightarrow> bytes \<Rightarrow> bytes \<Rightarrow> string + bytes" where
  "DESEncode encrypt key data =
     (if length key \<noteq> 8 then Inl ''DES key must be 8 bytes''
      else Inr (each_block (encrypt key) (pad_block data)))"

definition DESDecode :: "(bytes \<Rightarrow> bytes \<Rightarrow> bytes) \<Rightarrow> bytes \<Rightarrow> bytes \<Rightarrow> string + bytes" where
  "DESDecode decrypt key data =
     (if length key \<noteq> 8 then Inl ''DES key must be 8 bytes''
      else if length data mod 8 \<noteq> 0 then Inl ''DES data must be multiple of 8 bytes''
      else Inr (unpad_block (each_block (decrypt key) data)))"

definition DesEncode :: "(bytes \<Rightarrow> bytes \<Rightarrow> bytes) \<Rightarrow> bytes \<Rightarrow> bytes \<Rightarrow> string + bytes" where
  "DesEncode encrypt secret data = DESEncode encrypt secret data"

definition DesDecode :: "(bytes \<Rightarrow> bytes \<Rightarrow> bytes) \<Rightarrow> bytes \<Rightarrow> bytes \<Rightarrow> string + bytes" where
  "DesDecode decrypt secret data = DESDecode decrypt secret data"

text \<open>What the package relies on of a block cipher: blocks go to blocks and back.\<close>

definition block_cipher :: "(bytes \<Rightarrow> bytes \<Rightarrow> bytes) \<Rightarrow> (bytes \<Rightarrow> bytes \<Rightarrow> bytes) \<Rightarrow> bool" where
  "block_cipher encrypt decrypt \<longleftrightarrow>
     (\<forall>k b. length k = 8 \<longrightarrow> length b = 8 \<longrightarrow>
        length (encrypt k b) = 8 \<and> decrypt k (encrypt k b) = b)"

lemma block_cipherD:
  "block_cipher encrypt decrypt \<Longrightarrow> length k = 8 \<Longrightarrow> length b = 8 \<Longrightarrow>
     length (encrypt k b) = 8 \<and> decrypt k (encrypt k b) = b"
  by (simp add: block_cipher_def)

lemma length_pad_block: "8 dvd length (pad_block data)"
proof -
  have "length data mod 8 < 8" by simp
  then show ?thesis by (simp add: pad_block_def Let_def, presburger)
qed

lemma each_block_inverse:
  assumes "8 dvd length data" and "\<And>b. length b = 8 \<Longrightarrow> length (f b) = 8 \<and> g (f b) = b"
  shows "each_block g (each_block f data) = data \<and> length (each_block f data) = length data"
  using assms
proof (induction f data rule: each_block.induct)
  case (1 f data)
  show ?case
  proof (cases "data = []")
    case False
    then have "8 \<le> length data" using "1.prems"(1) by (simp add: dvd_imp_le)
    then have l: "length (take 8 data) = 8" by simp
    have d: "8 dvd length (drop 8 data)" using "1.prems"(1) by (simp add: dvd_diff_nat)
    from "1.IH" [OF False d "1.prems"(2)] have
      ih: "each_block g (each_block f (drop 8 data)) = drop 8 data"
          "length (each_block f (drop 8 data)) = length (drop 8 data)" by auto
    have f: "length (f (take 8 data)) = 8" "g (f (take 8 data)) = take 8 data" using "1.prems"(2) [OF l] by auto
    have e: "each_block f data = f (take 8 data) @ each_block f (drop 8 data)"
      using False by (subst each_block.simps) simp
    have "each_block g (each_block f data) = take 8 data @ drop 8 data"
      unfolding e by (subst each_block.simps) (use f ih in auto)
    then show ?thesis using f ih l by (simp add: e)
  qed (simp add: each_block.simps)
qed

lemma unpad_pad_block:
  "unpad_block (pad_block data) =
     (if data \<noteq> [] \<and> length data mod 8 = 0 \<and> unat (last data) \<in> {1..8}
      then take (length data - unat (last data)) data else data)"
proof (cases "length data mod 8 = 0")
  case True
  then have "length data \<ge> 8" if "data \<noteq> []" using that by (simp add: dvd_imp_le mod_eq_0_iff_dvd)
  with True show ?thesis by (auto simp: pad_block_def unpad_block_def Let_def)
next
  case False
  define k where "k = 8 - length data mod 8"
  have k: "0 < k" "k < 8" using False by (simp_all add: k_def)
  then have "unat (of_nat k :: u8) = k" by (simp add: unat_of_nat)
  moreover have "pad_block data = data @ replicate k (of_nat k)"
    using k by (simp add: pad_block_def Let_def k_def)
  ultimately show ?thesis using k False by (simp add: unpad_block_def last_append)
qed

lemma dh_shared:
  assumes "length a = 8" and "length b = 8"
  shows "\<exists>pa pb s. DHExchange a = Inr pa \<and> DHExchange b = Inr pb \<and>
           DHSecret a pb = Inr s \<and> DHSecret b pa = Inr s \<and> length s = 8"
proof -
  let ?x = "private_exponent a" and ?y = "private_exponent b"
  have "(dhG ^ ?y mod dhP) ^ ?x mod dhP = (dhG ^ ?x mod dhP) ^ ?y mod dhP"
    by (simp add: power_mod mult.commute flip: power_mult)
  then show ?thesis
    using assms by (simp add: DHExchange_eq DHSecret_eq be_value_public)
qed

lemma DES_inverse:
  assumes "block_cipher encrypt decrypt" and "length key = 8"
  shows "\<exists>c. DESEncode encrypt key data = Inr c \<and>
     DESDecode decrypt key c =
       Inr (if data \<noteq> [] \<and> length data mod 8 = 0 \<and> unat (last data) \<in> {1..8}
            then take (length data - unat (last data)) data else data)"
proof -
  have "each_block (decrypt key) (each_block (encrypt key) (pad_block data)) = pad_block data \<and>
      length (each_block (encrypt key) (pad_block data)) = length (pad_block data)"
    using each_block_inverse [OF length_pad_block] block_cipherD [OF assms] by blast
  with assms(2) length_pad_block [of data] show ?thesis
    by (simp add: DESEncode_def DESDecode_def unpad_pad_block mod_eq_0_iff_dvd)
qed

section \<open>Properties\<close>

text \<open>
  Property C24. Key agreement: for any two 8-byte private keys both sides derive the same 8-byte
  secret from the other's public value, and no step panics.
\<close>

theorem dh_agreement:
  assumes "length a = 8" and "length b = 8"
  shows "\<exists>pa pb s. DHExchange a = Inr pa \<and> DHExchange b = Inr pb \<and>
           DHSecret a pb = Inr s \<and> DHSecret b pa = Inr s \<and> length s = 8"
  using dh_shared [OF assms] .

theorem dh_agreement_witness:
  "\<exists>pa pb s. DHExchange [0, 0, 0, 0, 0, 0, 0, 5] = Inr pa \<and> DHExchange [1, 2, 3, 4, 5, 6, 7, 8] = Inr pb \<and>
     DHSecret [0, 0, 0, 0, 0, 0, 0, 5] pb = Inr s \<and> DHSecret [1, 2, 3, 4, 5, 6, 7, 8] pa = Inr s \<and> length s = 8"
  by (rule dh_agreement) simp_all

text \<open>
  Base64 and hex lose nothing: decoding what was encoded yields the data.
\<close>

theorem text_encodings_roundtrip:
  "Base64Decode (Base64Encode d) = Some d \<and> HexDecode (HexEncode d) = Some d"
  by (simp add: Base64_roundtrip Hex_roundtrip)

text \<open>
  Property C25. Decrypting what was encrypted under the same key yields the data, with one
  exception, stated exactly: data that fills its last block is not padded, and when its last
  byte is between 1 and 8 that many bytes are taken for padding and lost.
\<close>

theorem des_roundtrip:
  assumes "block_cipher encrypt decrypt" and "length key = 8"
  shows "\<exists>c. DESEncode encrypt key data = Inr c \<and>
     DESDecode decrypt key c =
       Inr (if data \<noteq> [] \<and> length data mod 8 = 0 \<and> unat (last data) \<in> {1..8}
            then take (length data - unat (last data)) data else data)"
  using DES_inverse [OF assms] .

theorem des_roundtrip_witness:
  "\<exists>c. DESEncode (\<lambda>k b. rev b) [1, 2, 3, 4, 5, 6, 7, 8] [9, 9, 9, 9, 9, 9, 9, 2] = Inr c \<and>
     DESDecode (\<lambda>k b. rev b) [1, 2, 3, 4, 5, 6, 7, 8] c = Inr [9, 9, 9, 9, 9, 9]"
  using des_roundtrip [of "\<lambda>k b. rev b" "\<lambda>k b. rev b" "[1, 2, 3, 4, 5, 6, 7, 8]" "[9, 9, 9, 9, 9, 9, 9, 2]"]
  by (simp add: block_cipher_def)

end
