(* ===== verification/Cluster.thy ===== *)
theory Cluster
  imports Crypt
begin

text \<open>
  \<^verbatim>\<open>cluster/interfaces.go\<close> and \<^verbatim>\<open>cluster/node.go\<close>: nodes and the cluster manager. Nodes are shared
  pointers (the manager's own node is also in its table) and live in a heap. Loads are
  floating point numbers that the code only stores, of a type of their own. The transport is
  reduced to whether it starts and stops; the address resolver and the random bytes of a
  generated id are arguments. \<open>None\<close> as a result is a panic. The three background loops do
  nothing but wait, except that one of them takes events from the channel.
\<close>

section \<open>Nodes\<close>

type_synonym NodeID = string

datatype NodeState =
    NodeStateUnknown | NodeStateJoining | NodeStateActive | NodeStateSuspected | NodeStateLeaving
  | NodeStateLeft | NodeStateFailed

fun NodeState_String :: "NodeState \<Rightarrow> string" where
  "NodeState_String NodeStateUnknown = ''unknown''"
| "NodeState_String NodeStateJoining = ''joining''"
| "NodeState_String NodeStateActive = ''active''"
| "NodeState_String NodeStateSuspected = ''suspected''"
| "NodeState_String NodeStateLeaving = ''leaving''"
| "NodeState_String NodeStateLeft = ''left''"
| "NodeState_String NodeStateFailed = ''failed''"

record 'f NodeInfo =
  ni_ID :: NodeID
  ni_Address :: string
  ni_Port :: int
  ni_State :: NodeState
  ni_Metadata :: "string \<rightharpoonup> string"
  ni_JoinedAt :: Time
  ni_LastSeen :: Time
  ni_StateChange :: Time
  ni_Load :: 'f
  ni_Version :: string

type_synonym ClusterEventType = string

definition EventNodeJoined :: ClusterEventType where "EventNodeJoined = ''node_joined''"
definition EventNodeLeft :: ClusterEventType where "EventNodeLeft = ''node_left''"
definition EventNodeFailed :: ClusterEventType where "EventNodeFailed = ''node_failed''"
definition EventNodeRecovered :: ClusterEventType where "EventNodeRecovered = ''node_recovered''"
definition EventLeaderElected :: ClusterEventType where "EventLeaderElected = ''leader_elected''"

text \<open>The data of an event: the old and the new state, or nothing.\<close>

record ClusterEvent =
  ce_Type :: ClusterEventType
  ce_NodeID :: NodeID
  ce_Timestamp :: Time
  ce_Data :: "(string \<times> string) option"

record ClusterConfig =
  clc_NodeID :: NodeID
  clc_BindAddr :: string
  clc_BindPort :: int
  clc_ClusterName :: string
  clc_SeedNodes :: "string list"
  clc_HeartbeatInterval :: Duration
  clc_ElectionTimeout :: Duration
  clc_JoinTimeout :: Duration
  clc_LeaveTimeout :: Duration
  clc_SuspicionTimeout :: Duration
  clc_SuspicionMultiplier :: int
  clc_MessageTimeout :: Duration
  clc_MaxMessageSize :: int
  clc_CompressionEnabled :: bool
  clc_EncryptionEnabled :: bool
  clc_GossipFanout :: int
  clc_GossipInterval :: Duration
  clc_PushPullInterval :: Duration
  clc_Metadata :: "(string \<rightharpoonup> string) option"

definition DefaultClusterConfig :: ClusterConfig where
  "DefaultClusterConfig =
     \<lparr>clc_NodeID = [], clc_BindAddr = ''0.0.0.0'', clc_BindPort = 7946, clc_ClusterName = ''sngo-cluster'',
      clc_SeedNodes = [], clc_HeartbeatInterval = 1 * Second, clc_ElectionTimeout = 10 * Second,
      clc_JoinTimeout = 30 * Second, clc_LeaveTimeout = 10 * Second, clc_SuspicionTimeout = 5 * Second,
      clc_SuspicionMultiplier = 3, clc_MessageTimeout = 10 * Second, clc_MaxMessageSize = 1024 * 1024,
      clc_CompressionEnabled = True, clc_EncryptionEnabled = False, clc_GossipFanout = 3,
      clc_GossipInterval = 200 * 1000000, clc_PushPullInterval = 30 * Second, clc_Metadata = Some Map.empty\<rparr>"

text \<open>\<open>cn_managed\<close> tells whether the node knows its manager.\<close>

record 'f localNode =
  loc_id :: NodeID
  loc_address :: "string \<times> int"
  loc_info :: "'f NodeInfo"
  loc_managed :: bool
  loc_lastPing :: Time

record 'f remoteNode =
  rem_info :: "'f NodeInfo"
  rem_managed :: bool
  rem_lastPing :: Time

datatype 'f Node = Local "'f localNode" | Remote "'f remoteNode"

definition generateNodeID :: "bytes \<Rightarrow> NodeID" where
  "generateNodeID b = ''node-'' @ HexEncode b"

text \<open>\<open>addr\<close> is the resolved TCP address: its text and its port.\<close>

definition NewLocalNode ::
  "bytes \<Rightarrow> 'f \<Rightarrow> Time \<Rightarrow> NodeID \<Rightarrow> string \<times> int \<Rightarrow> (string \<rightharpoonup> string) option \<Rightarrow> 'f localNode" where
  "NewLocalNode random zero now nid addr metadata =
     (let nid = (if nid = [] then generateNodeID random else nid);
          metadata = (case metadata of None \<Rightarrow> Map.empty | Some m \<Rightarrow> m)
      in \<lparr>loc_id = nid, loc_address = addr,
          loc_info = \<lparr>ni_ID = nid, ni_Address = fst addr, ni_Port = snd addr, ni_State = NodeStateJoining,
                      ni_Metadata = metadata, ni_JoinedAt = now, ni_LastSeen = now, ni_StateChange = now,
                      ni_Load = zero, ni_Version = ''1.0.0''\<rparr>,
          loc_managed = False, loc_lastPing = 0\<rparr>)"

definition NewRemoteNode :: "'f NodeInfo \<Rightarrow> 'f remoteNode" where
  "NewRemoteNode info = \<lparr>rem_info = info, rem_managed = False, rem_lastPing = 0\<rparr>"

fun Node_ID :: "'f Node \<Rightarrow> NodeID" where
  "Node_ID (Local n) = loc_id n"
| "Node_ID (Remote n) = ni_ID (rem_info n)"

fun Node_Info :: "'f Node \<Rightarrow> 'f NodeInfo" where
  "Node_Info (Local n) = loc_info n"
| "Node_Info (Remote n) = rem_info n"

fun Node_IsLocal :: "'f Node \<Rightarrow> bool" where
  "Node_IsLocal (Local n) = True"
| "Node_IsLocal (Remote n) = False"

definition Node_IsActive :: "'f Node \<Rightarrow> bool" where
  "Node_IsActive n \<longleftrightarrow> ni_State (Node_Info n) = NodeStateActive"

definition getStateChangeEventType :: "NodeState \<Rightarrow> NodeState \<Rightarrow> ClusterEventType" where
  "getStateChangeEventType oldState newState =
     (case newState of
        NodeStateActive \<Rightarrow> if oldState = NodeStateJoining then EventNodeJoined else EventNodeRecovered
      | NodeStateLeft \<Rightarrow> EventNodeLeft
      | NodeStateFailed \<Rightarrow> EventNodeFailed
      | _ \<Rightarrow> EventNodeJoined)"

section \<open>The manager\<close>

record 'f clusterManager =
  cm_config :: ClusterConfig
  cm_localNode :: nat
  cm_nodes :: "NodeID \<rightharpoonup> nat"
  cm_heap :: "nat \<rightharpoonup> 'f Node"
  cm_events :: "ClusterEvent chan"
  cm_listeners :: "nat list"
  cm_notified :: "(nat \<times> ClusterEvent) list"
  cm_leader :: NodeID
  cm_started :: bool

datatype ClusterError = AlreadyStarted | TransportStartFailed | TransportStopFailed | JoinFailed

definition publishEvent :: "ClusterEvent \<Rightarrow> 'f clusterManager \<Rightarrow> 'f clusterManager option" where
  "publishEvent ev cm =
     (let notify = (\<lambda>cm. cm\<lparr>cm_notified := cm_notified cm @ map (\<lambda>l. (l, ev)) (cm_listeners cm)\<rparr>)
      in case try_send ev (cm_events cm) of
           Send_panic \<Rightarrow> None
         | Sent ch \<Rightarrow> Some (notify (cm\<lparr>cm_events := ch\<rparr>))
         | Send_full \<Rightarrow> Some (notify cm))"

definition state_event :: "NodeID \<Rightarrow> NodeState \<Rightarrow> NodeState \<Rightarrow> Time \<Rightarrow> ClusterEvent" where
  "state_event nid oldState state now =
     \<lparr>ce_Type = getStateChangeEventType oldState state, ce_NodeID = nid, ce_Timestamp = now,
      ce_Data = Some (NodeState_String oldState, NodeState_String state)\<rparr>"

definition localNode_UpdateState ::
  "Time \<Rightarrow> NodeState \<Rightarrow> nat \<Rightarrow> 'f localNode \<Rightarrow> 'f clusterManager \<Rightarrow> 'f clusterManager option" where
  "localNode_UpdateState now state a n cm =
     (let oldState = ni_State (loc_info n);
          cm1 = cm\<lparr>cm_heap := (cm_heap cm)(a \<mapsto>
                  Local (n\<lparr>loc_info := (loc_info n)\<lparr>ni_State := state, ni_StateChange := now\<rparr>\<rparr>))\<rparr>
      in if loc_managed n then publishEvent (state_event (loc_id n) oldState state now) cm1 else Some cm1)"

definition remoteNode_UpdateState ::
  "Time \<Rightarrow> NodeState \<Rightarrow> nat \<Rightarrow> 'f remoteNode \<Rightarrow> 'f clusterManager \<Rightarrow> 'f clusterManager option" where
  "remoteNode_UpdateState now state a n cm =
     (let oldState = ni_State (rem_info n);
          cm1 = cm\<lparr>cm_heap := (cm_heap cm)(a \<mapsto>
                  Remote (n\<lparr>rem_info := (rem_info n)\<lparr>ni_State := state, ni_StateChange := now\<rparr>\<rparr>))\<rparr>
      in if rem_managed n then publishEvent (state_event (ni_ID (rem_info n)) oldState state now) cm1 else Some cm1)"

definition Node_UpdateState :: "Time \<Rightarrow> NodeState \<Rightarrow> nat \<Rightarrow> 'f clusterManager \<Rightarrow> 'f clusterManager option" where
  "Node_UpdateState now state a cm =
     (case cm_heap cm a of
        Some (Local n) \<Rightarrow> localNode_UpdateState now state a n cm
      | Some (Remote n) \<Rightarrow> remoteNode_UpdateState now state a n cm
      | None \<Rightarrow> None)"

definition localNode_UpdateLoad :: "Time \<Rightarrow> 'f \<Rightarrow> 'f localNode \<Rightarrow> 'f localNode" where
  "localNode_UpdateLoad now load n = n\<lparr>loc_info := (loc_info n)\<lparr>ni_Load := load, ni_LastSeen := now\<rparr>\<rparr>"

definition remoteNode_UpdateLoad :: "Time \<Rightarrow> 'f \<Rightarrow> 'f remoteNode \<Rightarrow> 'f remoteNode" where
  "remoteNode_UpdateLoad now load n = n\<lparr>rem_info := (rem_info n)\<lparr>ni_Load := load, ni_LastSeen := now\<rparr>\<rparr>"

text \<open>A ping of a remote node waits 10 ms; \<open>cancelled\<close> when the context ends first.\<close>

definition localNode_Ping :: "Time \<Rightarrow> 'f localNode \<Rightarrow> 'f localNode" where
  "localNode_Ping start n = n\<lparr>loc_lastPing := start\<rparr>"

definition remoteNode_Ping :: "bool \<Rightarrow> Time \<Rightarrow> 'f remoteNode \<Rightarrow> bool \<times> 'f remoteNode" where
  "remoteNode_Ping cancelled start n = (if cancelled then (False, n) else (True, n\<lparr>rem_lastPing := start\<rparr>))"

definition NewClusterManager ::
  "(string \<Rightarrow> int \<Rightarrow> (string \<times> int) option) \<Rightarrow> bytes \<Rightarrow> 'f \<Rightarrow> Time \<Rightarrow> ClusterConfig option \<Rightarrow> 'f clusterManager option" where
  "NewClusterManager resolve random zero now config =
     (let config = (case config of None \<Rightarrow> DefaultClusterConfig | Some c \<Rightarrow> c)
      in case resolve (clc_BindAddr config) (clc_BindPort config) of
           None \<Rightarrow> None
         | Some bindAddr \<Rightarrow>
             Some \<lparr>cm_config = config, cm_localNode = 0, cm_nodes = Map.empty,
                   cm_heap = [0 \<mapsto> Local (NewLocalNode random zero now (clc_NodeID config) bindAddr (clc_Metadata config))],
                   cm_events = make_chan 100, cm_listeners = [], cm_notified = [], cm_leader = [], cm_started = False\<rparr>)"

definition addNode :: "nat \<Rightarrow> 'f clusterManager \<Rightarrow> 'f clusterManager" where
  "addNode a cm =
     (case cm_heap cm a of
        None \<Rightarrow> cm
      | Some n \<Rightarrow>
          cm\<lparr>cm_nodes := (cm_nodes cm)(Node_ID n \<mapsto> a),
             cm_heap := (cm_heap cm)(a \<mapsto>
               (case n of Local m \<Rightarrow> Local (m\<lparr>loc_managed := True\<rparr>) | Remote m \<Rightarrow> Remote (m\<lparr>rem_managed := True\<rparr>)))\<rparr>)"

definition local_ID :: "'f clusterManager \<Rightarrow> NodeID" where
  "local_ID cm = Node_ID (the (cm_heap cm (cm_localNode cm)))"

definition electSelf :: "Time \<Rightarrow> 'f clusterManager \<Rightarrow> 'f clusterManager option" where
  "electSelf now cm =
     publishEvent \<lparr>ce_Type = EventLeaderElected, ce_NodeID = local_ID cm, ce_Timestamp = now, ce_Data = None\<rparr>
       (cm\<lparr>cm_leader := local_ID cm\<rparr>)"

text \<open>\<open>listening\<close> and \<open>stopped\<close> are the results of the transport's \<^verbatim>\<open>Start\<close> and \<^verbatim>\<open>Stop\<close>.\<close>

definition cm_Start :: "bool \<Rightarrow> Time \<Rightarrow> 'f clusterManager \<Rightarrow> ((ClusterError + unit) \<times> 'f clusterManager) option" where
  "cm_Start listening now cm =
     (if cm_started cm then Some (Inl AlreadyStarted, cm)
      else
        let cm1 = cm\<lparr>cm_started := True\<rparr>
        in if \<not> listening then Some (Inl TransportStartFailed, cm1)
           else case Node_UpdateState now NodeStateActive (cm_localNode cm1) (addNode (cm_localNode cm1) cm1) of
                  None \<Rightarrow> None
                | Some cm2 \<Rightarrow>
                    if clc_SeedNodes (cm_config cm2) = []
                    then map_option (\<lambda>cm3. (Inr (), cm3)) (electSelf now cm2)
                    else Some (Inr (), cm2))"

definition cm_Stop :: "bool \<Rightarrow> Time \<Rightarrow> 'f clusterManager \<Rightarrow> ((ClusterError + unit) \<times> 'f clusterManager) option" where
  "cm_Stop stopped now cm =
     (if \<not> cm_started cm then Some (Inr (), cm)
      else
        case Node_UpdateState now NodeStateLeaving (cm_localNode cm) (cm\<lparr>cm_started := False\<rparr>) of
          None \<Rightarrow> None
        | Some cm1 \<Rightarrow>
            if \<not> stopped then Some (Inl TransportStopFailed, cm1)
            else case Node_UpdateState now NodeStateLeft (cm_localNode cm1) cm1 of
                   None \<Rightarrow> None
                 | Some cm2 \<Rightarrow>
                     (case close_chan (cm_events cm2) of
                        None \<Rightarrow> None
                      | Some ch \<Rightarrow> Some (Inr (), cm2\<lparr>cm_events := ch\<rparr>)))"

definition joinViaSeed :: "string \<Rightarrow> 'f clusterManager \<Rightarrow> bool" where
  "joinViaSeed seed cm = False"

definition cm_Join :: "string list \<Rightarrow> Time \<Rightarrow> 'f clusterManager \<Rightarrow> ((ClusterError + unit) \<times> 'f clusterManager) option" where
  "cm_Join seeds now cm =
     (if seeds = [] then map_option (\<lambda>cm'. (Inr (), cm')) (electSelf now cm)
      else if list_ex (\<lambda>seed. joinViaSeed seed cm) seeds then Some (Inr (), cm)
      else Some (Inl JoinFailed, cm))"

definition cm_Leave :: "bool \<Rightarrow> Time \<Rightarrow> 'f clusterManager \<Rightarrow> ((ClusterError + unit) \<times> 'f clusterManager) option" where
  "cm_Leave stopped now cm = cm_Stop stopped now cm"

definition GetNode :: "NodeID \<Rightarrow> 'f clusterManager \<Rightarrow> 'f Node option" where
  "GetNode nid cm = (case cm_nodes cm nid of None \<Rightarrow> None | Some a \<Rightarrow> cm_heap cm a)"

definition GetAllNodes :: "NodeID list \<Rightarrow> 'f clusterManager \<Rightarrow> 'f Node list" where
  "GetAllNodes ks cm = List.map_filter (\<lambda>k. GetNode k cm) ks"

definition GetActiveNodes :: "NodeID list \<Rightarrow> 'f clusterManager \<Rightarrow> 'f Node list" where
  "GetActiveNodes ks cm = filter Node_IsActive (GetAllNodes ks cm)"

definition IsLeader :: "'f clusterManager \<Rightarrow> bool" where
  "IsLeader cm \<longleftrightarrow> cm_leader cm = local_ID cm"

definition GetLeader :: "'f clusterManager \<Rightarrow> 'f Node option" where
  "GetLeader cm = (if cm_leader cm = [] then None else GetNode (cm_leader cm) cm)"

definition AddEventListener :: "nat \<Rightarrow> 'f clusterManager \<Rightarrow> 'f clusterManager" where
  "AddEventListener l cm = cm\<lparr>cm_listeners := cm_listeners cm @ [l]\<rparr>"

definition GetClusterSize :: "NodeID list \<Rightarrow> 'f clusterManager \<Rightarrow> nat" where
  "GetClusterSize ks cm = length (GetActiveNodes ks cm)"

record ClusterHealth =
  ch_TotalNodes :: nat
  ch_ActiveNodes :: nat
  ch_SuspectedNodes :: nat
  ch_FailedNodes :: nat
  ch_HasLeader :: bool
  ch_LeaderID :: NodeID
  ch_PartitionCount :: nat
  ch_LastUpdate :: Time
  ch_IsHealthy :: bool

definition count_state :: "NodeState set \<Rightarrow> 'f Node list \<Rightarrow> nat" where
  "count_state S ns = length (filter (\<lambda>n. ni_State (Node_Info n) \<in> S) ns)"

definition GetClusterHealth :: "NodeID list \<Rightarrow> Time \<Rightarrow> 'f clusterManager \<Rightarrow> ClusterHealth" where
  "GetClusterHealth ks now cm =
     (let nodes = GetAllNodes ks cm;
          active = count_state {NodeStateActive} nodes;
          hasLeader = (GetLeader cm \<noteq> None)
      in \<lparr>ch_TotalNodes = length nodes, ch_ActiveNodes = active,
          ch_SuspectedNodes = count_state {NodeStateSuspected} nodes,
          ch_FailedNodes = count_state {NodeStateFailed, NodeStateLeft} nodes, ch_HasLeader = hasLeader,
          ch_LeaderID = (case GetLeader cm of Some n \<Rightarrow> Node_ID n | None \<Rightarrow> []), ch_PartitionCount = 1,
          ch_LastUpdate = now,
          ch_IsHealthy = (if length nodes > 1 then hasLeader \<and> active > length nodes div 2
                          else hasLeader \<and> active > 0)\<rparr>)"

definition HandleConnectionLost :: "NodeID \<Rightarrow> Time \<Rightarrow> 'f clusterManager \<Rightarrow> 'f clusterManager option" where
  "HandleConnectionLost nid now cm =
     (case cm_nodes cm nid of None \<Rightarrow> Some cm | Some a \<Rightarrow> Node_UpdateState now NodeStateSuspected a cm)"

definition HandleConnectionEstablished :: "NodeID \<Rightarrow> Time \<Rightarrow> 'f clusterManager \<Rightarrow> 'f clusterManager option" where
  "HandleConnectionEstablished nid now cm =
     (case cm_nodes cm nid of None \<Rightarrow> Some cm | Some a \<Rightarrow> Node_UpdateState now NodeStateActive a cm)"

text \<open>One turn of \<^verbatim>\<open>eventProcessingLoop\<close>: an event is taken and \<^verbatim>\<open>processEvent\<close> ignores it.\<close>

definition process_one_event :: "'f clusterManager \<Rightarrow> 'f clusterManager" where
  "process_one_event cm =
     (case try_recv (cm_events cm) of Received ev ch \<Rightarrow> cm\<lparr>cm_events := ch\<rparr> | _ \<Rightarrow> cm)"

section \<open>Histories\<close>

text \<open>
  The calls on a manager: those of its clients, those of the transport, and the turns of the
  event loop. A history ends at the first panic.
\<close>

datatype cluster_op =
    Op_Start bool Time | Op_Stop bool Time | Op_Join "string list" Time
  | Op_AddEventListener nat | Op_ConnectionLost NodeID Time | Op_ConnectionEstablished NodeID Time
  | Op_Process

fun cluster_exec :: "cluster_op \<Rightarrow> 'f clusterManager \<Rightarrow> 'f clusterManager option" where
  "cluster_exec (Op_Start listening now) cm = map_option snd (cm_Start listening now cm)"
| "cluster_exec (Op_Stop stopped now) cm = map_option snd (cm_Stop stopped now cm)"
| "cluster_exec (Op_Join seeds now) cm = map_option snd (cm_Join seeds now cm)"
| "cluster_exec (Op_AddEventListener l) cm = Some (AddEventListener l cm)"
| "cluster_exec (Op_ConnectionLost nid now) cm = HandleConnectionLost nid now cm"
| "cluster_exec (Op_ConnectionEstablished nid now) cm = HandleConnectionEstablished nid now cm"
| "cluster_exec Op_Process cm = Some (process_one_event cm)"

fun cluster_run :: "cluster_op list \<Rightarrow> 'f clusterManager \<Rightarrow> 'f clusterManager option" where
  "cluster_run [] cm = Some cm"
| "cluster_run (p # ps) cm = Option.bind (cluster_exec p cm) (cluster_run ps)"

text \<open>
  The invariant: the manager knows one node, its own, which carries one id; the table is
  empty or holds that node; the leader is nobody or that node.
\<close>

definition own_node :: "'f clusterManager \<Rightarrow> 'f localNode option" where
  "own_node cm =
     (case cm_heap cm (cm_localNode cm) of Some (Local n) \<Rightarrow> Some n | _ \<Rightarrow> None)"

definition cluster_inv :: "NodeID \<Rightarrow> 'f clusterManager \<Rightarrow> bool" where
  "cluster_inv nid cm \<longleftrightarrow>
     (\<exists>n. cm_heap cm = [cm_localNode cm \<mapsto> Local n] \<and> loc_id n = nid \<and>
          (cm_nodes cm = Map.empty \<or> cm_nodes cm = [nid \<mapsto> cm_localNode cm]) \<and>
          cm_leader cm \<in> {[], nid} \<and> chan_ok (cm_events cm))"

lemma publishEvent_eq:
  "publishEvent ev cm =
     (if ch_closed (cm_events cm) then None
      else Some (cm\<lparr>cm_events := offer ev (cm_events cm),
                    cm_notified := cm_notified cm @ map (\<lambda>l. (l, ev)) (cm_listeners cm)\<rparr>))"
  by (cases cm) (simp add: publishEvent_def try_send_def offer_def Let_def)

lemma cluster_inv_publish:
  assumes "publishEvent ev cm = Some cm'" "cluster_inv nid cm"
  shows "cluster_inv nid cm'"
  using assms by (auto simp: publishEvent_eq cluster_inv_def chan_ok_offer split: if_splits)

lemma cluster_inv_UpdateState:
  assumes "Node_UpdateState now state a cm = Some cm'" "cluster_inv nid cm"
  shows "cluster_inv nid cm'"
proof -
  from assms(2) obtain n where h: "cm_heap cm = [cm_localNode cm \<mapsto> Local n]"
    and t: "cm_nodes cm = Map.empty \<or> cm_nodes cm = [nid \<mapsto> cm_localNode cm]"
    and l: "loc_id n = nid" "cm_leader cm \<in> {[], nid}" "chan_ok (cm_events cm)"
    by (auto simp: cluster_inv_def)
  define n' where "n' = n\<lparr>loc_info := (loc_info n)\<lparr>ni_State := state, ni_StateChange := now\<rparr>\<rparr>"
  define cm1 where "cm1 = cm\<lparr>cm_heap := [cm_localNode cm \<mapsto> Local n']\<rparr>"
  have a: "a = cm_localNode cm"
    using assms(1) h by (auto simp: Node_UpdateState_def split: if_splits)
  have u: "Node_UpdateState now state a cm =
      (if loc_managed n then publishEvent (state_event (loc_id n) (ni_State (loc_info n)) state now) cm1
       else Some cm1)"
    by (simp add: Node_UpdateState_def localNode_UpdateState_def Let_def a h cm1_def n'_def)
  have "cluster_inv nid cm1"
    using t l by (auto simp: cluster_inv_def cm1_def n'_def)
  then show ?thesis
    using assms(1) u cluster_inv_publish by (auto split: if_splits)
qed

lemma cluster_inv_addNode: "cluster_inv nid cm \<Longrightarrow> cluster_inv nid (addNode (cm_localNode cm) cm)"
  by (auto simp: cluster_inv_def addNode_def)

lemma cluster_inv_electSelf: "\<lbrakk>electSelf now cm = Some cm'; cluster_inv nid cm\<rbrakk> \<Longrightarrow> cluster_inv nid cm'"
  unfolding electSelf_def
  by (erule cluster_inv_publish) (auto simp: cluster_inv_def local_ID_def)

lemma cluster_inv_flags [simp]:
  "cluster_inv nid (cm\<lparr>cm_started := b\<rparr>) = cluster_inv nid cm"
  "cluster_inv nid (cm\<lparr>cm_listeners := ls\<rparr>) = cluster_inv nid cm"
  by (simp_all add: cluster_inv_def)

lemma cluster_inv_Start:
  assumes "cm_Start listening now cm = Some (r, cm')" "cluster_inv nid cm"
  shows "cluster_inv nid cm'"
  using assms cluster_inv_addNode [of nid "cm\<lparr>cm_started := True\<rparr>"]
  by (auto simp: cm_Start_def Let_def split: if_splits option.splits
      dest: cluster_inv_UpdateState cluster_inv_electSelf)

lemma cluster_inv_Stop:
  assumes "cm_Stop stopped now cm = Some (r, cm')" "cluster_inv nid cm"
  shows "cluster_inv nid cm'"
  using assms
  by (auto simp: cm_Stop_def close_chan_def split: if_splits option.splits dest!: cluster_inv_UpdateState)
    (auto simp: cluster_inv_def chan_ok_def)

lemma cluster_inv_exec:
  assumes "cluster_exec p cm = Some cm'" "cluster_inv nid cm"
  shows "cluster_inv nid cm'"
proof (cases p)
  case (Op_Join seeds now)
  then show ?thesis
    using assms by (auto simp: cm_Join_def split: if_splits intro: cluster_inv_electSelf)
next
  case Op_Process
  then show ?thesis
    using assms
    by (cases "ch_buf (cm_events cm)")
      (auto simp: process_one_event_def try_recv_def cluster_inv_def chan_ok_def split: if_splits)
qed (use assms in \<open>auto simp: AddEventListener_def HandleConnectionLost_def HandleConnectionEstablished_def
       split: option.splits intro: cluster_inv_Start cluster_inv_Stop cluster_inv_UpdateState\<close>)

lemma cluster_inv_run: "\<lbrakk>cluster_run ps cm = Some cm'; cluster_inv nid cm\<rbrakk> \<Longrightarrow> cluster_inv nid cm'"
  by (induction ps arbitrary: cm) (auto simp: Option.bind_eq_Some_conv dest: cluster_inv_exec)

lemma cluster_inv_New: "NewClusterManager resolve random zero now config = Some cm \<Longrightarrow> cluster_inv (local_ID cm) cm"
  by (auto simp: local_ID_def NewClusterManager_def cluster_inv_def Let_def split: option.splits)

text \<open>What the invariant says about the queries.\<close>

lemma cluster_inv_nodes:
  assumes "cluster_inv nid cm" "set ks = dom (cm_nodes cm)" "distinct ks"
  obtains n where "cm_heap cm = [cm_localNode cm \<mapsto> Local n]" "loc_id n = nid"
    "cm_nodes cm = Map.empty" "GetAllNodes ks cm = []"
  | n where "cm_heap cm = [cm_localNode cm \<mapsto> Local n]" "loc_id n = nid"
    "cm_nodes cm = [nid \<mapsto> cm_localNode cm]" "GetAllNodes ks cm = [Local n]"
proof -
  from assms(1) obtain n where n: "cm_heap cm = [cm_localNode cm \<mapsto> Local n]" "loc_id n = nid"
    and t: "cm_nodes cm = Map.empty \<or> cm_nodes cm = [nid \<mapsto> cm_localNode cm]"
    by (auto simp: cluster_inv_def)
  show thesis
  proof (cases "cm_nodes cm = Map.empty")
    case True
    then show thesis
      using that(1) [of n] n assms(2) by (simp add: GetAllNodes_def List.map_filter_def)
  next
    case False
    then have c: "cm_nodes cm = [nid \<mapsto> cm_localNode cm]"
      using t by blast
    then have "set ks = {nid}"
      using assms(2) by simp
    then have "ks = [nid]"
      using assms(3) by (cases ks) (auto simp: subset_singleton_iff)
    then show thesis
      using that(2) [of n] n c by (simp add: GetAllNodes_def GetNode_def List.map_filter_def)
  qed
qed

lemma NewLocalNode_id [simp]: "loc_id (NewLocalNode random zero now nid addr metadata) \<noteq> []"
  by (simp add: NewLocalNode_def Let_def generateNodeID_def)

lemma NewLocalNode_state [simp]:
  "ni_State (loc_info (NewLocalNode random zero now nid addr metadata)) = NodeStateJoining"
  by (simp add: NewLocalNode_def Let_def)

lemma New_local_ID: "NewClusterManager resolve random zero now config = Some cm \<Longrightarrow> local_ID cm \<noteq> []"
  by (auto simp: NewClusterManager_def local_ID_def Let_def split: option.splits)

text \<open>
  Whatever is called on a manager, short of a panic, it never knows any node
  but its own: all nodes, active nodes, the leader and the size of the cluster are about that
  node, and the cluster is healthy exactly when that node has elected itself and is active.
  Nothing the transport reports adds a node.
\<close>

theorem cluster_single_node:
  assumes "NewClusterManager resolve random zero now config = Some cm0"
    and "cluster_run ps cm0 = Some cm"
    and "set ks = dom (cm_nodes cm)" "distinct ks"
  shows "local_ID cm = local_ID cm0 \<and>
    (\<forall>n\<in>set (GetAllNodes ks cm). Node_IsLocal n \<and> Node_ID n = local_ID cm0) \<and>
    ch_TotalNodes (GetClusterHealth ks t cm) \<le> 1 \<and>
    GetClusterSize ks cm \<le> ch_TotalNodes (GetClusterHealth ks t cm) \<and>
    (GetLeader cm \<noteq> None \<longleftrightarrow> IsLeader cm \<and> cm_nodes cm \<noteq> Map.empty) \<and>
    (ch_IsHealthy (GetClusterHealth ks t cm) \<longleftrightarrow> IsLeader cm \<and> GetClusterSize ks cm = 1)"
proof (intro conjI)
  have inv: "cluster_inv (local_ID cm0) cm"
    using cluster_inv_run [OF assms(2) cluster_inv_New [OF assms(1)]] .
  have ne: "local_ID cm0 \<noteq> []"
    using New_local_ID [OF assms(1)] .
  have l: "cm_leader cm \<in> {[], local_ID cm0}"
    using inv by (auto simp: cluster_inv_def)
  note defs = GetClusterHealth_def GetClusterSize_def GetActiveNodes_def GetLeader_def GetNode_def IsLeader_def
    count_state_def Node_IsActive_def local_ID_def Let_def
  have i: "local_ID cm = local_ID cm0"
    using inv by (auto simp: cluster_inv_def local_ID_def)
  then show "local_ID cm = local_ID cm0" .
  from inv assms(3,4) show "\<forall>n\<in>set (GetAllNodes ks cm). Node_IsLocal n \<and> Node_ID n = local_ID cm0"
    by (rule cluster_inv_nodes) auto
  from inv assms(3,4) show "ch_TotalNodes (GetClusterHealth ks t cm) \<le> 1"
    by (rule cluster_inv_nodes) (auto simp: defs)
  from inv assms(3,4) show "GetClusterSize ks cm \<le> ch_TotalNodes (GetClusterHealth ks t cm)"
    by (rule cluster_inv_nodes) (auto simp: defs)
  from inv assms(3,4) show "GetLeader cm \<noteq> None \<longleftrightarrow> IsLeader cm \<and> cm_nodes cm \<noteq> Map.empty"
    by (rule cluster_inv_nodes) (use l ne i in \<open>auto simp: defs\<close>)
  from inv assms(3,4)
  show "ch_IsHealthy (GetClusterHealth ks t cm) \<longleftrightarrow> IsLeader cm \<and> GetClusterSize ks cm = 1"
    by (rule cluster_inv_nodes) (use l ne i in \<open>auto simp: defs\<close>)
qed

text \<open>A manager with the default configuration, and what starting and stopping it does.\<close>

definition demo_cluster :: "nat clusterManager" where
  "demo_cluster = the (NewClusterManager (\<lambda>h p. Some (h, p)) [0, 1] 0 1 (Some (DefaultClusterConfig\<lparr>clc_NodeID := ''n1''\<rparr>)))"

lemma demo_cluster_new:
  "NewClusterManager (\<lambda>h p. Some (h, p)) [0, 1] 0 1 (Some (DefaultClusterConfig\<lparr>clc_NodeID := ''n1''\<rparr>)) = Some demo_cluster"
  by (simp add: demo_cluster_def NewClusterManager_def)

lemmas cluster_ops = cm_Start_def cm_Stop_def Node_UpdateState_def localNode_UpdateState_def addNode_def electSelf_def
  publishEvent_eq close_chan_def local_ID_def Let_def

lemma demo_cluster_run:
  "\<exists>cm. cluster_run [Op_Start True 2, Op_ConnectionLost ''n1'' 3, Op_ConnectionEstablished ''n1'' 4] demo_cluster = Some cm \<and>
     cm_nodes cm = [''n1'' \<mapsto> 0] \<and> IsLeader cm \<and> GetClusterSize [''n1''] cm = 1"
  by (simp add: demo_cluster_def NewClusterManager_def NewLocalNode_def DefaultClusterConfig_def cluster_ops chan_defs
      HandleConnectionLost_def HandleConnectionEstablished_def IsLeader_def GetClusterSize_def GetActiveNodes_def
      GetAllNodes_def GetNode_def List.map_filter_def Node_IsActive_def)

theorem cluster_single_node_witness:
  "\<exists>cm. cluster_run [Op_Start True 2, Op_ConnectionLost ''n1'' 3, Op_ConnectionEstablished ''n1'' 4] demo_cluster = Some cm \<and>
     ch_TotalNodes (GetClusterHealth [''n1''] 5 cm) \<le> 1 \<and> ch_IsHealthy (GetClusterHealth [''n1''] 5 cm)"
proof -
  obtain cm where cm: "cluster_run [Op_Start True 2, Op_ConnectionLost ''n1'' 3, Op_ConnectionEstablished ''n1'' 4] demo_cluster = Some cm"
    "cm_nodes cm = [''n1'' \<mapsto> 0]" "IsLeader cm" "GetClusterSize [''n1''] cm = 1"
    using demo_cluster_run by blast
  from cluster_single_node [OF demo_cluster_new cm(1), of "[''n1'']" 5] cm show ?thesis by auto
qed

text \<open>
  A new manager without seeds that starts becomes the leader of a healthy cluster
  of one and announces that its node joined and that it leads. Stopping it then leaves a
  cluster that is not healthy and has no active node, although the manager still counts as
  leader; the node that is leaving is announced as one that joined.
\<close>

theorem cluster_start_stop:
  assumes "NewClusterManager resolve random zero now config = Some cm0"
    and "clc_SeedNodes (cm_config cm0) = []"
  shows "\<exists>cm1 cm2 evs. cm_Start True t1 cm0 = Some (Inr (), cm1) \<and> cm_Stop True t2 cm1 = Some (Inr (), cm2) \<and>
     dom (cm_nodes cm1) = {local_ID cm0} \<and> dom (cm_nodes cm2) = {local_ID cm0} \<and>
     IsLeader cm1 \<and> ch_IsHealthy (GetClusterHealth [local_ID cm0] t cm1) \<and> GetClusterSize [local_ID cm0] cm1 = 1 \<and>
     IsLeader cm2 \<and> \<not> ch_IsHealthy (GetClusterHealth [local_ID cm0] t cm2) \<and> GetClusterSize [local_ID cm0] cm2 = 0 \<and>
     ch_buf (cm_events cm1) = take 2 evs \<and> ch_buf (cm_events cm2) = evs \<and> ch_closed (cm_events cm2) \<and>
     map (\<lambda>ev. (ce_Type ev, ce_NodeID ev)) evs =
       [(EventNodeJoined, local_ID cm0), (EventLeaderElected, local_ID cm0),
        (EventNodeJoined, local_ID cm0), (EventNodeLeft, local_ID cm0)]"
proof -
  obtain n cfg where cm0: "cm0 = \<lparr>cm_config = cfg, cm_localNode = 0, cm_nodes = Map.empty, cm_heap = [0 \<mapsto> Local n],
      cm_events = make_chan 100, cm_listeners = [], cm_notified = [], cm_leader = [], cm_started = False\<rparr>"
    and n: "ni_State (loc_info n) = NodeStateJoining" "loc_id n \<noteq> []"
    using assms(1) by (auto simp: NewClusterManager_def Let_def split: option.splits)
  show ?thesis
    using assms(2) n
    by (simp add: cm0 cluster_ops chan_defs state_event_def getStateChangeEventType_def IsLeader_def GetClusterHealth_def
        GetLeader_def GetClusterSize_def GetActiveNodes_def GetAllNodes_def GetNode_def List.map_filter_def
        Node_IsActive_def count_state_def)
qed

theorem cluster_start_stop_witness:
  "\<exists>cm1. cm_Start True 2 demo_cluster = Some (Inr (), cm1) \<and> IsLeader cm1"
  using cluster_start_stop [OF demo_cluster_new, of 2 3 4]
  by (auto simp: demo_cluster_def NewClusterManager_def DefaultClusterConfig_def)

lemma UpdateState_managed:
  "\<lbrakk>cm_heap cm a = Some (Local n); loc_managed n; ch_closed (cm_events cm)\<rbrakk> \<Longrightarrow> Node_UpdateState now state a cm = None"
  by (simp add: Node_UpdateState_def localNode_UpdateState_def publishEvent_eq)

lemma Start_closed:
  assumes "cluster_inv nid cm" "\<not> cm_started cm" "ch_closed (cm_events cm)"
  shows "cm_Start True now cm = None"
proof -
  let ?cm = "addNode (cm_localNode cm) (cm\<lparr>cm_started := True\<rparr>)"
  obtain n where "cm_heap ?cm (cm_localNode cm) = Some (Local n)" "loc_managed n"
    using assms(1) by (auto simp: cluster_inv_def addNode_def)
  moreover have "ch_closed (cm_events ?cm)"
    using assms by (auto simp: cluster_inv_def addNode_def)
  ultimately show ?thesis
    using assms(2) by (simp add: cm_Start_def Let_def UpdateState_managed)
qed

lemma Stop_closes:
  assumes "cm_Stop stopped now cm = Some (Inr (), cm')" "cm_started cm"
  shows "ch_closed (cm_events cm')" and "\<not> cm_started cm'"
proof -
  have st: "cm_started y = cm_started x" if "Node_UpdateState t s a x = Some y" for t s a and x y :: "'a clusterManager"
    using that by (auto simp: Node_UpdateState_def localNode_UpdateState_def remoteNode_UpdateState_def Let_def
        publishEvent_eq split: option.splits Node.splits if_splits)
  show "ch_closed (cm_events cm')"
    using assms by (auto simp: cm_Stop_def close_chan_def split: option.splits if_splits)
  show "\<not> cm_started cm'"
    using assms by (auto simp: cm_Stop_def split: option.splits if_splits dest!: st)
qed

text \<open>
  A manager that has been stopped cannot be started again: stopping closes the
  channel of events for good, and starting publishes on it, which panics.
\<close>

theorem cluster_restart_panics:
  assumes "NewClusterManager resolve random zero now config = Some cm0"
    and "cluster_run ps cm0 = Some cm" and "cm_started cm"
    and "cm_Stop stopped t1 cm = Some (Inr (), cm')"
  shows "cm_Start True t2 cm' = None"
proof -
  have "cluster_inv (local_ID cm0) cm'"
    using cluster_inv_run [OF assms(2) cluster_inv_New [OF assms(1)]] cluster_inv_Stop [OF assms(4)] by blast
  then show ?thesis
    using Stop_closes [OF assms(4,3)] Start_closed by blast
qed

theorem cluster_restart_panics_witness:
  "\<exists>cm1 cm2. cm_Start True 2 demo_cluster = Some (Inr (), cm1) \<and> cm_Stop True 3 cm1 = Some (Inr (), cm2) \<and>
     cm_Start True 4 cm2 = None"
proof -
  obtain cm1 cm2 where cm: "cluster_run [Op_Start True 2] demo_cluster = Some cm1" "cm_started cm1"
    "cm_Start True 2 demo_cluster = Some (Inr (), cm1)" "cm_Stop True 3 cm1 = Some (Inr (), cm2)"
    by (simp add: demo_cluster_def NewClusterManager_def NewLocalNode_def DefaultClusterConfig_def cluster_ops chan_defs)
  from cluster_restart_panics [OF demo_cluster_new cm(1,2,4), of 4] cm show ?thesis by blast
qed

end
