(* ===== verification/Json.thy ===== *)
theory Json
  imports Go_Strings
begin

text \<open>
  Go's \<^verbatim>\<open>encoding/json\<close> as the example services use it: \<^verbatim>\<open>Marshal\<close> of the values they build, and
  \<^verbatim>\<open>Unmarshal\<close> of bytes into \<^verbatim>\<open>interface{}\<close> and into the command structures. A text is checked
  as a whole first, as \<^verbatim>\<open>Unmarshal\<close> does; here it is cut into tokens, and a machine with a stack
  of open arrays and objects reads the tokens, at most 10000 deep. A number keeps its literal;
  what the conversion of its \<^verbatim>\<open>float64\<close> to an integer gives is computed from it.
\<close>

section \<open>Values and tokens\<close>

datatype json =
    JNull
  | JBool bool
  | JNum string
  | JStr string
  | JArr "json list"
  | JObj "(string \<times> json) list"

datatype token =
    T_null | T_true | T_false | T_num string | T_str string
  | LBrack | RBrack | LBrace | RBrace | Comma | Colon

section \<open>UTF-8\<close>

abbreviation code :: "char \<Rightarrow> nat" where
  "code c \<equiv> of_char c"

definition cont :: "char \<Rightarrow> bool" where
  "cont c \<longleftrightarrow> 0x80 \<le> code c \<and> code c \<le> 0xBF"

text \<open>The bytes of the valid multi-byte sequence a text starts with, 0 when there is none.\<close>

definition utf8_length :: "string \<Rightarrow> nat" where
  "utf8_length s =
     (case s of
        a # b # s2 \<Rightarrow>
          if 0xC2 \<le> code a \<and> code a \<le> 0xDF then (if cont b then 2 else 0)
          else (case s2 of
             c # s3 \<Rightarrow>
               if 0xE0 \<le> code a \<and> code a \<le> 0xEF
               then (if cont b \<and> cont c \<and> (code a = 0xE0 \<longrightarrow> 0xA0 \<le> code b) \<and> (code a = 0xED \<longrightarrow> code b \<le> 0x9F) then 3 else 0)
               else (case s3 of
                  d # s4 \<Rightarrow>
                    if 0xF0 \<le> code a \<and> code a \<le> 0xF4 \<and> cont b \<and> cont c \<and> cont d \<and>
                       (code a = 0xF0 \<longrightarrow> 0x90 \<le> code b) \<and> (code a = 0xF4 \<longrightarrow> code b \<le> 0x8F)
                    then 4 else 0
                | [] \<Rightarrow> 0)
           | [] \<Rightarrow> 0)
      | _ \<Rightarrow> 0)"

text \<open>The encoding of U+FFFD, which stands in for what is not valid.\<close>

definition rune_error :: string where
  "rune_error = [CHR 0xEF, CHR 0xBF, CHR 0xBD]"

definition EncodeRune :: "nat \<Rightarrow> string" where
  "EncodeRune n =
     (if n < 0x80 then [char_of n]
      else if n < 0x800 then [char_of (0xC0 + n div 64), char_of (0x80 + n mod 64)]
      else if 0xD800 \<le> n \<and> n \<le> 0xDFFF \<or> 0x10FFFF < n then rune_error
      else if n < 0x10000 then [char_of (0xE0 + n div 4096), char_of (0x80 + n div 64 mod 64), char_of (0x80 + n mod 64)]
      else [char_of (0xF0 + n div 262144), char_of (0x80 + n div 4096 mod 64), char_of (0x80 + n div 64 mod 64), char_of (0x80 + n mod 64)])"

section \<open>Writing\<close>

definition json_hex :: "nat \<Rightarrow> char" where
  "json_hex d = (if d < 10 then char_of (48 + d) else char_of (87 + d))"

definition escape :: "char \<Rightarrow> string" where
  "escape c =
     (if c = CHR 0x22 \<or> c = CHR 0x5C then [CHR 0x5C, c]
      else if c = CHR 0x0A then [CHR 0x5C, CHR ''n'']
      else if c = CHR 0x0D then [CHR 0x5C, CHR ''r'']
      else if c = CHR 0x09 then [CHR 0x5C, CHR ''t'']
      else if code c < 0x20 \<or> c = CHR ''<'' \<or> c = CHR ''>'' \<or> c = CHR ''&''
      then [CHR 0x5C, CHR ''u'', CHR ''0'', CHR ''0'', json_hex (code c div 16), json_hex (code c mod 16)]
      else [c])"

function quote_chars :: "string \<Rightarrow> string" where
  "quote_chars [] = []"
| "quote_chars (c # s) =
     (if code c < 0x80 then escape c @ quote_chars s
      else if utf8_length (c # s) = 0 then CHR 0x5C # ''ufffd'' @ quote_chars s
      else if take 3 (c # s) = [CHR 0xE2, CHR 0x80, CHR 0xA8] then CHR 0x5C # ''u2028'' @ quote_chars (drop 2 s)
      else if take 3 (c # s) = [CHR 0xE2, CHR 0x80, CHR 0xA9] then CHR 0x5C # ''u2029'' @ quote_chars (drop 2 s)
      else take (utf8_length (c # s)) (c # s) @ quote_chars (drop (utf8_length (c # s) - 1) s))"
  by pat_completeness auto
termination by (relation "measure length") auto

definition quote :: "string \<Rightarrow> string" where
  "quote s = CHR 0x22 # quote_chars s @ [CHR 0x22]"

fun joined :: "'a \<Rightarrow> 'a list list \<Rightarrow> 'a list" where
  "joined c [] = []"
| "joined c [x] = x"
| "joined c (x # y # xs) = x @ c # joined c (y # xs)"

fun json_text :: "json \<Rightarrow> string" where
  "json_text JNull = ''null''"
| "json_text (JBool b) = (if b then ''true'' else ''false'')"
| "json_text (JNum lit) = lit"
| "json_text (JStr s) = quote s"
| "json_text (JArr vs) = CHR ''['' # joined CHR '','' (map json_text vs) @ '']''"
| "json_text (JObj ms) = CHR ''{'' # joined CHR '','' (map (\<lambda>(k, v). quote k @ CHR '':'' # json_text v) ms) @ ''}''"

text \<open>\<^verbatim>\<open>json.Marshal\<close> of a value, and the value of a Go \<^verbatim>\<open>int\<close>.\<close>

definition Marshal :: "json \<Rightarrow> bytes" where
  "Marshal v = bytes_of_string (json_text v)"

abbreviation JInt :: "int \<Rightarrow> json" where
  "JInt i \<equiv> JNum (int_text i)"

section \<open>Reading: tokens\<close>

definition hex_value :: "char \<Rightarrow> nat option" where
  "hex_value c =
     (if is_digit c then Some (code c - 48)
      else if 97 \<le> code c \<and> code c \<le> 102 then Some (code c - 87)
      else if 65 \<le> code c \<and> code c \<le> 70 then Some (code c - 55)
      else None)"

text \<open>The number after \<^verbatim>\<open>\u\<close>, and what follows it.\<close>

definition getu4 :: "string \<Rightarrow> (nat \<times> string) option" where
  "getu4 s =
     (case s of
        a # b # c # d # r \<Rightarrow>
          (case (hex_value a, hex_value b, hex_value c, hex_value d) of
             (Some w, Some x, Some y, Some z) \<Rightarrow> Some (((w * 16 + x) * 16 + y) * 16 + z, r)
           | _ \<Rightarrow> None)
      | _ \<Rightarrow> None)"

definition surrogate_pair :: "nat \<Rightarrow> nat \<Rightarrow> nat option" where
  "surrogate_pair hi lo =
     (if 0xD800 \<le> hi \<and> hi < 0xDC00 \<and> 0xDC00 \<le> lo \<and> lo < 0xE000
      then Some ((hi - 0xD800) * 1024 + (lo - 0xDC00) + 0x10000) else None)"

definition unescape_u :: "nat \<Rightarrow> string \<Rightarrow> string \<times> string" where
  "unescape_u n r =
     (if 0xD800 \<le> n \<and> n < 0xE000
      then (case r of
              x # y # r1 \<Rightarrow>
                if x = CHR 0x5C \<and> y = CHR ''u''
                then (case getu4 r1 of
                        Some (m, r2) \<Rightarrow> (case surrogate_pair n m of Some k \<Rightarrow> (EncodeRune k, r2) | None \<Rightarrow> (rune_error, r))
                      | None \<Rightarrow> (rune_error, r))
                else (rune_error, r)
            | _ \<Rightarrow> (rune_error, r))
      else (EncodeRune n, r))"

text \<open>What a backslash and the text after it stand for.\<close>

definition unescape :: "string \<Rightarrow> (string \<times> string) option" where
  "unescape s =
     (case s of
        [] \<Rightarrow> None
      | c # r \<Rightarrow>
          if c = CHR 0x22 \<or> c = CHR 0x5C \<or> c = CHR ''/'' then Some ([c], r)
          else if c = CHR ''b'' then Some ([CHR 0x08], r)
          else if c = CHR ''f'' then Some ([CHR 0x0C], r)
          else if c = CHR ''n'' then Some ([CHR 0x0A], r)
          else if c = CHR ''r'' then Some ([CHR 0x0D], r)
          else if c = CHR ''t'' then Some ([CHR 0x09], r)
          else if c = CHR ''u'' then (case getu4 r of None \<Rightarrow> None | Some (n, r') \<Rightarrow> Some (unescape_u n r'))
          else None)"

definition utf8_rune :: "string \<Rightarrow> string \<times> nat" where
  "utf8_rune s = (if utf8_length s = 0 then (rune_error, 1) else (take (utf8_length s) s, utf8_length s))"

lemma getu4_shorter: "getu4 s = Some (n, r) \<Longrightarrow> length r < length s"
  by (auto simp: getu4_def split: list.splits option.splits)

lemma unescape_u_shorter: "length (snd (unescape_u n r)) \<le> length r"
  by (auto simp: unescape_u_def split: list.splits option.splits dest!: getu4_shorter)

lemma unescape_shorter: "unescape s = Some (t, r) \<Longrightarrow> length r < length s"
  using unescape_u_shorter
  by (auto simp: unescape_def split: list.splits option.splits if_splits dest!: getu4_shorter)
    (metis le_less_trans less_SucI snd_conv)

function lex_string :: "string \<Rightarrow> (string \<times> string) option" where
  "lex_string [] = None"
| "lex_string (c # r) =
     (if c = CHR 0x22 then Some ([], r)
      else if c = CHR 0x5C
      then (case unescape r of
              None \<Rightarrow> None
            | Some (t, r') \<Rightarrow> map_option (\<lambda>(t', r''). (t @ t', r'')) (lex_string r'))
      else if code c < 0x20 then None
      else if code c < 0x80 then map_option (\<lambda>(t, r'). (c # t, r')) (lex_string r)
      else (case utf8_rune (c # r) of
              (t, n) \<Rightarrow> map_option (\<lambda>(t', r'). (t @ t', r')) (lex_string (drop (n - 1) r))))"
  by pat_completeness auto
termination by (relation "measure length") (auto dest: unescape_shorter)

lemma lex_string_shorter: "lex_string s = Some (t, r) \<Longrightarrow> length r < length s"
proof (induction s arbitrary: t r rule: lex_string.induct)
  case (2 c s)
  show ?case
  proof (cases "c = CHR 0x22 \<or> c = CHR 0x5C")
    case True
    then show ?thesis
      using "2.prems" "2.IH"(1) unescape_shorter by (fastforce split: if_splits option.splits)
  next
    case False
    then have "length r < length s \<or> (\<exists>n. length r < length (drop n s))"
      using "2.prems" "2.IH"(2,3) by (auto split: if_splits prod.splits)
    then show ?thesis by auto
  qed
qed simp

text \<open>A number, with the fraction and the exponent that belong to it.\<close>

definition lex_fraction :: "string \<Rightarrow> string \<times> string" where
  "lex_fraction s =
     (case s of
        c # r \<Rightarrow> if c = CHR ''.'' \<and> takeWhile is_digit r \<noteq> [] then (c # takeWhile is_digit r, dropWhile is_digit r) else ([], s)
      | [] \<Rightarrow> ([], s))"

definition lex_exponent :: "string \<Rightarrow> string \<times> string" where
  "lex_exponent s =
     (case s of
        c # r \<Rightarrow>
          let sign = (case r of x # _ \<Rightarrow> if x = CHR ''+'' \<or> x = CHR ''-'' then [x] else [] | [] \<Rightarrow> []);
              ds = drop (length sign) r
          in if (c = CHR ''e'' \<or> c = CHR ''E'') \<and> takeWhile is_digit ds \<noteq> []
             then (c # sign @ takeWhile is_digit ds, dropWhile is_digit ds) else ([], s)
      | [] \<Rightarrow> ([], s))"

definition number_sign :: "string \<Rightarrow> string" where
  "number_sign s = (case s of x # _ \<Rightarrow> if x = CHR ''-'' then [x] else [] | [] \<Rightarrow> [])"

definition number_digits :: "string \<Rightarrow> string" where
  "number_digits s = (case s of x # _ \<Rightarrow> if x = CHR ''0'' then [x] else takeWhile is_digit s | [] \<Rightarrow> [])"

definition lex_number :: "string \<Rightarrow> (string \<times> string) option" where
  "lex_number s =
     (let s1 = drop (length (number_sign s)) s;
          (fr, s2) = lex_fraction (drop (length (number_digits s1)) s1);
          (ex, s3) = lex_exponent s2
      in if number_digits s1 = [] then None else Some (number_sign s @ number_digits s1 @ fr @ ex, s3))"

definition json_space :: "char \<Rightarrow> bool" where
  "json_space c \<longleftrightarrow> c = CHR 0x20 \<or> c = CHR 0x09 \<or> c = CHR 0x0A \<or> c = CHR 0x0D"

text \<open>The token a text without leading space starts with.\<close>

definition punctuation :: "char \<Rightarrow> token option" where
  "punctuation c =
     (if c = CHR ''['' then Some LBrack else if c = CHR '']'' then Some RBrack
      else if c = CHR ''{'' then Some LBrace else if c = CHR ''}'' then Some RBrace
      else if c = CHR '','' then Some Comma else if c = CHR '':'' then Some Colon else None)"

definition lex_token :: "char \<Rightarrow> string \<Rightarrow> (token \<times> string) option" where
  "lex_token c s =
     (case punctuation c of
        Some t \<Rightarrow> Some (t, s)
      | None \<Rightarrow>
          if c = CHR 0x22 then map_option (\<lambda>(t, r). (T_str t, r)) (lex_string s)
          else if starts_with ''null'' (c # s) then Some (T_null, drop 3 s)
          else if starts_with ''true'' (c # s) then Some (T_true, drop 3 s)
          else if starts_with ''false'' (c # s) then Some (T_false, drop 4 s)
          else map_option (\<lambda>(t, r). (T_num t, r)) (lex_number (c # s)))"

lemma lex_fraction_shorter: "length (snd (lex_fraction s)) \<le> length s"
  by (auto simp: lex_fraction_def le_SucI length_dropWhile_le split: list.splits)

lemma lex_exponent_shorter: "length (snd (lex_exponent s)) \<le> length s"
proof (cases s)
  case (Cons c r)
  have "length (dropWhile is_digit (drop k r)) \<le> Suc (length r)" for k
    using length_dropWhile_le [of is_digit "drop k r"] by simp
  then show ?thesis using Cons by (auto simp: lex_exponent_def Let_def split: list.splits)
qed (simp add: lex_exponent_def)

lemma lex_number_shorter: "lex_number s = Some (t, r) \<Longrightarrow> length r < length s"
proof -
  assume n: "lex_number s = Some (t, r)"
  define s1 where "s1 = drop (length (number_sign s)) s"
  have ne: "number_digits s1 \<noteq> []" and r: "r = snd (lex_exponent (snd (lex_fraction (drop (length (number_digits s1)) s1))))"
    using n by (auto simp: lex_number_def Let_def s1_def split: prod.splits if_splits)
  have "s1 \<noteq> []" using ne by (auto simp: number_digits_def)
  then have "length (drop (length (number_digits s1)) s1) < length s1" using ne by (cases s1) auto
  moreover have "length r \<le> length (drop (length (number_digits s1)) s1)"
    unfolding r using lex_exponent_shorter lex_fraction_shorter le_trans by metis
  moreover have "length s1 \<le> length s" by (simp add: s1_def)
  ultimately show ?thesis by linarith
qed

lemma lex_token_shorter: "lex_token c s = Some (t, r) \<Longrightarrow> length r \<le> length s"
  by (auto simp: lex_token_def split: option.splits if_splits dest: lex_string_shorter lex_number_shorter)

function lex :: "string \<Rightarrow> token list option" where
  "lex [] = Some []"
| "lex (c # s) =
     (if json_space c then lex s
      else case lex_token c s of
             None \<Rightarrow> None
           | Some (t, r) \<Rightarrow> map_option ((#) t) (lex r))"
  by pat_completeness auto
termination by (relation "measure length") (auto dest: lex_token_shorter simp: less_Suc_eq_le)

declare lex.simps(2) [simp del]

section \<open>Reading: values\<close>

text \<open>
  An open array with the values read so far, or an open object with its members and the key
  whose value is next.
\<close>

datatype frame = F_arr "json list" | F_obj "(string \<times> json) list" string

abbreviation max_depth :: nat where "max_depth \<equiv> 10000"

fun p_value :: "frame list \<Rightarrow> token list \<Rightarrow> json option"
  and p_after :: "frame list \<Rightarrow> json \<Rightarrow> token list \<Rightarrow> json option" where
  "p_value st [] = None"
| "p_value st (t # ts) =
     (case t of
        T_null \<Rightarrow> p_after st JNull ts
      | T_true \<Rightarrow> p_after st (JBool True) ts
      | T_false \<Rightarrow> p_after st (JBool False) ts
      | T_num lit \<Rightarrow> p_after st (JNum lit) ts
      | T_str s \<Rightarrow> p_after st (JStr s) ts
      | LBrack \<Rightarrow>
          if max_depth \<le> length st then None
          else (case ts of RBrack # ts' \<Rightarrow> p_after st (JArr []) ts' | _ \<Rightarrow> p_value (F_arr [] # st) ts)
      | LBrace \<Rightarrow>
          if max_depth \<le> length st then None
          else (case ts of
                  RBrace # ts' \<Rightarrow> p_after st (JObj []) ts'
                | T_str k # Colon # ts' \<Rightarrow> p_value (F_obj [] k # st) ts'
                | _ \<Rightarrow> None)
      | _ \<Rightarrow> None)"
| "p_after [] v ts = (if ts = [] then Some v else None)"
| "p_after (F_arr vs # st) v ts =
     (case ts of
        Comma # ts' \<Rightarrow> p_value (F_arr (vs @ [v]) # st) ts'
      | RBrack # ts' \<Rightarrow> p_after st (JArr (vs @ [v])) ts'
      | _ \<Rightarrow> None)"
| "p_after (F_obj ms k # st) v ts =
     (case ts of
        Comma # T_str k' # Colon # ts' \<Rightarrow> p_value (F_obj (ms @ [(k, v)]) k' # st) ts'
      | RBrace # ts' \<Rightarrow> p_after st (JObj (ms @ [(k, v)])) ts'
      | _ \<Rightarrow> None)"

definition json_parse :: "bytes \<Rightarrow> json option" where
  "json_parse data = Option.bind (lex (string_of_bytes data)) (p_value [])"

section \<open>What is written is read back\<close>

fun toks :: "json \<Rightarrow> token list" where
  "toks JNull = [T_null]"
| "toks (JBool b) = [if b then T_true else T_false]"
| "toks (JNum lit) = [T_num lit]"
| "toks (JStr s) = [T_str s]"
| "toks (JArr vs) = LBrack # joined Comma (map toks vs) @ [RBrack]"
| "toks (JObj ms) = LBrace # joined Comma (map (\<lambda>(k, v). T_str k # Colon # toks v) ms) @ [RBrace]"

fun depth :: "json \<Rightarrow> nat" where
  "depth (JArr vs) = Suc (foldr max (map depth vs) 0)"
| "depth (JObj ms) = Suc (foldr max (map (\<lambda>(k, v). depth v) ms) 0)"
| "depth _ = 0"

lemma foldr_max_ge: "x \<in> set xs \<Longrightarrow> (x :: nat) \<le> foldr max xs 0"
  by (induction xs) (auto simp: le_max_iff_disj)

lemma depth_inner: "v \<in> set vs \<Longrightarrow> depth v < depth (JArr vs)" "(k, v) \<in> set ms \<Longrightarrow> depth v < depth (JObj ms)"
  by (force simp: less_Suc_eq_le intro!: foldr_max_ge)+

lemma toks_start: "\<exists>t ts. toks v = t # ts \<and> t \<noteq> RBrack \<and> t \<noteq> RBrace"
  by (cases v) auto

lemma p_open_array:
  "t \<noteq> RBrack \<Longrightarrow> length st < max_depth \<Longrightarrow> p_value st (LBrack # t # ts) = p_value (F_arr [] # st) (t # ts)"
  by (subst p_value.simps) (cases t; simp del: p_value.simps)

lemma p_elements:
  assumes "\<And>v st ts. v \<in> set (v0 # vs) \<Longrightarrow> P st \<Longrightarrow> p_value st (toks v @ ts) = p_after st v ts"
    and "\<And>us. P (F_arr us # st)"
  shows "p_value (F_arr us # st) (joined Comma (map toks (v0 # vs)) @ RBrack # ts) = p_after st (JArr (us @ v0 # vs)) ts"
  using assms
proof (induction vs arbitrary: v0 us)
  case Nil
  then show ?case by simp
next
  case (Cons v1 vs)
  have "p_value (F_arr us # st) (toks v0 @ Comma # joined Comma (map toks (v1 # vs)) @ RBrack # ts) =
      p_value (F_arr (us @ [v0]) # st) (joined Comma (map toks (v1 # vs)) @ RBrack # ts)"
    by (subst Cons.prems(1)) (use Cons.prems(2) in simp_all)
  also have "\<dots> = p_after st (JArr ((us @ [v0]) @ v1 # vs)) ts"
    by (rule Cons.IH) (use Cons.prems in auto)
  finally show ?case by simp
qed

lemma p_members:
  assumes "\<And>k v st ts. (k, v) \<in> set ((k0, v0) # ms) \<Longrightarrow> P st \<Longrightarrow> p_value st (toks v @ ts) = p_after st v ts"
    and "\<And>us k. P (F_obj us k # st)"
  shows "p_value (F_obj us k0 # st) (toks v0 @ concat (map (\<lambda>(k, v). Comma # T_str k # Colon # toks v) ms) @ RBrace # ts) =
    p_after st (JObj (us @ (k0, v0) # ms)) ts"
  using assms
proof (induction ms arbitrary: k0 v0 us)
  case Nil
  then show ?case by simp
next
  case (Cons m ms)
  obtain k1 v1 where m: "m = (k1, v1)" by force
  let ?rest = "concat (map (\<lambda>(k, v). Comma # T_str k # Colon # toks v) ms) @ RBrace # ts"
  have "p_value (F_obj us k0 # st) (toks v0 @ Comma # T_str k1 # Colon # toks v1 @ ?rest) =
      p_value (F_obj (us @ [(k0, v0)]) k1 # st) (toks v1 @ ?rest)"
    by (subst Cons.prems(1) [of k0]) (use Cons.prems(2) in simp_all)
  also have "\<dots> = p_after st (JObj ((us @ [(k0, v0)]) @ (k1, v1) # ms)) ts"
    by (rule Cons.IH) (use Cons.prems m in auto)
  finally show ?case by (simp add: m)
qed

lemma joined_concat: "joined c (x # xs) = x @ concat (map ((#) c) xs)"
  by (induction xs arbitrary: x) simp_all

lemma p_value_toks: "depth v + length st \<le> max_depth \<Longrightarrow> p_value st (toks v @ ts) = p_after st v ts"
proof (induction v arbitrary: st ts)
  case (JArr vs)
  show ?case
  proof (cases vs)
    case (Cons v0 vs')
    obtain t r where t: "toks v0 = t # r" "t \<noteq> RBrack" using toks_start by blast
    have step: "p_value st' (toks v @ ts') = p_after st' v ts'" if "v \<in> set vs" "length st' = Suc (length st)" for v st' ts'
    proof -
      have "depth v + length st' \<le> max_depth" using depth_inner(1) [OF that(1)] that(2) JArr.prems by linarith
      then show ?thesis by (rule JArr.IH [OF that(1)])
    qed
    have "p_value (F_arr [] # st) (joined Comma (map toks (v0 # vs')) @ RBrack # ts) = p_after st (JArr ([] @ v0 # vs')) ts"
      by (rule p_elements [where P = "\<lambda>s. length s = Suc (length st)"])
        (use step Cons in auto)
    moreover have "p_value st (toks (JArr vs) @ ts) = p_value (F_arr [] # st) (joined Comma (map toks vs) @ RBrack # ts)"
      using JArr.prems Cons t p_open_array [OF t(2), of st] by (simp add: joined_concat del: p_value.simps)
    ultimately show ?thesis using Cons by (simp del: p_value.simps)
  qed (use JArr.prems in simp)
next
  case (JObj ms)
  show ?case
  proof (cases ms)
    case (Cons m ms')
    obtain k0 v0 where m: "m = (k0, v0)" by force
    have step: "p_value st' (toks v @ ts') = p_after st' v ts'" if "(k, v) \<in> set ms" "length st' = Suc (length st)" for k v st' ts'
    proof -
      have "depth v + length st' \<le> max_depth" using depth_inner(2) [OF that(1)] that(2) JObj.prems by linarith
      then show ?thesis by (rule JObj.IH [OF that(1), rotated]) simp
    qed
    have "p_value (F_obj [] k0 # st) (toks v0 @ concat (map (\<lambda>(k, v). Comma # T_str k # Colon # toks v) ms') @ RBrace # ts) =
        p_after st (JObj ([] @ (k0, v0) # ms')) ts"
      by (rule p_members [where P = "\<lambda>s. length s = Suc (length st)"])
        (use step Cons m in auto)
    then show ?thesis using JObj.prems Cons m by (simp add: joined_concat o_def case_prod_unfold)
  qed (use JObj.prems in simp)
qed simp_all

text \<open>The values the services send: ASCII strings and integers.\<close>

fun plain :: "json \<Rightarrow> bool" where
  "plain (JNum lit) \<longleftrightarrow> (\<exists>i. lit = int_text i)"
| "plain (JStr s) \<longleftrightarrow> ascii s"
| "plain (JArr vs) \<longleftrightarrow> (\<forall>v\<in>set vs. plain v)"
| "plain (JObj ms) \<longleftrightarrow> (\<forall>(k, v)\<in>set ms. ascii k \<and> plain v)"
| "plain _ \<longleftrightarrow> True"

lemma hex_value_json: "d < 16 \<Longrightarrow> hex_value (json_hex d) = Some d"
  by (auto simp: hex_value_def json_hex_def is_digit_def)

lemma unescape_unicode:
  "code c < 128 \<Longrightarrow> unescape (CHR ''u'' # CHR ''0'' # CHR ''0'' # json_hex (code c div 16) # json_hex (code c mod 16) # r) = Some ([c], r)"
proof -
  assume "code c < 128"
  moreover have "hex_value CHR ''0'' = Some 0" by (simp add: hex_value_def is_digit_def)
  ultimately show ?thesis
    by (simp add: unescape_def getu4_def hex_value_json unescape_u_def EncodeRune_def div_less)
qed

lemma lex_escape:
  assumes "code c < 128"
  shows "lex_string (escape c @ r) = map_option (\<lambda>(t, r'). (c # t, r')) (lex_string r)"
  using assms unescape_unicode [OF assms, of r]
  by (auto simp: escape_def unescape_def)

lemma lex_quoted: "ascii s \<Longrightarrow> lex_string (quote_chars s @ CHR 0x22 # r) = Some (s, r)"
  by (induction s) (simp_all add: lex_escape)

lemma lex_punctuation: "punctuation c = Some t \<Longrightarrow> lex (c # s) = map_option ((#) t) (lex s)"
  by (auto simp: lex.simps(2) punctuation_def json_space_def lex_token_def split: if_splits)

lemma lex_quote: "ascii s \<Longrightarrow> lex (quote s @ r) = map_option ((#) (T_str s)) (lex r)"
  by (simp add: quote_def lex.simps(2) json_space_def lex_token_def punctuation_def lex_quoted)

text \<open>What may follow a number in a text.\<close>

definition number_ends :: "string \<Rightarrow> bool" where
  "number_ends r \<longleftrightarrow> (case r of [] \<Rightarrow> True | c # _ \<Rightarrow> \<not> is_digit c \<and> c \<noteq> CHR ''.'' \<and> c \<noteq> CHR ''e'' \<and> c \<noteq> CHR ''E'')"

lemma decimal_leading: "0 < n \<Longrightarrow> \<exists>c cs. decimal n = c # cs \<and> is_digit c \<and> c \<noteq> CHR ''0''"
proof (induction n rule: decimal.induct)
  case (1 n)
  have "char_of (48 + n) \<noteq> CHR ''0''" if "n < 10"
  proof
    assume "char_of (48 + n) = CHR ''0''"
    then have "code (char_of (48 + n)) = code CHR ''0''" by (rule arg_cong)
    then show False using that "1.prems" by simp
  qed
  moreover obtain c cs where "10 \<le> n \<Longrightarrow> decimal (n div 10) = c # cs \<and> is_digit c \<and> c \<noteq> CHR ''0''"
    using 1 by (metis div_greater_zero_iff not_le zero_less_numeral)
  ultimately show ?case by (subst decimal.simps) (auto simp: is_digit_def not_less decimal.simps [of n])
qed

lemma number_digits_decimal: "number_ends r \<Longrightarrow> number_digits (decimal n @ r) = decimal n"
proof -
  assume "number_ends r"
  then have "takeWhile is_digit r = []" by (auto simp: number_ends_def split: list.splits)
  then have "takeWhile is_digit (decimal n @ r) = decimal n"
    using decimal_digits by (simp add: takeWhile_append2)
  moreover have "decimal 0 = ''0''"
    using char_of_char [of "CHR ''0''", where 'a = nat] by (simp add: decimal.simps del: char_of_char)
  ultimately show ?thesis
    using decimal_leading [of n] by (cases "n = 0") (auto simp: number_digits_def)
qed

lemma lex_number_int: "number_ends r \<Longrightarrow> lex_number (int_text i @ r) = Some (int_text i, r)"
proof -
  assume e: "number_ends r"
  obtain n where n: "int_text i = number_sign (int_text i @ r) @ decimal n"
  proof (cases "i < 0")
    case False
    obtain c cs where "decimal (nat i) = c # cs" "is_digit c" using decimal_hd by blast
    then show thesis using False by (intro that [of "nat i"]) (auto simp: int_text_def number_sign_def is_digit_def)
  qed (auto intro: that simp: int_text_def number_sign_def)
  have "lex_fraction r = ([], r)" "lex_exponent r = ([], r)"
    using e by (auto simp: lex_fraction_def lex_exponent_def number_ends_def Let_def split: list.splits)
  moreover have "drop (length (number_sign (int_text i @ r))) (int_text i @ r) = decimal n @ r"
    by (subst (2) n) simp
  ultimately show ?thesis
    using number_digits_decimal [OF e, of n] n [symmetric] by (simp add: lex_number_def)
qed

lemma int_text_hd: "\<exists>c cs. int_text i = c # cs \<and> (is_digit c \<or> c = CHR ''-'')"
  using decimal_hd [of "nat i"] by (auto simp: int_text_def)

lemma lex_int: "number_ends r \<Longrightarrow> lex (int_text i @ r) = map_option ((#) (T_num (int_text i))) (lex r)"
proof -
  assume "number_ends r"
  obtain c cs where c: "int_text i = c # cs" "is_digit c \<or> c = CHR ''-''" using int_text_hd by blast
  then have "c \<noteq> CHR 0x22" "c \<noteq> CHR ''n''" "c \<noteq> CHR ''t''" "c \<noteq> CHR ''f''" "punctuation c = None" "\<not> json_space c"
    by (auto simp: is_digit_def punctuation_def json_space_def)
  then have "lex_token c (cs @ r) = Some (T_num (int_text i), r)"
    using lex_number_int [OF \<open>number_ends r\<close>, of i] c(1) by (simp add: lex_token_def starts_with_def)
  then show ?thesis using \<open>\<not> json_space c\<close> c(1) by (simp add: lex.simps(2))
qed

lemma append_Cons_fun: "(@) (x # xs) = (\<lambda>ys. x # xs @ ys)"
  by auto

lemma lex_joined:
  assumes "\<And>x r. x \<in> set xs \<Longrightarrow> number_ends r \<Longrightarrow> lex (f x @ r) = map_option ((@) (g x)) (lex r)" and "number_ends r"
  shows "lex (joined CHR '','' (map f xs) @ r) = map_option ((@) (joined Comma (map g xs))) (lex r)"
  using assms(1)
proof (induction xs rule: induct_list012)
  case (3 x y zs)
  have "number_ends (CHR '','' # joined CHR '','' (map f (y # zs)) @ r)" by (simp add: number_ends_def is_digit_def)
  with "3.prems" have "lex (f x @ CHR '','' # joined CHR '','' (map f (y # zs)) @ r) =
      map_option ((@) (g x)) (lex (CHR '','' # joined CHR '','' (map f (y # zs)) @ r))" by simp
  also have "lex (CHR '','' # joined CHR '','' (map f (y # zs)) @ r) =
      map_option ((#) Comma) (map_option ((@) (joined Comma (map g (y # zs)))) (lex r))"
    using "3.IH"(2) "3.prems" by (subst lex_punctuation [of _ Comma]) (simp_all add: punctuation_def)
  finally show ?case by (simp add: option.map_comp o_def)
qed (use assms(2) in \<open>simp_all add: map_option_idI\<close>)

lemma ends_punctuation: "punctuation c \<noteq> None \<Longrightarrow> number_ends (c # r)"
  by (auto simp: punctuation_def number_ends_def is_digit_def split: if_splits)

lemma lex_text: "plain v \<Longrightarrow> number_ends r \<Longrightarrow> lex (json_text v @ r) = map_option ((@) (toks v)) (lex r)"
proof (induction v arbitrary: r)
  case JNull
  show ?case by (simp add: lex.simps(2) json_space_def lex_token_def punctuation_def starts_with_def)
next
  case (JBool b)
  show ?case by (simp add: lex.simps(2) json_space_def lex_token_def punctuation_def starts_with_def)
next
  case (JNum lit)
  then show ?case by (auto simp: lex_int)
next
  case (JStr s)
  then show ?case by (simp add: lex_quote)
next
  case (JArr vs)
  have "lex (joined CHR '','' (map json_text vs) @ '']'' @ r) =
      map_option ((@) (joined Comma (map toks vs))) (lex ('']'' @ r))"
    by (rule lex_joined) (use JArr in \<open>auto intro: ends_punctuation simp: punctuation_def\<close>)
  then show ?case
    by (simp add: lex_punctuation [of _ LBrack] lex_punctuation [of _ RBrack] punctuation_def option.map_comp o_def)
next
  case (JObj ms)
  have "lex ((case m of (k, v) \<Rightarrow> quote k @ CHR '':'' # json_text v) @ r) =
      map_option ((@) (case m of (k, v) \<Rightarrow> T_str k # Colon # toks v)) (lex r)" if m: "m \<in> set ms" "number_ends r" for m r
  proof -
    obtain k v where kv: "m = (k, v)" by force
    then have "ascii k" "plain v" using JObj.prems m by auto
    moreover have "lex (json_text v @ r) = map_option ((@) (toks v)) (lex r)"
      using JObj.IH [of m v r] m kv \<open>plain v\<close> by simp
    ultimately show ?thesis
      by (simp add: kv lex_quote lex_punctuation [of _ Colon] punctuation_def option.map_comp o_def append_Cons_fun)
  qed
  then have "lex (joined CHR '','' (map (\<lambda>(k, v). quote k @ CHR '':'' # json_text v) ms) @ ''}'' @ r) =
      map_option ((@) (joined Comma (map (\<lambda>(k, v). T_str k # Colon # toks v) ms))) (lex (''}'' @ r))"
    by (intro lex_joined) (auto intro: ends_punctuation simp: punctuation_def)
  then show ?case
    by (simp add: lex_punctuation [of _ LBrace] lex_punctuation [of _ RBrace] punctuation_def option.map_comp o_def)
qed

theorem Marshal_parse: "plain v \<Longrightarrow> depth v \<le> max_depth \<Longrightarrow> json_parse (Marshal v) = Some v"
  using lex_text [of v "[]"] p_value_toks [of v "[]" "[]"]
  by (simp add: json_parse_def Marshal_def number_ends_def del: p_value.simps)

section \<open>Numbers\<close>

text \<open>
  The \<^verbatim>\<open>float64\<close> nearest to a fraction \<open>p / q\<close>, ties to even: a mantissa and a power of two, with
  the spacing of subnormal numbers at the low end. \<open>log2\<close> is the exponent of the leading bit.
\<close>

fun bits :: "nat \<Rightarrow> nat" where
  "bits n = (if n = 0 then 0 else Suc (bits (n div 2)))"

declare bits.simps [simp del]

definition half_even :: "nat \<Rightarrow> nat \<Rightarrow> nat" where
  "half_even p q = (if 2 * (p mod q) < q \<or> 2 * (p mod q) = q \<and> even (p div q) then p div q else Suc (p div q))"

definition log2 :: "nat \<Rightarrow> nat \<Rightarrow> int" where
  "log2 p q = (if q \<le> p then int (bits (p div q)) - 1 else - int (bits ((q - 1) div p)))"

definition nearest :: "nat \<Rightarrow> nat \<Rightarrow> nat \<times> int" where
  "nearest p q =
     (if p = 0 then (0, 0)
      else let e = max (log2 p q - 52) (- 1074)
           in (half_even (p * 2 ^ nat (- e)) (q * 2 ^ nat e), e))"

text \<open>The sign, the digits without the point, and the power of ten of a literal.\<close>

definition literal_value :: "string \<Rightarrow> bool \<times> nat \<times> int" where
  "literal_value lit =
     (let neg = (number_sign lit \<noteq> []);
          s1 = drop (length (number_sign lit)) lit;
          ds = takeWhile is_digit s1;
          s2 = drop (length ds) s1;
          fr = takeWhile is_digit (tl (fst (lex_fraction s2)));
          ex = tl (fst (lex_exponent (snd (lex_fraction s2))));
          e = (case ex of
                 [] \<Rightarrow> 0
               | c # cs \<Rightarrow> if c = CHR ''-'' then - int (digits_value 0 cs)
                            else if c = CHR ''+'' then int (digits_value 0 cs) else int (digits_value 0 ex))
      in (neg, digits_value 0 (ds @ fr), e - int (length fr)))"

definition float_of :: "string \<Rightarrow> bool \<times> nat \<times> int" where
  "float_of lit =
     (case literal_value lit of
        (neg, m, e) \<Rightarrow> (neg, nearest (m * 10 ^ nat e) (10 ^ nat (- e))))"

text \<open>\<^verbatim>\<open>ParseFloat\<close> refuses what rounds beyond the largest \<^verbatim>\<open>float64\<close>.\<close>

definition float_fits :: "string \<Rightarrow> bool" where
  "float_fits lit = (case float_of lit of (_, m, e) \<Rightarrow> m * 2 ^ nat e < 2 ^ 1024 * 2 ^ nat (- e))"

definition float_trunc :: "string \<Rightarrow> int" where
  "float_trunc lit =
     (case float_of lit of
        (neg, m, e) \<Rightarrow> (if neg then - 1 else 1) * int (m * 2 ^ nat e div 2 ^ nat (- e)))"

text \<open>\<^verbatim>\<open>int(f)\<close> and \<^verbatim>\<open>uint32(f)\<close>, out of range as amd64 processors have it.\<close>

definition float_int :: "string \<Rightarrow> int" where
  "float_int lit = (let t = float_trunc lit in if - (2 ^ 63) \<le> t \<and> t < 2 ^ 63 then t else - (2 ^ 63))"

definition float_uint32 :: "string \<Rightarrow> u32" where
  "float_uint32 lit = of_int (float_int lit)"

lemma bits_bound: "n < 2 ^ k \<Longrightarrow> bits n \<le> k"
proof (induction k arbitrary: n)
  case 0
  then show ?case by (simp add: bits.simps)
next
  case (Suc k)
  then have "bits (n div 2) \<le> k" by simp
  then show ?case by (subst bits.simps) simp
qed

text \<open>Integers of at most 53 bits are exact.\<close>

lemma nearest_exact:
  assumes "p < 2 ^ 53"
  obtains e where "nearest p 1 = (p * 2 ^ nat (- e), e)" "e \<le> 0"
proof (cases "p = 0")
  case False
  define e where "e = max (log2 p 1 - 52) (- 1074)"
  have "e \<le> 0" using bits_bound [OF assms] False by (simp add: e_def log2_def)
  moreover have "nearest p 1 = (p * 2 ^ nat (- e), e)"
    unfolding nearest_def Let_def e_def [symmetric] using False \<open>e \<le> 0\<close> by (simp add: half_even_def)
  ultimately show thesis by (rule that [rotated])
qed (use that [of 0] in \<open>simp add: nearest_def\<close>)

lemma literal_value_int: "literal_value (int_text i) = (i < 0, nat \<bar>i\<bar>, 0)"
proof -
  have d: "takeWhile is_digit (decimal n) = decimal n" for n using decimal_digits by simp
  have sign: "number_sign (int_text i) = (if i < 0 then ''-'' else [])"
  proof -
    obtain c cs where "decimal (nat i) = c # cs" "is_digit c" using decimal_hd by blast
    then show ?thesis by (auto simp: int_text_def number_sign_def is_digit_def)
  qed
  have "drop (length (number_sign (int_text i))) (int_text i) = decimal (nat \<bar>i\<bar>)"
    unfolding sign by (simp add: int_text_def)
  then show ?thesis using sign by (simp add: literal_value_def d lex_fraction_def lex_exponent_def Let_def)
qed

lemma float_exact:
  assumes "\<bar>i\<bar> < 2 ^ 53"
  shows "float_int (int_text i) = i" and "float_fits (int_text i)" and "float_uint32 (int_text i) = of_int i"
proof -
  have "nat \<bar>i\<bar> < 2 ^ 53" using assms by (simp add: nat_less_iff)
  then obtain e where e: "nearest (nat \<bar>i\<bar>) 1 = (nat \<bar>i\<bar> * 2 ^ nat (- e), e)" "e \<le> 0" by (rule nearest_exact)
  then have f: "float_of (int_text i) = (i < 0, nat \<bar>i\<bar> * 2 ^ nat (- e), e)"
    by (simp add: float_of_def literal_value_int)
  have t: "float_trunc (int_text i) = i"
    using e(2) by (auto simp: float_trunc_def f)
  have "(2 :: int) ^ 53 \<le> 2 ^ 63" by simp
  with assms have r: "- (2 ^ 63) \<le> i" "i < 2 ^ 63" by linarith+
  then show "float_int (int_text i) = i" "float_uint32 (int_text i) = of_int i"
    by (simp_all add: float_int_def float_uint32_def t Let_def)
  have "nat \<bar>i\<bar> < 2 ^ 1024" using \<open>nat \<bar>i\<bar> < 2 ^ 53\<close> power_increasing [of 53 1024 "2 :: nat"] by linarith
  then show "float_fits (int_text i)" using e(2) by (simp add: float_fits_def f)
qed

section \<open>Decoding into Go values\<close>

text \<open>
  Into \<^verbatim>\<open>interface{}\<close>: an array is a slice, an object a map, where the last of several equal keys
  counts. Decoding fails on a number beyond \<^verbatim>\<open>float64\<close>.
\<close>

fun any_ok :: "json \<Rightarrow> bool" where
  "any_ok (JNum lit) \<longleftrightarrow> float_fits lit"
| "any_ok (JArr vs) \<longleftrightarrow> list_all any_ok vs"
| "any_ok (JObj ms) \<longleftrightarrow> list_all (\<lambda>(k, v). any_ok v) ms"
| "any_ok _ \<longleftrightarrow> True"

definition json_get :: "(string \<times> json) list \<Rightarrow> string \<rightharpoonup> json" where
  "json_get ms = map_of (rev ms)"

text \<open>
  A member goes to the field of its name, letters compared without case: besides the ASCII
  letters, U+017F folds to s and U+212A to k.
\<close>

function fold_name :: "string \<Rightarrow> string" where
  "fold_name [] = []"
| "fold_name (c # s) =
     (if take 2 (c # s) = [CHR 0xC5, CHR 0xBF] then CHR ''s'' # fold_name (drop 1 s)
      else if take 3 (c # s) = [CHR 0xE2, CHR 0x84, CHR 0xAA] then CHR ''k'' # fold_name (drop 2 s)
      else hd (ToLower [c]) # fold_name s)"
  by pat_completeness auto
termination by (relation "measure length") auto

text \<open>
  Into a structure: the members of an object one by one with \<open>into\<close>; \<^verbatim>\<open>null\<close> changes nothing,
  anything else is an error.
\<close>

definition into_struct :: "('r option \<Rightarrow> string \<times> json \<Rightarrow> 'r option) \<Rightarrow> 'r \<Rightarrow> bytes \<Rightarrow> 'r option" where
  "into_struct into zero data =
     (case json_parse data of
        Some (JObj ms) \<Rightarrow> foldl into (Some zero) ms
      | Some JNull \<Rightarrow> Some zero
      | _ \<Rightarrow> None)"

lemma into_struct_object:
  "plain (JObj ms) \<Longrightarrow> depth (JObj ms) \<le> max_depth \<Longrightarrow> into_struct into zero (Marshal (JObj ms)) = foldl into (Some zero) ms"
  by (simp add: into_struct_def Marshal_parse del: depth.simps plain.simps)

text \<open>Into a string field: \<^verbatim>\<open>null\<close> leaves it, anything but a string is an error.\<close>

definition string_field :: "string \<Rightarrow> json \<Rightarrow> string option" where
  "string_field old v = (case v of JStr s \<Rightarrow> Some s | JNull \<Rightarrow> Some old | _ \<Rightarrow> None)"

text \<open>
  One structure with the fields \<^verbatim>\<open>Command string\<close> and \<^verbatim>\<open>Args []interface{}\<close>: a wrong type is an
  error, \<^verbatim>\<open>null\<close> leaves a string and empties a slice, other members are skipped.
\<close>

type_synonym command = "string \<times> json list"

fun command_member :: "command option \<Rightarrow> string \<times> json \<Rightarrow> command option" where
  "command_member None m = None"
| "command_member (Some (cmd, args)) (k, v) =
     (if fold_name k = ''command''
      then map_option (\<lambda>s. (s, args)) (string_field cmd v)
      else if fold_name k = ''args''
      then (case v of JArr vs \<Rightarrow> if list_all any_ok vs then Some (cmd, vs) else None | JNull \<Rightarrow> Some (cmd, []) | _ \<Rightarrow> None)
      else Some (cmd, args))"

definition Unmarshal_command :: "bytes \<Rightarrow> command option" where
  "Unmarshal_command = into_struct command_member ([], [])"

text \<open>\<^verbatim>\<open>Marshal\<close> of such a structure; a nil slice is \<^verbatim>\<open>null\<close>.\<close>

definition command_json :: "string \<Rightarrow> json list option \<Rightarrow> json" where
  "command_json cmd args = JObj [(''command'', JStr cmd), (''args'', case args of None \<Rightarrow> JNull | Some vs \<Rightarrow> JArr vs)]"

lemma fold_name_fields [simp]: "fold_name ''command'' = ''command''" "fold_name ''args'' = ''args''"
  by (simp_all add: ToLower_def)

lemma Unmarshal_command_json:
  assumes "plain (command_json cmd args)" "depth (command_json cmd args) \<le> max_depth"
    and "case args of None \<Rightarrow> True | Some vs \<Rightarrow> list_all any_ok vs"
  shows "Unmarshal_command (Marshal (command_json cmd args)) = Some (cmd, case args of None \<Rightarrow> [] | Some vs \<Rightarrow> vs)"
  using into_struct_object [OF assms(1,2) [unfolded command_json_def], of command_member "([], [])"] assms(3)
  by (auto simp: Unmarshal_command_def command_json_def string_field_def simp del: fold_name.simps split: option.splits)

end
