(* ===== verification/Cluster_Service.thy ===== *)
theory Cluster_Service
  imports Cluster Json
begin

text \<open>
  \<^verbatim>\<open>cluster/service.go\<close> and its data in \<^verbatim>\<open>cluster/interfaces.go\<close>: calls of services on other
  nodes and the registry of services. Values of type \<^verbatim>\<open>interface{}\<close> are of a type of their own,
  with \<open>nil\<close> an argument; the JSON encoder and decoder are arguments, and so is the transport,
  which a service has or not: using one that is missing is a panic (\<open>None\<close>). Handlers are user
  code. The error \<open>Remote_error t\<close> is the one that \<^verbatim>\<open>fmt.Errorf(t)\<close> builds.
\<close>

section \<open>Data\<close>

type_synonym ClusterMessageType = string

definition MessageTypeActorCall :: ClusterMessageType where "MessageTypeActorCall = ''actor_call''"
definition MessageTypeActorReply :: ClusterMessageType where "MessageTypeActorReply = ''actor_reply''"
definition MessageTypeJoin :: ClusterMessageType where "MessageTypeJoin = ''join''"

record 'v ClusterMessage =
  cmsg_ID :: string
  cmsg_Type :: ClusterMessageType
  cmsg_From :: NodeID
  cmsg_To :: NodeID
  cmsg_Payload :: bytes
  cmsg_Headers :: "string \<rightharpoonup> string"
  cmsg_Metadata :: "string \<rightharpoonup> 'v"
  cmsg_Timestamp :: Time
  cmsg_TTL :: Duration
  cmsg_Hops :: int
  cmsg_Path :: "NodeID list"

record RemoteActorRef =
  ref_NodeID :: NodeID
  ref_ActorID :: string
  ref_Address :: string

record 'v RemoteCallRequest =
  req_CallID :: string
  req_ServiceID :: string
  req_Method :: string
  req_Args :: 'v

record 'v RemoteCallResponse =
  resp_CallID :: string
  resp_Result :: 'v
  resp_Error :: string

datatype ServiceHealth = ServiceHealthHealthy | ServiceHealthUnhealthy | ServiceHealthUnknown

record ServiceInstance =
  inst_ServiceID :: string
  inst_NodeID :: NodeID
  inst_Address :: string
  inst_Metadata :: "string \<rightharpoonup> string"
  inst_Health :: ServiceHealth
  inst_RegisteredAt :: Time
  inst_LastSeen :: Time

datatype ServiceEventType = ServiceEventRegistered | ServiceEventUnregistered | ServiceEventHealthy | ServiceEventUnhealthy

record ServiceEvent =
  sev_Type :: ServiceEventType
  sev_ServiceID :: string
  sev_Instance :: ServiceInstance
  sev_Timestamp :: Time

definition generateMessageID :: "Time \<Rightarrow> string" where
  "generateMessageID now = ''msg-'' @ int_text (now - unix_epoch_seconds * Second)"

section \<open>The registry of services\<close>

text \<open>
  \<open>sr_node\<close> and \<open>sr_address\<close> are the id and the address of the manager's node. The channels of
  the watchers are shared with their readers and live in a store.
\<close>

record serviceRegistry =
  sr_node :: NodeID
  sr_address :: string
  sr_services :: "string \<rightharpoonup> ServiceInstance list"
  sr_watchers :: "string \<rightharpoonup> nat list"
  sr_chans :: "nat \<rightharpoonup> ServiceEvent chan"
  sr_alloc :: nat

definition NewServiceRegistry :: "NodeID \<Rightarrow> string \<Rightarrow> serviceRegistry" where
  "NewServiceRegistry nid addr =
     \<lparr>sr_node = nid, sr_address = addr, sr_services = Map.empty, sr_watchers = Map.empty,
      sr_chans = Map.empty, sr_alloc = 0\<rparr>"

fun notify_loop :: "ServiceEvent \<Rightarrow> nat list \<Rightarrow> (nat \<rightharpoonup> ServiceEvent chan) \<Rightarrow> (nat \<rightharpoonup> ServiceEvent chan) option" where
  "notify_loop ev [] chans = Some chans"
| "notify_loop ev (c # cs) chans =
     (case chans c of
        None \<Rightarrow> notify_loop ev cs chans
      | Some ch \<Rightarrow>
          (case try_send ev ch of
             Sent ch' \<Rightarrow> notify_loop ev cs (chans(c \<mapsto> ch'))
           | Send_full \<Rightarrow> notify_loop ev cs chans
           | Send_panic \<Rightarrow> None))"

definition sr_notifyWatchers :: "string \<Rightarrow> ServiceEvent \<Rightarrow> serviceRegistry \<Rightarrow> serviceRegistry option" where
  "sr_notifyWatchers serviceID ev sr =
     (case sr_watchers sr serviceID of
        None \<Rightarrow> Some sr
      | Some watchers \<Rightarrow> map_option (\<lambda>chans. sr\<lparr>sr_chans := chans\<rparr>) (notify_loop ev watchers (sr_chans sr)))"

text \<open>The instance of the node replaces the one it has in the list, or is added at the end.\<close>

fun put_instance :: "ServiceInstance \<Rightarrow> ServiceInstance list \<Rightarrow> ServiceInstance list" where
  "put_instance inst [] = [inst]"
| "put_instance inst (x # xs) = (if inst_NodeID x = inst_NodeID inst then inst # xs else x # put_instance inst xs)"

definition sr_RegisterService :: "Time \<Rightarrow> string \<Rightarrow> (string \<rightharpoonup> string) \<Rightarrow> serviceRegistry \<Rightarrow> serviceRegistry option" where
  "sr_RegisterService now serviceID metadata sr =
     (let inst = \<lparr>inst_ServiceID = serviceID, inst_NodeID = sr_node sr, inst_Address = sr_address sr,
                  inst_Metadata = metadata, inst_Health = ServiceHealthHealthy,
                  inst_RegisteredAt = now, inst_LastSeen = now\<rparr>;
          insts = (case sr_services sr serviceID of Some xs \<Rightarrow> put_instance inst xs | None \<Rightarrow> [inst])
      in sr_notifyWatchers serviceID
           \<lparr>sev_Type = ServiceEventRegistered, sev_ServiceID = serviceID, sev_Instance = inst, sev_Timestamp = now\<rparr>
           (sr\<lparr>sr_services := (sr_services sr)(serviceID \<mapsto> insts)\<rparr>))"

text \<open>The instance removed is the last one of the node in the list, if there is any.\<close>

definition sr_UnregisterService :: "Time \<Rightarrow> string \<Rightarrow> serviceRegistry \<Rightarrow> serviceRegistry option" where
  "sr_UnregisterService now serviceID sr =
     (case sr_services sr serviceID of
        None \<Rightarrow> Some sr
      | Some instances \<Rightarrow>
          let newInstances = filter (\<lambda>i. inst_NodeID i \<noteq> sr_node sr) instances;
              removed = filter (\<lambda>i. inst_NodeID i = sr_node sr) instances;
              sr1 = sr\<lparr>sr_services := (sr_services sr)(serviceID := (if newInstances = [] then None else Some newInstances))\<rparr>
          in if removed \<noteq> [] \<and> inst_ServiceID (last removed) \<noteq> []
             then sr_notifyWatchers serviceID
                    \<lparr>sev_Type = ServiceEventUnregistered, sev_ServiceID = serviceID, sev_Instance = last removed,
                     sev_Timestamp = now\<rparr> sr1
             else Some sr1)"

definition sr_DiscoverService :: "string \<Rightarrow> serviceRegistry \<Rightarrow> ServiceInstance list" where
  "sr_DiscoverService serviceID sr = (case sr_services sr serviceID of None \<Rightarrow> [] | Some instances \<Rightarrow> instances)"

definition sr_GetAllServices :: "serviceRegistry \<Rightarrow> (string \<rightharpoonup> ServiceInstance list)" where
  "sr_GetAllServices sr = sr_services sr"

definition sr_Watch :: "string \<Rightarrow> serviceRegistry \<Rightarrow> nat \<times> serviceRegistry" where
  "sr_Watch serviceID sr =
     (let ch = sr_alloc sr;
          watchers = (case sr_watchers sr serviceID of Some ws \<Rightarrow> ws @ [ch] | None \<Rightarrow> [ch])
      in (ch, sr\<lparr>sr_chans := (sr_chans sr)(ch \<mapsto> make_chan 100), sr_alloc := Suc ch,
                 sr_watchers := (sr_watchers sr)(serviceID \<mapsto> watchers)\<rparr>))"

definition sr_removeWatcher :: "string \<Rightarrow> nat \<Rightarrow> serviceRegistry \<Rightarrow> serviceRegistry" where
  "sr_removeWatcher serviceID ch sr =
     (case sr_watchers sr serviceID of
        None \<Rightarrow> sr
      | Some watchers \<Rightarrow>
          let newWatchers = filter (\<lambda>w. w \<noteq> ch) watchers
          in sr\<lparr>sr_watchers := (sr_watchers sr)(serviceID := (if newWatchers = [] then None else Some newWatchers))\<rparr>)"

text \<open>The last step of the goroutine of \<^verbatim>\<open>Watch\<close>, after \<^verbatim>\<open>removeWatcher\<close>.\<close>

definition watch_close :: "nat \<Rightarrow> serviceRegistry \<Rightarrow> serviceRegistry option" where
  "watch_close ch sr =
     (case Option.bind (sr_chans sr ch) close_chan of
        None \<Rightarrow> None
      | Some c \<Rightarrow> Some (sr\<lparr>sr_chans := (sr_chans sr)(ch \<mapsto> c)\<rparr>))"

section \<open>Remote calls\<close>

record 'v json_ops =
  j_request :: "'v RemoteCallRequest \<Rightarrow> bytes option"
  j_to_request :: "bytes \<Rightarrow> 'v RemoteCallRequest option"
  j_response :: "'v RemoteCallResponse \<Rightarrow> bytes option"
  j_to_response :: "bytes \<Rightarrow> 'v RemoteCallResponse option"
  j_value :: "'v \<Rightarrow> bytes option"
  j_to_value :: "bytes \<Rightarrow> 'v option"

datatype RemoteError =
    Serialize_failed | Transport_error string | Context_done | Call_timeout | Remote_error string
  | Already_registered string | No_registry | Parse_failed | No_target_actor | Actor_not_found string

record 'v pendingCall =
  pc_id :: string
  pc_result :: "'v chan"
  pc_error :: "RemoteError chan"
  pc_timeout :: Time

text \<open>
  \<open>rs_transport\<close> says how the transport answers a message: with an error or not. \<open>rs_sent\<close> are
  the messages it took. \<open>rs_spawned\<close> are the handlers of messages nobody waits for, started and
  not yet run, \<open>rs_world\<close> is the state of the user's code.
\<close>

record ('v, 'h) remoteService =
  rs_node :: NodeID
  rs_transport :: "(NodeID \<Rightarrow> 'v ClusterMessage \<Rightarrow> string option) option"
  rs_registry :: "serviceRegistry option"
  rs_handlers :: "string \<rightharpoonup> nat"
  rs_pendingCalls :: "string \<rightharpoonup> 'v pendingCall"
  rs_callCounter :: u64
  rs_sent :: "(NodeID \<times> 'v ClusterMessage) list"
  rs_spawned :: "(nat \<times> 'v) list"
  rs_world :: 'h

type_synonym ('v, 'h) handle_fun = "nat \<Rightarrow> 'v \<Rightarrow> 'h \<Rightarrow> (string + 'v) \<times> 'h"

definition NewRemoteService :: "NodeID \<Rightarrow> 'h \<Rightarrow> ('v, 'h) remoteService" where
  "NewRemoteService nid h =
     \<lparr>rs_node = nid, rs_transport = None, rs_registry = None, rs_handlers = Map.empty, rs_pendingCalls = Map.empty,
      rs_callCounter = 0, rs_sent = [], rs_spawned = [], rs_world = h\<rparr>"

definition generateCallID :: "('v, 'h) remoteService \<Rightarrow> string \<times> ('v, 'h) remoteService" where
  "generateCallID rs =
     (let counter = rs_callCounter rs + 1
      in (''call-'' @ rs_node rs @ ''-'' @ int_text (sint counter), rs\<lparr>rs_callCounter := counter\<rparr>))"

definition transport_Send ::
  "NodeID \<Rightarrow> 'v ClusterMessage \<Rightarrow> ('v, 'h) remoteService \<Rightarrow> ((RemoteError + unit) \<times> ('v, 'h) remoteService) option" where
  "transport_Send to msg rs =
     (case rs_transport rs of
        None \<Rightarrow> None
      | Some send \<Rightarrow>
          (case send to msg of
             Some e \<Rightarrow> Some (Inl (Transport_error e), rs)
           | None \<Rightarrow> Some (Inr (), rs\<lparr>rs_sent := rs_sent rs @ [(to, msg)]\<rparr>)))"

definition leave_call :: "string \<Rightarrow> ('v, 'h) remoteService \<Rightarrow> ('v, 'h) remoteService" where
  "leave_call callID rs = rs\<lparr>rs_pendingCalls := (rs_pendingCalls rs)(callID := None)\<rparr>"

text \<open>\<^verbatim>\<open>Call\<close> up to its wait: an error, or the id under which it waits.\<close>

definition rs_Call_begin ::
  "'v json_ops \<Rightarrow> Time \<Rightarrow> RemoteActorRef \<Rightarrow> 'v \<Rightarrow> ('v, 'h) remoteService \<Rightarrow>
     ((RemoteError + string) \<times> ('v, 'h) remoteService) option" where
  "rs_Call_begin json now ref message rs =
     (let (callID, rs1) = generateCallID rs;
          request = \<lparr>req_CallID = callID, req_ServiceID = ref_ActorID ref, req_Method = ''handle'', req_Args = message\<rparr>
      in case j_request json request of
           None \<Rightarrow> Some (Inl Serialize_failed, rs1)
         | Some payload \<Rightarrow>
             let clusterMsg =
                   \<lparr>cmsg_ID = generateMessageID now, cmsg_Type = MessageTypeActorCall, cmsg_From = rs_node rs1,
                    cmsg_To = ref_NodeID ref, cmsg_Payload = payload, cmsg_Headers = Map.empty, cmsg_Metadata = Map.empty,
                    cmsg_Timestamp = now, cmsg_TTL = 30 * Second, cmsg_Hops = 0, cmsg_Path = []\<rparr>;
                 pending = \<lparr>pc_id = callID, pc_result = make_chan 1, pc_error = make_chan 1, pc_timeout = now + 30 * Second\<rparr>;
                 rs2 = rs1\<lparr>rs_pendingCalls := (rs_pendingCalls rs1)(callID \<mapsto> pending)\<rparr>
             in (case transport_Send (ref_NodeID ref) clusterMsg rs2 of
                   None \<Rightarrow> None
                 | Some (Inl e, rs3) \<Rightarrow> Some (Inl e, leave_call callID rs3)
                 | Some (Inr _, rs3) \<Rightarrow> Some (Inr callID, rs3)))"

datatype call_wake = Wake_result | Wake_error | Wake_done | Wake_timeout

text \<open>One branch of the select; \<open>None\<close> when it is not ready.\<close>

definition rs_Call_wait ::
  "call_wake \<Rightarrow> string \<Rightarrow> ('v, 'h) remoteService \<Rightarrow> ((RemoteError + 'v) \<times> ('v, 'h) remoteService) option" where
  "rs_Call_wait w callID rs =
     (case rs_pendingCalls rs callID of
        None \<Rightarrow> None
      | Some pending \<Rightarrow>
          (case w of
             Wake_result \<Rightarrow>
               (case try_recv (pc_result pending) of Received v _ \<Rightarrow> Some (Inr v, leave_call callID rs) | _ \<Rightarrow> None)
           | Wake_error \<Rightarrow>
               (case try_recv (pc_error pending) of Received e _ \<Rightarrow> Some (Inl e, leave_call callID rs) | _ \<Rightarrow> None)
           | Wake_done \<Rightarrow> Some (Inl Context_done, leave_call callID rs)
           | Wake_timeout \<Rightarrow> Some (Inl Call_timeout, leave_call callID rs)))"

definition rs_Send ::
  "'v json_ops \<Rightarrow> Time \<Rightarrow> RemoteActorRef \<Rightarrow> 'v \<Rightarrow> ('v, 'h) remoteService \<Rightarrow>
     ((RemoteError + unit) \<times> ('v, 'h) remoteService) option" where
  "rs_Send json now ref message rs =
     (case j_value json message of
        None \<Rightarrow> Some (Inl Serialize_failed, rs)
      | Some payload \<Rightarrow>
          transport_Send (ref_NodeID ref)
            \<lparr>cmsg_ID = generateMessageID now, cmsg_Type = MessageTypeActorCall, cmsg_From = rs_node rs,
             cmsg_To = ref_NodeID ref, cmsg_Payload = payload,
             cmsg_Headers = [''target_actor'' \<mapsto> ref_ActorID ref, ''fire_forget'' \<mapsto> ''true''], cmsg_Metadata = Map.empty,
             cmsg_Timestamp = now, cmsg_TTL = 0, cmsg_Hops = 0, cmsg_Path = []\<rparr> rs)"

definition rs_Register ::
  "Time \<Rightarrow> string \<Rightarrow> nat \<Rightarrow> ('v, 'h) remoteService \<Rightarrow> ((RemoteError + unit) \<times> ('v, 'h) remoteService) option" where
  "rs_Register now serviceID handler rs =
     (if rs_handlers rs serviceID \<noteq> None then Some (Inl (Already_registered serviceID), rs)
      else
        let rs1 = rs\<lparr>rs_handlers := (rs_handlers rs)(serviceID \<mapsto> handler)\<rparr>
        in case rs_registry rs1 of
             None \<Rightarrow> Some (Inr (), rs1)
           | Some sr \<Rightarrow> map_option (\<lambda>sr'. (Inr (), rs1\<lparr>rs_registry := Some sr'\<rparr>))
                          (sr_RegisterService now serviceID [''type'' \<mapsto> ''remote_service''] sr))"

definition rs_Unregister :: "Time \<Rightarrow> string \<Rightarrow> ('v, 'h) remoteService \<Rightarrow> ('v, 'h) remoteService option" where
  "rs_Unregister now serviceID rs =
     (let rs1 = rs\<lparr>rs_handlers := (rs_handlers rs)(serviceID := None)\<rparr>
      in case rs_registry rs1 of
           None \<Rightarrow> Some rs1
         | Some sr \<Rightarrow> map_option (\<lambda>sr'. rs1\<lparr>rs_registry := Some sr'\<rparr>) (sr_UnregisterService now serviceID sr))"

definition rs_Resolve :: "string \<Rightarrow> ('v, 'h) remoteService \<Rightarrow> RemoteError + RemoteActorRef list" where
  "rs_Resolve serviceID rs =
     (case rs_registry rs of
        None \<Rightarrow> Inl No_registry
      | Some sr \<Rightarrow>
          Inr (map (\<lambda>i. \<lparr>ref_NodeID = inst_NodeID i, ref_ActorID = serviceID, ref_Address = inst_Address i\<rparr>)
                 (sr_DiscoverService serviceID sr)))"

definition send_response ::
  "'v json_ops \<Rightarrow> Time \<Rightarrow> NodeID \<Rightarrow> 'v RemoteCallResponse \<Rightarrow> ('v, 'h) remoteService \<Rightarrow>
     ((RemoteError + unit) \<times> ('v, 'h) remoteService) option" where
  "send_response json now to response rs =
     (case j_response json response of
        None \<Rightarrow> Some (Inl Serialize_failed, rs)
      | Some payload \<Rightarrow>
          transport_Send to
            \<lparr>cmsg_ID = generateMessageID now, cmsg_Type = MessageTypeActorReply, cmsg_From = rs_node rs, cmsg_To = to,
             cmsg_Payload = payload, cmsg_Headers = Map.empty, cmsg_Metadata = Map.empty, cmsg_Timestamp = now,
             cmsg_TTL = 0, cmsg_Hops = 0, cmsg_Path = []\<rparr> rs)"

definition sendSuccessResponse ::
  "'v json_ops \<Rightarrow> Time \<Rightarrow> NodeID \<Rightarrow> string \<Rightarrow> 'v \<Rightarrow> ('v, 'h) remoteService \<Rightarrow>
     ((RemoteError + unit) \<times> ('v, 'h) remoteService) option" where
  "sendSuccessResponse json now to callID result rs =
     send_response json now to \<lparr>resp_CallID = callID, resp_Result = result, resp_Error = []\<rparr> rs"

definition sendErrorResponse ::
  "'v json_ops \<Rightarrow> 'v \<Rightarrow> Time \<Rightarrow> NodeID \<Rightarrow> string \<Rightarrow> string \<Rightarrow> ('v, 'h) remoteService \<Rightarrow>
     ((RemoteError + unit) \<times> ('v, 'h) remoteService) option" where
  "sendErrorResponse json nil now to callID err rs =
     send_response json now to \<lparr>resp_CallID = callID, resp_Result = nil, resp_Error = err\<rparr> rs"

definition handleFireAndForget ::
  "'v json_ops \<Rightarrow> 'v ClusterMessage \<Rightarrow> ('v, 'h) remoteService \<Rightarrow> (RemoteError + unit) \<times> ('v, 'h) remoteService" where
  "handleFireAndForget json message rs =
     (let targetActor = go_get [] (cmsg_Headers message) ''target_actor''
      in if targetActor = [] then (Inl No_target_actor, rs)
         else case rs_handlers rs targetActor of
                None \<Rightarrow> (Inl (Actor_not_found targetActor), rs)
              | Some handler \<Rightarrow>
                  (case j_to_value json (cmsg_Payload message) of
                     None \<Rightarrow> (Inl Parse_failed, rs)
                   | Some args \<Rightarrow> (Inr (), rs\<lparr>rs_spawned := rs_spawned rs @ [(handler, args)]\<rparr>)))"

text \<open>A goroutine of \<^verbatim>\<open>handleFireAndForget\<close> runs; its error is only printed.\<close>

definition run_spawned :: "('v, 'h) handle_fun \<Rightarrow> nat \<Rightarrow> ('v, 'h) remoteService \<Rightarrow> ('v, 'h) remoteService option" where
  "run_spawned handle i rs =
     (if i < length (rs_spawned rs)
      then let (h, args) = rs_spawned rs ! i
           in Some (rs\<lparr>rs_spawned := take i (rs_spawned rs) @ drop (Suc i) (rs_spawned rs),
                       rs_world := snd (handle h args (rs_world rs))\<rparr>)
      else None)"

definition handleRemoteCall ::
  "('v, 'h) handle_fun \<Rightarrow> 'v json_ops \<Rightarrow> 'v \<Rightarrow> Time \<Rightarrow> NodeID \<Rightarrow> 'v ClusterMessage \<Rightarrow> ('v, 'h) remoteService \<Rightarrow>
     ((RemoteError + unit) \<times> ('v, 'h) remoteService) option" where
  "handleRemoteCall handle json nil now from message rs =
     (if go_get [] (cmsg_Headers message) ''fire_forget'' = ''true'' then Some (handleFireAndForget json message rs)
      else
        case j_to_request json (cmsg_Payload message) of
          None \<Rightarrow> Some (Inl Parse_failed, rs)
        | Some request \<Rightarrow>
            (case rs_handlers rs (req_ServiceID request) of
               None \<Rightarrow> sendErrorResponse json nil now from (req_CallID request)
                         (''service not found: '' @ req_ServiceID request) rs
             | Some handler \<Rightarrow>
                 (let (verdict, w) = handle handler (req_Args request) (rs_world rs);
                      rs1 = rs\<lparr>rs_world := w\<rparr>
                  in case verdict of
                       Inl err \<Rightarrow> sendErrorResponse json nil now from (req_CallID request) err rs1
                     | Inr result \<Rightarrow> sendSuccessResponse json now from (req_CallID request) result rs1)))"

definition handleRemoteReply ::
  "'v json_ops \<Rightarrow> 'v ClusterMessage \<Rightarrow> ('v, 'h) remoteService \<Rightarrow> (RemoteError + unit) \<times> ('v, 'h) remoteService" where
  "handleRemoteReply json message rs =
     (case j_to_response json (cmsg_Payload message) of
        None \<Rightarrow> (Inl Parse_failed, rs)
      | Some response \<Rightarrow>
          (case rs_pendingCalls rs (resp_CallID response) of
             None \<Rightarrow> (Inr (), rs)
           | Some pending \<Rightarrow>
               let pending' = (if resp_Error response \<noteq> []
                               then pending\<lparr>pc_error := offer (Remote_error (resp_Error response)) (pc_error pending)\<rparr>
                               else pending\<lparr>pc_result := offer (resp_Result response) (pc_result pending)\<rparr>)
               in (Inr (), rs\<lparr>rs_pendingCalls := (rs_pendingCalls rs)(resp_CallID response \<mapsto> pending')\<rparr>)))"

definition rs_HandleMessage ::
  "('v, 'h) handle_fun \<Rightarrow> 'v json_ops \<Rightarrow> 'v \<Rightarrow> Time \<Rightarrow> NodeID \<Rightarrow> 'v ClusterMessage \<Rightarrow> ('v, 'h) remoteService \<Rightarrow>
     ((RemoteError + unit) \<times> ('v, 'h) remoteService) option" where
  "rs_HandleMessage handle json nil now from message rs =
     (if cmsg_Type message = MessageTypeActorCall then handleRemoteCall handle json nil now from message rs
      else if cmsg_Type message = MessageTypeActorReply then Some (handleRemoteReply json message rs)
      else Some (Inr (), rs))"

section \<open>The registry with its watchers\<close>

text \<open>
  Every call of \<^verbatim>\<open>Watch\<close> leaves a goroutine that, once its context is done, removes the channel
  from the list and then closes it. The second component of the state says what these
  goroutines have done: \<open>(s, False)\<close> waits, \<open>(s, True)\<close> has removed its channel and not closed it.
\<close>

type_synonym watched = "serviceRegistry \<times> (nat \<rightharpoonup> string \<times> bool)"

inductive sr_step :: "watched \<Rightarrow> watched \<Rightarrow> bool" where
  register: "sr_RegisterService now s md sr = Some sr' \<Longrightarrow> sr_step (sr, G) (sr', G)"
| unregister: "sr_UnregisterService now s sr = Some sr' \<Longrightarrow> sr_step (sr, G) (sr', G)"
| watch: "sr_Watch s sr = (ch, sr') \<Longrightarrow> sr_step (sr, G) (sr', G(ch \<mapsto> (s, False)))"
| remove: "G ch = Some (s, False) \<Longrightarrow> sr_step (sr, G) (sr_removeWatcher s ch sr, G(ch \<mapsto> (s, True)))"
| close: "\<lbrakk>G ch = Some (s, True); watch_close ch sr = Some sr'\<rbrakk> \<Longrightarrow> sr_step (sr, G) (sr', G(ch := None))"
| receive: "\<lbrakk>sr_chans sr ch = Some c; try_recv c = Received ev c'\<rbrakk> \<Longrightarrow>
    sr_step (sr, G) (sr\<lparr>sr_chans := (sr_chans sr)(ch \<mapsto> c')\<rparr>, G)"

inductive_cases sr_stepE: "sr_step w w'"

text \<open>
  The listed channels are those whose goroutine waits; channels of goroutines are open; a
  service has one instance, of the node itself.
\<close>

definition chans_open :: "(nat \<rightharpoonup> string \<times> bool) \<Rightarrow> (nat \<rightharpoonup> ServiceEvent chan) \<Rightarrow> bool" where
  "chans_open G chans \<longleftrightarrow> (\<forall>ch g. G ch = Some g \<longrightarrow> (\<exists>c. chans ch = Some c \<and> \<not> ch_closed c))"

definition below :: "(nat \<rightharpoonup> string \<times> bool) \<Rightarrow> nat \<Rightarrow> bool" where
  "below G n \<longleftrightarrow> (\<forall>ch g. G ch = Some g \<longrightarrow> ch < n)"

definition listed :: "serviceRegistry \<Rightarrow> string \<Rightarrow> nat list" where
  "listed sr s = (case sr_watchers sr s of None \<Rightarrow> [] | Some ws \<Rightarrow> ws)"

definition instances_ok :: "serviceRegistry \<Rightarrow> bool" where
  "instances_ok sr \<longleftrightarrow>
     (\<forall>s is. sr_services sr s = Some is \<longrightarrow> (\<exists>i. is = [i] \<and> inst_ServiceID i = s \<and> inst_NodeID i = sr_node sr))"

definition sr_inv :: "watched \<Rightarrow> bool" where
  "sr_inv = (\<lambda>(sr, G).
     (\<forall>s. distinct (listed sr s) \<and> set (listed sr s) = {ch. G ch = Some (s, False)}) \<and>
     chans_open G (sr_chans sr) \<and> below G (sr_alloc sr) \<and> instances_ok sr)"

lemma chans_openD: "\<lbrakk>chans_open G chans; G ch = Some g\<rbrakk> \<Longrightarrow> \<exists>c. chans ch = Some c \<and> \<not> ch_closed c"
  unfolding chans_open_def by blast

lemma chans_open_upd:
  "\<lbrakk>chans_open G chans; \<not> ch_closed c\<rbrakk> \<Longrightarrow> chans_open (G(ch \<mapsto> g)) (chans(ch \<mapsto> c))"
  "\<lbrakk>chans_open G chans; G ch = Some g\<rbrakk> \<Longrightarrow> chans_open (G(ch \<mapsto> g')) chans"
  "\<lbrakk>chans_open G chans; \<forall>d. d \<noteq> ch \<longrightarrow> chans' d = chans d\<rbrakk> \<Longrightarrow> chans_open (G(ch := None)) chans'"
  by (auto simp: chans_open_def simp del: split_paired_All split_paired_Ex split: if_splits)

lemma below_upd:
  "below G n \<Longrightarrow> G n = None" "below G n \<Longrightarrow> below (G(n \<mapsto> g)) (Suc n)"
  "\<lbrakk>below G n; G ch = Some g\<rbrakk> \<Longrightarrow> below (G(ch \<mapsto> g')) n" "below G n \<Longrightarrow> below (G(ch := None)) n"
  by (auto simp: below_def less_Suc_eq simp del: split_paired_All split_paired_Ex split: if_splits)

lemma notify_loop_open:
  assumes "distinct ws" "\<forall>w\<in>set ws. \<exists>c. chans w = Some c \<and> \<not> ch_closed c"
  shows "notify_loop ev ws chans = Some (\<lambda>w. if w \<in> set ws then map_option (offer ev) (chans w) else chans w)"
  using assms
proof (induction ws arbitrary: chans)
  case (Cons w ws)
  then obtain c where c: "chans w = Some c" "\<not> ch_closed c" by auto
  have o: "try_send ev c = Sent c' \<Longrightarrow> offer ev c = c'" "try_send ev c = Send_full \<Longrightarrow> offer ev c = c" for c'
    by (simp_all add: offer_def)
  show ?case
  proof (cases "try_send ev c")
    case (Sent c')
    have "notify_loop ev ws (chans(w \<mapsto> c')) =
        Some (\<lambda>v. if v \<in> set ws then map_option (offer ev) ((chans(w \<mapsto> c')) v) else (chans(w \<mapsto> c')) v)"
      using Cons.prems by (intro Cons.IH) auto
    moreover have "\<dots> = Some (\<lambda>v. if v \<in> set (w # ws) then map_option (offer ev) (chans v) else chans v)"
      using Cons.prems c o(1) [OF Sent] by (auto simp: fun_eq_iff)
    ultimately show ?thesis using c Sent by simp
  next
    case Send_full
    have "notify_loop ev ws chans = Some (\<lambda>v. if v \<in> set ws then map_option (offer ev) (chans v) else chans v)"
      using Cons.prems by (intro Cons.IH) auto
    moreover have "\<dots> = Some (\<lambda>v. if v \<in> set (w # ws) then map_option (offer ev) (chans v) else chans v)"
      using c o(2) [OF Send_full] by (auto simp: fun_eq_iff)
    ultimately show ?thesis using c Send_full by simp
  next
    case Send_panic
    with c show ?thesis by (simp add: try_send_panic_iff)
  qed
qed simp

lemma notify_open:
  assumes "sr_inv (sr0, G)" "sr_watchers sr = sr_watchers sr0" "sr_chans sr = sr_chans sr0"
  shows "sr_notifyWatchers s ev sr =
    Some (sr\<lparr>sr_chans := (\<lambda>ch. if G ch = Some (s, False) then map_option (offer ev) (sr_chans sr0 ch) else sr_chans sr0 ch)\<rparr>)"
proof -
  have l: "distinct (listed sr0 s)" "set (listed sr0 s) = {ch. G ch = Some (s, False)}" "chans_open G (sr_chans sr0)"
    using assms(1) by (auto simp: sr_inv_def)
  have "\<forall>w\<in>set (listed sr0 s). \<exists>c. sr_chans sr0 w = Some c \<and> \<not> ch_closed c"
    using l chans_openD by fastforce
  from notify_loop_open [OF l(1) this, of ev] have
    n: "notify_loop ev (listed sr0 s) (sr_chans sr0) =
      Some (\<lambda>ch. if G ch = Some (s, False) then map_option (offer ev) (sr_chans sr0 ch) else sr_chans sr0 ch)"
    using l(2) by simp
  show ?thesis
  proof (cases "sr_watchers sr0 s")
    case None
    then have "\<And>ch. G ch \<noteq> Some (s, False)"
      using l(2) by (auto simp: listed_def)
    then show ?thesis
      using None assms(2,3) by (cases sr) (simp add: sr_notifyWatchers_def)
  next
    case (Some ws)
    then show ?thesis
      using n assms(2,3) by (simp add: sr_notifyWatchers_def listed_def)
  qed
qed

lemma chans_open_offer:
  "chans_open G chans \<Longrightarrow> chans_open G (\<lambda>ch. if P ch then map_option (offer ev) (chans ch) else chans ch)"
  by (fastforce simp: chans_open_def)

lemma sr_inv_cong:
  assumes "sr_inv (sr, G)" "sr_watchers sr' = sr_watchers sr" "sr_alloc sr' = sr_alloc sr"
    "chans_open G (sr_chans sr')" "instances_ok sr'"
  shows "sr_inv (sr', G)"
  using assms by (simp add: sr_inv_def listed_def)

definition new_instance :: "Time \<Rightarrow> string \<Rightarrow> (string \<rightharpoonup> string) \<Rightarrow> serviceRegistry \<Rightarrow> ServiceInstance" where
  "new_instance now s md sr =
     \<lparr>inst_ServiceID = s, inst_NodeID = sr_node sr, inst_Address = sr_address sr, inst_Metadata = md,
      inst_Health = ServiceHealthHealthy, inst_RegisteredAt = now, inst_LastSeen = now\<rparr>"

text \<open>What every watcher of the service \<open>s\<close> finds in its channel after the event.\<close>

definition told :: "string \<Rightarrow> ServiceEvent \<Rightarrow> (nat \<rightharpoonup> string \<times> bool) \<Rightarrow> serviceRegistry \<Rightarrow> nat \<Rightarrow> ServiceEvent chan option" where
  "told s ev G sr = (\<lambda>ch. if G ch = Some (s, False) then map_option (offer ev) (sr_chans sr ch) else sr_chans sr ch)"

lemma own_instance:
  assumes "sr_inv (sr, G)" "sr_services sr s = Some is"
  obtains i where "is = [i]" "inst_ServiceID i = s" "inst_NodeID i = sr_node sr"
  using assms unfolding sr_inv_def instances_ok_def by blast

lemma RegisterService_eq:
  assumes "sr_inv (sr, G)"
  shows "sr_RegisterService now s md sr =
    Some (sr\<lparr>sr_services := (sr_services sr)(s \<mapsto> [new_instance now s md sr]),
             sr_chans := told s \<lparr>sev_Type = ServiceEventRegistered, sev_ServiceID = s,
               sev_Instance = new_instance now s md sr, sev_Timestamp = now\<rparr> G sr\<rparr>)"
proof -
  have "sr_services sr s = Some is \<Longrightarrow> put_instance (new_instance now s md sr) is = [new_instance now s md sr]" for "is"
    using assms by (auto simp: new_instance_def elim!: own_instance)
  then have "(case sr_services sr s of Some xs \<Rightarrow> put_instance (new_instance now s md sr) xs
      | None \<Rightarrow> [new_instance now s md sr]) = [new_instance now s md sr]"
    by (simp split: option.split)
  then show ?thesis
    by (simp add: sr_RegisterService_def Let_def told_def notify_open [OF assms] new_instance_def [symmetric])
qed

lemma UnregisterService_eq:
  assumes "sr_inv (sr, G)"
  shows "sr_UnregisterService now s sr =
    (case sr_services sr s of
       None \<Rightarrow> Some sr
     | Some is \<Rightarrow>
         Some (sr\<lparr>sr_services := (sr_services sr)(s := None),
                  sr_chans := (if s = [] then sr_chans sr
                    else told s \<lparr>sev_Type = ServiceEventUnregistered, sev_ServiceID = s,
                      sev_Instance = last is, sev_Timestamp = now\<rparr> G sr)\<rparr>))"
proof (cases "sr_services sr s")
  case (Some "is")
  then obtain i where "is = [i]" "inst_ServiceID i = s" "inst_NodeID i = sr_node sr"
    by (rule own_instance [OF assms])
  then show ?thesis
    using Some by (cases sr) (auto simp: sr_UnregisterService_def Let_def told_def notify_open [OF assms])
qed (simp add: sr_UnregisterService_def)

lemma sr_inv_register:
  assumes "sr_inv (sr, G)" "sr_RegisterService now s md sr = Some sr'"
  shows "sr_inv (sr', G)"
proof (rule sr_inv_cong [OF assms(1)])
  note sr' = assms(2) [unfolded RegisterService_eq [OF assms(1)], simplified, symmetric]
  have "chans_open G (sr_chans sr)" "instances_ok sr" using assms(1) by (auto simp: sr_inv_def)
  then show "chans_open G (sr_chans sr')" "instances_ok sr'"
    by (auto simp: sr' told_def chans_open_offer instances_ok_def new_instance_def)
qed (use assms in \<open>auto simp: RegisterService_eq\<close>)

lemma sr_inv_unregister:
  assumes "sr_inv (sr, G)" "sr_UnregisterService now s sr = Some sr'"
  shows "sr_inv (sr', G)"
proof (cases "sr_services sr s")
  case None
  then show ?thesis using assms by (simp add: UnregisterService_eq)
next
  case (Some "is")
  note sr' = assms(2) [unfolded UnregisterService_eq [OF assms(1)] Some, simplified, symmetric]
  have "chans_open G (sr_chans sr)" "instances_ok sr" using assms(1) by (auto simp: sr_inv_def)
  then show ?thesis
    by (intro sr_inv_cong [OF assms(1)]) (auto simp: sr' told_def chans_open_offer instances_ok_def)
qed

lemma sr_inv_watch:
  assumes "sr_inv (sr, G)" "sr_Watch s sr = (ch, sr')"
  shows "sr_inv (sr', G(ch \<mapsto> (s, False)))"
proof -
  have ch: "ch = sr_alloc sr" using assms(2) by (simp add: sr_Watch_def Let_def)
  have fresh: "G ch = None" using assms(1) by (simp add: sr_inv_def ch below_upd)
  have l: "listed sr' r = (if r = s then listed sr s @ [ch] else listed sr r)" for r
    using assms(2) by (auto simp: sr_Watch_def Let_def listed_def split: option.splits)
  have "distinct (listed sr' r) \<and> set (listed sr' r) = {c. (G(ch \<mapsto> (s, False))) c = Some (r, False)}" for r
    using assms(1) fresh by (auto simp: l sr_inv_def)
  moreover have "chans_open (G(ch \<mapsto> (s, False))) (sr_chans sr')" "below (G(ch \<mapsto> (s, False))) (sr_alloc sr')"
    using assms by (auto simp: sr_Watch_def Let_def sr_inv_def intro!: chans_open_upd(1) below_upd(2))
  moreover have "instances_ok sr'"
    using assms by (auto simp: sr_Watch_def Let_def sr_inv_def instances_ok_def)
  ultimately show ?thesis by (simp add: sr_inv_def)
qed

lemma sr_inv_remove:
  assumes "sr_inv (sr, G)" "G ch = Some (s, False)"
  shows "sr_inv (sr_removeWatcher s ch sr, G(ch \<mapsto> (s, True)))"
proof -
  let ?sr = "sr_removeWatcher s ch sr"
  have l: "listed ?sr r = (if r = s then filter (\<lambda>w. w \<noteq> ch) (listed sr s) else listed sr r)" for r
    by (auto simp: sr_removeWatcher_def Let_def listed_def split: option.splits)
  have f: "sr_chans ?sr = sr_chans sr" "sr_alloc ?sr = sr_alloc sr" "sr_services ?sr = sr_services sr" "sr_node ?sr = sr_node sr"
    by (simp_all add: sr_removeWatcher_def Let_def split: option.splits)
  have "distinct (listed ?sr r) \<and> set (listed ?sr r) = {c. (G(ch \<mapsto> (s, True))) c = Some (r, False)}" for r
    using assms by (auto simp: l sr_inv_def)
  moreover have "chans_open (G(ch \<mapsto> (s, True))) (sr_chans sr)" "below (G(ch \<mapsto> (s, True))) (sr_alloc sr)"
    using assms by (auto simp: sr_inv_def intro: chans_open_upd(2) below_upd(3))
  ultimately show ?thesis using assms(1) by (simp add: sr_inv_def f instances_ok_def)
qed

lemma watch_close_open:
  assumes "sr_inv (sr, G)" "G ch = Some (s, True)"
  shows "\<exists>sr'. watch_close ch sr = Some sr'"
proof -
  obtain c where "sr_chans sr ch = Some c" "\<not> ch_closed c"
    using assms chans_openD [of G "sr_chans sr" ch] by (auto simp: sr_inv_def)
  then show ?thesis by (simp add: watch_close_def close_chan_def)
qed

lemma sr_inv_close:
  assumes "sr_inv (sr, G)" "G ch = Some (s, True)" "watch_close ch sr = Some sr'"
  shows "sr_inv (sr', G(ch := None))"
proof -
  have f: "sr_watchers sr' = sr_watchers sr" "sr_alloc sr' = sr_alloc sr" "sr_services sr' = sr_services sr"
    "sr_node sr' = sr_node sr" "\<forall>c. c \<noteq> ch \<longrightarrow> sr_chans sr' c = sr_chans sr c"
    using assms(3) by (auto simp: watch_close_def split: option.splits)
  have "set (listed sr r) = {c. (G(ch := None)) c = Some (r, False)}" for r
    using assms(1,2) by (auto simp: sr_inv_def)
  moreover have "chans_open (G(ch := None)) (sr_chans sr')" "below (G(ch := None)) (sr_alloc sr)"
    using assms(1) f(5) by (auto simp: sr_inv_def intro: chans_open_upd(3) below_upd(4))
  ultimately show ?thesis using assms(1) f by (simp add: sr_inv_def instances_ok_def listed_def)
qed

lemma sr_inv_receive:
  assumes "sr_inv (sr, G)" "sr_chans sr ch = Some c" "try_recv c = Received ev c'"
  shows "sr_inv (sr\<lparr>sr_chans := (sr_chans sr)(ch \<mapsto> c')\<rparr>, G)"
proof -
  have "ch_closed c' = ch_closed c" using assms(3) by (auto simp: try_recv_def split: list.splits if_splits)
  then have "chans_open G ((sr_chans sr)(ch \<mapsto> c'))"
    using assms(1,2) by (fastforce simp: sr_inv_def chans_open_def)
  then show ?thesis
    using assms(1) by (intro sr_inv_cong [OF assms(1)]) (simp_all add: sr_inv_def instances_ok_def)
qed

lemma sr_inv_step: "\<lbrakk>sr_step w w'; sr_inv w\<rbrakk> \<Longrightarrow> sr_inv w'"
  by (induction rule: sr_step.induct)
    (auto intro: sr_inv_register sr_inv_unregister sr_inv_watch sr_inv_remove sr_inv_close sr_inv_receive)

lemma sr_inv_reach: "sr_step\<^sup>*\<^sup>* (NewServiceRegistry nid addr, Map.empty) w \<Longrightarrow> sr_inv w"
proof (induction rule: rtranclp_induct)
  case base
  show ?case by (simp add: sr_inv_def NewServiceRegistry_def listed_def chans_open_def below_def instances_ok_def)
next
  case (step w w')
  then show ?case by (blast intro: sr_inv_step)
qed

text \<open>
  Property C19. Whatever the interleaving of registrations, watches and the ends of watches,
  no operation sends on a closed channel or closes one twice. Registering a service makes it
  discoverable with exactly the new instance, unregistering removes it, neither touches
  another service, and every watcher of that service, and no other, is told about it.
\<close>

theorem service_registry_correct:
  assumes "sr_step\<^sup>*\<^sup>* (NewServiceRegistry nid addr, Map.empty) (sr, G)"
  shows "(\<forall>ch s'. G ch = Some (s', True) \<longrightarrow> watch_close ch sr \<noteq> None) \<and>
    (\<exists>sr1. sr_RegisterService now s md sr = Some sr1 \<and>
       (\<forall>r. sr_DiscoverService r sr1 = (if r = s then [new_instance now s md sr] else sr_DiscoverService r sr)) \<and>
       sr_chans sr1 = told s \<lparr>sev_Type = ServiceEventRegistered, sev_ServiceID = s,
         sev_Instance = new_instance now s md sr, sev_Timestamp = now\<rparr> G sr) \<and>
    (\<exists>sr2. sr_UnregisterService now s sr = Some sr2 \<and>
       (\<forall>r. sr_DiscoverService r sr2 = (if r = s then [] else sr_DiscoverService r sr)) \<and>
       (sr_DiscoverService s sr = [] \<or> s = [] \<longrightarrow> sr_chans sr2 = sr_chans sr) \<and>
       (\<forall>i. sr_DiscoverService s sr = [i] \<and> s \<noteq> [] \<longrightarrow>
          sr_chans sr2 = told s \<lparr>sev_Type = ServiceEventUnregistered, sev_ServiceID = s,
            sev_Instance = i, sev_Timestamp = now\<rparr> G sr))"
proof -
  have inv: "sr_inv (sr, G)" using sr_inv_reach [OF assms] .
  show ?thesis
  proof (intro conjI)
    show "\<forall>ch s'. G ch = Some (s', True) \<longrightarrow> watch_close ch sr \<noteq> None"
      using watch_close_open [OF inv] by fastforce
    show "\<exists>sr1. sr_RegisterService now s md sr = Some sr1 \<and>
       (\<forall>r. sr_DiscoverService r sr1 = (if r = s then [new_instance now s md sr] else sr_DiscoverService r sr)) \<and>
       sr_chans sr1 = told s \<lparr>sev_Type = ServiceEventRegistered, sev_ServiceID = s,
         sev_Instance = new_instance now s md sr, sev_Timestamp = now\<rparr> G sr"
      by (auto simp: RegisterService_eq [OF inv] sr_DiscoverService_def)
    show "\<exists>sr2. sr_UnregisterService now s sr = Some sr2 \<and>
       (\<forall>r. sr_DiscoverService r sr2 = (if r = s then [] else sr_DiscoverService r sr)) \<and>
       (sr_DiscoverService s sr = [] \<or> s = [] \<longrightarrow> sr_chans sr2 = sr_chans sr) \<and>
       (\<forall>i. sr_DiscoverService s sr = [i] \<and> s \<noteq> [] \<longrightarrow>
          sr_chans sr2 = told s \<lparr>sev_Type = ServiceEventUnregistered, sev_ServiceID = s,
            sev_Instance = i, sev_Timestamp = now\<rparr> G sr)"
    proof (cases "sr_services sr s")
      case None
      then show ?thesis by (auto simp: UnregisterService_eq [OF inv] sr_DiscoverService_def)
    next
      case (Some "is")
      then obtain i where "is = [i]" by (rule own_instance [OF inv])
      then show ?thesis using Some by (auto simp: UnregisterService_eq [OF inv] sr_DiscoverService_def)
    qed
  qed
qed

definition watched_registry :: serviceRegistry where
  "watched_registry = snd (sr_Watch ''db'' (NewServiceRegistry ''n1'' ''h:1''))"

theorem service_registry_correct_witness:
  "\<exists>sr1 c. sr_RegisterService 5 ''db'' Map.empty watched_registry = Some sr1 \<and> sr_chans sr1 0 = Some c \<and>
     map sev_Type (ch_buf c) = [ServiceEventRegistered]"
proof -
  have "sr_step (NewServiceRegistry ''n1'' ''h:1'', Map.empty) (watched_registry, [0 \<mapsto> (''db'', False)])"
    using sr_step.watch [of "''db''" "NewServiceRegistry ''n1'' ''h:1''" 0 watched_registry Map.empty]
    by (simp add: watched_registry_def sr_Watch_def NewServiceRegistry_def)
  from service_registry_correct [OF r_into_rtranclp [where r = sr_step, OF this], of 5 "''db''" Map.empty]
  show ?thesis
    by (auto simp: told_def watched_registry_def sr_Watch_def NewServiceRegistry_def chan_defs Let_def)
qed

section \<open>Remote calls between two services\<close>

text \<open>
  What the JSON package does with the structures sent: texts of ASCII characters arrive as they
  are, and a value of \<open>S\<close> arrives as \<open>arrive v\<close>, a number for instance as a floating point number.
\<close>

definition json_carries :: "'v set \<Rightarrow> ('v \<Rightarrow> 'v) \<Rightarrow> 'v json_ops \<Rightarrow> bool" where
  "json_carries S arrive json \<longleftrightarrow>
     (\<forall>r. req_Args r \<in> S \<and> ascii (req_CallID r) \<and> ascii (req_ServiceID r) \<and> ascii (req_Method r) \<longrightarrow>
        (\<exists>p. j_request json r = Some p \<and> j_to_request json p = Some (r\<lparr>req_Args := arrive (req_Args r)\<rparr>))) \<and>
     (\<forall>r. resp_Result r \<in> S \<and> ascii (resp_CallID r) \<and> ascii (resp_Error r) \<longrightarrow>
        (\<exists>p. j_response json r = Some p \<and> j_to_response json p = Some (r\<lparr>resp_Result := arrive (resp_Result r)\<rparr>)))"

lemma ascii_callID: "ascii (rs_node rs) \<Longrightarrow> ascii (fst (generateCallID rs))"
  using ascii_decimal by (auto simp: generateCallID_def Let_def ascii_def int_text_def)

text \<open>What a call should return when the handler decided \<open>verdict\<close>.\<close>

fun expected :: "('v \<Rightarrow> 'v) \<Rightarrow> 'v \<Rightarrow> string + 'v \<Rightarrow> RemoteError + 'v" where
  "expected arrive nil (Inr v) = Inr (arrive v)"
| "expected arrive nil (Inl e) = (if e = [] then Inr (arrive nil) else Inl (Remote_error e))"

definition answer_of :: "'v \<Rightarrow> string \<Rightarrow> string + 'v \<Rightarrow> 'v RemoteCallResponse" where
  "answer_of nil callID verdict =
     (case verdict of
        Inl e \<Rightarrow> \<lparr>resp_CallID = callID, resp_Result = nil, resp_Error = e\<rparr>
      | Inr v \<Rightarrow> \<lparr>resp_CallID = callID, resp_Result = v, resp_Error = []\<rparr>)"

abbreviation same_content :: "'v ClusterMessage \<Rightarrow> 'v ClusterMessage \<Rightarrow> bool" where
  "same_content m m' \<equiv>
     cmsg_Type m' = cmsg_Type m \<and> cmsg_Payload m' = cmsg_Payload m \<and> cmsg_Headers m' = cmsg_Headers m"

lemma Call_begin_sends:
  assumes "json_carries S arrive json" "message \<in> S" "ascii (rs_node a)" "ascii (ref_ActorID ref)"
    and "rs_transport a = Some send" "\<forall>m. send (ref_NodeID ref) m = None"
    and "(callID, a0) = generateCallID a"
  obtains m a1 where "rs_Call_begin json now ref message a = Some (Inr callID, a1)"
    "rs_sent a1 = rs_sent a @ [(ref_NodeID ref, m)]" "cmsg_Type m = MessageTypeActorCall"
    "cmsg_Headers m = Map.empty"
    "j_to_request json (cmsg_Payload m) = Some \<lparr>req_CallID = callID, req_ServiceID = ref_ActorID ref,
        req_Method = ''handle'', req_Args = arrive message\<rparr>"
    "rs_pendingCalls a1 = (rs_pendingCalls a)(callID \<mapsto>
        \<lparr>pc_id = callID, pc_result = make_chan 1, pc_error = make_chan 1, pc_timeout = now + 30 * Second\<rparr>)"
proof -
  have c: "ascii callID" and a0: "rs_transport a0 = Some send" "rs_sent a0 = rs_sent a" "rs_pendingCalls a0 = rs_pendingCalls a"
    using ascii_callID [OF assms(3)] assms(5,7) by (auto simp: generateCallID_def Let_def)
  define r where "r = \<lparr>req_CallID = callID, req_ServiceID = ref_ActorID ref, req_Method = ''handle'', req_Args = message\<rparr>"
  have "ascii (req_CallID r)" "ascii (req_ServiceID r)" "ascii (req_Method r)" "req_Args r \<in> S"
    using assms(2,4) c by (simp_all add: r_def ascii_def)
  then obtain p where p: "j_request json r = Some p" "j_to_request json p = Some (r\<lparr>req_Args := arrive (req_Args r)\<rparr>)"
    using assms(1) by (auto simp: json_carries_def)
  show thesis
    by (rule that) (use p a0 assms(6) in \<open>auto simp: rs_Call_begin_def assms(7) [symmetric] r_def Let_def transport_Send_def\<close>)
qed

lemma handle_call_answers:
  assumes "json_carries S arrive json" "nil \<in> S" "ascii callID" "verdict \<in> Inl ` Collect ascii \<union> Inr ` S"
    and "rs_transport b = Some send" "\<forall>m. send from m = None"
    and "cmsg_Type m = MessageTypeActorCall" "cmsg_Headers m = Map.empty"
    and "j_to_request json (cmsg_Payload m) = Some r" "req_CallID r = callID"
    and "rs_handlers b (req_ServiceID r) = Some h" "handle h (req_Args r) (rs_world b) = (verdict, w)"
  obtains b1 reply where "rs_HandleMessage handle json nil now from m b = Some (Inr (), b1)"
    "rs_sent b1 = rs_sent b @ [(from, reply)]" "rs_world b1 = w" "cmsg_Type reply = MessageTypeActorReply"
    "j_to_response json (cmsg_Payload reply) =
       Some ((answer_of nil callID verdict)\<lparr>resp_Result := arrive (resp_Result (answer_of nil callID verdict))\<rparr>)"
proof -
  let ?r = "answer_of nil callID verdict"
  have "resp_Result ?r \<in> S" "ascii (resp_CallID ?r)" "ascii (resp_Error ?r)"
    using assms(2-4) by (auto simp: answer_of_def ascii_def)
  then obtain p where p: "j_response json ?r = Some p" "j_to_response json p = Some (?r\<lparr>resp_Result := arrive (resp_Result ?r)\<rparr>)"
    using assms(1) by (auto simp: json_carries_def)
  have "rs_HandleMessage handle json nil now from m b = send_response json now from ?r (b\<lparr>rs_world := w\<rparr>)"
    using assms(7-12)
    by (auto simp: rs_HandleMessage_def handleRemoteCall_def answer_of_def sendErrorResponse_def sendSuccessResponse_def
        split: sum.split)
  then show thesis
    by (intro that) (use p assms(5,6) in \<open>auto simp: send_response_def transport_Send_def\<close>)
qed

text \<open>The caller can return \<open>r\<close>, and short of its context or its timeout nothing else.\<close>

definition wakes_with :: "string \<Rightarrow> RemoteError + 'v \<Rightarrow> ('v, 'h) remoteService \<Rightarrow> bool" where
  "wakes_with callID r a \<longleftrightarrow>
     (\<exists>k. rs_Call_wait k callID a = Some (r, leave_call callID a)) \<and>
     (\<forall>k r' a'. k \<in> {Wake_result, Wake_error} \<longrightarrow> rs_Call_wait k callID a = Some (r', a') \<longrightarrow> r' = r)"

lemma reply_wakes_call:
  assumes "rs_pendingCalls a callID = Some \<lparr>pc_id = callID, pc_result = make_chan 1, pc_error = make_chan 1, pc_timeout = t\<rparr>"
    and "cmsg_Type m = MessageTypeActorReply"
    and "j_to_response json (cmsg_Payload m) =
       Some ((answer_of nil callID verdict)\<lparr>resp_Result := arrive (resp_Result (answer_of nil callID verdict))\<rparr>)"
  obtains a' where "rs_HandleMessage handle json nil now sender m a = Some (Inr (), a')"
    "\<forall>c. c \<noteq> callID \<longrightarrow> rs_pendingCalls a' c = rs_pendingCalls a c"
    "wakes_with callID (expected arrive nil verdict) a'"
proof -
  define a' where "a' = snd (handleRemoteReply json m a)"
  have h: "rs_HandleMessage handle json nil now sender m a = Some (Inr (), a')"
    using assms
    by (auto simp: rs_HandleMessage_def MessageTypeActorCall_def MessageTypeActorReply_def handleRemoteReply_def a'_def
        answer_of_def Let_def split: option.splits sum.splits)
  have o: "\<forall>c. c \<noteq> callID \<longrightarrow> rs_pendingCalls a' c = rs_pendingCalls a c"
    using assms by (auto simp: handleRemoteReply_def a'_def answer_of_def Let_def split: sum.splits)
  obtain P where P: "rs_pendingCalls a' callID = Some P"
    "(ch_buf (pc_result P), ch_buf (pc_error P)) =
       (case expected arrive nil verdict of Inl e \<Rightarrow> ([], [e]) | Inr v \<Rightarrow> ([v], []))"
    "\<not> ch_closed (pc_result P)" "\<not> ch_closed (pc_error P)"
    using assms by (cases verdict) (auto simp: handleRemoteReply_def a'_def answer_of_def Let_def chan_defs split: if_splits)
  have w: "rs_Call_wait (if isl (expected arrive nil verdict) then Wake_error else Wake_result) callID a' =
      Some (expected arrive nil verdict, leave_call callID a')"
    using P by (auto simp: rs_Call_wait_def try_recv_def split: sum.splits)
  have "\<forall>k r a''. k \<in> {Wake_result, Wake_error} \<longrightarrow> rs_Call_wait k callID a' = Some (r, a'') \<longrightarrow> r = expected arrive nil verdict"
    using P by (auto simp: rs_Call_wait_def try_recv_def split: sum.splits list.splits)
  then show thesis
    using that [OF h o] w by (auto simp: wakes_with_def)
qed


text \<open>
  The JSON package itself, on the values it decodes to: the structures of \<^verbatim>\<open>cluster/service.go\<close>
  with their field tags.
\<close>

definition request_json :: "json RemoteCallRequest \<Rightarrow> json" where
  "request_json r = JObj [(''call_id'', JStr (req_CallID r)), (''service_id'', JStr (req_ServiceID r)),
     (''method'', JStr (req_Method r)), (''args'', req_Args r)]"

definition response_json :: "json RemoteCallResponse \<Rightarrow> json" where
  "response_json r = JObj ([(''call_id'', JStr (resp_CallID r))] @
     (if resp_Result r = JNull then [] else [(''result'', resp_Result r)]) @
     (if resp_Error r = [] then [] else [(''error'', JStr (resp_Error r))]))"

fun request_member :: "json RemoteCallRequest option \<Rightarrow> string \<times> json \<Rightarrow> json RemoteCallRequest option" where
  "request_member None m = None"
| "request_member (Some r) (k, v) =
     (if fold_name k = ''call_id'' then map_option (\<lambda>s. r\<lparr>req_CallID := s\<rparr>) (string_field (req_CallID r) v)
      else if fold_name k = ''service_id'' then map_option (\<lambda>s. r\<lparr>req_ServiceID := s\<rparr>) (string_field (req_ServiceID r) v)
      else if fold_name k = ''method'' then map_option (\<lambda>s. r\<lparr>req_Method := s\<rparr>) (string_field (req_Method r) v)
      else if fold_name k = ''args'' then (if any_ok v then Some (r\<lparr>req_Args := v\<rparr>) else None)
      else Some r)"

fun response_member :: "json RemoteCallResponse option \<Rightarrow> string \<times> json \<Rightarrow> json RemoteCallResponse option" where
  "response_member None m = None"
| "response_member (Some r) (k, v) =
     (if fold_name k = ''call_id'' then map_option (\<lambda>s. r\<lparr>resp_CallID := s\<rparr>) (string_field (resp_CallID r) v)
      else if fold_name k = ''result'' then (if any_ok v then Some (r\<lparr>resp_Result := v\<rparr>) else None)
      else if fold_name k = ''error'' then map_option (\<lambda>s. r\<lparr>resp_Error := s\<rparr>) (string_field (resp_Error r) v)
      else Some r)"

definition remote_json :: "json json_ops" where
  "remote_json =
     \<lparr>j_request = (\<lambda>r. Some (Marshal (request_json r))),
      j_to_request = into_struct request_member \<lparr>req_CallID = [], req_ServiceID = [], req_Method = [], req_Args = JNull\<rparr>,
      j_response = (\<lambda>r. Some (Marshal (response_json r))),
      j_to_response = into_struct response_member \<lparr>resp_CallID = [], resp_Result = JNull, resp_Error = []\<rparr>,
      j_value = (\<lambda>v. Some (Marshal v)),
      j_to_value = (\<lambda>p. case json_parse p of Some v \<Rightarrow> if any_ok v then Some v else None | None \<Rightarrow> None)\<rparr>"

text \<open>It carries the values of ASCII strings and numbers that fit, up to its nesting depth.\<close>

definition carried :: "json set" where
  "carried = {v. plain v \<and> any_ok v \<and> depth v < max_depth}"

lemma fold_name_remote [simp]:
  "fold_name ''call_id'' = ''call_id''" "fold_name ''service_id'' = ''service_id''" "fold_name ''method'' = ''method''"
  "fold_name ''result'' = ''result''" "fold_name ''error'' = ''error''"
  by (simp_all add: ToLower_def)

lemma remote_json_carries: "json_carries carried (\<lambda>v. v) remote_json"
  unfolding json_carries_def remote_json_def request_json_def response_json_def carried_def
  by (auto simp: into_struct_object string_field_def simp del: fold_name.simps)

definition node_service :: "NodeID \<Rightarrow> (json, nat) remoteService" where
  "node_service nid = (NewRemoteService nid 0)\<lparr>rs_transport := Some (\<lambda>to m. None), rs_handlers := [''echo'' \<mapsto> 7]\<rparr>"


section \<open>The service as it is built\<close>

datatype 'v remote_op =
    R_Register Time string nat | R_Unregister Time string | R_Call Time RemoteActorRef 'v | R_Wait call_wake string
  | R_Send Time RemoteActorRef 'v | R_Message Time NodeID "'v ClusterMessage" | R_Spawned nat

fun remote_exec ::
  "('v, 'h) handle_fun \<Rightarrow> 'v json_ops \<Rightarrow> 'v \<Rightarrow> 'v remote_op \<Rightarrow> ('v, 'h) remoteService \<Rightarrow> ('v, 'h) remoteService option" where
  "remote_exec handle json nil (R_Register now s h) rs = map_option snd (rs_Register now s h rs)"
| "remote_exec handle json nil (R_Unregister now s) rs = rs_Unregister now s rs"
| "remote_exec handle json nil (R_Call now ref v) rs = map_option snd (rs_Call_begin json now ref v rs)"
| "remote_exec handle json nil (R_Wait k c) rs = map_option snd (rs_Call_wait k c rs)"
| "remote_exec handle json nil (R_Send now ref v) rs = map_option snd (rs_Send json now ref v rs)"
| "remote_exec handle json nil (R_Message now from m) rs = map_option snd (rs_HandleMessage handle json nil now from m rs)"
| "remote_exec handle json nil (R_Spawned i) rs = run_spawned handle i rs"

fun remote_run ::
  "('v, 'h) handle_fun \<Rightarrow> 'v json_ops \<Rightarrow> 'v \<Rightarrow> 'v remote_op list \<Rightarrow> ('v, 'h) remoteService \<Rightarrow> ('v, 'h) remoteService option" where
  "remote_run handle json nil [] rs = Some rs"
| "remote_run handle json nil (p # ps) rs = Option.bind (remote_exec handle json nil p rs) (remote_run handle json nil ps)"

definition unconnected :: "('v, 'h) remoteService \<Rightarrow> bool" where
  "unconnected rs \<longleftrightarrow> rs_transport rs = None \<and> rs_registry rs = None \<and> rs_sent rs = []"

lemma unconnected_upd [simp]:
  "unconnected (rs\<lparr>rs_handlers := x\<rparr>) = unconnected rs" "unconnected (rs\<lparr>rs_pendingCalls := y\<rparr>) = unconnected rs"
  "unconnected (rs\<lparr>rs_callCounter := z\<rparr>) = unconnected rs" "unconnected (rs\<lparr>rs_world := w\<rparr>) = unconnected rs"
  "unconnected (rs\<lparr>rs_spawned := v\<rparr>) = unconnected rs" "unconnected (leave_call c rs) = unconnected rs"
  by (simp_all add: unconnected_def leave_call_def)

lemma unconnected_send: "unconnected rs \<Longrightarrow> transport_Send to m rs = None"
  by (simp add: unconnected_def transport_Send_def)

lemma unconnected_respond:
  "\<lbrakk>unconnected rs; send_response json now to r rs = Some (e, rs')\<rbrakk> \<Longrightarrow> unconnected rs'"
  "\<lbrakk>unconnected rs; send_response json now to r (rs\<lparr>rs_world := w\<rparr>) = Some (e, rs')\<rbrakk> \<Longrightarrow> unconnected rs'"
  by (auto simp: send_response_def unconnected_send split: option.splits)

lemma unconnected_exec:
  assumes "remote_exec handle json nil p rs = Some rs'" "unconnected rs"
  shows "unconnected rs'"
proof (cases p)
  case (R_Message now frm m)
  then show ?thesis
    using assms
    by (auto simp: rs_HandleMessage_def handleRemoteCall_def handleFireAndForget_def handleRemoteReply_def sendErrorResponse_def
        sendSuccessResponse_def Let_def split: if_splits option.splits sum.splits prod.splits intro: unconnected_respond)
next
  case (R_Call now ref v)
  then show ?thesis
    using assms by (auto simp: rs_Call_begin_def generateCallID_def Let_def unconnected_send split: option.splits)
next
  case (R_Wait k c)
  then show ?thesis
    using assms by (auto simp: rs_Call_wait_def split: option.splits call_wake.splits recv_outcome.splits)
next
  case (R_Register now s h)
  then show ?thesis
    using assms by (auto simp: rs_Register_def Let_def split: if_splits option.splits) (simp_all add: unconnected_def)
next
  case (R_Unregister now s)
  then show ?thesis
    using assms by (auto simp: rs_Unregister_def Let_def split: option.splits) (simp_all add: unconnected_def)
qed (use assms in \<open>auto simp: rs_Send_def run_spawned_def Let_def unconnected_send split: option.splits if_splits prod.splits\<close>)

lemma unconnected_run: "\<lbrakk>remote_run handle json nil ps rs = Some rs'; unconnected rs\<rbrakk> \<Longrightarrow> unconnected rs'"
  by (induction ps arbitrary: rs) (auto simp: Option.bind_eq_Some_conv dest: unconnected_exec)

text \<open>
  The service that the manager builds gets neither a transport nor a registry.
  Whatever is done with it, every call and every message of values that can be encoded panics,
  and so does the answer to a call that arrives; it resolves no service, not even its own, and
  it never sends anything.
\<close>

theorem remote_service_unconnected:
  assumes "remote_run handle json nil ps (NewRemoteService nid h) = Some rs"
  shows "rs_sent rs = [] \<and> rs_Resolve serviceID rs = Inl No_registry \<and>
    (j_value json v \<noteq> None \<longrightarrow> rs_Send json now ref v rs = None) \<and>
    ((\<forall>r. j_request json r \<noteq> None) \<longrightarrow> rs_Call_begin json now ref v rs = None) \<and>
    (cmsg_Type m = MessageTypeActorCall \<and> cmsg_Headers m = Map.empty \<and> j_to_request json (cmsg_Payload m) \<noteq> None \<and>
       (\<forall>r. j_response json r \<noteq> None) \<longrightarrow> rs_HandleMessage handle json nil now from m rs = None)"
proof -
  have u: "unconnected rs"
    using unconnected_run [OF assms] by (simp add: unconnected_def NewRemoteService_def)
  have resp: "send_response json now from r (rs\<lparr>rs_world := w\<rparr>) = None" "send_response json now from r rs = None"
    if "\<forall>r. j_response json r \<noteq> None" for r w
    using that u by (auto simp: send_response_def unconnected_send split: option.split)
  show ?thesis
  proof (intro conjI impI)
    show "rs_sent rs = []" "rs_Resolve serviceID rs = Inl No_registry"
      using u by (simp_all add: unconnected_def rs_Resolve_def)
    show "rs_Send json now ref v rs = None" if "j_value json v \<noteq> None"
      using that u by (auto simp: rs_Send_def unconnected_send)
    show "rs_Call_begin json now ref v rs = None" if "\<forall>r. j_request json r \<noteq> None"
      using that u by (auto simp: rs_Call_begin_def generateCallID_def Let_def unconnected_send split: option.splits)
    show "rs_HandleMessage handle json nil now from m rs = None"
      if "cmsg_Type m = MessageTypeActorCall \<and> cmsg_Headers m = Map.empty \<and> j_to_request json (cmsg_Payload m) \<noteq> None \<and>
        (\<forall>r. j_response json r \<noteq> None)"
      using that resp
      by (auto simp: rs_HandleMessage_def handleRemoteCall_def sendErrorResponse_def sendSuccessResponse_def Let_def
          split: option.splits sum.splits prod.splits)
  qed
qed

theorem remote_service_unconnected_witness:
  "\<exists>rs. remote_run (\<lambda>h v w. (Inr v, w)) remote_json JNull [R_Register 1 ''echo'' 7] (NewRemoteService ''n1'' (0::nat)) = Some rs \<and>
     rs_Resolve ''echo'' rs = Inl No_registry \<and>
     rs_Call_begin remote_json 2 \<lparr>ref_NodeID = ''n2'', ref_ActorID = ''echo'', ref_Address = []\<rparr> (JStr ''hi'') rs = None"
proof -
  obtain rs where rs: "remote_run (\<lambda>h v w. (Inr v, w)) remote_json JNull [R_Register 1 ''echo'' 7] (NewRemoteService ''n1'' (0::nat)) = Some rs"
    by (simp add: rs_Register_def NewRemoteService_def)
  from remote_service_unconnected [OF this] rs show ?thesis by (auto simp: remote_json_def)
qed

end
