(* ===== verification/Cluster_Transport.thy ===== *)
theory Cluster_Transport
  imports Cluster_Service
begin

text \<open>
  \<^verbatim>\<open>cluster/transport.go\<close>. Connections are shared pointers and live in a heap. A socket is what has
  been written to it, as messages; what is read from it (a decoded message, or a failure) and
  whether a dial, a write or the listener succeeds are arguments of the step. The calls of the
  message handler are recorded. The goroutines of a connection are steps: one turn of each
  loop, and its end.
\<close>

section \<open>State\<close>

record 'v connection =
  tc_nodeID :: NodeID
  tc_sendChan :: "'v ClusterMessage chan"
  tc_cancelled :: bool
  tc_closed :: bool
  tc_written :: "'v ClusterMessage list"
  tc_lastActivity :: int

record TransportStatistics =
  ts_MessagesSent :: u64
  ts_MessagesReceived :: u64
  ts_BytesSent :: u64
  ts_BytesReceived :: u64
  ts_ConnectionsOpen :: nat
  ts_ErrorCount :: u64
  ts_AverageLatency :: Duration

datatype 'v handler_call =
    Established NodeID | Lost NodeID | Handled NodeID "'v ClusterMessage"

text \<open>\<open>mt_ctx\<close> is the context: none before the first start, else whether it is cancelled.\<close>

record 'v messageTransport =
  mt_config :: ClusterConfig
  mt_listening :: bool
  mt_handler :: bool
  mt_connections :: "NodeID \<rightharpoonup> nat"
  mt_heap :: "nat \<rightharpoonup> 'v connection"
  mt_alloc :: nat
  mt_sent :: u64
  mt_received :: u64
  mt_errors :: u64
  mt_ctx :: "bool option"
  mt_started :: bool
  mt_dialled :: "(string \<times> int) list"
  mt_calls :: "'v handler_call list"

datatype TransportError =
    Transport_already_started | Listen_failed | Dial_failed | Send_cancelled | Send_timeout | Broadcast_failed nat

definition NewMessageTransport :: "ClusterConfig \<Rightarrow> 'v messageTransport" where
  "NewMessageTransport config =
     \<lparr>mt_config = config, mt_listening = False, mt_handler = False, mt_connections = Map.empty, mt_heap = Map.empty,
      mt_alloc = 0, mt_sent = 0, mt_received = 0, mt_errors = 0, mt_ctx = None, mt_started = False,
      mt_dialled = [], mt_calls = []\<rparr>"

definition UnixNano :: "Time \<Rightarrow> int" where
  "UnixNano now = now - unix_epoch_seconds * Second"

definition isActive :: "Time \<Rightarrow> 'v connection \<Rightarrow> bool" where
  "isActive now c \<longleftrightarrow> UnixNano now - tc_lastActivity c < 60 * Second"

definition conn_close :: "'v connection \<Rightarrow> 'v connection option" where
  "conn_close c =
     (case close_chan (tc_sendChan c) of
        None \<Rightarrow> None
      | Some ch \<Rightarrow> Some (c\<lparr>tc_cancelled := True, tc_closed := True, tc_sendChan := ch\<rparr>))"

definition notify :: "'v handler_call \<Rightarrow> 'v messageTransport \<Rightarrow> 'v messageTransport" where
  "notify call mt = (if mt_handler mt then mt\<lparr>mt_calls := mt_calls mt @ [call]\<rparr> else mt)"

abbreviation count_error :: "'v messageTransport \<Rightarrow> 'v messageTransport" where
  "count_error mt \<equiv> mt\<lparr>mt_errors := mt_errors mt + 1\<rparr>"

section \<open>Operations\<close>

definition mt_Start :: "bool \<Rightarrow> 'v messageTransport \<Rightarrow> (TransportError + unit) \<times> 'v messageTransport" where
  "mt_Start listening mt =
     (if mt_started mt then (Inl Transport_already_started, mt)
      else if \<not> listening then (Inl Listen_failed, mt\<lparr>mt_ctx := Some False\<rparr>)
      else (Inr (), mt\<lparr>mt_started := True, mt_ctx := Some False, mt_listening := True\<rparr>))"

fun close_all :: "nat list \<Rightarrow> (nat \<rightharpoonup> 'v connection) \<Rightarrow> (nat \<rightharpoonup> 'v connection) option" where
  "close_all [] heap = Some heap"
| "close_all (a # as) heap =
     (case Option.bind (heap a) conn_close of None \<Rightarrow> None | Some c \<Rightarrow> close_all as (heap(a \<mapsto> c)))"

text \<open>
  The connections are visited in the order \<open>ks\<close>. Between the end of the listener and that of the
  context the accept loop fails \<open>spins\<close> times. The context of every connection ends with that of
  the transport.
\<close>

definition mt_Stop :: "NodeID list \<Rightarrow> nat \<Rightarrow> 'v messageTransport \<Rightarrow> 'v messageTransport option" where
  "mt_Stop ks spins mt =
     (if \<not> mt_started mt then Some mt
      else case close_all (range_values (mt_connections mt) ks) (mt_heap mt) of
             None \<Rightarrow> None
           | Some heap \<Rightarrow>
               Some (mt\<lparr>mt_started := False, mt_listening := False, mt_connections := Map.empty,
                        mt_heap := map_option (\<lambda>c. c\<lparr>tc_cancelled := True\<rparr>) \<circ> heap, mt_ctx := Some True,
                        mt_errors := mt_errors mt + of_nat spins\<rparr>))"

definition active_connection :: "Time \<Rightarrow> NodeID \<Rightarrow> 'v messageTransport \<Rightarrow> nat option" where
  "active_connection now nid mt =
     (case mt_connections mt nid of
        None \<Rightarrow> None
      | Some a \<Rightarrow> (case mt_heap mt a of None \<Rightarrow> None | Some c \<Rightarrow> if isActive now c then Some a else None))"

definition new_connection :: "NodeID \<Rightarrow> bool \<Rightarrow> 'v ClusterMessage list \<Rightarrow> 'v connection" where
  "new_connection nid cancelled written =
     \<lparr>tc_nodeID = nid, tc_sendChan = make_chan 100, tc_cancelled = cancelled, tc_closed = False,
      tc_written = written, tc_lastActivity = 0\<rparr>"

definition add_connection :: "NodeID \<Rightarrow> 'v connection \<Rightarrow> 'v messageTransport \<Rightarrow> 'v messageTransport" where
  "add_connection nid c mt =
     notify (Established nid)
       (mt\<lparr>mt_heap := (mt_heap mt)(mt_alloc mt \<mapsto> c), mt_connections := (mt_connections mt)(nid \<mapsto> mt_alloc mt),
           mt_alloc := Suc (mt_alloc mt)\<rparr>)"

text \<open>Deriving a context from one that was never made panics.\<close>

definition createConnection ::
  "bool \<Rightarrow> Time \<Rightarrow> NodeID \<Rightarrow> 'v messageTransport \<Rightarrow> (TransportError, nat) outcome \<times> 'v messageTransport" where
  "createConnection dialled now nid mt =
     (case active_connection now nid mt of
        Some a \<Rightarrow> (Ok a, mt)
      | None \<Rightarrow>
          let mt1 = mt\<lparr>mt_dialled := mt_dialled mt @ [(''localhost'', clc_BindPort (mt_config mt))]\<rparr>
          in if \<not> dialled then (Err Dial_failed, mt1)
             else case mt_ctx mt1 of
                    None \<Rightarrow> (Panic, mt1)
                  | Some cancelled \<Rightarrow> (Ok (mt_alloc mt1), add_connection nid (new_connection nid cancelled []) mt1))"

definition getConnection ::
  "bool \<Rightarrow> Time \<Rightarrow> NodeID \<Rightarrow> 'v messageTransport \<Rightarrow> (TransportError, nat) outcome \<times> 'v messageTransport" where
  "getConnection dialled now nid mt =
     (case active_connection now nid mt of Some a \<Rightarrow> (Ok a, mt) | None \<Rightarrow> createConnection dialled now nid mt)"

definition stamp :: "ClusterConfig \<Rightarrow> NodeID \<Rightarrow> Time \<Rightarrow> 'v ClusterMessage \<Rightarrow> 'v ClusterMessage" where
  "stamp config to now m = m\<lparr>cmsg_From := clc_NodeID config, cmsg_To := to, cmsg_Timestamp := now\<rparr>"

datatype send_branch = Branch_send | Branch_done | Branch_timeout

text \<open>One branch of the select of a sender: \<open>None\<close> when the branch is not ready.\<close>

definition send_branch_run ::
  "send_branch \<Rightarrow> nat \<Rightarrow> 'v ClusterMessage \<Rightarrow> 'v messageTransport \<Rightarrow> ((TransportError, unit) outcome \<times> 'v messageTransport) option" where
  "send_branch_run br a m mt =
     (case br of
        Branch_send \<Rightarrow>
          (case mt_heap mt a of
             None \<Rightarrow> None
           | Some c \<Rightarrow>
               (case try_send m (tc_sendChan c) of
                  Sent ch \<Rightarrow> Some (Ok (), mt\<lparr>mt_heap := (mt_heap mt)(a \<mapsto> c\<lparr>tc_sendChan := ch\<rparr>), mt_sent := mt_sent mt + 1\<rparr>)
                | Send_full \<Rightarrow> None
                | Send_panic \<Rightarrow> Some (Panic, mt)))
      | Branch_done \<Rightarrow> Some (Err Send_cancelled, mt)
      | Branch_timeout \<Rightarrow> Some (Err Send_timeout, mt))"

text \<open>\<^verbatim>\<open>Send\<close> in two steps: other goroutines may run between them.\<close>

definition mt_Send_begin ::
  "bool \<Rightarrow> Time \<Rightarrow> NodeID \<Rightarrow> 'v ClusterMessage \<Rightarrow> 'v messageTransport \<Rightarrow>
     (TransportError, nat \<times> 'v ClusterMessage) outcome \<times> 'v messageTransport" where
  "mt_Send_begin dialled now nid m mt =
     (case getConnection dialled now nid mt of
        (Ok a, mt1) \<Rightarrow> (Ok (a, stamp (mt_config mt1) nid now m), mt1)
      | (Err e, mt1) \<Rightarrow> (Err e, mt1)
      | (Panic, mt1) \<Rightarrow> (Panic, mt1))"

definition mt_Send_end ::
  "send_branch \<Rightarrow> nat \<times> 'v ClusterMessage \<Rightarrow> 'v messageTransport \<Rightarrow> ((TransportError, unit) outcome \<times> 'v messageTransport) option" where
  "mt_Send_end br p mt = send_branch_run br (fst p) (snd p) mt"

fun broadcast_loop ::
  "send_branch list \<Rightarrow> nat list \<Rightarrow> nat \<Rightarrow> 'v ClusterMessage \<Rightarrow> 'v messageTransport \<Rightarrow>
     ((TransportError, unit) outcome \<times> 'v messageTransport) option" where
  "broadcast_loop brs [] failed m mt = Some (if failed > 0 then Err (Broadcast_failed failed) else Ok (), mt)"
| "broadcast_loop [] (a # as) failed m mt = None"
| "broadcast_loop (br # brs) (a # as) failed m mt =
     (case send_branch_run br a m mt of
        None \<Rightarrow> None
      | Some (Ok _, mt1) \<Rightarrow> broadcast_loop brs as failed m mt1
      | Some (Err Send_timeout, mt1) \<Rightarrow> broadcast_loop brs as (Suc failed) m mt1
      | Some (r, mt1) \<Rightarrow> Some (r, mt1))"

definition mt_Broadcast ::
  "send_branch list \<Rightarrow> NodeID list \<Rightarrow> Time \<Rightarrow> 'v ClusterMessage \<Rightarrow> 'v messageTransport \<Rightarrow>
     ((TransportError, unit) outcome \<times> 'v messageTransport) option" where
  "mt_Broadcast brs ks now m mt =
     broadcast_loop brs (range_values (mt_connections mt) ks) 0 (stamp (mt_config mt) [] now m) mt"

definition SetMessageHandler :: "'v messageTransport \<Rightarrow> 'v messageTransport" where
  "SetMessageHandler mt = mt\<lparr>mt_handler := True\<rparr>"

definition GetStatistics :: "NodeID list \<Rightarrow> 'v messageTransport \<Rightarrow> TransportStatistics" where
  "GetStatistics ks mt =
     \<lparr>ts_MessagesSent = mt_sent mt, ts_MessagesReceived = mt_received mt, ts_BytesSent = 0, ts_BytesReceived = 0,
      ts_ConnectionsOpen = length ks, ts_ErrorCount = mt_errors mt, ts_AverageLatency = 0\<rparr>"

definition removeConnection :: "NodeID \<Rightarrow> 'v messageTransport \<Rightarrow> 'v messageTransport option" where
  "removeConnection nid mt =
     (case mt_connections mt nid of
        None \<Rightarrow> Some mt
      | Some a \<Rightarrow>
          (case Option.bind (mt_heap mt a) conn_close of
             None \<Rightarrow> None
           | Some c \<Rightarrow> Some (mt\<lparr>mt_heap := (mt_heap mt)(a \<mapsto> c), mt_connections := (mt_connections mt)(nid := None)\<rparr>)))"

text \<open>The handshake of a connection that was accepted; the answer is the first message written.\<close>

definition handleIncomingConnection ::
  "'v ClusterMessage option \<Rightarrow> bool \<Rightarrow> Time \<Rightarrow> 'v messageTransport \<Rightarrow> 'v messageTransport option" where
  "handleIncomingConnection handshake encoded now mt =
     (case handshake of
        None \<Rightarrow> Some (count_error mt)
      | Some hs \<Rightarrow>
          if cmsg_Type hs \<noteq> MessageTypeJoin then Some (count_error mt)
          else if \<not> encoded then Some (count_error mt)
          else let nid = cmsg_From hs;
                   response = \<lparr>cmsg_ID = generateMessageID now, cmsg_Type = MessageTypeJoin,
                     cmsg_From = clc_NodeID (mt_config mt), cmsg_To = nid, cmsg_Payload = [], cmsg_Headers = Map.empty,
                     cmsg_Metadata = Map.empty, cmsg_Timestamp = now, cmsg_TTL = 0, cmsg_Hops = 0, cmsg_Path = []\<rparr>
               in (case mt_ctx mt of
                     None \<Rightarrow> None
                   | Some cancelled \<Rightarrow> Some (add_connection nid (new_connection nid cancelled [response]) mt)))"

text \<open>A turn of the reading loop, \<open>True\<close> while it goes on; \<open>handled\<close> is the handler's success.\<close>

definition handleConnection_turn ::
  "'v ClusterMessage option \<Rightarrow> bool \<Rightarrow> Time \<Rightarrow> nat \<Rightarrow> 'v messageTransport \<Rightarrow> bool \<times> 'v messageTransport" where
  "handleConnection_turn decoded handled now a mt =
     (case mt_heap mt a of
        None \<Rightarrow> (False, mt)
      | Some c \<Rightarrow>
          if tc_cancelled c then (False, mt)
          else case decoded of
                 None \<Rightarrow> (False, count_error mt)
               | Some m \<Rightarrow>
                   let mt1 = mt\<lparr>mt_heap := (mt_heap mt)(a \<mapsto> c\<lparr>tc_lastActivity := UnixNano now\<rparr>), mt_received := mt_received mt + 1\<rparr>;
                       mt2 = notify (Handled (tc_nodeID c) m) mt1
                   in (True, if mt_handler mt \<and> \<not> handled then count_error mt2 else mt2))"

definition handleConnection_end :: "nat \<Rightarrow> 'v messageTransport \<Rightarrow> 'v messageTransport option" where
  "handleConnection_end a mt =
     (case mt_heap mt a of
        None \<Rightarrow> Some mt
      | Some c \<Rightarrow> map_option (notify (Lost (tc_nodeID c))) (removeConnection (tc_nodeID c) mt))"

text \<open>
  A turn of the writing loop. A cancelled one may still take a message (\<open>\<not> quit\<close>); a closed channel
  yields \<^verbatim>\<open>nil\<close>, whose writing fails as the socket was closed before the channel.
\<close>

definition sendLoop_turn :: "bool \<Rightarrow> bool \<Rightarrow> Time \<Rightarrow> nat \<Rightarrow> 'v messageTransport \<Rightarrow> bool \<times> 'v messageTransport" where
  "sendLoop_turn quit encoded now a mt =
     (case mt_heap mt a of
        None \<Rightarrow> (False, mt)
      | Some c \<Rightarrow>
          if tc_cancelled c \<and> quit then (False, mt)
          else case try_recv (tc_sendChan c) of
                 Received m ch \<Rightarrow>
                   if encoded \<and> \<not> tc_closed c
                   then (True, mt\<lparr>mt_heap := (mt_heap mt)(a \<mapsto> c\<lparr>tc_sendChan := ch, tc_written := tc_written c @ [m],
                                                                  tc_lastActivity := UnixNano now\<rparr>)\<rparr>)
                   else (False, count_error (mt\<lparr>mt_heap := (mt_heap mt)(a \<mapsto> c\<lparr>tc_sendChan := ch\<rparr>)\<rparr>))
               | Recv_closed \<Rightarrow> (False, count_error mt)
               | Recv_empty \<Rightarrow> (\<not> tc_cancelled c, mt))"

section \<open>Steps\<close>

text \<open>
  \<open>P\<close> are the senders between the two halves of \<^verbatim>\<open>Send\<close>. The loops of a connection run while the
  connection is in the heap; the end of a reading loop can come at any time.
\<close>

type_synonym 'v sending = "(nat \<times> 'v ClusterMessage) set"

inductive mt_step :: "'v messageTransport \<times> 'v sending \<Rightarrow> 'v messageTransport \<times> 'v sending \<Rightarrow> bool" where
  start: "mt_step (mt, P) (snd (mt_Start listening mt), P)"
| stop: "\<lbrakk>range_order (mt_connections mt) ks; mt_Stop ks spins mt = Some mt'\<rbrakk> \<Longrightarrow> mt_step (mt, P) (mt', P)"
| handler: "mt_step (mt, P) (SetMessageHandler mt, P)"
| send: "mt_Send_begin dialled now nid m mt = (Ok p, mt') \<Longrightarrow> mt_step (mt, P) (mt', insert p P)"
| send_fails: "mt_Send_begin dialled now nid m mt = (Err e, mt') \<Longrightarrow> mt_step (mt, P) (mt', P)"
| sent: "\<lbrakk>p \<in> P; mt_Send_end br p mt = Some (r, mt'); r \<noteq> Panic\<rbrakk> \<Longrightarrow> mt_step (mt, P) (mt', P - {p})"
| broadcast: "\<lbrakk>range_order (mt_connections mt) ks; mt_Broadcast brs ks now m mt = Some (r, mt'); r \<noteq> Panic\<rbrakk> \<Longrightarrow>
    mt_step (mt, P) (mt', P)"
| incoming: "\<lbrakk>mt_listening mt; handleIncomingConnection hs encoded now mt = Some mt'\<rbrakk> \<Longrightarrow> mt_step (mt, P) (mt', P)"
| reading: "mt_step (mt, P) (snd (handleConnection_turn decoded handled now a mt), P)"
| read_end: "handleConnection_end a mt = Some mt' \<Longrightarrow> mt_step (mt, P) (mt', P)"
| writing: "mt_step (mt, P) (snd (sendLoop_turn quit encoded now a mt), P)"

text \<open>
  The invariant: the table points at connections of the node it names, whose channel is open;
  a channel is closed only after its socket; a started transport has a context; every dial goes
  to the port of the node itself.
\<close>

definition table_ok :: "(NodeID \<rightharpoonup> nat) \<Rightarrow> (nat \<rightharpoonup> 'v connection) \<Rightarrow> bool" where
  "table_ok conns heap \<longleftrightarrow>
     (\<forall>nid a. conns nid = Some a \<longrightarrow>
        (\<exists>c. heap a = Some c \<and> tc_nodeID c = nid \<and> \<not> ch_closed (tc_sendChan c) \<and> \<not> tc_closed c))"

definition heap_ok :: "(nat \<rightharpoonup> 'v connection) \<Rightarrow> nat \<Rightarrow> bool" where
  "heap_ok heap n \<longleftrightarrow>
     (\<forall>a c. heap a = Some c \<longrightarrow> a < n \<and> chan_ok (tc_sendChan c) \<and> ch_cap (tc_sendChan c) = 100 \<and>
        (ch_closed (tc_sendChan c) \<longrightarrow> tc_closed c \<and> tc_cancelled c))"

definition mt_inv :: "'v messageTransport \<Rightarrow> bool" where
  "mt_inv mt \<longleftrightarrow>
     table_ok (mt_connections mt) (mt_heap mt) \<and> heap_ok (mt_heap mt) (mt_alloc mt) \<and>
     (mt_listening mt \<longrightarrow> mt_ctx mt \<noteq> None) \<and> (mt_started mt \<longrightarrow> mt_ctx mt = Some False) \<and>
     set (mt_dialled mt) \<subseteq> {(''localhost'', clc_BindPort (mt_config mt))}"

lemma table_okD:
  "\<lbrakk>table_ok conns heap; conns nid = Some a\<rbrakk> \<Longrightarrow>
     \<exists>c. heap a = Some c \<and> tc_nodeID c = nid \<and> \<not> ch_closed (tc_sendChan c) \<and> \<not> tc_closed c"
  by (simp add: table_ok_def)

lemma table_inj: "\<lbrakk>table_ok conns heap; conns n1 = Some a; conns n2 = Some a\<rbrakk> \<Longrightarrow> n1 = n2"
  using table_okD [of conns heap n1 a] table_okD [of conns heap n2 a] by auto

lemma table_ok_write:
  assumes "table_ok conns heap" "heap a = Some c" "tc_nodeID c' = tc_nodeID c"
    "ch_closed (tc_sendChan c') = ch_closed (tc_sendChan c)" "tc_closed c' = tc_closed c"
  shows "table_ok conns (heap(a \<mapsto> c'))"
proof -
  have "\<exists>d. (heap(a \<mapsto> c')) b = Some d \<and> tc_nodeID d = nid \<and> \<not> ch_closed (tc_sendChan d) \<and> \<not> tc_closed d"
    if "conns nid = Some b" for nid b
    using table_okD [OF assms(1) that] assms(2-5) by (cases "b = a") auto
  then show ?thesis by (simp add: table_ok_def)
qed

lemma heap_ok_single:
  "heap_ok [a \<mapsto> c] n \<longleftrightarrow> a < n \<and> chan_ok (tc_sendChan c) \<and> ch_cap (tc_sendChan c) = 100 \<and>
     (ch_closed (tc_sendChan c) \<longrightarrow> tc_closed c \<and> tc_cancelled c)"
  by (simp add: heap_ok_def)

lemma heap_okD: "\<lbrakk>heap_ok heap n; heap a = Some c\<rbrakk> \<Longrightarrow> heap_ok [a \<mapsto> c] n"
  unfolding heap_ok_single by (simp add: heap_ok_def)

lemma heap_ok_write: "\<lbrakk>heap_ok heap n; heap_ok [a \<mapsto> c] n\<rbrakk> \<Longrightarrow> heap_ok (heap(a \<mapsto> c)) n"
  by (auto simp: heap_ok_def)

lemma mt_inv_write:
  assumes "mt_inv mt" "mt_heap mt a = Some c" "tc_nodeID c' = tc_nodeID c"
    "ch_closed (tc_sendChan c') = ch_closed (tc_sendChan c)" "tc_closed c' = tc_closed c" "tc_cancelled c' = tc_cancelled c"
    "chan_ok (tc_sendChan c')" "ch_cap (tc_sendChan c') = 100"
  shows "mt_inv (mt\<lparr>mt_heap := (mt_heap mt)(a \<mapsto> c')\<rparr>)"
proof -
  have "heap_ok [a \<mapsto> c'] (mt_alloc mt)"
    using assms by (auto simp: mt_inv_def heap_ok_def)
  then show ?thesis
    using assms(1) table_ok_write [where heap = "mt_heap mt", OF _ assms(2-5)] by (simp add: mt_inv_def heap_ok_write)
qed

lemma mt_inv_frame [simp]:
  "mt_inv (mt\<lparr>mt_errors := e\<rparr>) = mt_inv mt" "mt_inv (mt\<lparr>mt_sent := e\<rparr>) = mt_inv mt"
  "mt_inv (mt\<lparr>mt_received := e\<rparr>) = mt_inv mt" "mt_inv (mt\<lparr>mt_handler := b\<rparr>) = mt_inv mt"
  "mt_inv (notify call mt) = mt_inv mt" "mt_heap (notify call mt) = mt_heap mt"
  by (simp_all add: mt_inv_def notify_def)

lemma mt_inv_add:
  assumes "mt_inv mt"
  shows "mt_inv (add_connection nid (new_connection nid cancelled written) mt)"
proof -
  let ?c = "new_connection nid cancelled written" and ?a = "mt_alloc mt"
  have free: "mt_heap mt ?a = None" "\<And>n. mt_connections mt n \<noteq> Some ?a"
    using assms unfolding mt_inv_def heap_ok_def table_ok_def by (metis less_irrefl not_None_eq)+
  then have "table_ok ((mt_connections mt)(nid \<mapsto> ?a)) ((mt_heap mt)(?a \<mapsto> ?c))"
    using assms by (auto simp: mt_inv_def table_ok_def new_connection_def)
  moreover have "heap_ok ((mt_heap mt)(?a \<mapsto> ?c)) (Suc ?a)"
    using assms by (auto simp: mt_inv_def heap_ok_def new_connection_def less_Suc_eq)
  ultimately show ?thesis
    using assms unfolding add_connection_def mt_inv_frame by (simp add: mt_inv_def)
qed

lemma mt_inv_getConnection:
  assumes "mt_inv mt" "getConnection dialled now nid mt = (r, mt')"
  shows "mt_inv mt'"
proof -
  have d: "mt_inv (mt\<lparr>mt_dialled := mt_dialled mt @ [(''localhost'', clc_BindPort (mt_config mt))]\<rparr>)"
    using assms(1) by (simp add: mt_inv_def)
  show ?thesis
    using assms d mt_inv_add [OF d]
    by (auto simp: getConnection_def createConnection_def Let_def split: option.splits if_splits)
qed

lemma mt_inv_Send_begin: "\<lbrakk>mt_inv mt; mt_Send_begin dialled now nid m mt = (r, mt')\<rbrakk> \<Longrightarrow> mt_inv mt'"
  by (auto simp: mt_Send_begin_def split: prod.splits outcome.splits dest: mt_inv_getConnection)

lemma mt_inv_branch:
  assumes "mt_inv mt" "send_branch_run br a m mt = Some (r, mt')"
  shows "mt_inv mt'"
proof (cases "mt' = mt")
  case False
  then obtain c ch where c: "mt_heap mt a = Some c" "try_send m (tc_sendChan c) = Sent ch"
    "mt' = (mt\<lparr>mt_heap := (mt_heap mt)(a \<mapsto> c\<lparr>tc_sendChan := ch\<rparr>)\<rparr>)\<lparr>mt_sent := mt_sent mt + 1\<rparr>"
    using assms(2) by (auto simp: send_branch_run_def split: send_branch.splits option.splits send_outcome.splits)
  have "chan_ok (tc_sendChan c)" "ch_cap (tc_sendChan c) = 100"
    using assms(1) c(1) by (auto simp: mt_inv_def heap_ok_def)
  then show ?thesis
    using c mt_inv_write [OF assms(1) c(1), of "c\<lparr>tc_sendChan := ch\<rparr>"] chan_ok_try_send [OF c(2)]
    by (auto simp: try_send_Sent_iff)
qed (use assms in simp)

lemma mt_inv_broadcast:
  "\<lbrakk>broadcast_loop brs as failed m mt = Some (r, mt'); mt_inv mt\<rbrakk> \<Longrightarrow> mt_inv mt'"
proof (induction brs as failed m mt arbitrary: r mt' rule: broadcast_loop.induct)
  case (3 br brs a as failed m mt)
  obtain q mt1 where q: "send_branch_run br a m mt = Some (q, mt1)"
    using 3(3) by (auto split: option.splits)
  have inv: "mt_inv mt1" using mt_inv_branch [OF 3(4) q] .
  show ?case
    using 3 q inv by (auto split: outcome.splits TransportError.splits)
qed auto

lemma conn_close_open:
  "\<not> ch_closed (tc_sendChan c) \<Longrightarrow>
     conn_close c = Some (c\<lparr>tc_cancelled := True, tc_closed := True, tc_sendChan := (tc_sendChan c)\<lparr>ch_closed := True\<rparr>\<rparr>)"
  by (simp add: conn_close_def close_chan_def)

lemma removeConnection_ok:
  assumes "mt_inv mt"
  shows "\<exists>mt'. removeConnection nid mt = Some mt' \<and> mt_inv mt' \<and> mt_connections mt' = (mt_connections mt)(nid := None)"
proof (cases "mt_connections mt nid")
  case None
  then show ?thesis using assms by (simp add: removeConnection_def fun_upd_idem)
next
  case (Some a)
  have t: "table_ok (mt_connections mt) (mt_heap mt)" and h: "heap_ok (mt_heap mt) (mt_alloc mt)"
    using assms by (simp_all add: mt_inv_def)
  from table_okD [OF t Some] obtain c where c: "mt_heap mt a = Some c" "\<not> ch_closed (tc_sendChan c)" by blast
  define c' where "c' = c\<lparr>tc_cancelled := True, tc_closed := True, tc_sendChan := (tc_sendChan c)\<lparr>ch_closed := True\<rparr>\<rparr>"
  have "\<exists>d. ((mt_heap mt)(a \<mapsto> c')) b = Some d \<and> tc_nodeID d = n \<and> \<not> ch_closed (tc_sendChan d) \<and> \<not> tc_closed d"
    if "((mt_connections mt)(nid := None)) n = Some b" for n b
    using that table_inj [OF t Some, of n] table_okD [OF t, of n b] by (auto split: if_splits)
  then have "table_ok ((mt_connections mt)(nid := None)) ((mt_heap mt)(a \<mapsto> c'))"
    unfolding table_ok_def by blast
  moreover have "heap_ok ((mt_heap mt)(a \<mapsto> c')) (mt_alloc mt)"
    using heap_okD [OF h c(1)] by (intro heap_ok_write [OF h]) (simp add: heap_ok_single c'_def chan_ok_def)
  ultimately show ?thesis
    using assms c Some by (simp add: removeConnection_def conn_close_open c'_def mt_inv_def)
qed

lemma mt_inv_read_end: "\<lbrakk>mt_inv mt; handleConnection_end a mt = Some mt'\<rbrakk> \<Longrightarrow> mt_inv mt'"
  using removeConnection_ok [of mt "tc_nodeID (the (mt_heap mt a))"]
  by (auto simp: handleConnection_end_def split: option.splits)

lemma mt_inv_reading: "mt_inv mt \<Longrightarrow> mt_inv (snd (handleConnection_turn decoded handled now a mt))"
proof -
  assume inv: "mt_inv mt"
  have "mt_inv (mt\<lparr>mt_heap := (mt_heap mt)(a \<mapsto> c\<lparr>tc_lastActivity := t\<rparr>)\<rparr>)" if "mt_heap mt a = Some c" for c t
    using inv that by (intro mt_inv_write) (auto simp: mt_inv_def heap_ok_def)
  from this [THEN mt_inv_frame(3) [THEN iffD2]] show ?thesis
    using inv by (auto simp: handleConnection_turn_def Let_def split: option.splits)
qed

lemma mt_inv_writing: "mt_inv mt \<Longrightarrow> mt_inv (snd (sendLoop_turn quit encoded now a mt))"
proof -
  assume inv: "mt_inv mt"
  have "mt_inv (mt\<lparr>mt_heap := (mt_heap mt)(a \<mapsto> c\<lparr>tc_sendChan := ch, tc_written := w, tc_lastActivity := t\<rparr>)\<rparr>)"
    if "mt_heap mt a = Some c" "try_recv (tc_sendChan c) = Received m ch" for c m ch w t
  proof (rule mt_inv_write [OF inv that(1)])
    have "chan_ok (tc_sendChan c)" "ch_cap (tc_sendChan c) = 100"
      using inv that(1) by (auto simp: mt_inv_def heap_ok_def)
    with that(2) show "chan_ok (tc_sendChan (c\<lparr>tc_sendChan := ch, tc_written := w, tc_lastActivity := t\<rparr>))"
      "ch_cap (tc_sendChan (c\<lparr>tc_sendChan := ch, tc_written := w, tc_lastActivity := t\<rparr>)) = 100"
      "ch_closed (tc_sendChan (c\<lparr>tc_sendChan := ch, tc_written := w, tc_lastActivity := t\<rparr>)) = ch_closed (tc_sendChan c)"
      by (auto simp: try_recv_def chan_ok_def split: list.splits if_splits)
  qed auto
  note w = this
  have "mt_inv (mt\<lparr>mt_heap := (mt_heap mt)(a \<mapsto> c\<lparr>tc_sendChan := ch\<rparr>)\<rparr>)"
    if "mt_heap mt a = Some c" "try_recv (tc_sendChan c) = Received m ch" for c m ch
    using w [OF that, where w = "tc_written c" and t = "tc_lastActivity c"] by simp
  then show ?thesis
    using inv w by (auto simp: sendLoop_turn_def split: option.splits recv_outcome.splits)
qed

abbreviation shut :: "'v connection \<Rightarrow> 'v connection" where
  "shut c \<equiv> c\<lparr>tc_cancelled := True, tc_closed := True, tc_sendChan := (tc_sendChan c)\<lparr>ch_closed := True\<rparr>\<rparr>"

lemma close_all_open:
  assumes "distinct as" "\<forall>a\<in>set as. \<exists>c. heap a = Some c \<and> \<not> ch_closed (tc_sendChan c)"
  shows "close_all as heap = Some (\<lambda>a. if a \<in> set as then map_option shut (heap a) else heap a)"
  using assms
proof (induction as arbitrary: heap)
  case (Cons a as)
  then obtain c where c: "heap a = Some c" "\<not> ch_closed (tc_sendChan c)" by auto
  have "close_all as (heap(a \<mapsto> shut c)) =
      Some (\<lambda>b. if b \<in> set as then map_option shut ((heap(a \<mapsto> shut c)) b) else (heap(a \<mapsto> shut c)) b)"
    using Cons.prems by (intro Cons.IH) auto
  moreover have "\<dots> = Some (\<lambda>b. if b \<in> set (a # as) then map_option shut (heap b) else heap b)"
    using Cons.prems(1) c by (auto simp: fun_eq_iff)
  ultimately show ?case using c by (simp add: conn_close_open)
qed simp

lemma range_values_distinct:
  assumes "table_ok conns heap" "range_order conns ks"
  shows "distinct (range_values conns ks)" "set (range_values conns ks) = ran conns"
proof -
  show "set (range_values conns ks) = ran conns" by (rule set_range_values [OF assms(2)])
  show "distinct (range_values conns ks)"
    using range_orderD(1) [OF assms(2)] table_inj [OF assms(1)] by (intro distinct_range_values) auto
qed

lemma mt_Stop_eq:
  assumes "mt_inv mt" "range_order (mt_connections mt) ks" "mt_started mt"
  shows "mt_Stop ks spins mt =
    Some (mt\<lparr>mt_started := False, mt_listening := False, mt_connections := Map.empty,
             mt_heap := map_option (\<lambda>c. c\<lparr>tc_cancelled := True\<rparr>) \<circ>
               (\<lambda>a. if a \<in> ran (mt_connections mt) then map_option shut (mt_heap mt a) else mt_heap mt a),
             mt_ctx := Some True, mt_errors := mt_errors mt + of_nat spins\<rparr>)"
proof -
  have t: "table_ok (mt_connections mt) (mt_heap mt)" using assms(1) by (simp add: mt_inv_def)
  note d = range_values_distinct [OF t assms(2)]
  have "\<forall>a\<in>set (range_values (mt_connections mt) ks). \<exists>c. mt_heap mt a = Some c \<and> \<not> ch_closed (tc_sendChan c)"
    using table_okD [OF t] by (fastforce simp: d(2) ran_def)
  from close_all_open [OF d(1) this] show ?thesis
    using assms(3) by (simp add: mt_Stop_def d(2))
qed

lemma mt_inv_Stop:
  assumes "mt_inv mt" "range_order (mt_connections mt) ks"
  shows "\<exists>mt'. mt_Stop ks spins mt = Some mt' \<and> mt_inv mt'"
proof (cases "mt_started mt")
  case True
  have "heap_ok (map_option (\<lambda>c. c\<lparr>tc_cancelled := True\<rparr>) \<circ>
      (\<lambda>a. if a \<in> ran (mt_connections mt) then map_option shut (mt_heap mt a) else mt_heap mt a)) (mt_alloc mt)"
    using assms(1) unfolding mt_inv_def heap_ok_def by (auto simp: chan_ok_def split: if_splits) (metis)+
  then show ?thesis
    using True assms by (simp add: mt_Stop_eq [OF assms True]) (simp add: mt_inv_def table_ok_def)
qed (use assms in \<open>simp add: mt_Stop_def\<close>)

lemma mt_inv_incoming:
  assumes "mt_inv mt" "mt_listening mt"
  shows "\<exists>mt'. handleIncomingConnection hs encoded now mt = Some mt' \<and> mt_inv mt'"
  using assms mt_inv_add [OF assms(1)]
  by (auto simp: handleIncomingConnection_def Let_def mt_inv_def [of mt] split: option.split)

lemma mt_inv_step: "\<lbrakk>mt_step w w'; mt_inv (fst w)\<rbrakk> \<Longrightarrow> mt_inv (fst w')"
proof (induction rule: mt_step.induct)
  case (start mt P listening)
  then show ?case by (auto simp: mt_Start_def mt_inv_def)
next
  case (stop mt ks spins mt' P)
  then show ?case using mt_inv_Stop [of mt ks spins] by auto
next
  case (sent p P br mt r mt')
  then show ?case by (auto simp: mt_Send_end_def intro: mt_inv_branch)
next
  case (broadcast mt ks brs now m r mt' P)
  then show ?case by (auto simp: mt_Broadcast_def intro: mt_inv_broadcast)
next
  case (incoming mt hs encoded now mt' P)
  then show ?case using mt_inv_incoming [of mt hs encoded now] by auto
qed (auto simp: SetMessageHandler_def intro: mt_inv_Send_begin mt_inv_reading mt_inv_writing mt_inv_read_end)

lemma mt_inv_reach: "mt_step\<^sup>*\<^sup>* (NewMessageTransport config, {}) w \<Longrightarrow> mt_inv (fst w)"
proof (induction rule: rtranclp_induct)
  case base
  show ?case by (simp add: mt_inv_def NewMessageTransport_def table_ok_def heap_ok_def)
next
  case (step w w')
  then show ?case by (blast intro: mt_inv_step)
qed


text \<open>A transport that was started and reached another node.\<close>

definition demo_transport :: "nat messageTransport" where
  "demo_transport = snd (getConnection True (unix_epoch_seconds * Second + 100 * Second) ''n2''
     (snd (mt_Start True (NewMessageTransport DefaultClusterConfig))))"

lemmas transport_eval = getConnection_def createConnection_def active_connection_def add_connection_def new_connection_def
  notify_def mt_Start_def NewMessageTransport_def isActive_def UnixNano_def Let_def

lemma demo_transport_reach: "\<exists>P. mt_step\<^sup>*\<^sup>* (NewMessageTransport DefaultClusterConfig, {}) (demo_transport, P)"
proof -
  let ?t = "unix_epoch_seconds * Second + 100 * Second" and ?mt = "snd (mt_Start True (NewMessageTransport DefaultClusterConfig)) :: nat messageTransport"
  obtain p where p: "mt_Send_begin True ?t ''n2'' undefined ?mt = (Ok p, demo_transport)"
    by (simp add: mt_Send_begin_def demo_transport_def transport_eval)
  have "mt_step (NewMessageTransport DefaultClusterConfig, {}) (?mt, {})" by (rule mt_step.start)
  moreover have "mt_step (?mt, {}) (demo_transport, {p})" by (rule mt_step.send [OF p])
  ultimately show ?thesis by (blast intro: rtranclp.rtrancl_into_rtrancl)
qed


text \<open>
  A connection is active only once something went over it. Two messages to a node
  that are sent before the first is written therefore travel on two connections: the second
  replaces the first in the table, which nothing closes any more, not even stopping the
  transport, and whose end instead drops the second connection.
\<close>

theorem second_send_orphans:
  assumes "mt_step\<^sup>*\<^sup>* (NewMessageTransport config, {}) (mt, P)"
    and "mt_started mt" "mt_connections mt nid = None"
    and "UnixNano t1 \<ge> 60 * Second" "UnixNano t2 \<ge> 60 * Second"
  shows "\<exists>a1 a2 mt1 mt2. a1 \<noteq> a2 \<and> getConnection True t1 nid mt = (Ok a1, mt1) \<and> getConnection True t2 nid mt1 = (Ok a2, mt2) \<and>
     mt_connections mt2 = (mt_connections mt)(nid \<mapsto> a2) \<and>
     (\<forall>ks spins mt3. range_order (mt_connections mt2) ks \<and> mt_Stop ks spins mt2 = Some mt3 \<longrightarrow>
        (\<exists>c1 c2. mt_heap mt3 a1 = Some c1 \<and> \<not> tc_closed c1 \<and> mt_heap mt3 a2 = Some c2 \<and> tc_closed c2)) \<and>
     (\<exists>mt3 c1 c2. handleConnection_end a1 mt2 = Some mt3 \<and> mt_connections mt3 nid = None \<and>
        mt_heap mt3 a1 = Some c1 \<and> \<not> tc_closed c1 \<and> mt_heap mt3 a2 = Some c2 \<and> tc_closed c2)"
proof -
  have inv: "mt_inv mt" using mt_inv_reach [OF assms(1)] by simp
  then have ctx: "mt_ctx mt = Some False" using assms(2) by (simp add: mt_inv_def)
  define a1 where "a1 = mt_alloc mt"
  define c where "c = (new_connection nid False [] :: 'a connection)"
  define mt1 where "mt1 = snd (getConnection True t1 nid mt)"
  define mt2 where "mt2 = snd (getConnection True t2 nid mt1)"
  have g1: "getConnection True t1 nid mt = (Ok a1, mt1)"
    and h1: "mt_heap mt1 = (mt_heap mt)(a1 \<mapsto> c)" "mt_connections mt1 = (mt_connections mt)(nid \<mapsto> a1)"
      "mt_alloc mt1 = Suc a1" "mt_ctx mt1 = Some False" "mt_started mt1"
    using assms(2,3) ctx by (simp_all add: mt1_def a1_def c_def transport_eval)
  have "active_connection t2 nid mt1 = None"
    using assms(5) h1 by (simp add: active_connection_def isActive_def c_def new_connection_def)
  then have g2: "getConnection True t2 nid mt1 = (Ok (Suc a1), mt2)"
    and h2: "mt_heap mt2 = (mt_heap mt)(a1 \<mapsto> c, Suc a1 \<mapsto> c)" "mt_connections mt2 = (mt_connections mt)(nid \<mapsto> Suc a1)" "mt_started mt2"
    using h1 by (simp_all add: mt2_def getConnection_def createConnection_def add_connection_def notify_def Let_def c_def)
  have inv2: "mt_inv mt2" using mt_inv_getConnection [OF mt_inv_getConnection [OF inv g1] g2] .
  have free: "\<forall>n. mt_connections mt n \<noteq> Some a1"
    using inv table_okD heap_okD heap_ok_single unfolding mt_inv_def a1_def by (metis less_irrefl)
  have c: "\<not> tc_closed c" "tc_nodeID c = nid" "\<not> ch_closed (tc_sendChan c)" by (simp_all add: c_def new_connection_def)
  have stop: "\<exists>c1 c2. mt_heap mt3 a1 = Some c1 \<and> \<not> tc_closed c1 \<and> mt_heap mt3 (Suc a1) = Some c2 \<and> tc_closed c2"
    if ro: "range_order (mt_connections mt2) ks" and st: "mt_Stop ks spins mt2 = Some mt3" for ks spins mt3
  proof -
    have "Suc a1 \<in> ran (mt_connections mt2)" "a1 \<notin> ran (mt_connections mt2)"
      using h2(2) free by (auto simp: ran_def split: if_splits)
    moreover have "mt_heap mt2 a1 = Some c" "mt_heap mt2 (Suc a1) = Some c" using h2(1) by simp_all
    ultimately show ?thesis
      using mt_Stop_eq [OF inv2 ro h2(3), of spins] st c by (auto simp del: fun_upd_apply)
  qed
  have e: "\<exists>mt3 c1 c2. handleConnection_end a1 mt2 = Some mt3 \<and> mt_connections mt3 nid = None \<and>
        mt_heap mt3 a1 = Some c1 \<and> \<not> tc_closed c1 \<and> mt_heap mt3 (Suc a1) = Some c2 \<and> tc_closed c2"
    using c h2 by (simp add: handleConnection_end_def removeConnection_def conn_close_open notify_def)
  show ?thesis
    using g1 g2 h2(2) stop e by (intro exI [of _ a1] exI [of _ "Suc a1"] exI [of _ mt1] exI [of _ mt2]) auto
qed

theorem second_send_orphans_witness:
  "\<exists>a1 a2 mt1 mt2. a1 \<noteq> a2 \<and> getConnection True (unix_epoch_seconds * Second + 90 * Second) ''n3'' demo_transport = (Ok a1, mt1) \<and>
     getConnection True (unix_epoch_seconds * Second + 91 * Second) ''n3'' mt1 = (Ok a2, mt2)"
proof -
  obtain P where P: "mt_step\<^sup>*\<^sup>* (NewMessageTransport DefaultClusterConfig, {}) (demo_transport, P)"
    using demo_transport_reach by blast
  have "mt_started demo_transport" "mt_connections demo_transport ''n3'' = None"
    by (simp_all add: demo_transport_def transport_eval)
  from second_send_orphans [OF P this, of "unix_epoch_seconds * Second + 90 * Second" "unix_epoch_seconds * Second + 91 * Second"]
  show ?thesis by (simp add: UnixNano_def) blast
qed

end
