(* ===== verification/Core_Types.thy ===== *)
theory Core_Types
  imports Sngo_Prelude
begin

text \<open>
  The data of \<^verbatim>\<open>core/types.go\<close> and the addressing types of \<^verbatim>\<open>core/handle.go\<close>: messages, actor
  states, options and statistics, service handles and service addresses. A pointer that the
  code may leave \<^verbatim>\<open>nil\<close> is an option.
\<close>

type_synonym ActorID = u32

text \<open>\<^verbatim>\<open>MessageType\<close> is a \<^verbatim>\<open>uint8\<close>; its named values follow the \<^verbatim>\<open>iota\<close> order of the source.\<close>

type_synonym MessageType = u8

definition MessageTypeText :: MessageType where "MessageTypeText = 0"
definition MessageTypeResponse :: MessageType where "MessageTypeResponse = 1"
definition MessageTypeRequest :: MessageType where "MessageTypeRequest = 2"
definition MessageTypeSystem :: MessageType where "MessageTypeSystem = 3"
definition MessageTypeError :: MessageType where "MessageTypeError = 4"
definition MessageTypeMulticast :: MessageType where "MessageTypeMulticast = 5"

lemmas MessageType_defs = MessageTypeText_def MessageTypeResponse_def MessageTypeRequest_def
  MessageTypeSystem_def MessageTypeError_def MessageTypeMulticast_def

definition MessageType_String :: "MessageType \<Rightarrow> string" where
  "MessageType_String t =
     (if t = MessageTypeText then ''text''
      else if t = MessageTypeResponse then ''response''
      else if t = MessageTypeRequest then ''request''
      else if t = MessageTypeSystem then ''system''
      else if t = MessageTypeError then ''error''
      else if t = MessageTypeMulticast then ''multicast''
      else ''unknown'')"

record Message =
  m_ID :: u64
  m_Type :: MessageType
  m_Source :: ActorID
  m_Target :: ActorID
  m_Session :: u32
  m_Data :: bytes
  m_Timestamp :: Time

datatype ActorState = ActorStateIdle | ActorStateRunning | ActorStateStopping | ActorStateStopped

fun ActorState_String :: "ActorState \<Rightarrow> string" where
  "ActorState_String ActorStateIdle = ''idle''"
| "ActorState_String ActorStateRunning = ''running''"
| "ActorState_String ActorStateStopping = ''stopping''"
| "ActorState_String ActorStateStopped = ''stopped''"

record ActorOptions =
  o_MailboxSize :: int
  o_Name :: string
  o_ProcessTimeout :: Duration

definition DefaultActorOptions :: ActorOptions where
  "DefaultActorOptions = \<lparr>o_MailboxSize = 1000, o_Name = [], o_ProcessTimeout = 30 * Second\<rparr>"

record ActorStats =
  s_ID :: ActorID
  s_Name :: string
  s_State :: ActorState
  s_MessagesProcessed :: u64
  s_MailboxSize :: nat
  s_CreatedAt :: Time
  s_LastMessageAt :: Time

section \<open>Handles and addresses\<close>

record Handle =
  h_ID :: u32
  h_ActorID :: ActorID
  h_Name :: string
  h_Node :: u32
  h_IsLocal :: bool

text \<open>The eight lower-case hexadecimal digits of \<^verbatim>\<open>%08x\<close>.\<close>

definition hex_digit :: "nat \<Rightarrow> char" where
  "hex_digit d = (if d < 10 then char_of (48 + d) else char_of (87 + d))"

definition hex8 :: "u32 \<Rightarrow> string" where
  "hex8 w = map (\<lambda>i. hex_digit (unat w div 16 ^ i mod 16)) (rev [0..<8])"

definition Handle_String :: "Handle \<Rightarrow> string" where
  "Handle_String h =
     (if h_Name h \<noteq> [] then '':'' @ hex8 (h_ID h) @ ''('' @ h_Name h @ '')''
      else '':'' @ hex8 (h_ID h))"

record ServiceAddress =
  a_Handle :: "Handle option"
  a_Name :: string
  a_Pattern :: string

definition ServiceAddress_IsValid :: "ServiceAddress \<Rightarrow> bool" where
  "ServiceAddress_IsValid sa \<longleftrightarrow> a_Handle sa \<noteq> None \<or> a_Name sa \<noteq> [] \<or> a_Pattern sa \<noteq> []"

definition ServiceAddress_String :: "ServiceAddress \<Rightarrow> string" where
  "ServiceAddress_String sa =
     (case a_Handle sa of
        Some h \<Rightarrow> Handle_String h
      | None \<Rightarrow> if a_Name sa \<noteq> [] then a_Name sa
                else if a_Pattern sa \<noteq> [] then a_Pattern sa
                else ''<invalid>'')"

type_synonym MessageFlags = u32

definition FlagDontCopy :: MessageFlags where "FlagDontCopy = push_bit 0 1"
definition FlagAllocSession :: MessageFlags where "FlagAllocSession = push_bit 1 1"
definition FlagResponse :: MessageFlags where "FlagResponse = push_bit 2 1"
definition FlagMulticast :: MessageFlags where "FlagMulticast = push_bit 3 1"

record MessageEnvelope =
  e_Source :: ServiceAddress
  e_Target :: ServiceAddress
  e_Message :: "Message option"
  e_Flags :: MessageFlags

text \<open>The name of a state never collides with the name of another one.\<close>

lemma ActorState_String_inj: "ActorState_String a = ActorState_String b \<longleftrightarrow> a = b"
  by (cases a; cases b) simp_all

lemma MessageType_String_known:
  "MessageType_String t \<noteq> ''unknown'' \<longleftrightarrow> unat t < 6"
proof -
  have "unat t < 6 \<longleftrightarrow> t = 0 \<or> t = 1 \<or> t = 2 \<or> t = 3 \<or> t = 4 \<or> t = 5"
    by (simp add: word_unat_eq_iff) linarith
  then show ?thesis
    by (auto simp: MessageType_String_def MessageType_defs)
qed

lemma length_hex8 [simp]: "length (hex8 w) = 8"
  by (simp add: hex8_def)

end
