(* ===== verification/Handles.thy ===== *)
theory Handles
  imports Core_Types
begin

text \<open>
  \<^verbatim>\<open>HandleManager\<close> of \<^verbatim>\<open>core/handle.go\<close>: three maps (handle id to handle, actor to handle id,
  service name to handle id) and a 32-bit counter that carries the node number in its top
  byte. Every exported method holds the manager's mutex for its whole body, so each is one
  atomic step on the state. The invariant \<open>hm_ok\<close> says that the three maps describe the same
  set of handles; it is kept by every operation as long as the counter meets no live handle,
  which \<open>hm_reachable\<close> shows for the first \<open>2 ^ 32\<close> allocations.
\<close>

record HandleManager =
  hm_handles :: "u32 \<rightharpoonup> Handle"
  hm_actorToHandle :: "ActorID \<rightharpoonup> u32"
  hm_nameToHandle :: "string \<rightharpoonup> u32"
  hm_handleCounter :: u32
  hm_nodeID :: u32

datatype HandleError =
    ServiceNameExists string
  | HandleNotFound u32
  | ServiceNotFound string
  | PatternNotImplemented string
  | InvalidServiceAddress

definition NewHandleManager :: "u32 \<Rightarrow> HandleManager" where
  "NewHandleManager nodeID =
     \<lparr>hm_handles = Map.empty, hm_actorToHandle = Map.empty, hm_nameToHandle = Map.empty,
      hm_handleCounter = push_bit 24 nodeID + 1, hm_nodeID = nodeID\<rparr>"

text \<open>
  A pointer read from \<^verbatim>\<open>hm.handles\<close> may be \<^verbatim>\<open>nil\<close>, hence the option in the results.
\<close>

definition AllocateHandle ::
  "ActorID \<Rightarrow> string \<Rightarrow> HandleManager \<Rightarrow> (HandleError + Handle option) \<times> HandleManager" where
  "AllocateHandle actorID name hm =
     (case hm_actorToHandle hm actorID of
        Some existing \<Rightarrow> (Inr (hm_handles hm existing), hm)
      | None \<Rightarrow>
          if name \<noteq> [] \<and> hm_nameToHandle hm name \<noteq> None then (Inl (ServiceNameExists name), hm)
          else
            let handleID = hm_handleCounter hm;
                handle = \<lparr>h_ID = handleID, h_ActorID = actorID, h_Name = name,
                          h_Node = hm_nodeID hm, h_IsLocal = True\<rparr>
            in (Inr (Some handle),
                hm\<lparr>hm_handleCounter := handleID + 1,
                   hm_handles := (hm_handles hm)(handleID \<mapsto> handle),
                   hm_actorToHandle := (hm_actorToHandle hm)(actorID \<mapsto> handleID),
                   hm_nameToHandle :=
                     (if name \<noteq> [] then (hm_nameToHandle hm)(name \<mapsto> handleID)
                      else hm_nameToHandle hm)\<rparr>))"

definition GetHandle :: "HandleManager \<Rightarrow> u32 \<Rightarrow> Handle option" where
  "GetHandle hm handleID = hm_handles hm handleID"

text \<open>The two indirect lookups return the pair of pointer and \<^verbatim>\<open>exists\<close>.\<close>

definition GetHandleByActor :: "HandleManager \<Rightarrow> ActorID \<Rightarrow> Handle option \<times> bool" where
  "GetHandleByActor hm actorID =
     (case hm_actorToHandle hm actorID of
        Some handleID \<Rightarrow> (hm_handles hm handleID, True)
      | None \<Rightarrow> (None, False))"

definition GetHandleByName :: "HandleManager \<Rightarrow> string \<Rightarrow> Handle option \<times> bool" where
  "GetHandleByName hm name =
     (case hm_nameToHandle hm name of
        Some handleID \<Rightarrow> (hm_handles hm handleID, True)
      | None \<Rightarrow> (None, False))"

definition ReleaseHandle :: "u32 \<Rightarrow> HandleManager \<Rightarrow> (HandleError + unit) \<times> HandleManager" where
  "ReleaseHandle handleID hm =
     (case hm_handles hm handleID of
        None \<Rightarrow> (Inl (HandleNotFound handleID), hm)
      | Some handle \<Rightarrow>
          (Inr (),
           hm\<lparr>hm_handles := (hm_handles hm)(handleID := None),
              hm_actorToHandle := (hm_actorToHandle hm)(h_ActorID handle := None),
              hm_nameToHandle :=
                (if h_Name handle \<noteq> [] then (hm_nameToHandle hm)(h_Name handle := None)
                 else hm_nameToHandle hm)\<rparr>))"

text \<open>\<open>ks\<close> is the order in which \<^verbatim>\<open>range\<close> visits \<^verbatim>\<open>hm.handles\<close>.\<close>

definition ListHandles :: "u32 list \<Rightarrow> HandleManager \<Rightarrow> Handle list" where
  "ListHandles ks hm = range_values (hm_handles hm) ks"

definition ResolveAddress :: "ServiceAddress \<Rightarrow> HandleManager \<Rightarrow> HandleError + Handle option" where
  "ResolveAddress addr hm =
     (case a_Handle addr of
        Some h \<Rightarrow> Inr (Some h)
      | None \<Rightarrow>
          if a_Name addr \<noteq> [] then
            (case GetHandleByName hm (a_Name addr) of
               (h, True) \<Rightarrow> Inr h
             | (_, False) \<Rightarrow> Inl (ServiceNotFound (a_Name addr)))
          else if a_Pattern addr \<noteq> [] then Inl (PatternNotImplemented (a_Pattern addr))
          else Inl InvalidServiceAddress)"

section \<open>The invariant\<close>

definition hm_ok :: "HandleManager \<Rightarrow> bool" where
  "hm_ok hm \<longleftrightarrow>
     (\<forall>a i. hm_actorToHandle hm a = Some i \<longleftrightarrow>
        (\<exists>h. hm_handles hm i = Some h \<and> h_ActorID h = a)) \<and>
     (\<forall>n i. hm_nameToHandle hm n = Some i \<longleftrightarrow>
        n \<noteq> [] \<and> (\<exists>h. hm_handles hm i = Some h \<and> h_Name h = n)) \<and>
     (\<forall>i h. hm_handles hm i = Some h \<longrightarrow>
        h_ID h = i \<and> h_Node h = hm_nodeID hm \<and> h_IsLocal h)"

text \<open>The counter is fresh: the next handle id is not in use.\<close>

definition hm_fresh :: "HandleManager \<Rightarrow> bool" where
  "hm_fresh hm \<longleftrightarrow> hm_handles hm (hm_handleCounter hm) = None"

lemma hm_okD:
  assumes "hm_ok hm"
  shows hm_ok_actor: "hm_actorToHandle hm a = Some i \<longleftrightarrow>
          (\<exists>h. hm_handles hm i = Some h \<and> h_ActorID h = a)"
    and hm_ok_name: "hm_nameToHandle hm n = Some i \<longleftrightarrow>
          n \<noteq> [] \<and> (\<exists>h. hm_handles hm i = Some h \<and> h_Name h = n)"
    and hm_ok_handle: "hm_handles hm i = Some h \<Longrightarrow>
          h_ID h = i \<and> h_Node h = hm_nodeID hm \<and> h_IsLocal h"
  using assms by (simp_all add: hm_ok_def)

lemma hm_ok_New [simp]: "hm_ok (NewHandleManager node)"
  by (simp add: hm_ok_def NewHandleManager_def)

text \<open>The fresh branch of \<open>AllocateHandle\<close>, as one update.\<close>

lemma AllocateHandle_fresh:
  assumes "hm_actorToHandle hm a = None" "name = [] \<or> hm_nameToHandle hm name = None"
  shows "AllocateHandle a name hm =
    (Inr (Some \<lparr>h_ID = hm_handleCounter hm, h_ActorID = a, h_Name = name,
                h_Node = hm_nodeID hm, h_IsLocal = True\<rparr>),
     hm\<lparr>hm_handleCounter := hm_handleCounter hm + 1,
        hm_handles := (hm_handles hm)(hm_handleCounter hm \<mapsto>
           \<lparr>h_ID = hm_handleCounter hm, h_ActorID = a, h_Name = name,
            h_Node = hm_nodeID hm, h_IsLocal = True\<rparr>),
        hm_actorToHandle := (hm_actorToHandle hm)(a \<mapsto> hm_handleCounter hm),
        hm_nameToHandle := (if name \<noteq> [] then (hm_nameToHandle hm)(name \<mapsto> hm_handleCounter hm)
                            else hm_nameToHandle hm)\<rparr>)"
  using assms by (auto simp: AllocateHandle_def Let_def)

lemma AllocateHandle_cases [case_names existing taken fresh]:
  assumes "AllocateHandle a name hm = (r, hm')"
  obtains (existing) i where "hm_actorToHandle hm a = Some i" "r = Inr (hm_handles hm i)" "hm' = hm"
  | (taken) "hm_actorToHandle hm a = None" "name \<noteq> []" "hm_nameToHandle hm name \<noteq> None"
      "r = Inl (ServiceNameExists name)" "hm' = hm"
  | (fresh) "hm_actorToHandle hm a = None" "name = [] \<or> hm_nameToHandle hm name = None"
      "AllocateHandle a name hm = (r, hm')"
proof (cases "hm_actorToHandle hm a")
  case (Some i)
  then show ?thesis using assms by (intro existing [of i]) (auto simp: AllocateHandle_def)
next
  case None
  show ?thesis
  proof (cases "name \<noteq> [] \<and> hm_nameToHandle hm name \<noteq> None")
    case True
    with None show ?thesis using assms by (intro taken) (auto simp: AllocateHandle_def)
  next
    case False
    with None show ?thesis using assms by (intro fresh) auto
  qed
qed

lemma hm_ok_Allocate [inv_step]:
  assumes ok: "hm_ok hm" and fresh: "hm_fresh hm" and al: "AllocateHandle a name hm = (r, hm')"
  shows "hm_ok hm'"
  using al
proof (cases rule: AllocateHandle_cases)
  case fresh: fresh
  note eq = AllocateHandle_fresh [OF fresh(1,2)]
  have no_h: "\<And>i h. hm_handles hm i = Some h \<Longrightarrow> h_ActorID h \<noteq> a"
    by (metis fresh(1) hm_ok_actor [OF ok] option.distinct(1))
  have no_n: "\<And>i h. hm_handles hm i = Some h \<Longrightarrow> name \<noteq> [] \<Longrightarrow> h_Name h \<noteq> name"
    by (metis fresh(2) hm_ok_name [OF ok] option.distinct(1))
  show ?thesis
    using ok \<open>hm_fresh hm\<close> al no_h no_n unfolding eq hm_ok_def hm_fresh_def
    by (auto split: if_splits)
qed (use ok in auto)

lemma hm_ok_Release [inv_step]:
  assumes ok: "hm_ok hm" and re: "ReleaseHandle i hm = (r, hm')"
  shows "hm_ok hm'"
proof (cases "hm_handles hm i")
  case None
  with re ok show ?thesis by (simp add: ReleaseHandle_def)
next
  case (Some h)
  have others: "h_ActorID h' \<noteq> h_ActorID h \<and> (h_Name h \<noteq> [] \<longrightarrow> h_Name h' \<noteq> h_Name h)"
    if "hm_handles hm i' = Some h'" "i' \<noteq> i" for i' h'
    using that Some hm_ok_actor [OF ok, of "h_ActorID h"] hm_ok_name [OF ok, of "h_Name h"]
    by (metis option.inject)
  show ?thesis
    using re ok Some others unfolding hm_ok_def
    by (auto simp: ReleaseHandle_def split: if_splits)
qed

section \<open>Reachable managers\<close>

text \<open>\<open>hm_reachable node n hm\<close>: \<open>hm\<close> arises from a new manager with \<open>n\<close> allocations that took an id.\<close>

inductive hm_reachable :: "u32 \<Rightarrow> nat \<Rightarrow> HandleManager \<Rightarrow> bool" for node where
  new: "hm_reachable node 0 (NewHandleManager node)"
| alloc: "hm_reachable node n hm \<Longrightarrow> AllocateHandle a name hm = (r, hm') \<Longrightarrow> hm' \<noteq> hm \<Longrightarrow>
     hm_reachable node (Suc n) hm'"
| alloc_same: "hm_reachable node n hm \<Longrightarrow> AllocateHandle a name hm = (r, hm) \<Longrightarrow>
     hm_reachable node n hm"
| release: "hm_reachable node n hm \<Longrightarrow> ReleaseHandle i hm = (r, hm') \<Longrightarrow> hm_reachable node n hm'"

definition nth_id :: "u32 \<Rightarrow> nat \<Rightarrow> u32" where
  "nth_id node k = push_bit 24 node + 1 + of_nat k"

lemma nth_id_inj: "j < 2 ^ 32 \<Longrightarrow> k < 2 ^ 32 \<Longrightarrow> nth_id node j = nth_id node k \<longleftrightarrow> j = k"
  by (simp add: nth_id_def of_nat_inverse word_of_nat_eq_iff take_bit_nat_eq_self)

lemma nth_id_Suc: "nth_id node (Suc n) = nth_id node n + 1"
  by (simp add: nth_id_def)

lemma hm_reachable_ids:
  "hm_reachable node n hm \<Longrightarrow>
     hm_nodeID hm = node \<and> hm_handleCounter hm = nth_id node n \<and>
     (\<forall>i \<in> dom (hm_handles hm). \<exists>k < n. i = nth_id node k)"
proof (induction rule: hm_reachable.induct)
  case new
  then show ?case by (simp add: NewHandleManager_def nth_id_def)
next
  case (alloc n hm a name r hm')
  from alloc.hyps(2) show ?case
  proof (cases rule: AllocateHandle_cases)
    case fresh
    have "hm' = snd (AllocateHandle a name hm)" using alloc.hyps(2) by simp
    then have "hm_nodeID hm' = hm_nodeID hm" "hm_handleCounter hm' = hm_handleCounter hm + 1"
      "dom (hm_handles hm') = insert (hm_handleCounter hm) (dom (hm_handles hm))"
      unfolding AllocateHandle_fresh [OF fresh(1,2)] by simp_all
    with alloc.IH show ?thesis by (auto simp: nth_id_Suc less_Suc_eq)
  qed (use alloc in auto)
next
  case (release n hm i r hm')
  then show ?case by (auto simp: ReleaseHandle_def split: option.splits if_splits)
qed

lemma hm_reachable_fresh:
  assumes "hm_reachable node n hm" and "n < 2 ^ 32"
  shows "hm_fresh hm"
  using hm_reachable_ids [OF assms(1)] assms(2) nth_id_inj
  by (force simp: hm_fresh_def dom_def)

lemma hm_reachable_ok:
  "hm_reachable node n hm \<Longrightarrow> n \<le> 2 ^ 32 \<Longrightarrow> hm_ok hm"
proof (induction rule: hm_reachable.induct)
  case (alloc n hm a name r hm')
  then show ?case using hm_ok_Allocate hm_reachable_fresh by simp
qed (auto intro: hm_ok_Release)

section \<open>The directory clients rely on\<close>

text \<open>
  What the routers and the actor system use of the manager: three partial lookups that
  describe one set of handles, in which an actor and a name each have at most one handle.
\<close>

locale handle_directory =
  fixes by_id :: "'s \<Rightarrow> u32 \<Rightarrow> Handle option"
    and by_actor :: "'s \<Rightarrow> ActorID \<Rightarrow> Handle option"
    and by_name :: "'s \<Rightarrow> string \<Rightarrow> Handle option"
    and ok :: "'s \<Rightarrow> bool"
  assumes by_actor_iff: "ok s \<Longrightarrow> by_actor s a = Some h \<longleftrightarrow> by_id s (h_ID h) = Some h \<and> h_ActorID h = a"
    and by_name_iff: "ok s \<Longrightarrow>
          by_name s n = Some h \<longleftrightarrow> n \<noteq> [] \<and> by_id s (h_ID h) = Some h \<and> h_Name h = n"
begin

lemma by_name_by_actor:
  "ok s \<Longrightarrow> by_name s n = Some h \<Longrightarrow> by_actor s (h_ActorID h) = Some h"
  by (simp add: by_actor_iff by_name_iff)

lemma one_name_per_actor:
  assumes "ok s" "by_name s n = Some h" "by_name s n' = Some h'" "h_ActorID h = h_ActorID h'"
  shows "n = n'"
proof -
  have "h = h'"
    using by_name_by_actor [OF assms(1,2)] by_name_by_actor [OF assms(1,3)] assms(4)
    by (metis option.inject)
  then show ?thesis using assms(2,3) by_name_iff [OF assms(1)] by metis
qed

lemma empty_name_unresolved: "ok s \<Longrightarrow> by_name s [] = None"
  by (cases "by_name s []") (auto simp: by_name_iff)

end

lemma GetHandleByActor_iff:
  assumes "hm_ok hm"
  shows "fst (GetHandleByActor hm a) = Some h \<longleftrightarrow> GetHandle hm (h_ID h) = Some h \<and> h_ActorID h = a"
    and "snd (GetHandleByActor hm a) \<longleftrightarrow> fst (GetHandleByActor hm a) \<noteq> None"
proof -
  note iff = hm_ok_actor [OF assms, of a]
  have "fst (GetHandleByActor hm a) = Some h \<longleftrightarrow> (\<exists>i. hm_actorToHandle hm a = Some i \<and> hm_handles hm i = Some h)"
    by (simp add: GetHandleByActor_def split: option.split)
  also have "\<dots> \<longleftrightarrow> GetHandle hm (h_ID h) = Some h \<and> h_ActorID h = a"
    unfolding iff GetHandle_def by (metis hm_ok_handle [OF assms] option.inject)
  finally show "fst (GetHandleByActor hm a) = Some h \<longleftrightarrow> GetHandle hm (h_ID h) = Some h \<and> h_ActorID h = a" .
  show "snd (GetHandleByActor hm a) \<longleftrightarrow> fst (GetHandleByActor hm a) \<noteq> None"
    unfolding GetHandleByActor_def using iff by (cases "hm_actorToHandle hm a") fastforce+
qed

lemma GetHandleByName_iff:
  assumes "hm_ok hm"
  shows "fst (GetHandleByName hm n) = Some h \<longleftrightarrow>
           n \<noteq> [] \<and> GetHandle hm (h_ID h) = Some h \<and> h_Name h = n"
    and "snd (GetHandleByName hm n) \<longleftrightarrow> fst (GetHandleByName hm n) \<noteq> None"
proof -
  note iff = hm_ok_name [OF assms, of n]
  have "fst (GetHandleByName hm n) = Some h \<longleftrightarrow> (\<exists>i. hm_nameToHandle hm n = Some i \<and> hm_handles hm i = Some h)"
    by (simp add: GetHandleByName_def split: option.split)
  also have "\<dots> \<longleftrightarrow> n \<noteq> [] \<and> GetHandle hm (h_ID h) = Some h \<and> h_Name h = n"
    unfolding iff GetHandle_def by (metis hm_ok_handle [OF assms] option.inject)
  finally show "fst (GetHandleByName hm n) = Some h \<longleftrightarrow>
           n \<noteq> [] \<and> GetHandle hm (h_ID h) = Some h \<and> h_Name h = n" .
  show "snd (GetHandleByName hm n) \<longleftrightarrow> fst (GetHandleByName hm n) \<noteq> None"
    unfolding GetHandleByName_def using iff by (cases "hm_nameToHandle hm n") fastforce+
qed

interpretation hd: handle_directory GetHandle "\<lambda>s a. fst (GetHandleByActor s a)"
  "\<lambda>s n. fst (GetHandleByName s n)" hm_ok
  by unfold_locales (simp_all add: GetHandleByActor_iff(1) GetHandleByName_iff(1))

section \<open>Properties\<close>

text \<open>
  Property C21. In every manager reached with at most \<open>2 ^ 32\<close> allocations the three lookups
  describe one set of handles: a name or an actor resolves exactly to the live handle that
  carries it, and a lookup that reports success never yields a nil pointer.
\<close>

theorem handle_lookups_agree:
  assumes "hm_reachable node n hm" and "n \<le> 2 ^ 32"
  shows "(GetHandleByName hm name = (Some h, True) \<longleftrightarrow>
            name \<noteq> [] \<and> GetHandle hm (h_ID h) = Some h \<and> h_Name h = name) \<and>
         (GetHandleByActor hm a = (Some h, True) \<longleftrightarrow>
            GetHandle hm (h_ID h) = Some h \<and> h_ActorID h = a) \<and>
         GetHandleByName hm name \<noteq> (None, True) \<and> GetHandleByActor hm a \<noteq> (None, True)"
proof -
  have ok: "hm_ok hm" using assms by (rule hm_reachable_ok)
  show ?thesis
    using GetHandleByName_iff(1) [OF ok, of name h] GetHandleByName_iff(2) [OF ok, of name]
      GetHandleByActor_iff(1) [OF ok, of a h] GetHandleByActor_iff(2) [OF ok, of a]
    by (cases "GetHandleByName hm name"; cases "GetHandleByActor hm a") auto
qed

theorem handle_lookups_agree_witness:
  "GetHandleByName (snd (AllocateHandle 7 ''db'' (NewHandleManager 1))) ''db'' =
     (Some \<lparr>h_ID = 16777217, h_ActorID = 7, h_Name = ''db'', h_Node = 1, h_IsLocal = True\<rparr>, True)"
proof -
  let ?hm = "snd (AllocateHandle 7 ''db'' (NewHandleManager 1))"
  let ?h = "\<lparr>h_ID = 16777217, h_ActorID = 7, h_Name = ''db'', h_Node = 1, h_IsLocal = True\<rparr>"
  have g: "GetHandle ?hm 16777217 = Some ?h"
    by (simp add: GetHandle_def AllocateHandle_def NewHandleManager_def Let_def push_bit_eq_mult)
  have "?hm \<noteq> NewHandleManager 1"
    by (simp add: AllocateHandle_def NewHandleManager_def Let_def)
  then have "hm_reachable 1 (Suc 0) ?hm"
    using hm_reachable.alloc [OF hm_reachable.new, where a = 7 and name = "''db''"] by (metis prod.collapse)
  from handle_lookups_agree [OF this, of "''db''" ?h 7] g show ?thesis by simp
qed

text \<open>
  Allocating a named handle for an actor without one, under a name not in use,
  makes the new handle the answer to all three lookups and to name resolution, leaves every
  other lookup as it was, and releasing it restores the three maps.
\<close>

theorem allocate_resolve_release:
  assumes "hm_reachable node n hm" and "n < 2 ^ 32"
    and "hm_actorToHandle hm a = None" and "name \<noteq> []" and "hm_nameToHandle hm name = None"
  shows "\<exists>h hm'. AllocateHandle a name hm = (Inr (Some h), hm') \<and>
     h_ActorID h = a \<and> h_Name h = name \<and> GetHandle hm (h_ID h) = None \<and>
     GetHandle hm' = (GetHandle hm)(h_ID h \<mapsto> h) \<and>
     GetHandleByActor hm' = (GetHandleByActor hm)(a := (Some h, True)) \<and>
     GetHandleByName hm' = (GetHandleByName hm)(name := (Some h, True)) \<and>
     ResolveAddress \<lparr>a_Handle = None, a_Name = name, a_Pattern = p\<rparr> hm' = Inr (Some h) \<and>
     ReleaseHandle (h_ID h) hm' = (Inr (), hm\<lparr>hm_handleCounter := hm_handleCounter hm + 1\<rparr>)"
proof -
  have ok: "hm_ok hm" and fr: "hm_handles hm (hm_handleCounter hm) = None"
    using hm_reachable_ok hm_reachable_fresh assms(1,2) by (auto simp: hm_fresh_def)
  define h where "h = \<lparr>h_ID = hm_handleCounter hm, h_ActorID = a, h_Name = name,
                       h_Node = hm_nodeID hm, h_IsLocal = True\<rparr>"
  define hm' where "hm' = snd (AllocateHandle a name hm)"
  have al: "AllocateHandle a name hm = (Inr (Some h), hm')"
    and hm': "hm' = hm\<lparr>hm_handleCounter := hm_handleCounter hm + 1,
      hm_handles := (hm_handles hm)(hm_handleCounter hm \<mapsto> h),
      hm_actorToHandle := (hm_actorToHandle hm)(a \<mapsto> hm_handleCounter hm),
      hm_nameToHandle := (hm_nameToHandle hm)(name \<mapsto> hm_handleCounter hm)\<rparr>"
    using assms(3-5) by (simp_all add: hm'_def h_def AllocateHandle_fresh)
  have ne_a: "hm_actorToHandle hm x \<noteq> Some (hm_handleCounter hm)"
    and ne_n: "hm_nameToHandle hm y \<noteq> Some (hm_handleCounter hm)" for x y
    using fr hm_ok_actor [OF ok] hm_ok_name [OF ok] by auto
  have "GetHandleByActor hm' = (GetHandleByActor hm)(a := (Some h, True))"
    using ne_a by (auto simp: fun_eq_iff GetHandleByActor_def hm' split: option.splits)
  moreover have "GetHandleByName hm' = (GetHandleByName hm)(name := (Some h, True))"
    using ne_n by (auto simp: fun_eq_iff GetHandleByName_def hm' split: option.splits)
  moreover from this have "ResolveAddress \<lparr>a_Handle = None, a_Name = name, a_Pattern = p\<rparr> hm' = Inr (Some h)"
    using assms(4) by (simp add: ResolveAddress_def)
  moreover have "ReleaseHandle (h_ID h) hm' = (Inr (), hm\<lparr>hm_handleCounter := hm_handleCounter hm + 1\<rparr>)"
    using assms(3-5) fr by (simp add: ReleaseHandle_def hm' h_def fun_upd_idem)
  ultimately show ?thesis
    using al fr by (intro exI [of _ h] exI [of _ hm']) (simp add: GetHandle_def fun_eq_iff hm' h_def)
qed

theorem allocate_resolve_release_witness:
  "\<exists>h hm'. AllocateHandle 7 ''db'' (NewHandleManager 1) = (Inr (Some h), hm') \<and>
     GetHandleByName hm' ''db'' = (Some h, True)"
proof -
  have "hm_actorToHandle (NewHandleManager 1) 7 = None" "''db'' \<noteq> []"
    "hm_nameToHandle (NewHandleManager 1) ''db'' = None"
    by (simp_all add: NewHandleManager_def)
  from allocate_resolve_release [OF hm_reachable.new _ this] show ?thesis by fastforce
qed

text \<open>
  On a node numbered below 256, every handle issued among the first
  \<open>2 ^ 24 - 1\<close> allocations carries the node number in its top byte, so handles of different
  nodes never coincide.
\<close>

theorem handle_id_node_byte:
  assumes "hm_reachable node n hm" and "n < 2 ^ 24" and "unat node < 256"
    and "GetHandle hm i = Some h"
  shows "drop_bit 24 (h_ID h) = node \<and> h_ID h = i"
proof -
  have "hm_ok hm" using hm_reachable_ok [OF assms(1)] assms(2) by simp
  then have i: "h_ID h = i" using hm_ok_handle assms(4) by (simp add: GetHandle_def)
  obtain k where k: "k < n" "i = nth_id node k"
    using hm_reachable_ids [OF assms(1)] assms(4) by (auto simp: GetHandle_def dom_def)
  have lt: "1 + k < 2 ^ 24" using k(1) assms(2) by simp
  have "i = of_nat (unat node * 2 ^ 24 + (1 + k))"
    by (simp add: k(2) nth_id_def push_bit_eq_mult)
  then have "unat i = (unat node * 2 ^ 24 + (1 + k)) mod 2 ^ 32"
    by (simp only: unat_of_nat) simp
  also have "\<dots> = unat node * 2 ^ 24 + (1 + k)"
    using assms(3) lt by simp
  finally have "unat i div 2 ^ 24 = unat node"
    using lt by simp
  then have "drop_bit 24 i = node"
    by (simp only: word_unat_eq_iff unat_drop_bit_eq) (simp add: drop_bit_eq_div)
  with i show ?thesis by simp
qed

theorem handle_id_node_byte_witness:
  "\<exists>hm h. GetHandle hm 50331649 = Some h \<and> drop_bit 24 (h_ID h) = 3"
proof -
  let ?hm = "snd (AllocateHandle 7 ''db'' (NewHandleManager 3))"
  have "?hm \<noteq> NewHandleManager 3"
    by (simp add: AllocateHandle_def NewHandleManager_def Let_def)
  then have "hm_reachable 3 (Suc 0) ?hm"
    using hm_reachable.alloc [OF hm_reachable.new, where a = 7 and name = "''db''"] by (metis prod.collapse)
  moreover have "GetHandle ?hm 50331649 =
      Some \<lparr>h_ID = 50331649, h_ActorID = 7, h_Name = ''db'', h_Node = 3, h_IsLocal = True\<rparr>"
    by (simp add: GetHandle_def AllocateHandle_def NewHandleManager_def Let_def push_bit_eq_mult)
  ultimately show ?thesis using handle_id_node_byte [of 3 "Suc 0" ?hm 50331649] by fastforce
qed

end
