(* ===== verification/Actors.thy ===== *)
theory Actors
  imports Core_Types
begin

text \<open>
  The actor of \<^verbatim>\<open>core/actor.go\<close>. The first part translates each method: the atomic pieces
  between which other goroutines can run are functions of their own, and the whole method is
  their composition. The second part is the step relation \<open>actor_step\<close> of an actor under
  concurrent senders, callers, stoppers and its own message loops, with ghost histories of
  the messages accepted, taken, drained and finished; invariants of every reachable world
  follow by rule induction. The message handler is user code: a function of the handler's
  state and the message that returns the new state and an error text or none.
\<close>

type_synonym 'h handler_fun = "'h \<Rightarrow> Message \<Rightarrow> 'h \<times> string option"

text \<open>Where one message loop goroutine is: at its \<^verbatim>\<open>select\<close>, in the handler, in
  \<^verbatim>\<open>drainMailbox\<close>, at its deferred \<^verbatim>\<open>close(a.mailbox)\<close>, or gone.\<close>

datatype loop_pc = Selecting | Processing Message | Draining | Closing | Exited

record 'h actor =
  ac_id :: ActorID
  ac_name :: string
  ac_handler :: 'h
  ac_mailbox :: "Message option chan"
  ac_ctxDone :: bool
  ac_loops :: "loop_pc list"
  ac_state :: ActorState
  ac_messagesProcessed :: u64
  ac_createdAt :: Time
  ac_lastMessageAt :: int
  ac_pendingCalls :: "u32 \<rightharpoonup> Message chan"
  ac_sessionCounter :: u32
  ac_opts :: ActorOptions

datatype ActorError =
    AlreadyStarted ActorID ActorState
  | CannotBeStopped ActorID ActorState
  | ActorNotRunning ActorID ActorState
  | ActorShuttingDown ActorID
  | MailboxFull ActorID
  | ContextDone

section \<open>Methods\<close>

text \<open>\<^verbatim>\<open>make(chan *Message, n)\<close> panics for a negative size.\<close>

definition NewActor :: "ActorID \<Rightarrow> 'h \<Rightarrow> ActorOptions \<Rightarrow> Time \<Rightarrow> 'h actor option" where
  "NewActor i handler opts now =
     (if o_MailboxSize opts < 0 then None
      else Some \<lparr>ac_id = i, ac_name = o_Name opts, ac_handler = handler,
        ac_mailbox = make_chan (nat (o_MailboxSize opts)), ac_ctxDone = False, ac_loops = [],
        ac_state = ActorStateIdle, ac_messagesProcessed = 0, ac_createdAt = now,
        ac_lastMessageAt = 0, ac_pendingCalls = Map.empty, ac_sessionCounter = 0,
        ac_opts = opts\<rparr>)"

definition start_spawn :: "'h actor \<Rightarrow> 'h actor" where
  "start_spawn a = a\<lparr>ac_loops := ac_loops a @ [Selecting]\<rparr>"

definition actor_Start :: "'h actor \<Rightarrow> ActorError + 'h actor" where
  "actor_Start a =
     (if ac_state a \<noteq> ActorStateIdle then Inl (AlreadyStarted (ac_id a) (ac_state a))
      else Inr (start_spawn a))"

text \<open>
  \<open>pick\<close> is what \<^verbatim>\<open>select\<close> does when both the mailbox and \<^verbatim>\<open>ctx.Done()\<close> are ready:
  \<open>True\<close> takes \<^verbatim>\<open>ctx.Done()\<close>.
\<close>

definition send_select ::
  "bool \<Rightarrow> Message option \<Rightarrow> 'h actor \<Rightarrow> (ActorError, unit) outcome \<times> 'h actor" where
  "send_select pick msg a =
     (case try_send msg (ac_mailbox a) of
        Sent c \<Rightarrow> if ac_ctxDone a \<and> pick then (Err (ActorShuttingDown (ac_id a)), a)
                  else (Ok (), a\<lparr>ac_mailbox := c\<rparr>)
      | Send_panic \<Rightarrow> if ac_ctxDone a \<and> pick then (Err (ActorShuttingDown (ac_id a)), a)
                     else (Panic, a)
      | Send_full \<Rightarrow> if ac_ctxDone a then (Err (ActorShuttingDown (ac_id a)), a)
                    else (Err (MailboxFull (ac_id a)), a))"

definition actor_Send ::
  "bool \<Rightarrow> Message option \<Rightarrow> 'h actor \<Rightarrow> (ActorError, unit) outcome \<times> 'h actor" where
  "actor_Send pick msg a =
     (if ac_state a = ActorStateStopped \<or> ac_state a = ActorStateStopping
      then (Err (ActorNotRunning (ac_id a) (ac_state a)), a)
      else send_select pick msg a)"

definition sendResponse :: "Time \<Rightarrow> Message \<Rightarrow> string option \<Rightarrow> 'h actor \<Rightarrow> 'h actor" where
  "sendResponse now originalMsg err a =
     (case ac_pendingCalls a (m_Session originalMsg) of
        None \<Rightarrow> a
      | Some ch \<Rightarrow>
          let resp = \<lparr>m_ID = 0, m_Type = MessageTypeResponse, m_Source = ac_id a,
                      m_Target = m_Source originalMsg, m_Session = m_Session originalMsg,
                      m_Data = [], m_Timestamp = now\<rparr>;
              resp' = (case err of None \<Rightarrow> resp
                       | Some e \<Rightarrow> resp\<lparr>m_Type := MessageTypeError, m_Data := bytes_of_string e\<rparr>)
          in a\<lparr>ac_pendingCalls := (ac_pendingCalls a)(m_Session originalMsg \<mapsto> offer resp' ch)\<rparr>)"

text \<open>\<^verbatim>\<open>processMessage\<close> up to the handler call, and from the handler call to the deferred store.\<close>

definition process_begin :: "Time \<Rightarrow> 'h actor \<Rightarrow> 'h actor" where
  "process_begin now a =
     a\<lparr>ac_state := ActorStateRunning,
       ac_messagesProcessed := ac_messagesProcessed a + 1,
       ac_lastMessageAt := time_Unix now\<rparr>"

definition process_end :: "'h handler_fun \<Rightarrow> Time \<Rightarrow> Message \<Rightarrow> 'h actor \<Rightarrow> 'h actor" where
  "process_end handle now msg a =
     (let (h', err) = handle (ac_handler a) msg;
          a1 = a\<lparr>ac_handler := h'\<rparr>;
          a2 = (if m_Session msg \<noteq> 0 then sendResponse now msg err a1 else a1)
      in a2\<lparr>ac_state := ActorStateIdle\<rparr>)"

definition processMessage :: "'h handler_fun \<Rightarrow> Time \<Rightarrow> Message \<Rightarrow> 'h actor \<Rightarrow> 'h actor" where
  "processMessage handle now msg a = process_end handle now msg (process_begin now a)"

text \<open>The text of the error a drained call receives.\<close>

definition shutting_down_text :: "ActorID \<Rightarrow> string" where
  "shutting_down_text i = ''actor '' @ decimal (unat i) @ '' is shutting down''"

abbreviation set_buf :: "Message option list \<Rightarrow> 'h actor \<Rightarrow> 'h actor" where
  "set_buf ms a \<equiv> a\<lparr>ac_mailbox := (ac_mailbox a)\<lparr>ch_buf := ms\<rparr>\<rparr>"

definition drain_one :: "Time \<Rightarrow> Message \<Rightarrow> 'h actor \<Rightarrow> 'h actor" where
  "drain_one now msg a =
     (if m_Session msg \<noteq> 0 then sendResponse now msg (Some (shutting_down_text (ac_id a))) a else a)"

text \<open>The loop of \<^verbatim>\<open>drainMailbox\<close> stops at an empty mailbox and at the first nil message.\<close>

fun drain_loop :: "Time \<Rightarrow> Message option list \<Rightarrow> 'h actor \<Rightarrow> 'h actor" where
  "drain_loop now [] a = set_buf [] a"
| "drain_loop now (None # ms) a = set_buf ms a"
| "drain_loop now (Some m # ms) a = drain_loop now ms (drain_one now m (set_buf ms a))"

definition drainMailbox :: "Time \<Rightarrow> 'h actor \<Rightarrow> 'h actor" where
  "drainMailbox now a = drain_loop now (ch_buf (ac_mailbox a)) a"

text \<open>
  \<^verbatim>\<open>Call\<close> up to its wait: \<open>Ok session\<close> is a call in progress. The second part is the wait:
  \<open>callerDone\<close> says whether the caller's context is done and \<open>pick\<close> which ready case
  \<^verbatim>\<open>select\<close> takes; \<open>None\<close> means that no case is ready and the call goes on waiting.
  \<open>call_leave\<close> is the deferred deletion of the pending call.
\<close>

definition call_prepare :: "'h actor \<Rightarrow> 'h actor" where
  "call_prepare a =
     (let session = ac_sessionCounter a + 1
      in a\<lparr>ac_sessionCounter := session,
           ac_pendingCalls := (ac_pendingCalls a)(session \<mapsto> make_chan 1)\<rparr>)"

definition call_leave :: "u32 \<Rightarrow> 'h actor \<Rightarrow> 'h actor" where
  "call_leave session a = a\<lparr>ac_pendingCalls := (ac_pendingCalls a)(session := None)\<rparr>"

definition actor_Call_begin ::
  "bool \<Rightarrow> Message \<Rightarrow> 'h actor \<Rightarrow> (ActorError, u32) outcome \<times> 'h actor" where
  "actor_Call_begin pick msg a =
     (let a1 = call_prepare a; session = ac_sessionCounter a1
      in case actor_Send pick (Some (msg\<lparr>m_Session := session\<rparr>)) a1 of
           (Ok _, a2) \<Rightarrow> (Ok session, a2)
         | (Err e, a2) \<Rightarrow> (Err e, call_leave session a2)
         | (Panic, a2) \<Rightarrow> (Panic, call_leave session a2))"

datatype call_pick = Pick_response | Pick_caller_done | Pick_actor_done

definition actor_Call_wait ::
  "call_pick \<Rightarrow> bool \<Rightarrow> u32 \<Rightarrow> 'h actor \<Rightarrow> ((ActorError + Message) \<times> 'h actor) option" where
  "actor_Call_wait pick callerDone session a =
     (case pick of
        Pick_response \<Rightarrow>
          (case ac_pendingCalls a session of
             Some ch \<Rightarrow> (case try_recv ch of Received r _ \<Rightarrow> Some (Inr r, call_leave session a)
                                           | _ \<Rightarrow> None)
           | None \<Rightarrow> None)
      | Pick_caller_done \<Rightarrow> if callerDone then Some (Inl ContextDone, call_leave session a) else None
      | Pick_actor_done \<Rightarrow>
          if ac_ctxDone a then Some (Inl (ActorShuttingDown (ac_id a)), call_leave session a) else None)"

text \<open>\<^verbatim>\<open>Stop\<close>: the two compare-and-swaps, the cancellation, and what follows the wait.\<close>

definition stop_cas :: "'h actor \<Rightarrow> ActorError + 'h actor" where
  "stop_cas a =
     (if ac_state a = ActorStateIdle \<or> ac_state a = ActorStateRunning
      then Inr (a\<lparr>ac_state := ActorStateStopping\<rparr>)
      else Inl (CannotBeStopped (ac_id a) (ac_state a)))"

definition stop_cancel :: "'h actor \<Rightarrow> 'h actor" where
  "stop_cancel a = a\<lparr>ac_ctxDone := True\<rparr>"

definition stop_finish :: "'h actor \<Rightarrow> 'h actor" where
  "stop_finish a = a\<lparr>ac_state := ActorStateStopped\<rparr>"

text \<open>
  One message loop running alone from its \<^verbatim>\<open>select\<close> to its exit once the context is done:
  \<open>n\<close> is how many more messages \<^verbatim>\<open>select\<close> happens to take before it takes \<^verbatim>\<open>ctx.Done()\<close>.
  \<^verbatim>\<open>None\<close> is the panic of closing a closed mailbox.
\<close>

fun loop_run :: "'h handler_fun \<Rightarrow> Time \<Rightarrow> nat \<Rightarrow> 'h actor \<Rightarrow> 'h actor option" where
  "loop_run handle now (Suc n) a =
     (case ch_buf (ac_mailbox a) of
        Some m # ms \<Rightarrow> loop_run handle now n (processMessage handle now m (set_buf ms a))
      | None # ms \<Rightarrow> loop_run handle now n (set_buf ms a)
      | [] \<Rightarrow> loop_run handle now 0 a)"
| "loop_run handle now 0 a =
     (let a' = drainMailbox now a
      in map_option (\<lambda>c. a'\<lparr>ac_mailbox := c\<rparr>) (close_chan (ac_mailbox a')))"

fun loops_run :: "'h handler_fun \<Rightarrow> Time \<Rightarrow> nat \<Rightarrow> loop_pc list \<Rightarrow> 'h actor \<Rightarrow> 'h actor option" where
  "loops_run handle now n [] a = Some a"
| "loops_run handle now n (l # ls) a =
     (if l = Selecting
      then (case loop_run handle now n a of None \<Rightarrow> None | Some a' \<Rightarrow> loops_run handle now n ls a')
      else loops_run handle now n ls a)"

text \<open>
  \<^verbatim>\<open>Stop\<close> on an actor whose message loops are at their \<^verbatim>\<open>select\<close> (or were never started),
  with no other goroutine running until it returns.
\<close>

definition actor_Stop ::
  "'h handler_fun \<Rightarrow> Time \<Rightarrow> nat \<Rightarrow> 'h actor \<Rightarrow> (ActorError, unit) outcome \<times> 'h actor" where
  "actor_Stop handle now n a =
     (case stop_cas a of
        Inl e \<Rightarrow> (Err e, a)
      | Inr a1 \<Rightarrow>
          let a2 = stop_cancel a1
          in case loops_run handle now n (ac_loops a2) a2 of
               None \<Rightarrow> (Panic, a2)
             | Some a3 \<Rightarrow> (Ok (), stop_finish (a3\<lparr>ac_loops := map (\<lambda>_. Exited) (ac_loops a3)\<rparr>)))"

definition actor_Stats :: "'h actor \<Rightarrow> ActorStats" where
  "actor_Stats a =
     \<lparr>s_ID = ac_id a, s_Name = ac_name a, s_State = ac_state a,
      s_MessagesProcessed = ac_messagesProcessed a,
      s_MailboxSize = length (ch_buf (ac_mailbox a)), s_CreatedAt = ac_createdAt a,
      s_LastMessageAt = (if ac_lastMessageAt a > 0 then time_of_Unix (ac_lastMessageAt a) else 0)\<rparr>"

section \<open>The actor among other goroutines\<close>

text \<open>Where a call of \<^verbatim>\<open>Stop\<close> that passed its compare-and-swap is.\<close>

datatype stop_pc = To_cancel | Awaiting_loops | Stop_returned

record 'h world =
  w_actor :: "'h actor"
  w_stops :: "stop_pc list"
  w_panic :: bool
  w_accepted :: "Message option list"
  w_removed :: "Message option list"
  w_begun :: "Message list"
  w_finished :: "Message list"

definition init_world :: "'h actor \<Rightarrow> 'h world" where
  "init_world a = \<lparr>w_actor = a, w_stops = [], w_panic = False, w_accepted = [],
                   w_removed = [], w_begun = [], w_finished = []\<rparr>"

abbreviation set_loop :: "nat \<Rightarrow> loop_pc \<Rightarrow> 'h actor \<Rightarrow> 'h actor" where
  "set_loop i pc a \<equiv> a\<lparr>ac_loops := (ac_loops a)[i := pc]\<rparr>"

abbreviation loop_at :: "'h world \<Rightarrow> nat \<Rightarrow> loop_pc \<Rightarrow> bool" where
  "loop_at w i pc \<equiv> i < length (ac_loops (w_actor w)) \<and> ac_loops (w_actor w) ! i = pc"

text \<open>
  One step of one goroutine. A goroutine that passed the state check of \<^verbatim>\<open>Start\<close> or
  \<^verbatim>\<open>Send\<close> may be delayed for any time before it goes on, so their steps are the parts
  after the check, in any state: every actor is created idle, where the checks pass. A call
  is the step \<open>call_prepare\<close>, a \<open>send\<close>, and \<open>call_leave\<close> when its send failed or it
  returns. A panic ends the process, so no step leaves a world that has panicked. A failed
  send, start or stop changes nothing and is no step.
\<close>

inductive actor_step :: "'h handler_fun \<Rightarrow> 'h world \<Rightarrow> 'h world \<Rightarrow> bool" for handle where
  start: "\<not> w_panic w \<Longrightarrow> actor_step handle w (w\<lparr>w_actor := start_spawn (w_actor w)\<rparr>)"
| send: "\<not> w_panic w \<Longrightarrow> send_select pick m (w_actor w) = (Ok (), a) \<Longrightarrow>
    actor_step handle w (w\<lparr>w_actor := a, w_accepted := w_accepted w @ [m]\<rparr>)"
| send_panic: "\<not> w_panic w \<Longrightarrow> send_select pick m (w_actor w) = (Panic, a) \<Longrightarrow>
    actor_step handle w (w\<lparr>w_panic := True\<rparr>)"
| call_prepare: "\<not> w_panic w \<Longrightarrow> actor_step handle w (w\<lparr>w_actor := call_prepare (w_actor w)\<rparr>)"
| call_leave: "\<not> w_panic w \<Longrightarrow> actor_step handle w (w\<lparr>w_actor := call_leave s (w_actor w)\<rparr>)"
| take_message: "\<not> w_panic w \<Longrightarrow> loop_at w i Selecting \<Longrightarrow>
    ch_buf (ac_mailbox (w_actor w)) = Some m # ms \<Longrightarrow>
    actor_step handle w (w\<lparr>w_actor := set_loop i (Processing m) (process_begin now (set_buf ms (w_actor w))),
                           w_removed := w_removed w @ [Some m], w_begun := w_begun w @ [m]\<rparr>)"
| take_nil: "\<not> w_panic w \<Longrightarrow> loop_at w i Selecting \<Longrightarrow>
    ch_buf (ac_mailbox (w_actor w)) = None # ms \<Longrightarrow>
    actor_step handle w (w\<lparr>w_actor := set_buf ms (w_actor w), w_removed := w_removed w @ [None]\<rparr>)"
| finish: "\<not> w_panic w \<Longrightarrow> loop_at w i (Processing m) \<Longrightarrow>
    actor_step handle w (w\<lparr>w_actor := set_loop i Selecting (process_end handle now m (w_actor w)),
                           w_finished := w_finished w @ [m]\<rparr>)"
| see_done: "\<not> w_panic w \<Longrightarrow> loop_at w i Selecting \<Longrightarrow> ac_ctxDone (w_actor w) \<Longrightarrow>
    actor_step handle w (w\<lparr>w_actor := set_loop i Draining (w_actor w)\<rparr>)"
| drain: "\<not> w_panic w \<Longrightarrow> loop_at w i Draining \<Longrightarrow>
    ch_buf (ac_mailbox (w_actor w)) = Some m # ms \<Longrightarrow>
    actor_step handle w (w\<lparr>w_actor := drain_one now m (set_buf ms (w_actor w)),
                           w_removed := w_removed w @ [Some m]\<rparr>)"
| drain_nil: "\<not> w_panic w \<Longrightarrow> loop_at w i Draining \<Longrightarrow>
    ch_buf (ac_mailbox (w_actor w)) = None # ms \<Longrightarrow>
    actor_step handle w (w\<lparr>w_actor := set_loop i Closing (set_buf ms (w_actor w)),
                           w_removed := w_removed w @ [None]\<rparr>)"
| drain_end: "\<not> w_panic w \<Longrightarrow> loop_at w i Draining \<Longrightarrow> ch_buf (ac_mailbox (w_actor w)) = [] \<Longrightarrow>
    actor_step handle w (w\<lparr>w_actor := set_loop i Closing (w_actor w)\<rparr>)"
| close: "\<not> w_panic w \<Longrightarrow> loop_at w i Closing \<Longrightarrow> close_chan (ac_mailbox (w_actor w)) = Some c \<Longrightarrow>
    actor_step handle w (w\<lparr>w_actor := set_loop i Exited ((w_actor w)\<lparr>ac_mailbox := c\<rparr>)\<rparr>)"
| close_panic: "\<not> w_panic w \<Longrightarrow> loop_at w i Closing \<Longrightarrow> close_chan (ac_mailbox (w_actor w)) = None \<Longrightarrow>
    actor_step handle w (w\<lparr>w_panic := True\<rparr>)"
| stop_cas: "\<not> w_panic w \<Longrightarrow> stop_cas (w_actor w) = Inr a \<Longrightarrow>
    actor_step handle w (w\<lparr>w_actor := a, w_stops := w_stops w @ [To_cancel]\<rparr>)"
| stop_cancel: "\<not> w_panic w \<Longrightarrow> j < length (w_stops w) \<Longrightarrow> w_stops w ! j = To_cancel \<Longrightarrow>
    actor_step handle w (w\<lparr>w_actor := stop_cancel (w_actor w),
                           w_stops := (w_stops w)[j := Awaiting_loops]\<rparr>)"
| stop_finish: "\<not> w_panic w \<Longrightarrow> j < length (w_stops w) \<Longrightarrow> w_stops w ! j = Awaiting_loops \<Longrightarrow>
    set (ac_loops (w_actor w)) \<subseteq> {Exited} \<Longrightarrow>
    actor_step handle w (w\<lparr>w_actor := stop_finish (w_actor w),
                           w_stops := (w_stops w)[j := Stop_returned]\<rparr>)"

inductive actor_reach :: "'h handler_fun \<Rightarrow> 'h actor \<Rightarrow> 'h world \<Rightarrow> bool" for handle a0 where
  init: "actor_reach handle a0 (init_world a0)"
| step: "actor_reach handle a0 w \<Longrightarrow> actor_step handle w w' \<Longrightarrow> actor_reach handle a0 w'"

section \<open>What the operations leave alone\<close>

lemmas actor_op_defs = actor_Start_def process_begin_def process_end_def sendResponse_def
  drain_one_def stop_cas_def stop_cancel_def stop_finish_def actor_Call_wait_def

lemma sendResponse_frame [simp]:
  "ac_id (sendResponse now m e a) = ac_id a"
  "ac_handler (sendResponse now m e a) = ac_handler a"
  "ac_mailbox (sendResponse now m e a) = ac_mailbox a"
  "ac_ctxDone (sendResponse now m e a) = ac_ctxDone a"
  "ac_loops (sendResponse now m e a) = ac_loops a"
  "ac_state (sendResponse now m e a) = ac_state a"
  "ac_messagesProcessed (sendResponse now m e a) = ac_messagesProcessed a"
  "ac_sessionCounter (sendResponse now m e a) = ac_sessionCounter a"
  "ac_name (sendResponse now m e a) = ac_name a"
  "ac_opts (sendResponse now m e a) = ac_opts a"
  by (simp_all add: sendResponse_def Let_def split: option.split)

lemma drain_one_frame [simp]:
  "ac_id (drain_one now m a) = ac_id a"
  "ac_handler (drain_one now m a) = ac_handler a"
  "ac_mailbox (drain_one now m a) = ac_mailbox a"
  "ac_ctxDone (drain_one now m a) = ac_ctxDone a"
  "ac_loops (drain_one now m a) = ac_loops a"
  "ac_state (drain_one now m a) = ac_state a"
  "ac_messagesProcessed (drain_one now m a) = ac_messagesProcessed a"
  "ac_sessionCounter (drain_one now m a) = ac_sessionCounter a"
  "ac_name (drain_one now m a) = ac_name a"
  "ac_opts (drain_one now m a) = ac_opts a"
  by (simp_all add: drain_one_def)

lemma process_begin_frame [simp]:
  "ac_id (process_begin now a) = ac_id a"
  "ac_handler (process_begin now a) = ac_handler a"
  "ac_mailbox (process_begin now a) = ac_mailbox a"
  "ac_ctxDone (process_begin now a) = ac_ctxDone a"
  "ac_loops (process_begin now a) = ac_loops a"
  "ac_pendingCalls (process_begin now a) = ac_pendingCalls a"
  "ac_messagesProcessed (process_begin now a) = ac_messagesProcessed a + 1"
  "ac_sessionCounter (process_begin now a) = ac_sessionCounter a"
  by (simp_all add: process_begin_def)

lemma process_end_frame [simp]:
  "ac_id (process_end handle now m a) = ac_id a"
  "ac_handler (process_end handle now m a) = fst (handle (ac_handler a) m)"
  "ac_mailbox (process_end handle now m a) = ac_mailbox a"
  "ac_ctxDone (process_end handle now m a) = ac_ctxDone a"
  "ac_loops (process_end handle now m a) = ac_loops a"
  "ac_state (process_end handle now m a) = ActorStateIdle"
  "ac_messagesProcessed (process_end handle now m a) = ac_messagesProcessed a"
  "ac_sessionCounter (process_end handle now m a) = ac_sessionCounter a"
  by (simp_all add: process_end_def Let_def split: prod.split)

lemma send_select_Ok:
  "send_select pick m a = (Ok (), a') \<longleftrightarrow> \<not> (ac_ctxDone a \<and> pick) \<and>
     \<not> ch_closed (ac_mailbox a) \<and> length (ch_buf (ac_mailbox a)) < ch_cap (ac_mailbox a) \<and>
     a' = set_buf (ch_buf (ac_mailbox a) @ [m]) a"
  by (auto simp: send_select_def try_send_def split: if_splits)

lemma send_select_Panic:
  "send_select pick m a = (Panic, a') \<longleftrightarrow>
     \<not> (ac_ctxDone a \<and> pick) \<and> ch_closed (ac_mailbox a) \<and> a' = a"
  by (auto simp: send_select_def try_send_def split: if_splits)

lemma actor_Send_Ok:
  "actor_Send pick m a = (Ok (), a') \<longleftrightarrow>
     ac_state a \<notin> {ActorStateStopped, ActorStateStopping} \<and> send_select pick m a = (Ok (), a')"
  by (auto simp: actor_Send_def)

lemma actor_Send_not_Ok: "actor_Send pick m a = (r, a') \<Longrightarrow> r \<noteq> Ok () \<Longrightarrow> a' = a"
  by (auto simp: actor_Send_def send_select_def try_send_def split: if_splits)

lemma call_prepare_simps [simp]:
  "ac_sessionCounter (call_prepare a) = ac_sessionCounter a + 1"
  "ac_pendingCalls (call_prepare a) = (ac_pendingCalls a)(ac_sessionCounter a + 1 \<mapsto> make_chan 1)"
  "ac_id (call_prepare a) = ac_id a" "ac_mailbox (call_prepare a) = ac_mailbox a"
  "ac_state (call_prepare a) = ac_state a" "ac_ctxDone (call_prepare a) = ac_ctxDone a"
  "ac_loops (call_prepare a) = ac_loops a" "ac_handler (call_prepare a) = ac_handler a"
  "ac_messagesProcessed (call_prepare a) = ac_messagesProcessed a"
  by (simp_all add: call_prepare_def Let_def)

lemma call_leave_simps [simp]:
  "ac_pendingCalls (call_leave s a) = (ac_pendingCalls a)(s := None)"
  "ac_id (call_leave s a) = ac_id a" "ac_mailbox (call_leave s a) = ac_mailbox a"
  "ac_state (call_leave s a) = ac_state a" "ac_ctxDone (call_leave s a) = ac_ctxDone a"
  "ac_loops (call_leave s a) = ac_loops a" "ac_handler (call_leave s a) = ac_handler a"
  "ac_messagesProcessed (call_leave s a) = ac_messagesProcessed a"
  by (simp_all add: call_leave_def)

lemma actor_Call_begin_Ok:
  assumes "actor_Call_begin pick m a = (Ok s, a')"
  shows "s = ac_sessionCounter a + 1"
    and "actor_Send pick (Some (m\<lparr>m_Session := s\<rparr>)) (call_prepare a) = (Ok (), a')"
  using assms by (auto simp: actor_Call_begin_def Let_def split: prod.splits outcome.splits)

lemma actor_Call_wait_Some:
  "actor_Call_wait cp cd s a = Some (r, a') \<Longrightarrow> a' = call_leave s a"
  by (auto simp: actor_Call_wait_def
      split: call_pick.splits option.splits recv_outcome.splits if_splits)

lemma stop_cas_Inr:
  "stop_cas a = Inr a' \<longleftrightarrow>
     ac_state a \<in> {ActorStateIdle, ActorStateRunning} \<and> a' = a\<lparr>ac_state := ActorStateStopping\<rparr>"
  by (auto simp: stop_cas_def)

lemmas step_results = start_spawn_def stop_cas_Inr send_select_Ok send_select_Panic close_chan_def
  stop_cancel_def stop_finish_def

section \<open>Invariants of every step\<close>

text \<open>Messages leave the mailbox in the order in which they were accepted.\<close>

definition fifo_inv :: "'h world \<Rightarrow> bool" where
  "fifo_inv w \<longleftrightarrow> w_accepted w = w_removed w @ ch_buf (ac_mailbox (w_actor w))"

lemma fifo_inv_step [inv_step]: "actor_step handle w w' \<Longrightarrow> fifo_inv w \<Longrightarrow> fifo_inv w'"
  by (induction rule: actor_step.induct)
     (auto simp: fifo_inv_def step_results split: if_splits)

definition bound_inv :: "nat \<Rightarrow> 'h world \<Rightarrow> bool" where
  "bound_inv n w \<longleftrightarrow> chan_ok (ac_mailbox (w_actor w)) \<and> ch_cap (ac_mailbox (w_actor w)) = n"

lemma bound_inv_step [inv_step]: "actor_step handle w w' \<Longrightarrow> bound_inv n w \<Longrightarrow> bound_inv n w'"
  by (induction rule: actor_step.induct)
     (auto simp: bound_inv_def chan_ok_def step_results split: if_splits)

text \<open>The handler's state is the fold of the handler over the finished messages.\<close>

definition handled_inv :: "'h handler_fun \<Rightarrow> 'h actor \<Rightarrow> 'h world \<Rightarrow> bool" where
  "handled_inv handle a0 w \<longleftrightarrow>
     ac_handler (w_actor w) = foldl (\<lambda>h m. fst (handle h m)) (ac_handler a0) (w_finished w) \<and>
     ac_messagesProcessed (w_actor w) = ac_messagesProcessed a0 + of_nat (length (w_begun w)) \<and>
     ac_id (w_actor w) = ac_id a0"

lemma handled_inv_step [inv_step]:
  "actor_step handle w w' \<Longrightarrow> handled_inv handle a0 w \<Longrightarrow> handled_inv handle a0 w'"
  by (induction rule: actor_step.induct)
     (auto simp: handled_inv_def step_results split: if_splits)

text \<open>
  Every pending call has a response channel with room for one answer, open, and holding
  only answers of this actor to that call.
\<close>

definition pending_ok :: "ActorID \<Rightarrow> (u32 \<rightharpoonup> Message chan) \<Rightarrow> bool" where
  "pending_ok i p \<longleftrightarrow>
     (\<forall>s ch. p s = Some ch \<longrightarrow> ch_cap ch = 1 \<and> chan_ok ch \<and> \<not> ch_closed ch \<and>
        (\<forall>r \<in> set (ch_buf ch). m_Session r = s \<and> m_Source r = i \<and>
           (m_Type r = MessageTypeResponse \<or> m_Type r = MessageTypeError)))"

lemma pending_ok_None: "pending_ok i p \<Longrightarrow> pending_ok i (p(s := None))"
  by (auto simp: pending_ok_def)

lemma pending_ok_new: "pending_ok i p \<Longrightarrow> pending_ok i (p(s \<mapsto> make_chan (Suc 0)))"
  by (auto simp: pending_ok_def)

lemma pending_ok_offer:
  assumes "pending_ok i p" "p s = Some ch" "m_Session r = s" "m_Source r = i"
    "m_Type r = MessageTypeResponse \<or> m_Type r = MessageTypeError"
  shows "pending_ok i (p(s \<mapsto> offer r ch))"
proof -
  have ch: "ch_cap ch = 1" "chan_ok ch" "\<not> ch_closed ch"
    and rs: "\<forall>r \<in> set (ch_buf ch). m_Session r = s \<and> m_Source r = i \<and>
           (m_Type r = MessageTypeResponse \<or> m_Type r = MessageTypeError)"
    using assms(1,2) unfolding pending_ok_def by blast+
  have "\<forall>x \<in> set (ch_buf (offer r ch)). m_Session x = s \<and> m_Source x = i \<and>
           (m_Type x = MessageTypeResponse \<or> m_Type x = MessageTypeError)"
    using rs assms(3-5) ch(3) by (auto simp: offer_buf)
  with assms(1) ch show ?thesis by (simp add: pending_ok_def chan_ok_offer)
qed

lemma pending_ok_sendResponse:
  "pending_ok (ac_id a) (ac_pendingCalls a) \<Longrightarrow>
     pending_ok (ac_id a) (ac_pendingCalls (sendResponse now m e a))"
  by (auto simp: sendResponse_def Let_def intro!: pending_ok_offer split: option.split)

lemma pending_ok_process_end:
  assumes "pending_ok (ac_id a) (ac_pendingCalls a)"
  shows "pending_ok (ac_id a) (ac_pendingCalls (process_end handle now m a))"
proof -
  obtain h e where "handle (ac_handler a) m = (h, e)" by force
  then show ?thesis
    using assms pending_ok_sendResponse [of "a\<lparr>ac_handler := h\<rparr>" now m e]
    by (simp add: process_end_def Let_def)
qed

lemma pending_ok_drain_one:
  "pending_ok (ac_id a) (ac_pendingCalls a) \<Longrightarrow>
     pending_ok (ac_id a) (ac_pendingCalls (drain_one now m a))"
  by (simp add: drain_one_def pending_ok_sendResponse)

definition pending_inv :: "'h world \<Rightarrow> bool" where
  "pending_inv w \<longleftrightarrow> pending_ok (ac_id (w_actor w)) (ac_pendingCalls (w_actor w))"

lemma pending_inv_step [inv_step]: "actor_step handle w w' \<Longrightarrow> pending_inv w \<Longrightarrow> pending_inv w'"
proof (induction rule: actor_step.induct)
  case (drain w i m ms now)
  then show ?case
    using pending_ok_drain_one [of "set_buf ms (w_actor w)"] by (simp add: pending_inv_def)
next
  case (finish w i m now)
  then show ?case by (simp add: pending_inv_def pending_ok_process_end)
qed (auto simp: pending_inv_def step_results pending_ok_None pending_ok_new
      split: if_splits)

section \<open>An actor that was started at most once\<close>

text \<open>
  \<^verbatim>\<open>Start\<close> adds a loop each time it succeeds, so \<open>length (ac_loops a) \<le> 1\<close> says that it
  succeeded at most once. Then at most one message is in the handler, processing follows the
  order of acceptance, and only this loop closes the mailbox.
\<close>

definition current :: "loop_pc list \<Rightarrow> Message list" where
  "current ls = (case ls of [Processing m] \<Rightarrow> [m] | _ \<Rightarrow> [])"

definition seq_ok ::
  "loop_pc list \<Rightarrow> Message list \<Rightarrow> Message list \<Rightarrow> Message option list \<Rightarrow> bool \<Rightarrow> bool \<Rightarrow> bool \<Rightarrow> bool" where
  "seq_ok ls begun finished removed ctxDone closed panicked \<longleftrightarrow> length ls \<le> 1 \<longrightarrow>
     begun = finished @ current ls \<and>
     (\<exists>rest. List.map_filter id removed = begun @ rest \<and>
        (rest \<noteq> [] \<longrightarrow> ls \<in> {[Draining], [Closing], [Exited]})) \<and>
     (ls \<in> {[Draining], [Closing], [Exited]} \<longrightarrow> ctxDone) \<and>
     (closed \<longrightarrow> ls = [Exited]) \<and> (panicked \<longrightarrow> closed)"

definition seq_inv :: "'h world \<Rightarrow> bool" where
  "seq_inv w \<longleftrightarrow> seq_ok (ac_loops (w_actor w)) (w_begun w) (w_finished w) (w_removed w)
     (ac_ctxDone (w_actor w)) (ch_closed (ac_mailbox (w_actor w))) (w_panic w)"

lemma one_loop: "i < length ls \<Longrightarrow> length ls \<le> 1 \<Longrightarrow> ls ! i = pc \<Longrightarrow> ls = [pc] \<and> i = 0"
  by (cases ls) auto

lemma map_filter_snoc [simp]:
  "List.map_filter f (xs @ [x]) = List.map_filter f xs @ (case f x of None \<Rightarrow> [] | Some y \<Rightarrow> [y])"
  by (simp add: List.map_filter_def split: option.split)

lemma current_simps [simp]:
  "current [] = []" "current [Processing m] = [m]" "current [Selecting] = []"
  "current [Draining] = []" "current [Closing] = []" "current [Exited] = []"
  by (simp_all add: current_def)

text \<open>To show the invariant after a step of the only loop, only that loop's moves matter.\<close>

lemma seq_ok_loop:
  assumes "i < length ls" "ls ! i = pc"
    and "ls = [pc] \<Longrightarrow> seq_ok [pc] b f r d c p \<Longrightarrow> seq_ok [pc'] b' f' r' d' c' p'"
    and "seq_ok ls b f r d c p"
  shows "seq_ok (ls[i := pc']) b' f' r' d' c' p'"
proof (cases "length ls \<le> 1")
  case True
  with one_loop [OF assms(1) True assms(2)] assms(3,4) show ?thesis by auto
next
  case False
  then show ?thesis by (simp add: seq_ok_def)
qed

lemma seq_inv_step [inv_step]: "actor_step handle w w' \<Longrightarrow> seq_inv w \<Longrightarrow> seq_inv w'"
proof (induction rule: actor_step.induct)
  case (start w)
  then show ?case
    by (cases "ac_loops (w_actor w)") (simp_all add: seq_inv_def step_results seq_ok_def)
next
  case (send_panic w pick m a)
  then show ?case by (auto simp: seq_inv_def step_results seq_ok_def)
next
  case (take_message w i m ms now)
  note h = conjunct1 [OF take_message(2)] conjunct2 [OF take_message(2)] take_message(4) [unfolded seq_inv_def]
  show ?case
    unfolding seq_inv_def using take_message(1,3)
    by (simp, intro seq_ok_loop [OF h(1,2) _ h(3)]) (auto simp: seq_ok_def)
next
  case (take_nil w i ms)
  note h = conjunct1 [OF take_nil(2)] conjunct2 [OF take_nil(2)] take_nil(4) [unfolded seq_inv_def]
  have "seq_ok ((ac_loops (w_actor w))[i := Selecting]) (w_begun w) (w_finished w) (w_removed w @ [None])
     (ac_ctxDone (w_actor w)) (ch_closed (ac_mailbox (w_actor w))) (w_panic w)"
    by (intro seq_ok_loop [OF h(1,2) _ h(3)]) (auto simp: seq_ok_def)
  with h(2) show ?case by (simp add: seq_inv_def list_update_same_conv [THEN iffD2] h(1))
next
  case (finish w i m now)
  note h = conjunct1 [OF finish(2)] conjunct2 [OF finish(2)] finish(3) [unfolded seq_inv_def]
  show ?case
    unfolding seq_inv_def using finish(1)
    by (simp, intro seq_ok_loop [OF h(1,2) _ h(3)]) (auto simp: seq_ok_def)
next
  case (see_done w i)
  note h = conjunct1 [OF see_done(2)] conjunct2 [OF see_done(2)] see_done(4) [unfolded seq_inv_def]
  show ?case
    unfolding seq_inv_def using see_done(1,3)
    by (simp, intro seq_ok_loop [OF h(1,2) _ h(3)]) (auto simp: seq_ok_def)
next
  case (drain w i m ms now)
  note h = conjunct1 [OF drain(2)] conjunct2 [OF drain(2)] drain(4) [unfolded seq_inv_def]
  have "seq_ok ((ac_loops (w_actor w))[i := Draining]) (w_begun w) (w_finished w) (w_removed w @ [Some m])
     (ac_ctxDone (w_actor w)) (ch_closed (ac_mailbox (w_actor w))) (w_panic w)"
    by (intro seq_ok_loop [OF h(1,2) _ h(3)]) (auto simp: seq_ok_def)
  with h(2) show ?case by (simp add: seq_inv_def list_update_same_conv [THEN iffD2] h(1))
next
  case (drain_nil w i ms)
  note h = conjunct1 [OF drain_nil(2)] conjunct2 [OF drain_nil(2)] drain_nil(4) [unfolded seq_inv_def]
  show ?case
    unfolding seq_inv_def using drain_nil(1,3)
    by (simp, intro seq_ok_loop [OF h(1,2) _ h(3)]) (auto simp: seq_ok_def)
next
  case (drain_end w i)
  note h = conjunct1 [OF drain_end(2)] conjunct2 [OF drain_end(2)] drain_end(4) [unfolded seq_inv_def]
  show ?case
    unfolding seq_inv_def using drain_end(1,3)
    by (simp, intro seq_ok_loop [OF h(1,2) _ h(3)]) (auto simp: seq_ok_def)
next
  case (close w i c)
  note h = conjunct1 [OF close(2)] conjunct2 [OF close(2)] close(4) [unfolded seq_inv_def]
  have "ch_closed c" using close(3) by (auto simp: close_chan_def split: if_splits)
  then show ?case
    unfolding seq_inv_def using close(1)
    by (simp, intro seq_ok_loop [OF h(1,2) _ h(3)]) (auto simp: seq_ok_def)
next
  case (close_panic w i)
  then show ?case
    by (auto simp: seq_inv_def seq_ok_def close_chan_def split: if_splits)
next
  case (stop_cancel w j)
  then show ?case by (auto simp: seq_inv_def seq_ok_def step_results)
qed (simp_all add: seq_inv_def step_results)

lemma actor_reach_lift:
  assumes "actor_reach handle a0 w" and "P (init_world a0)"
    and "\<And>w w'. actor_step handle w w' \<Longrightarrow> P w \<Longrightarrow> P w'"
  shows "P w"
  using assms(1) by (induction rule: actor_reach.induct) (auto intro: assms(2,3))

lemma actor_reach_invs:
  assumes "actor_reach handle a0 w" and "NewActor i h opts t = Some a0"
  shows "fifo_inv w" and "bound_inv (nat (o_MailboxSize opts)) w" and "handled_inv handle a0 w"
    and "pending_inv w" and "seq_inv w"
proof -
  have a0: "ch_buf (ac_mailbox a0) = []" "ch_cap (ac_mailbox a0) = nat (o_MailboxSize opts)"
    "ch_closed (ac_mailbox a0) = False" "ac_pendingCalls a0 = Map.empty" "ac_loops a0 = []"
    using assms(2) by (auto simp: NewActor_def split: if_splits)
  show "fifo_inv w"
    by (rule actor_reach_lift [OF assms(1)]) (simp add: init_world_def fifo_inv_def a0, erule (1) fifo_inv_step)
  show "bound_inv (nat (o_MailboxSize opts)) w"
    by (rule actor_reach_lift [OF assms(1)])
       (simp add: init_world_def bound_inv_def chan_ok_def a0, erule (1) bound_inv_step)
  show "handled_inv handle a0 w"
    by (rule actor_reach_lift [OF assms(1)]) (simp add: init_world_def handled_inv_def, erule (1) handled_inv_step)
  show "pending_inv w"
    by (rule actor_reach_lift [OF assms(1)])
       (simp add: init_world_def pending_inv_def pending_ok_def a0, erule (1) pending_inv_step)
  show "seq_inv w"
    by (rule actor_reach_lift [OF assms(1)])
       (simp add: init_world_def seq_inv_def seq_ok_def a0 List.map_filter_def, erule (1) seq_inv_step)
qed

section \<open>Stopping\<close>

text \<open>A pending call has been answered when its response channel holds an answer.\<close>

definition answered :: "u32 \<Rightarrow> 'h actor \<Rightarrow> bool" where
  "answered s a \<longleftrightarrow> (case ac_pendingCalls a s of None \<Rightarrow> True | Some ch \<Rightarrow> ch_buf ch \<noteq> [])"

lemma answered_frame [simp]:
  "answered s (set_buf ms a) = answered s a"
  "answered s (process_begin now a) = answered s a"
  by (simp_all add: answered_def)

lemma offer_nonempty:
  "ch_cap c = 1 \<Longrightarrow> \<not> ch_closed c \<Longrightarrow> ch_buf (offer x c) \<noteq> []"
  by (simp add: offer_buf)

lemma answered_sendResponse:
  assumes "pending_ok (ac_id a) (ac_pendingCalls a)" and "s = m_Session m \<or> answered s a"
  shows "answered s (sendResponse now m e a)"
  using assms by (auto simp: answered_def sendResponse_def Let_def pending_ok_def offer_nonempty
      split: option.splits)

lemma answered_process:
  assumes "pending_ok (ac_id a) (ac_pendingCalls a)"
    and "s \<noteq> 0 \<and> s = m_Session m \<or> answered s a"
  shows "answered s (processMessage handle now m a)"
proof -
  obtain h e where he: "handle (ac_handler a) m = (h, e)" by force
  define b where "b = (process_begin now a)\<lparr>ac_handler := h\<rparr>"
  have b: "pending_ok (ac_id b) (ac_pendingCalls b)" "answered s b = answered s a"
    using assms(1) by (simp_all add: b_def answered_def)
  have "answered s (if m_Session m \<noteq> 0 then sendResponse now m e b else b)"
    using assms(2) answered_sendResponse [OF b(1), of s m now e] b(2) by auto
  then show ?thesis
    unfolding b_def by (simp add: processMessage_def process_end_def he Let_def answered_def split: if_splits)
qed

lemma answered_drain_one:
  assumes "pending_ok (ac_id a) (ac_pendingCalls a)" and "s \<noteq> 0 \<and> s = m_Session m \<or> answered s a"
  shows "answered s (drain_one now m a)"
  using assms by (auto simp: drain_one_def answered_sendResponse)

abbreviation queued_session :: "u32 \<Rightarrow> 'h actor \<Rightarrow> bool" where
  "queued_session s a \<equiv> s \<noteq> 0 \<and> (\<exists>m. Some m \<in> set (ch_buf (ac_mailbox a)) \<and> m_Session m = s)"

lemma drain_loop_answers:
  assumes "pending_ok (ac_id a) (ac_pendingCalls a)" and "None \<notin> set ms"
    and "s \<noteq> 0 \<and> (\<exists>m. Some m \<in> set ms \<and> m_Session m = s) \<or> answered s a"
  shows "answered s (drain_loop now ms a)"
  using assms
proof (induction now ms a rule: drain_loop.induct)
  case (3 now m ms a)
  let ?b = "drain_one now m (set_buf ms a)"
  have b: "pending_ok (ac_id ?b) (ac_pendingCalls ?b)"
    using "3.prems"(1) pending_ok_drain_one [of "set_buf ms a" now m] by simp
  have q: "s \<noteq> 0 \<and> (\<exists>m. Some m \<in> set ms \<and> m_Session m = s) \<or> answered s ?b"
    using "3.prems"(1,3) answered_drain_one [of "set_buf ms a" s m now] by auto
  have n: "None \<notin> set ms" using "3.prems"(2) by simp
  show ?case using "3.IH" [OF b n q] by simp
qed simp_all

lemma drain_loop_frame:
  assumes "None \<notin> set ms"
  shows "ac_mailbox (drain_loop now ms a) = (ac_mailbox a)\<lparr>ch_buf := []\<rparr> \<and>
     ac_loops (drain_loop now ms a) = ac_loops a"
  using assms by (induction now ms a rule: drain_loop.induct) auto

lemma loop_run_answers:
  assumes "pending_ok (ac_id a) (ac_pendingCalls a)" and "None \<notin> set (ch_buf (ac_mailbox a))"
    and "\<not> ch_closed (ac_mailbox a)"
  shows "\<exists>a'. loop_run handle now n a = Some a' \<and> ac_loops a' = ac_loops a \<and>
     ac_mailbox a' = (ac_mailbox a)\<lparr>ch_buf := [], ch_closed := True\<rparr> \<and>
     (\<forall>s. queued_session s a \<or> answered s a \<longrightarrow> answered s a')"
  using assms
proof (induction handle now n a rule: loop_run.induct)
  case (1 handle now n a)
  show ?case
  proof (cases "ch_buf (ac_mailbox a)")
    case Nil
    from "1.IH"(1) [OF Nil "1.prems"] show ?thesis unfolding loop_run.simps(1) Nil list.case .
  next
    case (Cons x ms)
    then obtain m where x: "x = Some m" using "1.prems"(2) by (cases x) auto
    let ?b = "processMessage handle now m (set_buf ms a)"
    have po: "pending_ok (ac_id (set_buf ms a)) (ac_pendingCalls (set_buf ms a))" using "1.prems"(1) by simp
    have b: "pending_ok (ac_id ?b) (ac_pendingCalls ?b)"
      using pending_ok_process_end [of "process_begin now (set_buf ms a)" handle now m] "1.prems"(1)
      by (simp add: processMessage_def)
    have mb: "ac_mailbox ?b = (ac_mailbox a)\<lparr>ch_buf := ms\<rparr>" "ac_loops ?b = ac_loops a"
      by (simp_all add: processMessage_def)
    have "queued_session s ?b \<or> answered s ?b" if "queued_session s a \<or> answered s a" for s
      using that Cons x answered_process [OF po, of s m handle now] mb by auto
    then show ?thesis
      using "1.IH"(3) [OF Cons x b] "1.prems"(2,3) mb Cons x by auto
  qed
next
  case (2 handle now a)
  let ?b = "drainMailbox now a"
  have "answered s ?b" if "queued_session s a \<or> answered s a" for s
    using drain_loop_answers [OF "2.prems"(1,2), of s now] that by (auto simp: drainMailbox_def)
  moreover have "ac_mailbox ?b = (ac_mailbox a)\<lparr>ch_buf := []\<rparr>" "ac_loops ?b = ac_loops a"
    using drain_loop_frame [OF "2.prems"(2), of now a] by (simp_all add: drainMailbox_def)
  ultimately show ?case using "2.prems"(3) by (simp add: close_chan_def answered_def)
qed

section \<open>Calling\<close>

lemma sendResponse_other:
  "s \<noteq> m_Session m \<Longrightarrow> ac_pendingCalls (sendResponse now m e a) s = ac_pendingCalls a s"
  by (simp add: sendResponse_def Let_def split: option.split)

lemma processMessage_other:
  "s \<noteq> m_Session m \<Longrightarrow> ac_pendingCalls (processMessage handle now m a) s = ac_pendingCalls a s"
  by (simp add: processMessage_def process_end_def Let_def sendResponse_other split: prod.split)

lemma foldl_processMessage_other:
  "\<forall>m \<in> set ms. m_Session m \<noteq> s \<Longrightarrow>
     ac_pendingCalls (foldl (\<lambda>a m. processMessage handle now m a) a ms) s = ac_pendingCalls a s"
  by (induction ms arbitrary: a) (auto simp: processMessage_other)

lemma processMessage_frame [simp]:
  "ac_id (processMessage handle now m a) = ac_id a"
  "ac_handler (processMessage handle now m a) = fst (handle (ac_handler a) m)"
  by (simp_all add: processMessage_def)

lemma foldl_processMessage_frame:
  "ac_id (foldl (\<lambda>a m. processMessage handle now m a) a ms) = ac_id a"
  "ac_handler (foldl (\<lambda>a m. processMessage handle now m a) a ms) =
     foldl (\<lambda>h m. fst (handle h m)) (ac_handler a) ms"
  by (induction ms arbitrary: a) simp_all

lemma processMessage_answer:
  assumes "m_Session m \<noteq> 0" and "ac_pendingCalls a (m_Session m) = Some (make_chan 1)"
    and "handle (ac_handler a) m = (h, e)"
  shows "ac_pendingCalls (processMessage handle now m a) (m_Session m) =
     Some \<lparr>ch_buf = [\<lparr>m_ID = 0, m_Type = if e = None then MessageTypeResponse else MessageTypeError,
       m_Source = ac_id a, m_Target = m_Source m, m_Session = m_Session m,
       m_Data = (case e of None \<Rightarrow> [] | Some t \<Rightarrow> bytes_of_string t), m_Timestamp = now\<rparr>],
       ch_cap = 1, ch_closed = False\<rparr>"
  using assms
  by (simp add: processMessage_def process_end_def sendResponse_def Let_def offer_def try_send_def
      make_chan_def split: option.split)

section \<open>A run of the actor\<close>

lemma actor_reach_via:
  "actor_reach handle a0 w \<Longrightarrow> actor_step handle w w1 \<Longrightarrow> w1 = w' \<Longrightarrow> actor_reach handle a0 w'"
  by (auto intro: actor_reach.step)

text \<open>Started, sent one message, and the loop has taken it.\<close>

lemma reach_processing:
  assumes "NewActor i h opts t = Some a0" and "0 < o_MailboxSize opts"
  shows "\<exists>w. actor_reach handle a0 w \<and> \<not> w_panic w \<and> ac_loops (w_actor w) = [Processing m] \<and>
     ac_mailbox (w_actor w) = make_chan (nat (o_MailboxSize opts)) \<and> ac_state (w_actor w) = ActorStateRunning \<and>
     w_accepted w = [Some m] \<and> w_begun w = [m] \<and> w_stops w = [] \<and>
     ac_sessionCounter (w_actor w) = 0 \<and> ac_handler (w_actor w) = h"
proof -
  have a0: "ac_mailbox a0 = make_chan (nat (o_MailboxSize opts))" "ac_loops a0 = []"
    "\<not> ac_ctxDone a0" "ac_sessionCounter a0 = 0" "ac_handler a0 = h"
    using assms by (auto simp: NewActor_def)
  define w1 where "w1 = (init_world a0)\<lparr>w_actor := start_spawn a0\<rparr>"
  have r1: "actor_reach handle a0 w1"
    by (rule actor_reach_via [OF actor_reach.init actor_step.start]) (simp_all add: w1_def init_world_def)
  define w2 where "w2 = w1\<lparr>w_actor := set_buf [Some m] (w_actor w1), w_accepted := [Some m]\<rparr>"
  have "send_select False (Some m) (w_actor w1) = (Ok (), w_actor w2)"
    using a0 assms(2) by (simp add: send_select_Ok w2_def w1_def start_spawn_def)
  from actor_step.send [OF _ this, of handle] have r2: "actor_reach handle a0 w2"
    by (rule actor_reach_via [OF r1]) (simp_all add: w2_def w1_def init_world_def)
  have "loop_at w2 0 Selecting" using a0 by (simp add: w2_def w1_def start_spawn_def)
  from actor_step.take_message [OF _ this, of m "[]" handle 0] a0
  have "actor_reach handle a0 (w2\<lparr>w_actor := set_loop 0 (Processing m) (process_begin 0 (set_buf [] (w_actor w2))),
     w_removed := [Some m], w_begun := [m]\<rparr>)"
    by (intro actor_reach_via [OF r2]) (simp_all add: w2_def w1_def init_world_def start_spawn_def)
  then show ?thesis
    by (intro exI conjI, assumption) (simp_all add: w2_def w1_def init_world_def start_spawn_def a0 process_begin_def make_chan_def)
qed

text \<open>A message for the examples.\<close>

definition ping :: "u32 \<Rightarrow> Message" where
  "ping s = \<lparr>m_ID = 1, m_Type = MessageTypeRequest, m_Source = 7, m_Target = 1, m_Session = s,
             m_Data = [], m_Timestamp = 0\<rparr>"

section \<open>Properties\<close>

text \<open>What every reachable world of an actor that was started at most once has in common.\<close>

lemma actor_fifo:
  assumes "actor_reach handle a0 w" and "NewActor i h opts t = Some a0"
    and "length (ac_loops (w_actor w)) \<le> 1"
  shows "(\<exists>rest. List.map_filter id (w_accepted w) = w_begun w @ rest) \<and>
     w_begun w = w_finished w @ current (ac_loops (w_actor w)) \<and>
     ac_handler (w_actor w) = foldl (\<lambda>h m. fst (handle h m)) h (w_finished w) \<and>
     ac_messagesProcessed (w_actor w) = of_nat (length (w_begun w)) \<and>
     int (length (ch_buf (ac_mailbox (w_actor w)))) \<le> o_MailboxSize opts"
proof -
  note inv = actor_reach_invs [OF assms(1,2)]
  have a0: "ac_handler a0 = h" "ac_messagesProcessed a0 = 0" "o_MailboxSize opts \<ge> 0"
    using assms(2) by (auto simp: NewActor_def split: if_splits)
  obtain rest where "List.map_filter id (w_removed w) = w_begun w @ rest"
    "w_begun w = w_finished w @ current (ac_loops (w_actor w))"
    using inv(5) assms(3) by (auto simp: seq_inv_def seq_ok_def)
  with inv(1-3) a0 show ?thesis
    by (auto simp: fifo_inv_def bound_inv_def chan_ok_def handled_inv_def List.map_filter_def)
qed

text \<open>
  Property C1. Whatever the interleaving of senders, callers, stoppers and the message loop,
  an actor whose \<^verbatim>\<open>Start\<close> ran at most once has at most one message in its handler at a time,
  takes messages in the order in which they were accepted, has applied the handler exactly to
  the finished ones in that order, has counted every message taken, and never holds more than
  \<^verbatim>\<open>MailboxSize\<close> messages.
\<close>

theorem actor_sequential_fifo:
  assumes "actor_reach handle a0 w" and "NewActor i h opts t = Some a0"
    and "length (ac_loops (w_actor w)) \<le> 1"
  shows "(\<exists>rest. List.map_filter id (w_accepted w) = w_begun w @ rest) \<and>
     w_begun w = w_finished w @ current (ac_loops (w_actor w)) \<and>
     ac_handler (w_actor w) = foldl (\<lambda>h m. fst (handle h m)) h (w_finished w) \<and>
     ac_messagesProcessed (w_actor w) = of_nat (length (w_begun w)) \<and>
     int (length (ch_buf (ac_mailbox (w_actor w)))) \<le> o_MailboxSize opts"
  by (rule actor_fifo [OF assms])

theorem actor_sequential_fifo_witness:
  "\<exists>w. actor_reach (\<lambda>h m. (m_Session m # h, None)) (the (NewActor 1 [] DefaultActorOptions 0)) w \<and>
     w_accepted w = [Some (ping 5)] \<and> w_begun w = [ping 5] \<and> w_finished w = [] \<and>
     current (ac_loops (w_actor w)) = [ping 5] \<and> ac_messagesProcessed (w_actor w) = 1"
proof -
  let ?a0 = "the (NewActor 1 [] DefaultActorOptions 0)"
  have new: "NewActor 1 [] DefaultActorOptions 0 = Some ?a0" "0 < o_MailboxSize DefaultActorOptions"
    by (simp_all add: NewActor_def DefaultActorOptions_def)
  from reach_processing [OF new, of _ "ping 5"] obtain w where
    w: "actor_reach (\<lambda>h m. (m_Session m # h, None)) ?a0 w" "ac_loops (w_actor w) = [Processing (ping 5)]"
      "w_accepted w = [Some (ping 5)]" "w_begun w = [ping 5]" by blast
  from actor_sequential_fifo [OF w(1) new(1)] w show ?thesis by (intro exI [of _ w]) simp
qed

text \<open>
  Every answer waiting for a call comes from this actor, carries the call's
  session and is a response or an error, and there is at most one per call, in every
  reachable world, however often the actor was started.
\<close>

theorem call_answers_match:
  assumes "actor_reach handle a0 w" and "NewActor i h opts t = Some a0"
    and "actor_Call_wait Pick_response cd s (w_actor w) = Some (Inr r, a')"
  shows "m_Session r = s \<and> m_Source r = i \<and> m_Type r \<in> {MessageTypeResponse, MessageTypeError} \<and>
     (\<exists>ch. ac_pendingCalls (w_actor w) s = Some ch \<and> ch_buf ch = [r]) \<and>
     ac_pendingCalls a' = (ac_pendingCalls (w_actor w))(s := None)"
proof -
  note inv = actor_reach_invs [OF assms(1,2)]
  have i: "ac_id (w_actor w) = i"
    using inv(3) assms(2) by (auto simp: handled_inv_def NewActor_def split: if_splits)
  obtain ch xs where ch: "ac_pendingCalls (w_actor w) s = Some ch" "ch_buf ch = r # xs"
    and a': "a' = call_leave s (w_actor w)"
    using assms(3)
    by (auto simp: actor_Call_wait_def try_recv_def split: option.splits list.splits if_splits)
  have "chan_ok ch" "ch_cap ch = 1" and rs: "\<forall>r \<in> set (ch_buf ch). m_Session r = s \<and> m_Source r = i \<and>
           (m_Type r = MessageTypeResponse \<or> m_Type r = MessageTypeError)"
    using inv(4) ch(1) unfolding pending_inv_def pending_ok_def i by blast+
  then have "xs = []" using ch(2) by (simp add: chan_ok_def)
  with rs ch a' show ?thesis by simp
qed

theorem call_answers_match_witness:
  "\<exists>(w :: unit world) r a'. actor_Call_wait Pick_response False 1 (w_actor w) = Some (Inr r, a') \<and>
     m_Session r = 1 \<and> m_Source r = 4 \<and> ac_pendingCalls a' 1 = None"
proof -
  let ?H = "\<lambda>h m. (h, Some ''no'')"
  let ?a0 = "the (NewActor 4 () DefaultActorOptions 0)"
  have new: "NewActor 4 () DefaultActorOptions 0 = Some ?a0" "0 < o_MailboxSize DefaultActorOptions"
    by (simp_all add: NewActor_def DefaultActorOptions_def)
  obtain w where w: "actor_reach ?H ?a0 w" "\<not> w_panic w"
    "ac_loops (w_actor w) = [Processing (ping 1)]" "ac_sessionCounter (w_actor w) = 0"
    using reach_processing [OF new, of ?H "ping 1"] by blast
  define w1 where "w1 = w\<lparr>w_actor := call_prepare (w_actor w)\<rparr>"
  have r1: "actor_reach ?H ?a0 w1" "loop_at w1 0 (Processing (ping 1))" "\<not> w_panic w1"
    using actor_reach.step [OF w(1) actor_step.call_prepare [OF w(2)]] w(2,3) by (simp_all add: w1_def)
  let ?w2 = "w1\<lparr>w_actor := set_loop 0 Selecting (process_end ?H 9 (ping 1) (w_actor w1)),
                w_finished := w_finished w1 @ [ping 1]\<rparr>"
  have r2: "actor_reach ?H ?a0 ?w2"
    by (rule actor_reach.step [OF r1(1) actor_step.finish [OF r1(3,2)]])
  have "\<exists>r. actor_Call_wait Pick_response False 1 (w_actor ?w2) = Some (Inr r, call_leave 1 (w_actor ?w2))"
    using w(4) by (simp add: w1_def actor_Call_wait_def process_end_def sendResponse_def Let_def ping_def
        offer_def try_send_def try_recv_def)
  then obtain r where "actor_Call_wait Pick_response False 1 (w_actor ?w2) = Some (Inr r, call_leave 1 (w_actor ?w2))" ..
  from this call_answers_match [OF r2 new(1) this] show ?thesis
    by (intro exI [of _ ?w2] exI [of _ r] exI [of _ "call_leave 1 (w_actor ?w2)"]) simp
qed

text \<open>
  Property C2. A call that is accepted and whose message the loop reaches, after any messages
  already queued that do not claim its session, returns the handler's verdict on it: an empty
  response when the handler succeeds in its state at that point, the text of the handler's
  error otherwise, addressed to the caller, and the pending call is gone.
\<close>

theorem call_returns_verdict:
  assumes "ac_state a \<in> {ActorStateIdle, ActorStateRunning}" and "\<not> ac_ctxDone a"
    and "\<not> ch_closed (ac_mailbox a)" and "length (ch_buf (ac_mailbox a)) < ch_cap (ac_mailbox a)"
    and "ac_sessionCounter a \<noteq> - 1"
    and "ch_buf (ac_mailbox a) = map Some ms" and "\<forall>m \<in> set ms. m_Session m \<noteq> ac_sessionCounter a + 1"
    and "handle (foldl (\<lambda>h m. fst (handle h m)) (ac_handler a) ms)
           (msg\<lparr>m_Session := ac_sessionCounter a + 1\<rparr>) = (h', verdict)"
  shows "\<exists>s a1 a2. actor_Call_begin pick msg a = (Ok s, a1) \<and>
     ch_buf (ac_mailbox a1) = map Some (ms @ [msg\<lparr>m_Session := s\<rparr>]) \<and>
     actor_Call_wait Pick_response cd s
       (foldl (\<lambda>a m. processMessage handle now m a) (set_buf [] a1) (ms @ [msg\<lparr>m_Session := s\<rparr>])) =
     Some (Inr \<lparr>m_ID = 0,
                m_Type = if verdict = None then MessageTypeResponse else MessageTypeError,
                m_Source = ac_id a, m_Target = m_Source msg, m_Session = s,
                m_Data = (case verdict of None \<Rightarrow> [] | Some e \<Rightarrow> bytes_of_string e),
                m_Timestamp = now\<rparr>, a2) \<and>
     ac_pendingCalls a2 s = None"
proof -
  let ?s = "ac_sessionCounter a + 1"
  let ?m = "msg\<lparr>m_Session := ?s\<rparr>"
  define a1 where "a1 = set_buf (ch_buf (ac_mailbox a) @ [Some ?m]) (call_prepare a)"
  define b where "b = foldl (\<lambda>a m. processMessage handle now m a) (set_buf [] a1) ms"
  have "actor_Send pick (Some ?m) (call_prepare a) = (Ok (), a1)"
    using assms(1-4) unfolding actor_Send_Ok send_select_Ok by (auto simp: a1_def)
  then have bg: "actor_Call_begin pick msg a = (Ok ?s, a1)"
    by (simp add: actor_Call_begin_def Let_def)
  have s0: "?s \<noteq> 0" using assms(5) by (metis add_eq_0_iff2 add.commute)
  have b: "ac_pendingCalls b ?s = Some (make_chan 1)" "ac_id b = ac_id a"
    "ac_handler b = foldl (\<lambda>h m. fst (handle h m)) (ac_handler a) ms"
    using assms(7) unfolding b_def a1_def
    by (simp_all add: foldl_processMessage_other foldl_processMessage_frame)
  note ans = processMessage_answer [of ?m b handle h' verdict now, simplified]
  show ?thesis
    using bg assms(6) b ans s0 assms(8)
    by (intro exI [of _ ?s] exI [of _ a1] exI [of _ "call_leave ?s (processMessage handle now ?m b)"])
       (simp add: a1_def b_def actor_Call_wait_def try_recv_def)
qed

theorem call_returns_verdict_witness:
  "\<exists>s a1 a2 r. actor_Call_begin True (ping 0) (the (NewActor 4 () DefaultActorOptions 0)) = (Ok s, a1) \<and>
     actor_Call_wait Pick_response False s
       (processMessage (\<lambda>h m. (h, Some ''no'')) 9 ((ping 0)\<lparr>m_Session := s\<rparr>) (set_buf [] a1)) = Some (Inr r, a2) \<and>
     m_Type r = MessageTypeError \<and> m_Data r = bytes_of_string ''no'' \<and> m_Target r = 7"
proof -
  let ?a = "the (NewActor 4 () DefaultActorOptions 0)"
  have pre: "ac_state ?a \<in> {ActorStateIdle, ActorStateRunning}" "\<not> ac_ctxDone ?a" "\<not> ch_closed (ac_mailbox ?a)"
    "length (ch_buf (ac_mailbox ?a)) < ch_cap (ac_mailbox ?a)" "ac_sessionCounter ?a \<noteq> - 1"
    "ch_buf (ac_mailbox ?a) = map Some []" "\<forall>m \<in> set []. m_Session m \<noteq> ac_sessionCounter ?a + 1"
    by (simp_all add: NewActor_def DefaultActorOptions_def)
  from call_returns_verdict [OF pre, of "\<lambda>h m. (h, Some ''no'')" "ping 0" "()" "Some ''no''" True False 9]
  obtain s a1 a2 where "actor_Call_begin True (ping 0) ?a = (Ok s, a1)"
    "actor_Call_wait Pick_response False s
       (processMessage (\<lambda>h m. (h, Some ''no'')) 9 ((ping 0)\<lparr>m_Session := s\<rparr>) (set_buf [] a1)) =
     Some (Inr \<lparr>m_ID = 0, m_Type = MessageTypeError, m_Source = ac_id ?a, m_Target = m_Source (ping 0),
       m_Session = s, m_Data = bytes_of_string ''no'', m_Timestamp = 9\<rparr>, a2)"
    by auto
  then show ?thesis
    by (intro exI [of _ s] exI [of _ a1] exI [of _ a2] exI conjI) (assumption | simp add: ping_def)+
qed

text \<open>
  Property C3. Stopping an actor whose single loop is waiting and whose mailbox holds no nil
  message always returns, however many messages the loop still takes before it notices the
  cancellation: the actor is stopped, its mailbox is closed and empty, every queued call has
  an answer in its channel, and later sends are refused without touching the actor.
\<close>

theorem stop_drains_and_answers:
  assumes "ac_state a \<in> {ActorStateIdle, ActorStateRunning}" and "ac_loops a = [Selecting]"
    and "pending_ok (ac_id a) (ac_pendingCalls a)" and "\<not> ch_closed (ac_mailbox a)"
    and "None \<notin> set (ch_buf (ac_mailbox a))"
  shows "\<exists>a'. actor_Stop handle now n a = (Ok (), a') \<and> ac_state a' = ActorStateStopped \<and>
     ac_loops a' = [Exited] \<and> ch_buf (ac_mailbox a') = [] \<and> ch_closed (ac_mailbox a') \<and>
     (\<forall>m. Some m \<in> set (ch_buf (ac_mailbox a)) \<longrightarrow> m_Session m \<noteq> 0 \<longrightarrow> answered (m_Session m) a') \<and>
     actor_Send pick msg a' = (Err (ActorNotRunning (ac_id a') ActorStateStopped), a')"
proof -
  let ?a2 = "stop_cancel (a\<lparr>ac_state := ActorStateStopping\<rparr>)"
  have pre: "pending_ok (ac_id ?a2) (ac_pendingCalls ?a2)" "None \<notin> set (ch_buf (ac_mailbox ?a2))"
    "\<not> ch_closed (ac_mailbox ?a2)"
    using assms(3-5) by (simp_all add: stop_cancel_def)
  from loop_run_answers [OF pre] obtain a3 where
    a3: "loop_run handle now n ?a2 = Some a3" "ac_mailbox a3 = (ac_mailbox ?a2)\<lparr>ch_buf := [], ch_closed := True\<rparr>"
      "ac_loops a3 = ac_loops ?a2"
    and ans: "\<And>s. queued_session s ?a2 \<Longrightarrow> answered s a3" by blast
  have loops: "ac_loops a3 = [Selecting]" using a3(3) assms(2) by (simp add: stop_cancel_def)
  define a' where "a' = stop_finish (a3\<lparr>ac_loops := map (\<lambda>_. Exited) (ac_loops a3)\<rparr>)"
  have "actor_Stop handle now n a = (Ok (), a')"
    using assms(1,2) a3(1) by (auto simp: actor_Stop_def stop_cas_def a'_def stop_cancel_def)
  moreover have "\<forall>m. Some m \<in> set (ch_buf (ac_mailbox a)) \<longrightarrow> m_Session m \<noteq> 0 \<longrightarrow> answered (m_Session m) a'"
    using ans by (auto simp: a'_def stop_finish_def answered_def stop_cancel_def)
  moreover have "actor_Send pick msg a' = (Err (ActorNotRunning (ac_id a') ActorStateStopped), a')"
    by (simp add: actor_Send_def a'_def stop_finish_def)
  ultimately show ?thesis
    using a3(2) loops by (intro exI [of _ a']) (simp add: a'_def stop_finish_def)
qed

theorem stop_drains_and_answers_witness:
  "\<exists>a'. actor_Stop (\<lambda>h m. (h, None)) 9 0
      (set_buf [Some (ping 1)] (start_spawn (call_prepare (the (NewActor 1 () DefaultActorOptions 0))))) = (Ok (), a') \<and>
    answered 1 a'"
proof -
  let ?a = "set_buf [Some (ping 1)] (start_spawn (call_prepare (the (NewActor 1 () DefaultActorOptions 0))))"
  have "ac_state ?a \<in> {ActorStateIdle, ActorStateRunning}" "ac_loops ?a = [Selecting]"
    "pending_ok (ac_id ?a) (ac_pendingCalls ?a)" "\<not> ch_closed (ac_mailbox ?a)"
    "None \<notin> set (ch_buf (ac_mailbox ?a))"
    by (simp_all add: NewActor_def DefaultActorOptions_def start_spawn_def call_prepare_def pending_ok_def chan_ok_def)
  from stop_drains_and_answers [OF this, of "\<lambda>h m. (h, None)" 9 0 False None] show ?thesis
    by (fastforce simp: ping_def)
qed

text \<open>
  A send can panic although it checked the actor's state: when \<^verbatim>\<open>Stop\<close> arrives
  while a message is being handled, the deferred store at the end of \<^verbatim>\<open>processMessage\<close> writes
  \<^verbatim>\<open>idle\<close> over \<^verbatim>\<open>stopping\<close>, so after the loop has closed the mailbox the check of \<^verbatim>\<open>Send\<close>
  passes, and a \<^verbatim>\<open>select\<close> that picks the closed channel panics. The actor was started once
  and stopped once.
\<close>

theorem send_panics_during_stop:
  assumes "NewActor i h opts t = Some a0" and "0 < o_MailboxSize opts"
  shows "\<exists>w. actor_reach handle a0 w \<and> \<not> w_panic w \<and> length (ac_loops (w_actor w)) = 1 \<and>
     w_stops w = [Awaiting_loops] \<and> ac_state (w_actor w) = ActorStateIdle \<and>
     actor_Send False m (w_actor w) = (Panic, w_actor w)"
proof -
  obtain w where w: "actor_reach handle a0 w" "\<not> w_panic w" "ac_loops (w_actor w) = [Processing (ping 0)]"
     "ac_mailbox (w_actor w) = make_chan (nat (o_MailboxSize opts))" "ac_state (w_actor w) = ActorStateRunning"
     "w_stops w = []"
    using reach_processing [OF assms, of handle "ping 0"] by blast
  define w1 where "w1 = w\<lparr>w_actor := (w_actor w)\<lparr>ac_state := ActorStateStopping\<rparr>, w_stops := [To_cancel]\<rparr>"
  have r1: "actor_reach handle a0 w1"
    by (rule actor_reach_via [OF w(1) actor_step.stop_cas]) (simp_all add: w w1_def stop_cas_Inr)
  define w2 where "w2 = w1\<lparr>w_actor := stop_cancel (w_actor w1), w_stops := [Awaiting_loops]\<rparr>"
  have r2: "actor_reach handle a0 w2"
    by (rule actor_reach_via [OF r1 actor_step.stop_cancel [of _ 0]]) (simp_all add: w w1_def w2_def)
  define w3 where "w3 = w2\<lparr>w_actor := set_loop 0 Selecting (process_end handle 0 (ping 0) (w_actor w2)),
                           w_finished := w_finished w2 @ [ping 0]\<rparr>"
  have r3: "actor_reach handle a0 w3"
    by (rule actor_reach_via [OF r2 actor_step.finish [of _ 0]])
       (simp_all add: w w1_def w2_def w3_def stop_cancel_def)
  define w4 where "w4 = w3\<lparr>w_actor := set_loop 0 Draining (w_actor w3)\<rparr>"
  have r4: "actor_reach handle a0 w4"
    by (rule actor_reach_via [OF r3 actor_step.see_done [of _ 0]])
       (simp_all add: w w1_def w2_def w3_def w4_def stop_cancel_def)
  define w5 where "w5 = w4\<lparr>w_actor := set_loop 0 Closing (w_actor w4)\<rparr>"
  have r5: "actor_reach handle a0 w5"
    by (rule actor_reach_via [OF r4 actor_step.drain_end [of _ 0]])
       (simp_all add: w w1_def w2_def w3_def w4_def w5_def stop_cancel_def)
  define w6 where "w6 = w5\<lparr>w_actor := set_loop 0 Exited ((w_actor w5)\<lparr>ac_mailbox :=
                            (ac_mailbox (w_actor w5))\<lparr>ch_closed := True\<rparr>\<rparr>)\<rparr>"
  have r6: "actor_reach handle a0 w6"
    by (rule actor_reach_via [OF r5 actor_step.close [of _ 0]])
       (simp_all add: w w1_def w2_def w3_def w4_def w5_def w6_def stop_cancel_def close_chan_def)
  show ?thesis
    using r6 by (intro exI [of _ w6])
      (simp add: w w1_def w2_def w3_def w4_def w5_def w6_def stop_cancel_def actor_Send_def
        send_select_def try_send_def)
qed

theorem send_panics_during_stop_witness:
  "\<exists>w. actor_reach (\<lambda>h m. (h, None)) (the (NewActor 1 () DefaultActorOptions 0)) w \<and>
     actor_Send False None (w_actor w) = (Panic, w_actor w)"
  using send_panics_during_stop [of 1 "()" DefaultActorOptions 0 "the (NewActor 1 () DefaultActorOptions 0)"
    "\<lambda>h m. (h, None)" None]
  by (fastforce simp: NewActor_def DefaultActorOptions_def)

text \<open>
  \<^verbatim>\<open>Start\<close> refuses only actors that are handling a message or stopping: a second
  \<^verbatim>\<open>Start\<close> of a waiting actor succeeds and adds a second loop, and then \<^verbatim>\<open>Stop\<close> panics
  when the second loop closes the mailbox that the first one closed.
\<close>

theorem double_start_stop_panics:
  assumes "NewActor i h opts t = Some a0"
  shows "\<exists>a1 a2. actor_Start a0 = Inr a1 \<and> actor_Start a1 = Inr a2 \<and>
     length (ac_loops a2) = 2 \<and> fst (actor_Stop handle now n a2) = Panic"
proof -
  let ?a2 = "start_spawn (start_spawn a0)"
  have a0: "ac_state a0 = ActorStateIdle" "ac_loops a0 = []" "ch_buf (ac_mailbox a0) = []"
    "\<not> ch_closed (ac_mailbox a0)"
    using assms by (auto simp: NewActor_def split: if_splits)
  have "fst (actor_Stop handle now n ?a2) = Panic"
    using a0 by (cases n) (simp_all add: actor_Stop_def stop_cas_def start_spawn_def stop_cancel_def
      drainMailbox_def close_chan_def Let_def)
  with a0 show ?thesis by (auto simp: actor_Start_def start_spawn_def)
qed

theorem double_start_stop_panics_witness:
  "\<exists>a1 a2. actor_Start (the (NewActor 1 () DefaultActorOptions 0)) = Inr a1 \<and> actor_Start a1 = Inr a2 \<and>
     fst (actor_Stop (\<lambda>h m. (h, None)) 5 3 a2) = Panic"
  using double_start_stop_panics [of 1 "()" DefaultActorOptions 0 "the (NewActor 1 () DefaultActorOptions 0)"
    "\<lambda>h m. (h, None)" 5 3]
  by (fastforce simp: NewActor_def DefaultActorOptions_def)

end
