(* ===== verification/Routers.thy ===== *)
theory Routers
  imports Handles Actors
begin

text \<open>
  The basic router of \<^verbatim>\<open>core/router.go\<close> (a table of actors by id) and the handle-aware router
  of \<^verbatim>\<open>core/advanced_router.go\<close>, which keeps a handle manager beside it. A router holds the
  state of each registered actor; a message pointer that the code writes through is returned
  with its new contents. The basic router is an instance of the unique-key table of the
  prelude; the invariant \<open>ar_ok\<close> of the handle-aware one says that every handle belongs to a
  registered actor.
\<close>

record 'h router =
  rt_actors :: "ActorID \<rightharpoonup> 'h actor"
  rt_idCounter :: u32

datatype RouterError =
    RegisterNilActor
  | ActorAlreadyRegistered ActorID
  | ActorIDNotFound ActorID
  | RouteNilMessage
  | TargetActorNotFound ActorID
  | DeliveryFailed ActorError
  | InvalidEnvelope
  | TargetUnresolved HandleError
  | HandleFailed HandleError
  | SourceServiceNotFound string
  | TargetServiceNotFound string
  | NamedServiceNotFound string
  | RemoteRoutingNotImplemented u32

section \<open>The basic router\<close>

definition NewRouter :: "'h router" where
  "NewRouter = \<lparr>rt_actors = Map.empty, rt_idCounter = 0\<rparr>"

definition router_Register :: "'h actor option \<Rightarrow> 'h router \<Rightarrow> (RouterError + unit) \<times> 'h router" where
  "router_Register act r =
     (case act of
        None \<Rightarrow> (Inl RegisterNilActor, r)
      | Some a \<Rightarrow>
          if rt_actors r (ac_id a) \<noteq> None then (Inl (ActorAlreadyRegistered (ac_id a)), r)
          else (Inr (), r\<lparr>rt_actors := (rt_actors r)(ac_id a \<mapsto> a)\<rparr>))"

definition router_Unregister :: "ActorID \<Rightarrow> 'h router \<Rightarrow> (RouterError + unit) \<times> 'h router" where
  "router_Unregister i r =
     (if rt_actors r i = None then (Inl (ActorIDNotFound i), r)
      else (Inr (), r\<lparr>rt_actors := (rt_actors r)(i := None)\<rparr>))"

fun lift_send :: "(ActorError, unit) outcome \<Rightarrow> (RouterError, unit) outcome" where
  "lift_send (Ok u) = Ok u"
| "lift_send (Err e) = Err (DeliveryFailed e)"
| "lift_send Panic = Panic"

definition router_Route ::
  "bool \<Rightarrow> Message option \<Rightarrow> 'h router \<Rightarrow> (RouterError, unit) outcome \<times> 'h router" where
  "router_Route pick msg r =
     (case msg of
        None \<Rightarrow> (Err RouteNilMessage, r)
      | Some m \<Rightarrow>
          (case rt_actors r (m_Target m) of
             None \<Rightarrow> (Err (TargetActorNotFound (m_Target m)), r)
           | Some a \<Rightarrow>
               (case actor_Send pick (Some m) a of
                  (res, a') \<Rightarrow> (lift_send res, r\<lparr>rt_actors := (rt_actors r)(m_Target m \<mapsto> a')\<rparr>))))"

definition router_Lookup :: "'h router \<Rightarrow> ActorID \<Rightarrow> 'h actor option" where
  "router_Lookup r i = rt_actors r i"

definition router_List :: "ActorID list \<Rightarrow> 'h router \<Rightarrow> ActorID list" where
  "router_List ks r = filter (\<lambda>k. rt_actors r k \<noteq> None) ks"

definition router_NextID :: "'h router \<Rightarrow> ActorID \<times> 'h router" where
  "router_NextID r = (rt_idCounter r + 1, r\<lparr>rt_idCounter := rt_idCounter r + 1\<rparr>)"

section \<open>The handle-aware router\<close>

record 'h advancedRouter =
  ar_router :: "'h router"
  ar_handleManager :: HandleManager
  ar_nodeID :: u32

definition NewAdvancedRouter :: "u32 \<Rightarrow> 'h advancedRouter" where
  "NewAdvancedRouter nodeID =
     \<lparr>ar_router = NewRouter, ar_handleManager = NewHandleManager nodeID, ar_nodeID = nodeID\<rparr>"

definition ar_RegisterService ::
  "'h actor option \<Rightarrow> string \<Rightarrow> 'h advancedRouter \<Rightarrow> (RouterError + Handle option) \<times> 'h advancedRouter" where
  "ar_RegisterService act name ar =
     (case router_Register act (ar_router ar) of
        (Inl e, _) \<Rightarrow> (Inl e, ar)
      | (Inr _, r) \<Rightarrow>
          (case AllocateHandle (ac_id (the act)) name (ar_handleManager ar) of
             (res, hm) \<Rightarrow>
               ((case res of Inl e \<Rightarrow> Inl (HandleFailed e) | Inr h \<Rightarrow> Inr h),
                ar\<lparr>ar_router := r, ar_handleManager := hm\<rparr>)))"

text \<open>\<^verbatim>\<open>Register\<close> is the same sequence of calls with an empty name and the handle dropped.\<close>

definition ar_Register :: "'h actor option \<Rightarrow> 'h advancedRouter \<Rightarrow> (RouterError + unit) \<times> 'h advancedRouter" where
  "ar_Register act ar =
     (case router_Register act (ar_router ar) of
        (Inl e, _) \<Rightarrow> (Inl e, ar)
      | (Inr _, r) \<Rightarrow>
          (case AllocateHandle (ac_id (the act)) [] (ar_handleManager ar) of
             (res, hm) \<Rightarrow>
               ((case res of Inl e \<Rightarrow> Inl (HandleFailed e) | Inr _ \<Rightarrow> Inr ()),
                ar\<lparr>ar_router := r, ar_handleManager := hm\<rparr>)))"

text \<open>A handle that exists but is nil makes the field access panic.\<close>

definition ar_Unregister :: "ActorID \<Rightarrow> 'h advancedRouter \<Rightarrow> (RouterError, unit) outcome \<times> 'h advancedRouter" where
  "ar_Unregister i ar =
     (case GetHandleByActor (ar_handleManager ar) i of
        (None, True) \<Rightarrow> (Panic, ar)
      | (h, ex) \<Rightarrow>
          let hm = (case h of Some h' \<Rightarrow> if ex then snd (ReleaseHandle (h_ID h') (ar_handleManager ar))
                                         else ar_handleManager ar
                    | None \<Rightarrow> ar_handleManager ar)
          in (case router_Unregister i (ar_router ar) of
                (res, r) \<Rightarrow> ((case res of Inl e \<Rightarrow> Err e | Inr _ \<Rightarrow> Ok ()),
                              ar\<lparr>ar_router := r, ar_handleManager := hm\<rparr>)))"

definition ar_UnregisterService ::
  "string \<Rightarrow> 'h advancedRouter \<Rightarrow> (RouterError, unit) outcome \<times> 'h advancedRouter" where
  "ar_UnregisterService name ar =
     (case GetHandleByName (ar_handleManager ar) name of
        (_, False) \<Rightarrow> (Err (NamedServiceNotFound name), ar)
      | (None, True) \<Rightarrow> (Panic, ar)
      | (Some h, True) \<Rightarrow>
          (case router_Unregister (h_ActorID h) (ar_router ar) of
             (Inl e, _) \<Rightarrow> (Err e, ar)
           | (Inr _, r) \<Rightarrow>
               (case ReleaseHandle (h_ID h) (ar_handleManager ar) of
                  (res, hm) \<Rightarrow> ((case res of Inl e \<Rightarrow> Err (HandleFailed e) | Inr _ \<Rightarrow> Ok ()),
                                 ar\<lparr>ar_router := r, ar_handleManager := hm\<rparr>))))"

definition routeToRemoteNode :: "Handle \<Rightarrow> RouterError" where
  "routeToRemoteNode targetHandle = RemoteRoutingNotImplemented (h_Node targetHandle)"

definition ar_RouteByHandle ::
  "bool \<Rightarrow> MessageEnvelope option \<Rightarrow> 'h advancedRouter \<Rightarrow>
     (RouterError, unit) outcome \<times> MessageEnvelope option \<times> 'h advancedRouter" where
  "ar_RouteByHandle pick envelope ar =
     (case envelope of
        None \<Rightarrow> (Err InvalidEnvelope, envelope, ar)
      | Some e \<Rightarrow>
          (case e_Message e of
             None \<Rightarrow> (Err InvalidEnvelope, envelope, ar)
           | Some msg \<Rightarrow>
               (case ResolveAddress (e_Target e) (ar_handleManager ar) of
                  Inl err \<Rightarrow> (Err (TargetUnresolved err), envelope, ar)
                | Inr None \<Rightarrow> (Panic, envelope, ar)
                | Inr (Some h) \<Rightarrow>
                    if h_IsLocal h then
                      let msg' = msg\<lparr>m_Target := h_ActorID h\<rparr>
                      in (case router_Route pick (Some msg') (ar_router ar) of
                            (res, r) \<Rightarrow> (res, Some (e\<lparr>e_Message := Some msg'\<rparr>), ar\<lparr>ar_router := r\<rparr>))
                    else (Err (routeToRemoteNode h), envelope, ar))))"

definition ar_RouteByName ::
  "bool \<Rightarrow> string \<Rightarrow> string \<Rightarrow> Message \<Rightarrow> 'h advancedRouter \<Rightarrow>
     (RouterError, unit) outcome \<times> Message \<times> 'h advancedRouter" where
  "ar_RouteByName pick source target msg ar =
     (let hm = ar_handleManager ar;
          to_target = (\<lambda>msg.
            case GetHandleByName hm target of
              (_, False) \<Rightarrow> (Err (TargetServiceNotFound target), msg, ar)
            | (None, True) \<Rightarrow> (Panic, msg, ar)
            | (Some h, True) \<Rightarrow>
                let msg' = msg\<lparr>m_Target := h_ActorID h\<rparr>
                in (case router_Route pick (Some msg') (ar_router ar) of
                      (res, r) \<Rightarrow> (res, msg', ar\<lparr>ar_router := r\<rparr>)))
      in if source = [] then to_target msg
         else case GetHandleByName hm source of
                (_, False) \<Rightarrow> (Err (SourceServiceNotFound source), msg, ar)
              | (None, True) \<Rightarrow> (Panic, msg, ar)
              | (Some h, True) \<Rightarrow> to_target (msg\<lparr>m_Source := h_ActorID h\<rparr>))"

definition ar_LookupService :: "string \<Rightarrow> 'h advancedRouter \<Rightarrow> Handle option \<times> bool" where
  "ar_LookupService name ar = GetHandleByName (ar_handleManager ar) name"

section \<open>The basic router is a table with unique keys\<close>

definition router_add :: "ActorID \<Rightarrow> 'h actor \<Rightarrow> 'h router \<Rightarrow> 'h router option" where
  "router_add i a r =
     (if ac_id a = i then (case router_Register (Some a) r of (Inr _, r') \<Rightarrow> Some r' | (Inl _, _) \<Rightarrow> None)
      else None)"

definition router_del :: "ActorID \<Rightarrow> 'h router \<Rightarrow> 'h router option" where
  "router_del i r = (case router_Unregister i r of (Inr _, r') \<Rightarrow> Some r' | (Inl _, _) \<Rightarrow> None)"

lemmas router_table_defs = router_add_def router_del_def router_Register_def router_Unregister_def
  router_Lookup_def

interpretation rt: unique_table router_Lookup router_add router_del "\<lambda>r. True" "\<lambda>i a. ac_id a = i"
  by unfold_locales (auto simp: router_table_defs fun_eq_iff)

text \<open>A client's history of registrations and removals, errors ignored.\<close>

datatype 'h router_op = Op_register "'h actor" | Op_unregister ActorID

primrec router_history :: "'h router_op list \<Rightarrow> 'h router \<Rightarrow> 'h router" where
  "router_history [] r = r"
| "router_history (op # ops) r = router_history ops
     (case op of Op_register a \<Rightarrow> snd (router_Register (Some a) r)
               | Op_unregister i \<Rightarrow> snd (router_Unregister i r))"

text \<open>What it should leave: the first actor registered under an id since its last removal.\<close>

fun last_standing :: "ActorID \<Rightarrow> 'h router_op list \<Rightarrow> 'h actor option \<Rightarrow> 'h actor option" where
  "last_standing i [] x = x"
| "last_standing i (Op_register a # ops) x =
     last_standing i ops (if x = None \<and> ac_id a = i then Some a else x)"
| "last_standing i (Op_unregister j # ops) x = last_standing i ops (if j = i then None else x)"

fun table_op :: "'h router_op \<Rightarrow> ActorID \<times> 'h actor option" where
  "table_op (Op_register a) = (ac_id a, Some a)"
| "table_op (Op_unregister i) = (i, None)"

lemma router_op_effect:
  "(case router_add (ac_id a) a r of None \<Rightarrow> r | Some r' \<Rightarrow> r') = snd (router_Register (Some a) r)"
  "(case router_del i r of None \<Rightarrow> r | Some r' \<Rightarrow> r') = snd (router_Unregister i r)"
  by (simp_all add: router_table_defs)

lemma router_history_apply: "router_history ops r = rt.apply_ops (map table_op ops) r"
proof (induction ops arbitrary: r)
  case (Cons op ops)
  then show ?case by (cases op) (simp_all add: router_op_effect)
qed simp

lemma spec_ops_last_standing: "rt.spec_ops (map table_op ops) m i = last_standing i ops (m i)"
  by (induction i ops "m i" arbitrary: m rule: last_standing.induct) auto

lemma table_op_may: "(k, Some v) \<in> set (map table_op ops) \<Longrightarrow> ac_id v = k"
proof -
  have "table_op op = (k, Some v) \<Longrightarrow> ac_id v = k" for op by (cases op) auto
  then show "(k, Some v) \<in> set (map table_op ops) \<Longrightarrow> ac_id v = k" by fastforce
qed

section \<open>Routing\<close>

lemma router_Route_frame:
  assumes "router_Route pick msg r = (res, r')"
  shows "dom (rt_actors r') = dom (rt_actors r)" and "rt_idCounter r' = rt_idCounter r"
    and "\<And>m i. msg = Some m \<Longrightarrow> i \<noteq> m_Target m \<Longrightarrow> rt_actors r' i = rt_actors r i"
  using assms by (auto simp: router_Route_def split: option.splits prod.splits if_splits)

lemma router_Route_Ok:
  assumes "rt_actors r (m_Target m) = Some a" and "actor_Send pick (Some m) a = (Ok (), a')"
  shows "router_Route pick (Some m) r = (Ok (), r\<lparr>rt_actors := (rt_actors r)(m_Target m \<mapsto> a')\<rparr>)"
  using assms by (simp add: router_Route_def)

section \<open>Every handle belongs to a registered actor\<close>

definition ar_ok :: "'h advancedRouter \<Rightarrow> bool" where
  "ar_ok ar \<longleftrightarrow> hm_ok (ar_handleManager ar) \<and>
     dom (hm_actorToHandle (ar_handleManager ar)) \<subseteq> dom (rt_actors (ar_router ar))"

lemma ar_ok_New [simp]: "ar_ok (NewAdvancedRouter node)"
  by (simp add: ar_ok_def NewAdvancedRouter_def NewHandleManager_def hm_ok_def)

lemma AllocateHandle_dom:
  assumes "AllocateHandle a name hm = (r, hm')"
  shows "dom (hm_actorToHandle hm') \<subseteq> insert a (dom (hm_actorToHandle hm))"
  using assms by (auto simp: AllocateHandle_def Let_def split: option.splits if_splits)

lemma ar_ok_register_parts:
  assumes "ar_ok ar" "hm_fresh (ar_handleManager ar)"
    and "router_Register (Some a) (ar_router ar) = (Inr u, r)"
    and "AllocateHandle (ac_id a) name (ar_handleManager ar) = (res, hm)"
  shows "ar_ok (ar\<lparr>ar_router := r, ar_handleManager := hm\<rparr>)"
  using assms AllocateHandle_dom [OF assms(4)] hm_ok_Allocate [OF _ assms(2,4)]
  by (fastforce simp: ar_ok_def router_Register_def split: if_splits)

lemma ar_ok_RegisterService [inv_step]:
  assumes "ar_ok ar" "hm_fresh (ar_handleManager ar)"
  shows "ar_ok (snd (ar_RegisterService act name ar))"
proof (cases act)
  case None
  then show ?thesis using assms(1) by (simp add: ar_RegisterService_def router_Register_def)
next
  case (Some a)
  then show ?thesis
    using assms(1) ar_ok_register_parts [OF assms, of a]
    by (auto simp: ar_RegisterService_def split: prod.splits sum.splits)
qed

lemma ar_ok_Register [inv_step]:
  assumes "ar_ok ar" "hm_fresh (ar_handleManager ar)"
  shows "ar_ok (snd (ar_Register act ar))"
proof (cases act)
  case None
  then show ?thesis using assms(1) by (simp add: ar_Register_def router_Register_def)
next
  case (Some a)
  then show ?thesis
    using assms(1) ar_ok_register_parts [OF assms, of a]
    by (auto simp: ar_Register_def split: prod.splits sum.splits)
qed

text \<open>Removing an actor and its handle, in either order.\<close>

lemma ar_ok_remove:
  assumes "ar_ok ar" and "hm_handles (ar_handleManager ar) i = Some h"
  shows "ar_ok (ar\<lparr>ar_router := snd (router_Unregister (h_ActorID h) (ar_router ar)),
                  ar_handleManager := snd (ReleaseHandle i (ar_handleManager ar))\<rparr>)"
proof -
  obtain res hm where re: "ReleaseHandle i (ar_handleManager ar) = (res, hm)" by force
  then have "dom (hm_actorToHandle hm) = dom (hm_actorToHandle (ar_handleManager ar)) - {h_ActorID h}"
    using assms(2) by (auto simp: ReleaseHandle_def split: if_splits)
  with assms(1) hm_ok_Release [OF _ re] re show ?thesis
    by (auto simp: ar_ok_def router_Unregister_def)
qed

lemma hm_ok_lookup_actor:
  assumes "hm_ok hm" shows "GetHandleByActor hm i = (case hm_actorToHandle hm i of None \<Rightarrow> (None, False)
     | Some k \<Rightarrow> (hm_handles hm k, True))"
    and "hm_actorToHandle hm i = Some k \<Longrightarrow> \<exists>h. hm_handles hm k = Some h \<and> h_ActorID h = i \<and> h_ID h = k"
  using hm_ok_actor [OF assms, of i] hm_ok_handle [OF assms] by (auto simp: GetHandleByActor_def)

lemma ar_ok_Unregister [inv_step]:
  assumes "ar_ok ar" shows "ar_ok (snd (ar_Unregister i ar))" and "fst (ar_Unregister i ar) \<noteq> Panic"
proof -
  let ?hm = "ar_handleManager ar"
  have ok: "hm_ok ?hm" using assms by (simp add: ar_ok_def)
  have "ar_ok (snd (ar_Unregister i ar)) \<and> fst (ar_Unregister i ar) \<noteq> Panic"
  proof (cases "hm_actorToHandle ?hm i")
    case None
    with assms show ?thesis
      by (auto simp: ar_Unregister_def GetHandleByActor_def ar_ok_def router_Unregister_def)
  next
    case (Some k)
    with hm_ok_lookup_actor(2) [OF ok Some] obtain h where
      h: "hm_handles ?hm k = Some h" "h_ActorID h = i" "h_ID h = k" by blast
    with ar_ok_remove [OF assms h(1)] Some show ?thesis
      by (auto simp: ar_Unregister_def GetHandleByActor_def split: prod.splits sum.splits)
  qed
  then show "ar_ok (snd (ar_Unregister i ar))" and "fst (ar_Unregister i ar) \<noteq> Panic" by auto
qed


lemma ar_ok_UnregisterService [inv_step]:
  assumes "ar_ok ar"
  shows "ar_ok (snd (ar_UnregisterService name ar)) \<and> fst (ar_UnregisterService name ar) \<noteq> Panic"
proof -
  let ?hm = "ar_handleManager ar"
  have ok: "hm_ok ?hm" using assms by (simp add: ar_ok_def)
  show ?thesis
  proof (cases "hm_nameToHandle ?hm name")
    case None
    with assms show ?thesis by (simp add: ar_UnregisterService_def GetHandleByName_def)
  next
    case (Some k)
    with hm_ok_name [OF ok, of name k] hm_ok_handle [OF ok] obtain h where
      h: "hm_handles ?hm k = Some h" "h_Name h = name" "h_ID h = k" by auto
    obtain res r where un: "router_Unregister (h_ActorID h) (ar_router ar) = (res, r)" by force
    show ?thesis
      using assms ar_ok_remove [OF assms h(1)] Some h un
      by (cases res) (auto simp: ar_UnregisterService_def GetHandleByName_def split: prod.splits sum.splits)
  qed
qed

lemma ar_ok_actors:
  "ar_ok ar \<Longrightarrow> dom (rt_actors r) = dom (rt_actors (ar_router ar)) \<Longrightarrow> ar_ok (ar\<lparr>ar_router := r\<rparr>)"
  by (simp add: ar_ok_def)

lemma ResolveAddress_ok:
  assumes "hm_ok hm" shows "ResolveAddress addr hm \<noteq> Inr None"
  using GetHandleByName_iff(2) [OF assms, of "a_Name addr"]
  by (cases "GetHandleByName hm (a_Name addr)")
     (auto simp: ResolveAddress_def split: option.splits if_splits bool.splits)

lemma ar_ok_RouteByHandle [inv_step]:
  assumes "ar_ok ar" and "ar_RouteByHandle pick envelope ar = (res, envelope', ar')"
  shows "ar_ok ar'"
  using assms router_Route_frame(1)
  by (fastforce simp: ar_RouteByHandle_def Let_def intro!: ar_ok_actors
      split: option.splits sum.splits prod.splits if_splits)

lemma ar_ok_RouteByName [inv_step]:
  assumes "ar_ok ar" and "ar_RouteByName pick source target msg ar = (res, msg', ar')"
  shows "ar_ok ar'"
  using assms router_Route_frame(1)
  by (fastforce simp: ar_RouteByName_def Let_def intro!: ar_ok_actors
      split: option.splits prod.splits if_splits bool.splits)

text \<open>Routers reached by any sequence of operations with at most \<open>2 ^ 32\<close> handles issued.\<close>

inductive ar_reachable :: "u32 \<Rightarrow> nat \<Rightarrow> 'h advancedRouter \<Rightarrow> bool" for node where
  new: "ar_reachable node 0 (NewAdvancedRouter node)"
| register: "ar_reachable node n ar \<Longrightarrow> ar_reachable node (Suc n) (snd (ar_Register act ar))"
| register_service: "ar_reachable node n ar \<Longrightarrow> ar_reachable node (Suc n) (snd (ar_RegisterService act name ar))"
| unregister: "ar_reachable node n ar \<Longrightarrow> ar_reachable node n (snd (ar_Unregister i ar))"
| unregister_service: "ar_reachable node n ar \<Longrightarrow> ar_reachable node n (snd (ar_UnregisterService name ar))"
| route_by_handle: "ar_reachable node n ar \<Longrightarrow> ar_RouteByHandle pick e ar = (res, e', ar') \<Longrightarrow> ar_reachable node n ar'"
| route_by_name: "ar_reachable node n ar \<Longrightarrow> ar_RouteByName pick s t m ar = (res, m', ar') \<Longrightarrow> ar_reachable node n ar'"

lemma AllocateHandle_reachable:
  "hm_reachable node k hm \<Longrightarrow> AllocateHandle a name hm = (r, hm') \<Longrightarrow>
     \<exists>k' \<le> Suc k. hm_reachable node k' hm'"
  using hm_reachable.alloc by (cases "hm' = hm") (auto intro: le_SucI)

lemma ReleaseHandle_reachable:
  "hm_reachable node k hm \<Longrightarrow> hm_reachable node k (snd (ReleaseHandle i hm))"
  by (rule hm_reachable.release [of _ _ _ i "fst (ReleaseHandle i hm)"]) simp_all

lemma ar_Unregister_hm:
  "ar_handleManager (snd (ar_Unregister i ar)) = ar_handleManager ar \<or>
   (\<exists>k. ar_handleManager (snd (ar_Unregister i ar)) = snd (ReleaseHandle k (ar_handleManager ar)))"
  by (auto simp: ar_Unregister_def Let_def split: prod.splits option.splits bool.splits)

lemma ar_UnregisterService_hm:
  "ar_handleManager (snd (ar_UnregisterService name ar)) = ar_handleManager ar \<or>
   (\<exists>k. ar_handleManager (snd (ar_UnregisterService name ar)) = snd (ReleaseHandle k (ar_handleManager ar)))"
  by (auto simp: ar_UnregisterService_def split: prod.splits option.splits bool.splits sum.splits)
     (metis snd_conv)+

lemma ar_Register_hm:
  "ar_handleManager (snd (ar_Register act ar)) = ar_handleManager ar \<or>
   (\<exists>a r. AllocateHandle a [] (ar_handleManager ar) = (r, ar_handleManager (snd (ar_Register act ar))))"
  "ar_handleManager (snd (ar_RegisterService act name ar)) = ar_handleManager ar \<or>
   (\<exists>a r. AllocateHandle a name (ar_handleManager ar) = (r, ar_handleManager (snd (ar_RegisterService act name ar))))"
  by (auto simp: ar_Register_def ar_RegisterService_def split: prod.splits sum.splits)

lemma ar_Route_hm:
  "ar_RouteByHandle pick e ar = (res, e', ar') \<Longrightarrow> ar_handleManager ar' = ar_handleManager ar"
  "ar_RouteByName pick s t m ar = (res, m', ar') \<Longrightarrow> ar_handleManager ar' = ar_handleManager ar"
  by (auto simp: ar_RouteByHandle_def ar_RouteByName_def Let_def
      split: option.splits sum.splits prod.splits if_splits bool.splits)

lemma ar_reachable_hm:
  "ar_reachable node n ar \<Longrightarrow> \<exists>k \<le> n. hm_reachable node k (ar_handleManager ar)"
proof (induction rule: ar_reachable.induct)
  case new
  then show ?case by (auto simp: NewAdvancedRouter_def intro: hm_reachable.new)
next
  case (register n ar act)
  then obtain k where k: "k \<le> n" "hm_reachable node k (ar_handleManager ar)" by blast
  from ar_Register_hm(1) [of act ar] show ?case
  proof (elim disjE exE)
    fix a r assume "AllocateHandle a [] (ar_handleManager ar) = (r, ar_handleManager (snd (ar_Register act ar)))"
    from AllocateHandle_reachable [OF k(2) this] k(1) show ?thesis by (meson Suc_le_mono le_trans)
  qed (use k in \<open>auto intro: le_SucI\<close>)
next
  case (register_service n ar act name)
  then obtain k where k: "k \<le> n" "hm_reachable node k (ar_handleManager ar)" by blast
  from ar_Register_hm(2) [of act name ar] show ?case
  proof (elim disjE exE)
    fix a r assume "AllocateHandle a name (ar_handleManager ar) = (r, ar_handleManager (snd (ar_RegisterService act name ar)))"
    from AllocateHandle_reachable [OF k(2) this] k(1) show ?thesis by (meson Suc_le_mono le_trans)
  qed (use k in \<open>auto intro: le_SucI\<close>)
next
  case (unregister n ar i)
  then show ?case using ar_Unregister_hm [of i ar] ReleaseHandle_reachable by metis
next
  case (unregister_service n ar name)
  then show ?case using ar_UnregisterService_hm [of name ar] ReleaseHandle_reachable by metis
qed (simp_all add: ar_Route_hm)

lemma ar_reachable_fresh:
  "ar_reachable node n ar \<Longrightarrow> n < 2 ^ 32 \<Longrightarrow> hm_fresh (ar_handleManager ar)"
  using ar_reachable_hm hm_reachable_fresh by (metis le_less_trans)

lemma ar_reachable_ok: "ar_reachable node n ar \<Longrightarrow> n \<le> 2 ^ 32 \<Longrightarrow> ar_ok ar"
proof (induction rule: ar_reachable.induct)
  case (register n ar act)
  then show ?case using ar_reachable_fresh [OF register.hyps] by (simp add: ar_ok_Register)
next
  case (register_service n ar act name)
  then show ?case using ar_reachable_fresh [OF register_service.hyps] by (simp add: ar_ok_RegisterService)
qed (auto simp: ar_ok_UnregisterService intro: ar_ok_Unregister ar_ok_RouteByHandle ar_ok_RouteByName)

section \<open>Properties\<close>

text \<open>
  Property C20. After any sequence of registrations and removals, successful or not, looking
  an id up in the router yields exactly the first actor that was registered under it since it
  was last removed.
\<close>

theorem router_history_refines:
  "router_Lookup (router_history ops NewRouter) i = last_standing i ops None"
  using rt.apply_ops_refines [of "map table_op ops" NewRouter] table_op_may [of _ _ ops]
    spec_ops_last_standing [of ops "router_Lookup NewRouter" i]
  by (simp add: router_history_apply router_Lookup_def NewRouter_def)

text \<open>
  In every reachable router a name that \<^verbatim>\<open>LookupService\<close> finds leads to a live
  actor: \<^verbatim>\<open>RouteByName\<close> hands the message, its target set to that actor, to that actor's
  \<^verbatim>\<open>Send\<close>, returns what \<^verbatim>\<open>Send\<close> returns, and touches no other actor and no handle.
\<close>

theorem named_routing_reaches_actor:
  assumes "ar_reachable node n ar" and "n \<le> 2 ^ 32" and "ar_LookupService name ar = (x, True)"
  shows "\<exists>h a res a'. x = Some h \<and> router_Lookup (ar_router ar) (h_ActorID h) = Some a \<and>
     actor_Send pick (Some (msg\<lparr>m_Target := h_ActorID h\<rparr>)) a = (res, a') \<and>
     ar_RouteByName pick [] name msg ar =
       (lift_send res, msg\<lparr>m_Target := h_ActorID h\<rparr>,
        ar\<lparr>ar_router := (ar_router ar)\<lparr>rt_actors := (rt_actors (ar_router ar))(h_ActorID h \<mapsto> a')\<rparr>\<rparr>)"
proof -
  have ok: "ar_ok ar" using ar_reachable_ok assms by blast
  then have hm: "hm_ok (ar_handleManager ar)" by (simp add: ar_ok_def)
  obtain h where h: "x = Some h" "GetHandleByName (ar_handleManager ar) name = (Some h, True)"
    using assms(3) GetHandleByName_iff(2) [OF hm, of name] by (cases x) (auto simp: ar_LookupService_def)
  then have "fst (GetHandleByActor (ar_handleManager ar) (h_ActorID h)) = Some h"
    using hd.by_name_by_actor [OF hm, of name h] by simp
  then have "h_ActorID h \<in> dom (rt_actors (ar_router ar))"
    using ok by (auto simp: ar_ok_def GetHandleByActor_def split: option.splits)
  then obtain a where a: "rt_actors (ar_router ar) (h_ActorID h) = Some a" by blast
  obtain res a' where "actor_Send pick (Some (msg\<lparr>m_Target := h_ActorID h\<rparr>)) a = (res, a')" by force
  with h a show ?thesis
    by (simp add: ar_RouteByName_def Let_def router_Route_def router_Lookup_def)
qed

text \<open>
  Registering a new actor as a service under a free name makes the name resolve
  to a handle of that actor, and unregistering the name gives back the actor table, the name
  table and the actor's handle entry as they were.
\<close>

theorem register_service_roundtrip:
  assumes "ar_reachable node n ar" and "n < 2 ^ 32" and "name \<noteq> []"
    and "ar_LookupService name ar = (None, False)" and "router_Lookup (ar_router ar) (ac_id a) = None"
  shows "\<exists>h ar1 ar2. ar_RegisterService (Some a) name ar = (Inr (Some h), ar1) \<and> h_ActorID h = ac_id a \<and>
     ar_LookupService name ar1 = (Some h, True) \<and> router_Lookup (ar_router ar1) (ac_id a) = Some a \<and>
     ar_UnregisterService name ar1 = (Ok (), ar2) \<and> ar_router ar2 = ar_router ar \<and>
     (\<forall>m. ar_LookupService m ar2 = ar_LookupService m ar)"
proof -
  let ?hm = "ar_handleManager ar"
  have ok: "ar_ok ar" and fr: "hm_fresh ?hm"
    using ar_reachable_ok [OF assms(1)] ar_reachable_fresh [OF assms(1)] assms(2) by simp_all
  have hm: "hm_ok ?hm" using ok by (simp add: ar_ok_def)
  have noact: "hm_actorToHandle ?hm (ac_id a) = None"
    using ok assms(5) by (auto simp: ar_ok_def router_Lookup_def)
  have noname: "hm_nameToHandle ?hm name = None"
    using assms(4) by (auto simp: ar_LookupService_def GetHandleByName_def split: option.splits)
  note al = AllocateHandle_fresh [OF noact disjI2 [OF noname]]
  define h where "h = \<lparr>h_ID = hm_handleCounter ?hm, h_ActorID = ac_id a, h_Name = name,
                       h_Node = hm_nodeID ?hm, h_IsLocal = True\<rparr>"
  define ar1 where "ar1 = ar\<lparr>ar_router := (ar_router ar)\<lparr>rt_actors := (rt_actors (ar_router ar))(ac_id a \<mapsto> a)\<rparr>,
                            ar_handleManager := snd (AllocateHandle (ac_id a) name ?hm)\<rparr>"
  have reg: "ar_RegisterService (Some a) name ar = (Inr (Some h), ar1)"
    using assms(5) by (simp add: ar_RegisterService_def router_Register_def router_Lookup_def al ar1_def h_def)
  have look: "ar_LookupService name ar1 = (Some h, True)"
    using assms(3) by (simp add: ar_LookupService_def GetHandleByName_def ar1_def al h_def)
  define ar2 where "ar2 = ar\<lparr>ar_handleManager := ?hm\<lparr>hm_handleCounter := hm_handleCounter ?hm + 1\<rparr>\<rparr>"
  have "ReleaseHandle (h_ID h) (ar_handleManager ar1) = (Inr (), ?hm\<lparr>hm_handleCounter := hm_handleCounter ?hm + 1\<rparr>)"
    using assms(3) noact noname fr
    by (simp add: ReleaseHandle_def ar1_def al h_def hm_fresh_def fun_upd_idem)
  then have "ar_UnregisterService name ar1 = (Ok (), ar2)"
    using look assms(5)
    by (simp add: ar_UnregisterService_def ar_LookupService_def router_Unregister_def ar1_def ar2_def
        h_def router_Lookup_def fun_upd_idem)
  moreover have "h_ActorID h = ac_id a" "router_Lookup (ar_router ar1) (ac_id a) = Some a"
    "ar_router ar2 = ar_router ar" "\<forall>m. ar_LookupService m ar2 = ar_LookupService m ar"
    by (simp_all add: h_def ar1_def ar2_def router_Lookup_def ar_LookupService_def GetHandleByName_def
        split: option.split)
  ultimately show ?thesis using reg look by blast
qed

text \<open>
  \<^verbatim>\<open>RegisterService\<close> under a name in use returns an error but leaves the actor in
  the routing table, without any handle: messages to its id are delivered although the
  registration failed, and every further attempt to register it under any name is refused
  because its id is taken.
\<close>

theorem failed_register_service_leaks:
  assumes "ar_reachable node n ar" and "n \<le> 2 ^ 32" and "ar_LookupService name ar = (x, True)"
    and "router_Lookup (ar_router ar) (ac_id a) = None"
  shows "\<exists>ar1. ar_RegisterService (Some a) name ar = (Inl (HandleFailed (ServiceNameExists name)), ar1) \<and>
     router_Lookup (ar_router ar1) (ac_id a) = Some a \<and>
     GetHandleByActor (ar_handleManager ar1) (ac_id a) = (None, False) \<and>
     ar_RegisterService (Some a) name' ar1 = (Inl (ActorAlreadyRegistered (ac_id a)), ar1)"
proof -
  have ok: "ar_ok ar" using ar_reachable_ok assms by blast
  have noact: "hm_actorToHandle (ar_handleManager ar) (ac_id a) = None"
    using ok assms(4) by (auto simp: ar_ok_def router_Lookup_def)
  have nm: "hm_nameToHandle (ar_handleManager ar) name \<noteq> None"
    using assms(3) by (auto simp: ar_LookupService_def GetHandleByName_def split: option.splits)
  then have ne: "name \<noteq> []" using ok hm_ok_name unfolding ar_ok_def by fastforce
  have "AllocateHandle (ac_id a) name (ar_handleManager ar) = (Inl (ServiceNameExists name), ar_handleManager ar)"
    using noact nm ne by (simp add: AllocateHandle_def)
  then show ?thesis
    using assms(4) noact
    by (simp add: ar_RegisterService_def router_Register_def router_Lookup_def GetHandleByActor_def)
qed

text \<open>A router with one service, for the witnesses.\<close>

definition demo_actor :: "u32 \<Rightarrow> unit actor" where
  "demo_actor i = the (NewActor i () DefaultActorOptions 0)"

definition demo_router :: "unit advancedRouter" where
  "demo_router = snd (ar_RegisterService (Some (demo_actor 7)) ''db'' (NewAdvancedRouter 1))"

lemma demo_actor_id [simp]: "ac_id (demo_actor i) = i"
  by (simp add: demo_actor_def NewActor_def DefaultActorOptions_def)

lemma demo_router_facts:
  "ar_reachable 1 (Suc 0) demo_router"
  "ar_LookupService ''db'' demo_router =
     (Some \<lparr>h_ID = 16777217, h_ActorID = 7, h_Name = ''db'', h_Node = 1, h_IsLocal = True\<rparr>, True)"
  "router_Lookup (ar_router demo_router) 8 = None"
  "ar_LookupService ''log'' demo_router = (None, False)"
  unfolding demo_router_def
  by (rule ar_reachable.intros(3) [OF ar_reachable.new])
     (simp_all add: ar_RegisterService_def NewAdvancedRouter_def NewRouter_def router_Register_def
      AllocateHandle_def NewHandleManager_def Let_def ar_LookupService_def GetHandleByName_def
      router_Lookup_def push_bit_eq_mult)

theorem named_routing_reaches_actor_witness:
  "\<exists>res a. ar_RouteByName False [] ''db'' (ping 0) demo_router = (lift_send res, (ping 0)\<lparr>m_Target := 7\<rparr>, a)"
  using named_routing_reaches_actor [OF demo_router_facts(1) _ demo_router_facts(2), of False "ping 0"] by auto

theorem register_service_roundtrip_witness:
  "\<exists>h ar1 ar2. ar_RegisterService (Some (demo_actor 8)) ''log'' demo_router = (Inr (Some h), ar1) \<and>
     ar_UnregisterService ''log'' ar1 = (Ok (), ar2) \<and> ar_router ar2 = ar_router demo_router"
  using register_service_roundtrip [OF demo_router_facts(1) _ _ demo_router_facts(4), of "demo_actor 8"]
    demo_router_facts(3) by auto

theorem failed_register_service_leaks_witness:
  "\<exists>ar1. ar_RegisterService (Some (demo_actor 8)) ''db'' demo_router =
       (Inl (HandleFailed (ServiceNameExists ''db'')), ar1) \<and>
     router_Lookup (ar_router ar1) 8 = Some (demo_actor 8)"
  using failed_register_service_leaks [OF demo_router_facts(1) _ demo_router_facts(2), of "demo_actor 8" "[]"]
    demo_router_facts(3) by auto

end
