(* ===== verification/Sessions.thy ===== *)
theory Sessions
  imports Core_Types
begin

text \<open>
  \<^verbatim>\<open>SessionManager\<close> of \<^verbatim>\<open>core/advanced_router.go\<close>. Callers keep the pointer that
  \<^verbatim>\<open>CreateSession\<close> returned after the manager has dropped the session, so sessions live in a
  store indexed by address and the manager's map holds addresses. The mutex makes every
  method, and every tick of the cleanup goroutine, one atomic step. The invariant says that
  the sessions still in the map have an open and empty response channel.
\<close>

record MessageSession =
  ms_ID :: u32
  ms_Source :: ActorID
  ms_Target :: ActorID
  ms_CreatedAt :: Time
  ms_Timeout :: Duration
  ms_Response :: "Message option chan"

type_synonym session_ref = nat

record SessionManager =
  sm_store :: "session_ref \<rightharpoonup> MessageSession"
  sm_alloc :: session_ref
  sm_sessions :: "u32 \<rightharpoonup> session_ref"
  sm_counter :: u32

datatype SessionError = SessionNotFound u32 | SessionChannelFull u32 | SessionClosed u32
  | SessionTimeout u32 | SessionContextDone

definition NewSessionManager :: SessionManager where
  "NewSessionManager = \<lparr>sm_store = Map.empty, sm_alloc = 0, sm_sessions = Map.empty, sm_counter = 0\<rparr>"

definition CreateSession ::
  "ActorID \<Rightarrow> ActorID \<Rightarrow> Duration \<Rightarrow> Time \<Rightarrow> SessionManager \<Rightarrow> session_ref \<times> SessionManager" where
  "CreateSession source target timeout now sm =
     (let sessionID = sm_counter sm + 1;
          session = \<lparr>ms_ID = sessionID, ms_Source = source, ms_Target = target, ms_CreatedAt = now,
                     ms_Timeout = timeout, ms_Response = make_chan 1\<rparr>;
          r = sm_alloc sm
      in (r, sm\<lparr>sm_counter := sessionID, sm_alloc := Suc r,
                sm_store := (sm_store sm)(r \<mapsto> session),
                sm_sessions := (sm_sessions sm)(sessionID \<mapsto> r)\<rparr>))"

definition GetSession :: "u32 \<Rightarrow> SessionManager \<Rightarrow> session_ref option" where
  "GetSession sessionID sm = sm_sessions sm sessionID"

definition set_response :: "session_ref \<Rightarrow> Message option chan \<Rightarrow> SessionManager \<Rightarrow> SessionManager" where
  "set_response r c sm =
     sm\<lparr>sm_store := (sm_store sm)(r := map_option (\<lambda>s. s\<lparr>ms_Response := c\<rparr>) (sm_store sm r))\<rparr>"

definition drop_session :: "u32 \<Rightarrow> SessionManager \<Rightarrow> SessionManager" where
  "drop_session i sm = sm\<lparr>sm_sessions := (sm_sessions sm)(i := None)\<rparr>"

definition response_chan :: "session_ref \<Rightarrow> SessionManager \<Rightarrow> Message option chan" where
  "response_chan r sm = (case sm_store sm r of Some s \<Rightarrow> ms_Response s | None \<Rightarrow> make_chan 0)"

definition CompleteSession ::
  "u32 \<Rightarrow> Message option \<Rightarrow> SessionManager \<Rightarrow> (SessionError, unit) outcome \<times> SessionManager" where
  "CompleteSession sessionID response sm =
     (case sm_sessions sm sessionID of
        None \<Rightarrow> (Err (SessionNotFound sessionID), sm)
      | Some r \<Rightarrow>
          (case try_send response (response_chan r sm) of
             Sent c \<Rightarrow> (Ok (), drop_session sessionID (set_response r c sm))
           | Send_full \<Rightarrow> (Err (SessionChannelFull sessionID), drop_session sessionID sm)
           | Send_panic \<Rightarrow> (Panic, sm)))"

text \<open>Closing the response channel of a session and forgetting it; \<open>None\<close> is the panic.\<close>

definition close_session :: "u32 \<Rightarrow> session_ref \<Rightarrow> SessionManager \<Rightarrow> SessionManager option" where
  "close_session i r sm =
     (case close_chan (response_chan r sm) of
        None \<Rightarrow> None
      | Some c \<Rightarrow> Some (drop_session i (set_response r c sm)))"

definition CleanupSession :: "u32 \<Rightarrow> SessionManager \<Rightarrow> SessionManager option" where
  "CleanupSession sessionID sm =
     (case sm_sessions sm sessionID of None \<Rightarrow> Some sm | Some r \<Rightarrow> close_session sessionID r sm)"

definition session_expired :: "Time \<Rightarrow> session_ref \<Rightarrow> SessionManager \<Rightarrow> bool" where
  "session_expired now r sm \<longleftrightarrow>
     (case sm_store sm r of None \<Rightarrow> False | Some s \<Rightarrow> now - ms_CreatedAt s > ms_Timeout s)"

text \<open>One tick of \<^verbatim>\<open>cleanupExpiredSessions\<close>; \<open>ks\<close> is the order of the \<^verbatim>\<open>range\<close>.\<close>

fun cleanupExpiredSessions :: "Time \<Rightarrow> u32 list \<Rightarrow> SessionManager \<Rightarrow> SessionManager option" where
  "cleanupExpiredSessions now [] sm = Some sm"
| "cleanupExpiredSessions now (k # ks) sm =
     (case sm_sessions sm k of
        None \<Rightarrow> cleanupExpiredSessions now ks sm
      | Some r \<Rightarrow>
          if session_expired now r sm
          then (case close_session k r sm of None \<Rightarrow> None | Some sm' \<Rightarrow> cleanupExpiredSessions now ks sm')
          else cleanupExpiredSessions now ks sm)"

text \<open>
  \<^verbatim>\<open>WaitForResponse\<close>: \<open>pick\<close> is the case that \<^verbatim>\<open>select\<close> takes, \<open>None\<close> that it is not ready.
  A nil response and a closed channel give the same error.
\<close>

datatype wait_pick = Wait_response | Wait_context | Wait_timeout

definition WaitForResponse ::
  "wait_pick \<Rightarrow> bool \<Rightarrow> Duration \<Rightarrow> session_ref \<Rightarrow> SessionManager \<Rightarrow>
     ((SessionError + Message) \<times> SessionManager) option" where
  "WaitForResponse pick ctxDone elapsed r sm =
     (case sm_store sm r of
        None \<Rightarrow> None
      | Some s \<Rightarrow>
          (case pick of
             Wait_response \<Rightarrow>
               (case try_recv (ms_Response s) of
                  Received (Some m) c \<Rightarrow> Some (Inr m, set_response r c sm)
                | Received None c \<Rightarrow> Some (Inl (SessionClosed (ms_ID s)), set_response r c sm)
                | Recv_closed \<Rightarrow> Some (Inl (SessionClosed (ms_ID s)), sm)
                | Recv_empty \<Rightarrow> None)
           | Wait_context \<Rightarrow> if ctxDone then Some (Inl SessionContextDone, sm) else None
           | Wait_timeout \<Rightarrow>
               if elapsed \<ge> ms_Timeout s then Some (Inl (SessionTimeout (ms_ID s)), sm) else None))"

section \<open>The invariant\<close>

definition sm_ok :: "SessionManager \<Rightarrow> bool" where
  "sm_ok sm \<longleftrightarrow>
     (\<forall>i r. sm_sessions sm i = Some r \<longrightarrow>
        (\<exists>s. sm_store sm r = Some s \<and> ms_ID s = i \<and> ms_Response s = make_chan 1)) \<and>
     (\<forall>r \<in> dom (sm_store sm). r < sm_alloc sm)"

lemmas session_defs = set_response_def drop_session_def response_chan_def close_session_def

lemma sm_okD:
  assumes "sm_ok sm" "sm_sessions sm i = Some r"
  obtains s where "sm_store sm r = Some s" "ms_ID s = i" "ms_Response s = make_chan 1"
    "response_chan r sm = make_chan 1"
  using assms unfolding sm_ok_def response_chan_def by force

lemma sm_ok_inj:
  assumes "sm_ok sm" "sm_sessions sm i = Some r" "sm_sessions sm j = Some r"
  shows "i = j"
  using assms unfolding sm_ok_def by (metis option.inject)

lemma sm_ok_New [simp]: "sm_ok NewSessionManager"
  by (simp add: sm_ok_def NewSessionManager_def)

lemma sm_ok_alloc: "sm_ok sm \<Longrightarrow> sm_sessions sm i \<noteq> Some (sm_alloc sm)"
  unfolding sm_ok_def by (metis domI less_irrefl)

lemma sm_ok_Create [inv_step]:
  assumes "sm_ok sm" shows "sm_ok (snd (CreateSession a b t now sm))"
proof -
  have "r < Suc (sm_alloc sm)" if "r \<in> dom (sm_store sm)" for r
    using assms that unfolding sm_ok_def by (meson less_Suc_eq)
  then show ?thesis
    using assms sm_ok_alloc [OF assms] unfolding sm_ok_def
    by (auto simp: CreateSession_def Let_def split: if_splits)
qed

lemma sm_ok_drop_set:
  assumes "sm_ok sm" "sm_sessions sm i = Some r"
  shows "sm_ok (drop_session i (set_response r c sm))"
proof -
  have "r' \<noteq> r" if "sm_sessions sm j = Some r'" "j \<noteq> i" for j r'
    using sm_ok_inj [OF assms(1)] assms(2) that by metis
  then show ?thesis
    using assms unfolding sm_ok_def session_defs by (auto split: if_splits)
qed

lemma CompleteSession_live:
  assumes "sm_ok sm" "sm_sessions sm i = Some r"
  shows "CompleteSession i resp sm =
     (Ok (), drop_session i (set_response r \<lparr>ch_buf = [resp], ch_cap = 1, ch_closed = False\<rparr> sm))"
  by (rule sm_okD [OF assms]) (simp add: CompleteSession_def assms(2) try_send_def make_chan_def)

lemma close_session_live:
  assumes "sm_ok sm" "sm_sessions sm i = Some r"
  shows "close_session i r sm =
     Some (drop_session i (set_response r \<lparr>ch_buf = [], ch_cap = 1, ch_closed = True\<rparr> sm))"
  by (rule sm_okD [OF assms]) (simp add: close_session_def close_chan_def make_chan_def)

lemma sm_ok_Complete [inv_step]:
  assumes "sm_ok sm" shows "sm_ok (snd (CompleteSession i resp sm))"
proof (cases "sm_sessions sm i")
  case None
  then show ?thesis using assms by (simp add: CompleteSession_def)
next
  case (Some r)
  then show ?thesis using assms by (simp add: CompleteSession_live sm_ok_drop_set)
qed

lemma sm_ok_close [inv_step]:
  assumes "sm_ok sm" "sm_sessions sm i = Some r" "close_session i r sm = Some sm'"
  shows "sm_ok sm'"
  using assms by (auto simp: close_session_live sm_ok_drop_set)

lemma sm_ok_Wait [inv_step]:
  assumes "sm_ok sm" "WaitForResponse p d e r sm = Some (res, sm')"
  shows "sm_ok sm'"
proof -
  have "sm' = sm \<or> (\<exists>x xs c. ch_buf (response_chan r sm) = x # xs \<and> sm' = set_response r c sm)"
    using assms(2)
    by (auto simp: WaitForResponse_def response_chan_def try_recv_def
        split: option.splits wait_pick.splits recv_outcome.splits list.splits if_splits)
  then show ?thesis
  proof (elim disjE exE conjE)
    fix x xs c assume buf: "ch_buf (response_chan r sm) = x # xs" and sm': "sm' = set_response r c sm"
    have "sm_sessions sm i \<noteq> Some r" for i
      using sm_okD [OF assms(1), of i r] buf by fastforce
    then show ?thesis
      using assms(1) unfolding sm' sm_ok_def set_response_def by (auto split: if_splits)
  qed (use assms(1) in simp)
qed

section \<open>The cleanup tick\<close>

text \<open>What one tick does, whatever the order in which it visits the sessions.\<close>

definition tick_spec :: "Time \<Rightarrow> u32 set \<Rightarrow> SessionManager \<Rightarrow> SessionManager" where
  "tick_spec now K sm =
     (let gone = {i. i \<in> K \<and> (\<exists>r. sm_sessions sm i = Some r \<and> session_expired now r sm)}
      in sm\<lparr>sm_sessions := (\<lambda>i. if i \<in> gone then None else sm_sessions sm i),
            sm_store := (\<lambda>r. if \<exists>i \<in> gone. sm_sessions sm i = Some r
               then map_option (\<lambda>s. s\<lparr>ms_Response := \<lparr>ch_buf = [], ch_cap = 1, ch_closed = True\<rparr>\<rparr>) (sm_store sm r)
               else sm_store sm r)\<rparr>)"


lemma tick_spec_empty: "tick_spec now {} sm = sm"
  by (simp add: tick_spec_def)

lemma tick_spec_skip:
  assumes "\<And>r. sm_sessions sm k = Some r \<Longrightarrow> \<not> session_expired now r sm"
  shows "tick_spec now (insert k K) sm = tick_spec now K sm"
proof -
  have "{i. i \<in> insert k K \<and> (\<exists>r. sm_sessions sm i = Some r \<and> session_expired now r sm)} =
      {i. i \<in> K \<and> (\<exists>r. sm_sessions sm i = Some r \<and> session_expired now r sm)}"
    using assms by blast
  then show ?thesis by (simp only: tick_spec_def)
qed

lemma session_expired_other:
  "r \<noteq> r' \<Longrightarrow> session_expired now r (drop_session k (set_response r' c sm)) = session_expired now r sm"
  by (simp add: session_expired_def session_defs)

lemma tick_spec_take:
  assumes ok: "sm_ok sm" and k: "sm_sessions sm k = Some r" "session_expired now r sm" and "k \<notin> K"
  shows "tick_spec now K (drop_session k (set_response r \<lparr>ch_buf = [], ch_cap = 1, ch_closed = True\<rparr> sm)) =
     tick_spec now (insert k K) sm" (is "tick_spec now K ?sm' = _")
proof -
  have other: "sm_sessions sm i = Some r' \<Longrightarrow> i \<noteq> k \<Longrightarrow> r' \<noteq> r" for i r'
    using sm_ok_inj [OF ok k(1)] by metis
  let ?gone = "\<lambda>K sm. {i. i \<in> K \<and> (\<exists>r. sm_sessions sm i = Some r \<and> session_expired now r sm)}"
  have sess: "sm_sessions ?sm' = (sm_sessions sm)(k := None)" by (simp add: session_defs)
  have gone: "?gone (insert k K) sm = insert k (?gone K ?sm')"
    using k other session_expired_other \<open>k \<notin> K\<close> unfolding sess by auto
  have store: "sm_store ?sm' r' = (if r' = r
      then map_option (\<lambda>s. s\<lparr>ms_Response := \<lparr>ch_buf = [], ch_cap = 1, ch_closed = True\<rparr>\<rparr>) (sm_store sm r)
      else sm_store sm r')" for r'
    by (simp add: session_defs)
  show ?thesis
    unfolding tick_spec_def Let_def gone
    by (rule SessionManager.equality)
       (use k other \<open>k \<notin> K\<close> sess in \<open>auto simp: fun_eq_iff store session_defs option.map_comp comp_def\<close>)
qed


lemma cleanup_meets_spec:
  assumes "sm_ok sm" "distinct ks"
  shows "cleanupExpiredSessions now ks sm = Some (tick_spec now (set ks) sm)"
  using assms
proof (induction now ks sm rule: cleanupExpiredSessions.induct)
  case (1 now sm)
  then show ?case by (simp add: tick_spec_empty)
next
  case (2 now k ks sm)
  show ?case
  proof (cases "\<exists>r. sm_sessions sm k = Some r \<and> session_expired now r sm")
    case True
    then obtain r where r: "sm_sessions sm k = Some r" "session_expired now r sm" by blast
    note cl = close_session_live [OF "2.prems"(1) r(1)]
    have "k \<notin> set ks" using "2.prems"(2) by simp
    from "2.IH"(2) [OF r(1,2) cl sm_ok_close [OF "2.prems"(1) r(1) cl]] "2.prems"(2) r cl
      tick_spec_take [OF "2.prems"(1) r this]
    show ?thesis by simp
  next
    case False
    then have "cleanupExpiredSessions now (k # ks) sm = cleanupExpiredSessions now ks sm"
      by (auto split: option.split)
    also have "\<dots> = Some (tick_spec now (set ks) sm)"
      using "2.IH"(1,3) "2.prems" False by (cases "sm_sessions sm k") auto
    finally show ?thesis using False by (auto simp: tick_spec_skip)
  qed
qed

lemma sm_ok_tick [inv_step]:
  assumes "sm_ok sm" "cleanupExpiredSessions now ks sm = Some sm'"
  shows "sm_ok sm'"
  using assms
proof (induction now ks sm rule: cleanupExpiredSessions.induct)
  case (2 now k ks sm)
  then show ?case by (auto split: option.splits if_splits intro: sm_ok_close)
qed simp

lemma tick_spec_keeps:
  assumes "sm_sessions sm i = Some r" "\<not> session_expired now r sm"
    and "\<And>j. sm_sessions sm j = Some r \<Longrightarrow> j = i"
  shows "sm_sessions (tick_spec now K sm) i = Some r \<and> sm_store (tick_spec now K sm) r = sm_store sm r"
proof -
  have "\<not> (\<exists>j \<in> {i. i \<in> K \<and> (\<exists>r. sm_sessions sm i = Some r \<and> session_expired now r sm)}. sm_sessions sm j = Some r)"
    using assms(2) by auto
  with assms(1,2) show ?thesis by (simp only: tick_spec_def Let_def) fastforce
qed

section \<open>Every history\<close>

inductive sm_reachable :: "SessionManager \<Rightarrow> bool" where
  new: "sm_reachable NewSessionManager"
| create: "sm_reachable sm \<Longrightarrow> sm_reachable (snd (CreateSession a b t now sm))"
| complete: "sm_reachable sm \<Longrightarrow> sm_reachable (snd (CompleteSession i resp sm))"
| cleanup: "sm_reachable sm \<Longrightarrow> CleanupSession i sm = Some sm' \<Longrightarrow> sm_reachable sm'"
| tick: "sm_reachable sm \<Longrightarrow> cleanupExpiredSessions now ks sm = Some sm' \<Longrightarrow> sm_reachable sm'"
| wait: "sm_reachable sm \<Longrightarrow> WaitForResponse p d e r sm = Some (res, sm') \<Longrightarrow> sm_reachable sm'"

lemma sm_reachable_ok: "sm_reachable sm \<Longrightarrow> sm_ok sm"
proof (induction rule: sm_reachable.induct)
  case (cleanup sm i sm')
  then show ?case by (auto simp: CleanupSession_def split: option.splits intro: sm_ok_close)
qed (auto intro: sm_ok_Create sm_ok_Complete sm_ok_tick sm_ok_Wait)

section \<open>Properties\<close>

text \<open>
  In every reachable session manager, completing a session that is still known
  succeeds, its waiter then receives exactly that response, the session cannot be completed
  twice, and no other session is touched; before that its waiter finds nothing. Completing an
  unknown session is an error that changes nothing.
\<close>

theorem complete_reaches_waiter:
  assumes "sm_reachable sm" and "GetSession i sm = Some r"
  shows "WaitForResponse Wait_response d e r sm = None \<and>
     (\<exists>sm1 sm2. CompleteSession i (Some m) sm = (Ok (), sm1) \<and>
        WaitForResponse Wait_response d e r sm1 = Some (Inr m, sm2) \<and>
        CompleteSession i m' sm1 = (Err (SessionNotFound i), sm1) \<and>
        (\<forall>j. j \<noteq> i \<longrightarrow> GetSession j sm1 = GetSession j sm) \<and>
        (\<forall>r'. r' \<noteq> r \<longrightarrow> sm_store sm1 r' = sm_store sm r'))"
proof -
  have ok: "sm_ok sm" using assms(1) by (rule sm_reachable_ok)
  have i: "sm_sessions sm i = Some r" using assms(2) by (simp add: GetSession_def)
  then obtain s where s: "sm_store sm r = Some s" "ms_ID s = i" "ms_Response s = make_chan 1"
    using sm_okD [OF ok] by blast
  show ?thesis
    using s by (simp add: CompleteSession_live [OF ok i])
      (simp add: WaitForResponse_def try_recv_def session_defs GetSession_def CompleteSession_def)
qed

theorem complete_reaches_waiter_witness:
  "\<exists>sm1 sm2 m. CompleteSession 1 (Some m) (snd (CreateSession 3 4 Second 0 NewSessionManager)) = (Ok (), sm1) \<and>
     WaitForResponse Wait_response False 0 0 sm1 = Some (Inr m, sm2)"
proof -
  let ?sm = "snd (CreateSession 3 4 Second 0 NewSessionManager)"
  have "GetSession 1 ?sm = Some 0"
    by (simp add: GetSession_def CreateSession_def NewSessionManager_def Let_def)
  from complete_reaches_waiter [OF sm_reachable.create [OF sm_reachable.new] this] show ?thesis by blast
qed

text \<open>
  No operation of a reachable manager panics: neither completing, cleaning up nor
  a cleanup tick ever sends on or closes a closed channel, and a completion never finds its
  channel full.
\<close>

theorem sessions_never_panic:
  assumes "sm_reachable sm" and "range_order (sm_sessions sm) ks"
  shows "fst (CompleteSession i resp sm) \<noteq> Panic \<and>
     fst (CompleteSession i resp sm) \<noteq> Err (SessionChannelFull i) \<and>
     CleanupSession i sm \<noteq> None \<and> cleanupExpiredSessions now ks sm \<noteq> None"
proof -
  have ok: "sm_ok sm" using assms(1) by (rule sm_reachable_ok)
  show ?thesis
    using cleanup_meets_spec [OF ok range_orderD(1) [OF assms(2)]]
    by (cases "sm_sessions sm i")
       (simp_all add: CompleteSession_live [OF ok] CleanupSession_def close_session_live [OF ok],
        simp add: CompleteSession_def)
qed

theorem sessions_never_panic_witness:
  "CleanupSession 5 NewSessionManager \<noteq> None \<and> cleanupExpiredSessions 9 [] NewSessionManager \<noteq> None"
  using sessions_never_panic [OF sm_reachable.new, of "[]" 5 None 9] by (simp add: NewSessionManager_def)

text \<open>
  A cleanup tick removes exactly the sessions whose age exceeds their timeout,
  in whatever order it visits them; the waiters of the removed sessions learn that their
  session was closed and the others are as before.
\<close>

theorem tick_expires_exactly:
  assumes "sm_reachable sm" and "range_order (sm_sessions sm) ks"
    and "cleanupExpiredSessions now ks sm = Some sm'" and "GetSession i sm = Some r"
    and "sm_store sm r = Some s"
  shows "(now - ms_CreatedAt s > ms_Timeout s \<longrightarrow> GetSession i sm' = None \<and>
            WaitForResponse Wait_response d e r sm' = Some (Inl (SessionClosed i), sm')) \<and>
         (now - ms_CreatedAt s \<le> ms_Timeout s \<longrightarrow> GetSession i sm' = Some r \<and> sm_store sm' r = Some s)"
proof -
  have ok: "sm_ok sm" using assms(1) by (rule sm_reachable_ok)
  have sm': "sm' = tick_spec now (set ks) sm"
    using cleanup_meets_spec [OF ok range_orderD(1) [OF assms(2)]] assms(3) by simp
  have i: "sm_sessions sm i = Some r" "i \<in> set ks"
    using assms(2,4) by (auto simp: GetSession_def range_order_def)
  have s: "ms_ID s = i" using sm_okD [OF ok i(1)] assms(5) by auto
  have uniq: "sm_sessions sm j = Some r \<Longrightarrow> j = i" for j by (rule sm_ok_inj [OF ok _ i(1)])
  show ?thesis
  proof (cases "now - ms_CreatedAt s > ms_Timeout s")
    case True
    then have "session_expired now r sm" by (simp add: session_expired_def assms(5))
    then have "sm_sessions sm' i = None"
      "sm_store sm' r = Some (s\<lparr>ms_Response := \<lparr>ch_buf = [], ch_cap = 1, ch_closed = True\<rparr>\<rparr>)"
      using i assms(5) unfolding sm' tick_spec_def Let_def by auto
    with True s show ?thesis by (simp add: GetSession_def WaitForResponse_def try_recv_def)
  next
    case False
    then have "\<not> session_expired now r sm" by (simp add: session_expired_def assms(5))
    then have "sm_sessions sm' i = Some r" "sm_store sm' r = Some s"
      using i(1) assms(5) tick_spec_keeps [of sm i r now "set ks", OF i(1) _ uniq] unfolding sm' by simp_all
    with False show ?thesis by (simp add: GetSession_def)
  qed
qed

theorem tick_expires_exactly_witness:
  "\<exists>sm'. cleanupExpiredSessions 9 [1] (snd (CreateSession 3 4 5 0 NewSessionManager)) = Some sm' \<and>
     WaitForResponse Wait_response False 0 0 sm' = Some (Inl (SessionClosed 1), sm')"
proof -
  let ?sm = "snd (CreateSession 3 4 5 0 NewSessionManager)"
  have g: "GetSession 1 ?sm = Some 0" and ro: "range_order (sm_sessions ?sm) [1]"
    by (simp_all add: GetSession_def CreateSession_def NewSessionManager_def Let_def range_order_def)
  have st: "sm_store ?sm 0 = Some \<lparr>ms_ID = 1, ms_Source = 3, ms_Target = 4, ms_CreatedAt = 0,
      ms_Timeout = 5, ms_Response = make_chan 1\<rparr>"
    by (simp add: CreateSession_def NewSessionManager_def Let_def)
  have r: "sm_reachable ?sm" by (rule sm_reachable.create [OF sm_reachable.new])
  obtain sm' where "cleanupExpiredSessions 9 [1] ?sm = Some sm'"
    using cleanup_meets_spec [OF sm_reachable_ok [OF r], of "[1]"] by simp
  with tick_expires_exactly [OF r ro this g st] show ?thesis by simp
qed

end
