(* ===== verification/Registry.thy ===== *)
theory Registry
  imports Core_Types
begin

text \<open>
  \<^verbatim>\<open>localServiceRegistry\<close> of \<^verbatim>\<open>core/service_registry.go\<close>. The registry hands out pointers to
  the very \<^verbatim>\<open>ServiceInfo\<close> records it later updates, so these live in a heap and the map of
  services holds references. A metadata argument is the association list of a Go map in the
  order in which it is ranged over. The mutex makes each method one atomic step; the events
  sent to the watchers are part of the state.
\<close>

section \<open>Data\<close>

type_synonym ServiceStatus = u8

definition ServiceStatusUnknown :: ServiceStatus where "ServiceStatusUnknown = 0"
definition ServiceStatusHealthy :: ServiceStatus where "ServiceStatusHealthy = 1"
definition ServiceStatusUnhealthy :: ServiceStatus where "ServiceStatusUnhealthy = 2"
definition ServiceStatusMaintenance :: ServiceStatus where "ServiceStatusMaintenance = 3"
definition ServiceStatusDraining :: ServiceStatus where "ServiceStatusDraining = 4"

lemmas ServiceStatus_defs = ServiceStatusUnknown_def ServiceStatusHealthy_def
  ServiceStatusUnhealthy_def ServiceStatusMaintenance_def ServiceStatusDraining_def

definition ServiceStatus_String :: "ServiceStatus \<Rightarrow> string" where
  "ServiceStatus_String s =
     (if s = ServiceStatusUnknown then ''unknown''
      else if s = ServiceStatusHealthy then ''healthy''
      else if s = ServiceStatusUnhealthy then ''unhealthy''
      else if s = ServiceStatusMaintenance then ''maintenance''
      else if s = ServiceStatusDraining then ''draining''
      else ''invalid'')"

record ServiceInfo =
  si_Handle :: "Handle option"
  si_Description :: string
  si_Version :: string
  si_Tags :: "string list"
  si_Status :: ServiceStatus
  si_Metadata :: "(string \<rightharpoonup> string) option"
  si_RegisteredAt :: Time
  si_LastHealthCheck :: Time
  si_HealthCheckInterval :: Duration

type_synonym info_ref = nat

record ServiceQuery =
  q_Name :: string
  q_Pattern :: string
  q_Tags :: "string list"
  q_Status :: "ServiceStatus list"
  q_Metadata :: "(string \<times> string) list"
  q_Node :: u32
  q_Limit :: int

datatype ServiceEventType = ServiceEventRegister | ServiceEventUnregister
  | ServiceEventStatusChange | ServiceEventMetadataChange

fun ServiceEventType_String :: "ServiceEventType \<Rightarrow> string" where
  "ServiceEventType_String ServiceEventRegister = ''register''"
| "ServiceEventType_String ServiceEventUnregister = ''unregister''"
| "ServiceEventType_String ServiceEventStatusChange = ''status_change''"
| "ServiceEventType_String ServiceEventMetadataChange = ''metadata_change''"

record ServiceEvent =
  ev_Type :: ServiceEventType
  ev_Service :: info_ref
  ev_Timestamp :: Time

record registry =
  rg_heap :: "info_ref \<rightharpoonup> ServiceInfo"
  rg_alloc :: info_ref
  rg_services :: "string \<rightharpoonup> info_ref"
  rg_watchers :: "u64 \<rightharpoonup> ServiceEvent chan"
  rg_watcherID :: u64

datatype RegistryError = InvalidServiceInfo | EmptyServiceName
  | ServiceAlreadyRegistered string | RegistryServiceNotFound string

definition NewServiceRegistry :: registry where
  "NewServiceRegistry = \<lparr>rg_heap = Map.empty, rg_alloc = 0, rg_services = Map.empty,
     rg_watchers = Map.empty, rg_watcherID = 0\<rparr>"

text \<open>A client builds a \<^verbatim>\<open>&ServiceInfo{...}\<close>: a fresh address.\<close>

definition new_info :: "ServiceInfo \<Rightarrow> registry \<Rightarrow> info_ref \<times> registry" where
  "new_info info rg = (rg_alloc rg, rg\<lparr>rg_heap := (rg_heap rg)(rg_alloc rg \<mapsto> info), rg_alloc := Suc (rg_alloc rg)\<rparr>)"

abbreviation set_info :: "info_ref \<Rightarrow> ServiceInfo \<Rightarrow> registry \<Rightarrow> registry" where
  "set_info r info rg \<equiv> rg\<lparr>rg_heap := (rg_heap rg)(r \<mapsto> info)\<rparr>"

section \<open>Operations\<close>

text \<open>
  Each iteration of the loop touches only its own watcher, so the order of the \<^verbatim>\<open>range\<close>
  makes no difference. Watchers in the map are open (see \<open>rg_ok\<close> below), so the send never
  panics.
\<close>

definition notifyWatchers :: "ServiceEvent \<Rightarrow> registry \<Rightarrow> registry" where
  "notifyWatchers ev rg = rg\<lparr>rg_watchers := (\<lambda>i. map_option (offer ev) (rg_watchers rg i))\<rparr>"

definition registry_defaults :: "Time \<Rightarrow> ServiceInfo \<Rightarrow> ServiceInfo" where
  "registry_defaults now info =
     info\<lparr>si_RegisteredAt := (if si_RegisteredAt info = 0 then now else si_RegisteredAt info),
          si_Status := (if si_Status info = ServiceStatusUnknown then ServiceStatusHealthy else si_Status info),
          si_HealthCheckInterval :=
            (if si_HealthCheckInterval info = 0 then 30 * Second else si_HealthCheckInterval info),
          si_Metadata := (if si_Metadata info = None then Some Map.empty else si_Metadata info)\<rparr>"

definition registry_Register ::
  "Time \<Rightarrow> info_ref option \<Rightarrow> registry \<Rightarrow> (RegistryError + unit) \<times> registry" where
  "registry_Register now ptr rg =
     (case ptr of
        None \<Rightarrow> (Inl InvalidServiceInfo, rg)
      | Some r \<Rightarrow>
          (case rg_heap rg r of
             None \<Rightarrow> (Inl InvalidServiceInfo, rg)
           | Some info \<Rightarrow>
               (case si_Handle info of
                  None \<Rightarrow> (Inl InvalidServiceInfo, rg)
                | Some h \<Rightarrow>
                    if h_Name h = [] then (Inl EmptyServiceName, rg)
                    else if rg_services rg (h_Name h) \<noteq> None
                    then (Inl (ServiceAlreadyRegistered (h_Name h)), rg)
                    else (Inr (),
                      notifyWatchers \<lparr>ev_Type = ServiceEventRegister, ev_Service = r, ev_Timestamp = now\<rparr>
                        ((set_info r (registry_defaults now info) rg)
                           \<lparr>rg_services := (rg_services rg)(h_Name h \<mapsto> r)\<rparr>)))))"

definition registry_Unregister :: "Time \<Rightarrow> string \<Rightarrow> registry \<Rightarrow> (RegistryError + unit) \<times> registry" where
  "registry_Unregister now name rg =
     (case rg_services rg name of
        None \<Rightarrow> (Inl (RegistryServiceNotFound name), rg)
      | Some r \<Rightarrow>
          (Inr (), notifyWatchers \<lparr>ev_Type = ServiceEventUnregister, ev_Service = r, ev_Timestamp = now\<rparr>
             (rg\<lparr>rg_services := (rg_services rg)(name := None)\<rparr>)))"

text \<open>The filters of \<^verbatim>\<open>matchesQuery\<close>, in the order of the code.\<close>

definition info_name :: "ServiceInfo \<Rightarrow> string" where
  "info_name info = (case si_Handle info of Some h \<Rightarrow> h_Name h | None \<Rightarrow> [])"

definition info_node :: "ServiceInfo \<Rightarrow> u32" where
  "info_node info = (case si_Handle info of Some h \<Rightarrow> h_Node h | None \<Rightarrow> 0)"

definition info_metadata :: "ServiceInfo \<Rightarrow> string \<Rightarrow> string" where
  "info_metadata info k = (case si_Metadata info of None \<Rightarrow> [] | Some m \<Rightarrow> go_get [] m k)"

definition matchesQuery :: "ServiceInfo \<Rightarrow> ServiceQuery \<Rightarrow> bool" where
  "matchesQuery service query =
     (if q_Name query \<noteq> [] \<and> info_name service \<noteq> q_Name query then False
      else if q_Pattern query \<noteq> [] \<and> info_name service \<noteq> q_Pattern query then False
      else if q_Status query \<noteq> [] \<and> \<not> list_ex (\<lambda>status. si_Status service = status) (q_Status query) then False
      else if \<not> list_all (\<lambda>tag. list_ex (\<lambda>t. t = tag) (si_Tags service)) (q_Tags query) then False
      else if \<not> list_all (\<lambda>(k, v). info_metadata service k = v) (q_Metadata query) then False
      else if q_Node query \<noteq> 0 \<and> info_node service \<noteq> q_Node query then False
      else True)"

definition ref_matches :: "registry \<Rightarrow> ServiceQuery \<Rightarrow> info_ref \<Rightarrow> bool" where
  "ref_matches rg query r = (case rg_heap rg r of None \<Rightarrow> False | Some info \<Rightarrow> matchesQuery info query)"

fun discover_loop :: "registry \<Rightarrow> ServiceQuery \<Rightarrow> info_ref list \<Rightarrow> info_ref list \<Rightarrow> info_ref list" where
  "discover_loop rg query results [] = results"
| "discover_loop rg query results (r # rs) =
     (let results' = (if ref_matches rg query r then results @ [r] else results)
      in if q_Limit query > 0 \<and> int (length results') \<ge> q_Limit query then results'
         else discover_loop rg query results' rs)"

definition registry_Discover :: "string list \<Rightarrow> ServiceQuery \<Rightarrow> registry \<Rightarrow> info_ref list" where
  "registry_Discover ks query rg = discover_loop rg query [] (range_values (rg_services rg) ks)"

definition registry_Get :: "string \<Rightarrow> registry \<Rightarrow> RegistryError + info_ref" where
  "registry_Get name rg =
     (case rg_services rg name of None \<Rightarrow> Inl (RegistryServiceNotFound name) | Some r \<Rightarrow> Inr r)"

definition registry_List :: "string list \<Rightarrow> registry \<Rightarrow> info_ref list" where
  "registry_List ks rg = range_values (rg_services rg) ks"

definition registry_UpdateStatus ::
  "Time \<Rightarrow> string \<Rightarrow> ServiceStatus \<Rightarrow> registry \<Rightarrow> (RegistryError + unit) \<times> registry" where
  "registry_UpdateStatus now name status rg =
     (case rg_services rg name of
        None \<Rightarrow> (Inl (RegistryServiceNotFound name), rg)
      | Some r \<Rightarrow>
          (case rg_heap rg r of
             None \<Rightarrow> (Inr (), rg)
           | Some info \<Rightarrow>
               let rg' = set_info r (info\<lparr>si_Status := status, si_LastHealthCheck := now\<rparr>) rg
               in (Inr (),
                   if si_Status info \<noteq> status
                   then notifyWatchers \<lparr>ev_Type = ServiceEventStatusChange, ev_Service = r, ev_Timestamp = now\<rparr> rg'
                   else rg')))"

fun put_all :: "(string \<times> string) list \<Rightarrow> (string \<rightharpoonup> string) \<Rightarrow> (string \<rightharpoonup> string)" where
  "put_all [] m = m"
| "put_all ((k, v) # kvs) m = put_all kvs (m(k \<mapsto> v))"

definition registry_UpdateMetadata ::
  "Time \<Rightarrow> string \<Rightarrow> (string \<times> string) list \<Rightarrow> registry \<Rightarrow> (RegistryError + unit) \<times> registry" where
  "registry_UpdateMetadata now name metadata rg =
     (case rg_services rg name of
        None \<Rightarrow> (Inl (RegistryServiceNotFound name), rg)
      | Some r \<Rightarrow>
          (case rg_heap rg r of
             None \<Rightarrow> (Inr (), rg)
           | Some info \<Rightarrow>
               let m = (case si_Metadata info of None \<Rightarrow> Map.empty | Some m \<Rightarrow> m)
               in (Inr (),
                   notifyWatchers \<lparr>ev_Type = ServiceEventMetadataChange, ev_Service = r, ev_Timestamp = now\<rparr>
                     (set_info r (info\<lparr>si_Metadata := Some (put_all metadata m)\<rparr>) rg))))"

definition registry_Watch :: "registry \<Rightarrow> u64 \<times> registry" where
  "registry_Watch rg =
     (let watcherID = rg_watcherID rg + 1
      in (watcherID, rg\<lparr>rg_watcherID := watcherID,
                        rg_watchers := (rg_watchers rg)(watcherID \<mapsto> make_chan 100)\<rparr>))"

text \<open>The goroutine of \<^verbatim>\<open>Watch\<close> once its context is done: the watcher leaves the map and its
  channel, which the client may still drain, is closed.\<close>

definition watch_cleanup :: "u64 \<Rightarrow> registry \<Rightarrow> ServiceEvent chan option \<times> registry" where
  "watch_cleanup watcherID rg =
     (Option.bind (rg_watchers rg watcherID) close_chan,
      rg\<lparr>rg_watchers := (rg_watchers rg)(watcherID := None)\<rparr>)"

text \<open>A client receiving from its watch channel.\<close>

definition watch_recv :: "u64 \<Rightarrow> registry \<Rightarrow> (ServiceEvent \<times> registry) option" where
  "watch_recv watcherID rg =
     (case rg_watchers rg watcherID of
        None \<Rightarrow> None
      | Some c \<Rightarrow> (case try_recv c of
                     Received ev c' \<Rightarrow> Some (ev, rg\<lparr>rg_watchers := (rg_watchers rg)(watcherID \<mapsto> c')\<rparr>)
                   | _ \<Rightarrow> None))"

text \<open>One tick of the health check goroutine.\<close>

fun health_loop :: "Time \<Rightarrow> info_ref list \<Rightarrow> registry \<Rightarrow> registry" where
  "health_loop now [] rg = rg"
| "health_loop now (r # rs) rg =
     (case rg_heap rg r of
        None \<Rightarrow> health_loop now rs rg
      | Some info \<Rightarrow>
          if now - si_LastHealthCheck info > si_HealthCheckInterval info
          then health_loop now rs (snd (registry_UpdateStatus now (info_name info) (si_Status info) rg))
          else health_loop now rs rg)"

definition performHealthChecks :: "Time \<Rightarrow> string list \<Rightarrow> registry \<Rightarrow> registry" where
  "performHealthChecks now ks rg = health_loop now (range_values (rg_services rg) ks) rg"

section \<open>The invariant\<close>

text \<open>
  Every registered name leads to an information record with that name and with the defaults
  filled in, and every watcher has an open channel of capacity 100.
\<close>

definition info_ok :: "string \<Rightarrow> ServiceInfo \<Rightarrow> bool" where
  "info_ok n info \<longleftrightarrow> si_Handle info \<noteq> None \<and> info_name info = n \<and> n \<noteq> [] \<and>
     si_Metadata info \<noteq> None \<and> si_HealthCheckInterval info \<noteq> 0"

definition services_ok :: "(info_ref \<rightharpoonup> ServiceInfo) \<Rightarrow> info_ref \<Rightarrow> (string \<rightharpoonup> info_ref) \<Rightarrow> bool" where
  "services_ok heap alloc svcs \<longleftrightarrow>
     (\<forall>n r. svcs n = Some r \<longrightarrow> (\<exists>info. heap r = Some info \<and> info_ok n info)) \<and>
     (\<forall>r \<in> dom heap. r < alloc)"

definition watchers_ok :: "(u64 \<rightharpoonup> ServiceEvent chan) \<Rightarrow> bool" where
  "watchers_ok ws \<longleftrightarrow> (\<forall>i c. ws i = Some c \<longrightarrow> ch_cap c = 100 \<and> chan_ok c \<and> \<not> ch_closed c)"

definition rg_ok :: "registry \<Rightarrow> bool" where
  "rg_ok rg \<longleftrightarrow> services_ok (rg_heap rg) (rg_alloc rg) (rg_services rg) \<and> watchers_ok (rg_watchers rg)"

lemma notifyWatchers_frame [simp]:
  "rg_heap (notifyWatchers ev rg) = rg_heap rg" "rg_alloc (notifyWatchers ev rg) = rg_alloc rg"
  "rg_services (notifyWatchers ev rg) = rg_services rg"
  "rg_watcherID (notifyWatchers ev rg) = rg_watcherID rg"
  by (simp_all add: notifyWatchers_def)

lemma watchers_ok_notify [inv_step]:
  "watchers_ok (rg_watchers rg) \<Longrightarrow> watchers_ok (rg_watchers (notifyWatchers ev rg))"
  by (auto simp: watchers_ok_def notifyWatchers_def chan_ok_offer)

lemma rg_ok_New [simp]: "rg_ok NewServiceRegistry"
  by (simp add: rg_ok_def services_ok_def watchers_ok_def NewServiceRegistry_def)

lemma services_ok_get:
  assumes "services_ok heap alloc svcs" "svcs n = Some r"
  obtains info where "heap r = Some info" "info_ok n info"
  using assms unfolding services_ok_def by blast

lemma services_ok_inj:
  "services_ok heap alloc svcs \<Longrightarrow> svcs n = Some r \<Longrightarrow> svcs n' = Some r \<Longrightarrow> n = n'"
  unfolding services_ok_def info_ok_def by (metis option.inject)

lemma services_ok_update:
  assumes "services_ok heap alloc svcs" "heap r = Some info" "\<And>n. info_ok n info \<Longrightarrow> info_ok n info'"
  shows "services_ok (heap(r \<mapsto> info')) alloc svcs"
proof -
  have "info_ok n info'" if "svcs n = Some r" for n
    using assms that unfolding services_ok_def by (metis option.inject)
  with assms(1,2) show ?thesis unfolding services_ok_def by (auto split: if_splits)
qed

lemma services_ok_alloc:
  assumes "services_ok heap alloc svcs"
  shows "services_ok (heap(alloc \<mapsto> info)) (Suc alloc) svcs"
proof -
  have "svcs n \<noteq> Some alloc" for n
    using assms unfolding services_ok_def by (metis domI less_irrefl)
  with assms show ?thesis
    unfolding services_ok_def by (auto simp: less_Suc_eq split: if_splits)
qed

lemma services_ok_add:
  assumes "services_ok heap alloc svcs" "heap r = Some info" "info_ok n info" "svcs n = None"
    and "\<And>m. svcs m \<noteq> Some r \<or> m = n"
  shows "services_ok heap alloc (svcs(n \<mapsto> r))"
  using assms unfolding services_ok_def by auto

lemma services_ok_remove: "services_ok heap alloc svcs \<Longrightarrow> services_ok heap alloc (svcs(n := None))"
  unfolding services_ok_def by auto

lemma info_ok_defaults:
  "si_Handle info = Some h \<Longrightarrow> h_Name h \<noteq> [] \<Longrightarrow> info_ok (h_Name h) (registry_defaults now info)"
  by (simp add: info_ok_def info_name_def registry_defaults_def)

lemma info_ok_defaults_keep: "info_ok n info \<Longrightarrow> info_ok n (registry_defaults now info)"
  by (auto simp: info_ok_def info_name_def registry_defaults_def)

lemma rg_ok_new_info [inv_step]: "rg_ok rg \<Longrightarrow> rg_ok (snd (new_info info rg))"
  by (simp add: rg_ok_def new_info_def services_ok_alloc)

lemma registry_Register_Inr:
  assumes "registry_Register now (Some r) rg = (Inr (), rg')"
  obtains info h where "rg_heap rg r = Some info" "si_Handle info = Some h" "h_Name h \<noteq> []"
    "rg_services rg (h_Name h) = None"
    "rg' = notifyWatchers \<lparr>ev_Type = ServiceEventRegister, ev_Service = r, ev_Timestamp = now\<rparr>
       ((set_info r (registry_defaults now info) rg)\<lparr>rg_services := (rg_services rg)(h_Name h \<mapsto> r)\<rparr>)"
  using assms by (auto simp: registry_Register_def split: option.splits if_splits)

lemma registry_error_same:
  "registry_Register now p rg = (Inl e, rg') \<Longrightarrow> rg' = rg"
  "registry_Unregister now n rg = (Inl e, rg') \<Longrightarrow> rg' = rg"
  "registry_UpdateStatus now n st rg = (Inl e, rg') \<Longrightarrow> rg' = rg"
  "registry_UpdateMetadata now n md rg = (Inl e, rg') \<Longrightarrow> rg' = rg"
  by (auto simp: registry_Register_def registry_Unregister_def registry_UpdateStatus_def
      registry_UpdateMetadata_def Let_def split: option.splits if_splits)

lemma rg_ok_Register [inv_step]:
  assumes "rg_ok rg" "registry_Register now p rg = (res, rg')"
  shows "rg_ok rg'"
proof (cases res)
  case (Inl e)
  with assms registry_error_same(1) show ?thesis by blast
next
  case (Inr u)
  then obtain r where p: "p = Some r" using assms(2) by (cases p) (auto simp: registry_Register_def)
  from assms(2) Inr p have "registry_Register now (Some r) rg = (Inr (), rg')" by simp
  then show ?thesis
  proof (rule registry_Register_Inr)
    fix info h
    assume *: "rg_heap rg r = Some info" "si_Handle info = Some h" "h_Name h \<noteq> []"
      "rg_services rg (h_Name h) = None" and rg': "rg' = notifyWatchers \<lparr>ev_Type = ServiceEventRegister, ev_Service = r, ev_Timestamp = now\<rparr>
       ((set_info r (registry_defaults now info) rg)\<lparr>rg_services := (rg_services rg)(h_Name h \<mapsto> r)\<rparr>)"
    have so: "services_ok (rg_heap rg) (rg_alloc rg) (rg_services rg)" using assms(1) by (simp add: rg_ok_def)
    have "services_ok ((rg_heap rg)(r \<mapsto> registry_defaults now info)) (rg_alloc rg) ((rg_services rg)(h_Name h \<mapsto> r))"
    proof (rule services_ok_add [OF services_ok_update [OF so *(1) info_ok_defaults_keep]])
      show "info_ok (h_Name h) (registry_defaults now info)" using *(2,3) by (rule info_ok_defaults)
      show "rg_services rg m \<noteq> Some r \<or> m = h_Name h" for m
        using services_ok_get [OF so, of m r] *(1,2) by (fastforce simp: info_ok_def info_name_def)
    qed (use * in auto)
    with assms(1) show ?thesis by (simp add: rg_ok_def rg' watchers_ok_notify)
  qed
qed

lemma rg_ok_Unregister [inv_step]:
  "rg_ok rg \<Longrightarrow> registry_Unregister now n rg = (res, rg') \<Longrightarrow> rg_ok rg'"
  by (auto simp: rg_ok_def registry_Unregister_def services_ok_remove watchers_ok_notify split: option.splits)

lemma rg_ok_UpdateStatus [inv_step]:
  "rg_ok rg \<Longrightarrow> registry_UpdateStatus now n st rg = (res, rg') \<Longrightarrow> rg_ok rg'"
  by (auto simp: rg_ok_def registry_UpdateStatus_def Let_def watchers_ok_notify info_ok_def info_name_def
      split: option.splits if_splits intro!: services_ok_update)

lemma rg_ok_UpdateMetadata [inv_step]:
  "rg_ok rg \<Longrightarrow> registry_UpdateMetadata now n md rg = (res, rg') \<Longrightarrow> rg_ok rg'"
  by (auto simp: rg_ok_def registry_UpdateMetadata_def Let_def watchers_ok_notify info_ok_def info_name_def
      split: option.splits if_splits intro!: services_ok_update)

lemma watchers_ok_upd:
  "watchers_ok ws \<Longrightarrow> ch_cap c = 100 \<Longrightarrow> chan_ok c \<Longrightarrow> \<not> ch_closed c \<Longrightarrow> watchers_ok (ws(i \<mapsto> c))"
  "watchers_ok ws \<Longrightarrow> watchers_ok (ws(i := None))"
  by (auto simp: watchers_ok_def)

lemma watch_recv_Some:
  assumes "watch_recv i rg = Some (ev, rg')"
  obtains c evs where "rg_watchers rg i = Some c" "ch_buf c = ev # evs"
    "rg' = rg\<lparr>rg_watchers := (rg_watchers rg)(i \<mapsto> c\<lparr>ch_buf := evs\<rparr>)\<rparr>"
  using assms by (auto simp: watch_recv_def try_recv_def split: option.splits list.splits if_splits)

lemma rg_ok_watch [inv_step]:
  "rg_ok rg \<Longrightarrow> rg_ok (snd (registry_Watch rg))"
  "rg_ok rg \<Longrightarrow> rg_ok (snd (watch_cleanup i rg))"
  by (simp_all add: rg_ok_def registry_Watch_def watch_cleanup_def Let_def watchers_ok_upd)

lemma rg_ok_watch_recv [inv_step]:
  assumes "rg_ok rg" "watch_recv i rg = Some (ev, rg')" shows "rg_ok rg'"
  using assms(2)
proof (rule watch_recv_Some)
  fix c evs assume *: "rg_watchers rg i = Some c" "ch_buf c = ev # evs"
    "rg' = rg\<lparr>rg_watchers := (rg_watchers rg)(i \<mapsto> c\<lparr>ch_buf := evs\<rparr>)\<rparr>"
  then have "ch_cap c = 100" "chan_ok c" "\<not> ch_closed c"
    using assms(1) by (auto simp: rg_ok_def watchers_ok_def)
  with * assms(1) show ?thesis by (simp add: rg_ok_def watchers_ok_upd chan_ok_def)
qed

lemma rg_ok_health_loop [inv_step]: "rg_ok rg \<Longrightarrow> rg_ok (health_loop now rs rg)"
proof (induction now rs rg rule: health_loop.induct)
  case (2 now r rs rg)
  then show ?case
    using rg_ok_UpdateStatus by (auto split: option.split) (metis prod.collapse)
qed simp

inductive rg_reachable :: "registry \<Rightarrow> bool" where
  new: "rg_reachable NewServiceRegistry"
| new_info: "rg_reachable rg \<Longrightarrow> rg_reachable (snd (new_info info rg))"
| register: "rg_reachable rg \<Longrightarrow> registry_Register now p rg = (res, rg') \<Longrightarrow> rg_reachable rg'"
| unregister: "rg_reachable rg \<Longrightarrow> registry_Unregister now n rg = (res, rg') \<Longrightarrow> rg_reachable rg'"
| update_status: "rg_reachable rg \<Longrightarrow> registry_UpdateStatus now n st rg = (res, rg') \<Longrightarrow> rg_reachable rg'"
| update_metadata: "rg_reachable rg \<Longrightarrow> registry_UpdateMetadata now n md rg = (res, rg') \<Longrightarrow> rg_reachable rg'"
| watch: "rg_reachable rg \<Longrightarrow> rg_reachable (snd (registry_Watch rg))"
| unwatch: "rg_reachable rg \<Longrightarrow> rg_reachable (snd (watch_cleanup i rg))"
| receive: "rg_reachable rg \<Longrightarrow> watch_recv i rg = Some (ev, rg') \<Longrightarrow> rg_reachable rg'"
| health: "rg_reachable rg \<Longrightarrow> rg_reachable (performHealthChecks now ks rg)"

lemma rg_reachable_ok: "rg_reachable rg \<Longrightarrow> rg_ok rg"
proof (induction rule: rg_reachable.induct)
  case (health rg now ks)
  then show ?case by (simp add: performHealthChecks_def rg_ok_health_loop)
qed (auto intro: rg_ok_new_info rg_ok_Register rg_ok_Unregister rg_ok_UpdateStatus rg_ok_UpdateMetadata
      rg_ok_watch rg_ok_watch_recv)

section \<open>The registry as a table with unique keys\<close>

text \<open>What \<^verbatim>\<open>Get\<close> leads to, for a client that registers freshly built records.\<close>

definition registry_look :: "registry \<Rightarrow> string \<Rightarrow> ServiceInfo option" where
  "registry_look rg n = (case registry_Get n rg of Inl _ \<Rightarrow> None | Inr r \<Rightarrow> rg_heap rg r)"

definition registry_add :: "Time \<Rightarrow> string \<Rightarrow> ServiceInfo \<Rightarrow> registry \<Rightarrow> registry option" where
  "registry_add now n info rg =
     (if info_name info \<noteq> n then None
      else case new_info info rg of
        (r, rg1) \<Rightarrow> (case registry_Register now (Some r) rg1 of (Inr _, rg') \<Rightarrow> Some rg' | (Inl _, _) \<Rightarrow> None))"

definition registry_del :: "Time \<Rightarrow> string \<Rightarrow> registry \<Rightarrow> registry option" where
  "registry_del now n rg = (case registry_Unregister now n rg of (Inr _, rg') \<Rightarrow> Some rg' | (Inl _, _) \<Rightarrow> None)"

text \<open>Records that already carry what \<^verbatim>\<open>Register\<close> would fill in.\<close>

definition info_complete :: "string \<Rightarrow> ServiceInfo \<Rightarrow> bool" where
  "info_complete n info \<longleftrightarrow> info_ok n info \<and> si_RegisteredAt info \<noteq> 0 \<and> si_Status info \<noteq> ServiceStatusUnknown"

lemma registry_defaults_complete: "info_complete n info \<Longrightarrow> registry_defaults now info = info"
  by (auto simp: info_complete_def info_ok_def registry_defaults_def)

lemma registry_look_taken:
  "rg_ok rg \<Longrightarrow> registry_look rg n \<noteq> None \<longleftrightarrow> rg_services rg n \<noteq> None"
  by (auto simp: registry_look_def registry_Get_def rg_ok_def split: option.splits elim: services_ok_get)

lemma registry_add_fresh:
  assumes "rg_ok rg" "info_complete n info" "registry_look rg n = None"
  shows "\<exists>rg'. registry_add now n info rg = Some rg' \<and> rg_ok rg' \<and>
     registry_look rg' = (registry_look rg)(n \<mapsto> info)"
proof -
  obtain h where h: "si_Handle info = Some h" "h_Name h = n" "n \<noteq> []" "info_name info = n"
    using assms(2) by (auto simp: info_complete_def info_ok_def info_name_def)
  have none: "rg_services rg n = None" using registry_look_taken [OF assms(1), of n] assms(3) by simp
  have notalloc: "rg_services rg m \<noteq> Some (rg_alloc rg)" for m
    using assms(1) unfolding rg_ok_def services_ok_def by (metis domI less_irrefl)
  let ?rg1 = "snd (new_info info rg)"
  obtain rg' where reg: "registry_Register now (Some (rg_alloc rg)) ?rg1 = (Inr (), rg')"
    and look: "rg_services rg' = (rg_services rg)(n \<mapsto> rg_alloc rg)"
      "rg_heap rg' = (rg_heap rg)(rg_alloc rg \<mapsto> info)"
    using h none registry_defaults_complete [OF assms(2)]
    by (simp add: registry_Register_def new_info_def)
  then have "registry_add now n info rg = Some rg'" using h(4) by (simp add: registry_add_def new_info_def)
  moreover have "rg_ok rg'" using rg_ok_Register [OF rg_ok_new_info [OF assms(1)] reg] .
  moreover have "registry_look rg' = (registry_look rg)(n \<mapsto> info)"
    using notalloc by (auto simp: fun_eq_iff registry_look_def registry_Get_def look split: option.splits)
  ultimately show ?thesis by blast
qed

interpretation sr: unique_table registry_look "registry_add now" "registry_del now" rg_ok info_complete
  for now
proof unfold_locales
  show "rg_ok s \<Longrightarrow> registry_look s k \<noteq> None \<Longrightarrow> registry_add now k v s = None" for s k v
    using registry_look_taken [of s k]
    by (auto simp: registry_add_def registry_Register_def new_info_def info_name_def split: option.splits)
  show "rg_ok s \<Longrightarrow> registry_look s k = None \<Longrightarrow> registry_del now k s = None" for s k
    using registry_look_taken [of s k] by (auto simp: registry_del_def registry_Unregister_def)
  show "rg_ok s \<Longrightarrow> registry_look s k \<noteq> None \<Longrightarrow>
      \<exists>s'. registry_del now k s = Some s' \<and> rg_ok s' \<and> registry_look s' = (registry_look s)(k := None)" for s k
    using registry_look_taken [of s k] rg_ok_Unregister [of s now k]
    by (auto simp: registry_del_def registry_Unregister_def registry_look_def registry_Get_def fun_eq_iff
        split: option.splits)
qed (rule registry_add_fresh)

section \<open>Discovery\<close>

definition limited :: "int \<Rightarrow> 'a list \<Rightarrow> 'a list" where
  "limited lim xs = (if lim > 0 then take (nat lim) xs else xs)"

lemma discover_loop_spec:
  assumes "q_Limit query > 0 \<longrightarrow> int (length results) < q_Limit query"
  shows "discover_loop rg query results rs =
     limited (q_Limit query) (results @ filter (ref_matches rg query) rs)"
  using assms
proof (induction rg query results rs rule: discover_loop.induct)
  case (1 rg query results)
  then show ?case by (auto simp: limited_def)
next
  case (2 rg query results r rs)
  define res where "res = (if ref_matches rg query r then results @ [r] else results)"
  have app: "results @ filter (ref_matches rg query) (r # rs) = res @ filter (ref_matches rg query) rs"
    by (simp add: res_def)
  show ?case
  proof (cases "q_Limit query > 0 \<and> int (length res) \<ge> q_Limit query")
    case True
    then have "nat (q_Limit query) = length res"
      using "2.prems" by (auto simp: res_def split: if_splits)
    then show ?thesis
      using True unfolding app by (simp add: Let_def res_def [symmetric] limited_def)
  next
    case False
    then have "discover_loop rg query res rs = limited (q_Limit query) (res @ filter (ref_matches rg query) rs)"
      by (intro "2.IH" [OF res_def]) auto
    moreover have "discover_loop rg query results (r # rs) = discover_loop rg query res rs"
      using False by (simp only: discover_loop.simps Let_def res_def [symmetric]) simp
    ultimately show ?thesis unfolding app by simp
  qed
qed

text \<open>The contract of a query, stated over the information records.\<close>

definition satisfies :: "ServiceInfo \<Rightarrow> ServiceQuery \<Rightarrow> bool" where
  "satisfies info q \<longleftrightarrow>
     (q_Name q = [] \<or> info_name info = q_Name q) \<and>
     (q_Pattern q = [] \<or> info_name info = q_Pattern q) \<and>
     (q_Status q = [] \<or> si_Status info \<in> set (q_Status q)) \<and>
     set (q_Tags q) \<subseteq> set (si_Tags info) \<and>
     (\<forall>(k, v) \<in> set (q_Metadata q). info_metadata info k = v) \<and>
     (q_Node q = 0 \<or> info_node info = q_Node q)"

lemma matchesQuery_satisfies: "matchesQuery info q \<longleftrightarrow> satisfies info q"
  by (auto simp: matchesQuery_def satisfies_def list_all_iff list_ex_iff)

lemma discover_hits:
  assumes "rg_ok rg" and "range_order (rg_services rg) ks"
  shows "distinct (filter (ref_matches rg q) (range_values (rg_services rg) ks)) \<and>
     set (filter (ref_matches rg q) (range_values (rg_services rg) ks)) =
       {r. \<exists>n info. rg_services rg n = Some r \<and> rg_heap rg r = Some info \<and> satisfies info q}"
proof
  have so: "services_ok (rg_heap rg) (rg_alloc rg) (rg_services rg)" using assms(1) by (simp add: rg_ok_def)
  show "distinct (filter (ref_matches rg q) (range_values (rg_services rg) ks))"
    using range_orderD(1) [OF assms(2)] services_ok_inj [OF so]
    by (intro distinct_filter distinct_range_values) auto
  show "set (filter (ref_matches rg q) (range_values (rg_services rg) ks)) =
       {r. \<exists>n info. rg_services rg n = Some r \<and> rg_heap rg r = Some info \<and> satisfies info q}"
    by (auto simp: set_range_values [OF assms(2)] ran_def ref_matches_def matchesQuery_satisfies split: option.splits)
qed

lemma registry_Discover_limited:
  "registry_Discover ks q rg =
     limited (q_Limit q) (filter (ref_matches rg q) (range_values (rg_services rg) ks))"
  by (simp add: registry_Discover_def discover_loop_spec)

section \<open>The health check\<close>

definition stamp :: "Time \<Rightarrow> ServiceInfo \<Rightarrow> ServiceInfo" where
  "stamp now info = (if now - si_LastHealthCheck info > si_HealthCheckInterval info
                     then info\<lparr>si_LastHealthCheck := now\<rparr> else info)"

lemma health_step:
  assumes "rg_ok rg" "rg_services rg n = Some r" "rg_heap rg r = Some info"
  shows "snd (registry_UpdateStatus now (info_name info) (si_Status info) rg) =
     set_info r (info\<lparr>si_LastHealthCheck := now\<rparr>) rg"
proof -
  have "info_name info = n"
    using assms services_ok_get [of "rg_heap rg" "rg_alloc rg" "rg_services rg" n r]
    by (auto simp: rg_ok_def info_ok_def)
  with assms show ?thesis by (simp add: registry_UpdateStatus_def Let_def)
qed

lemma rg_ok_stamp:
  assumes "rg_ok rg" "rg_heap rg r = Some info"
  shows "rg_ok (set_info r (info\<lparr>si_LastHealthCheck := now\<rparr>) rg)"
  using assms services_ok_update [of "rg_heap rg" "rg_alloc rg" "rg_services rg" r info]
  by (simp add: rg_ok_def info_ok_def info_name_def)

lemma health_loop_spec:
  assumes "rg_ok rg" "distinct rs" "\<forall>r \<in> set rs. \<exists>n. rg_services rg n = Some r"
  shows "health_loop now rs rg =
     rg\<lparr>rg_heap := (\<lambda>r. if r \<in> set rs then map_option (stamp now) (rg_heap rg r) else rg_heap rg r)\<rparr>"
  using assms
proof (induction rs arbitrary: rg)
  case (Cons r rs)
  obtain n where n: "rg_services rg n = Some r" using Cons.prems(3) by auto
  with Cons.prems(1) obtain info where info: "rg_heap rg r = Some info"
    by (auto simp: rg_ok_def elim: services_ok_get)
  define rg1 where "rg1 = set_info r (stamp now info) rg"
  have "health_loop now (r # rs) rg = health_loop now rs rg1"
    using health_step [OF Cons.prems(1) n info, of now] info
    by (simp add: rg1_def stamp_def fun_upd_idem)
  moreover have "rg_ok rg1"
    using rg_ok_stamp [OF Cons.prems(1) info, of now] Cons.prems(1) info
    by (simp add: rg1_def stamp_def fun_upd_idem)
  moreover have "\<forall>r \<in> set rs. \<exists>n. rg_services rg1 n = Some r" using Cons.prems(3) by (simp add: rg1_def)
  ultimately show ?case
    using Cons.IH [of rg1] Cons.prems(2) info by (auto simp: rg1_def fun_eq_iff)
qed simp

section \<open>A registry for the witnesses\<close>

definition demo_info :: "string \<Rightarrow> ServiceInfo" where
  "demo_info n = \<lparr>si_Handle = Some \<lparr>h_ID = 1, h_ActorID = 1, h_Name = n, h_Node = 1, h_IsLocal = True\<rparr>,
     si_Description = [], si_Version = ''1'', si_Tags = [''x''], si_Status = 0, si_Metadata = None,
     si_RegisteredAt = 0, si_LastHealthCheck = 0, si_HealthCheckInterval = 0\<rparr>"

definition demo_registry :: registry where
  "demo_registry = snd (registry_Register 5 (Some 0) (snd (new_info (demo_info ''db'') (snd (registry_Watch NewServiceRegistry)))))"

definition demo_query :: ServiceQuery where
  "demo_query = \<lparr>q_Name = [], q_Pattern = [], q_Tags = [''x''], q_Status = [ServiceStatusHealthy],
     q_Metadata = [], q_Node = 1, q_Limit = 0\<rparr>"

lemma demo_registry_facts:
  shows "rg_reachable demo_registry" and "range_order (rg_services demo_registry) [''db'']"
    and "rg_services demo_registry = [''db'' \<mapsto> 0]" and "rg_alloc demo_registry = 1"
    and "rg_heap demo_registry 0 = Some (registry_defaults 5 (demo_info ''db''))"
proof -
  have "rg_reachable (snd (new_info (demo_info ''db'') (snd (registry_Watch NewServiceRegistry))))"
    by (intro rg_reachable.new_info rg_reachable.watch rg_reachable.new)
  from rg_reachable.register [OF this prod.collapse [symmetric]] show "rg_reachable demo_registry"
    unfolding demo_registry_def .
qed (simp_all add: demo_registry_def registry_Register_def new_info_def registry_Watch_def
  NewServiceRegistry_def demo_info_def Let_def range_order_def)

section \<open>Properties\<close>



text \<open>
  Registering a record under a free name makes \<^verbatim>\<open>Get\<close> return that very pointer,
  the record then carries the defaults and is otherwise unchanged, other names resolve as
  before, a second registration under the name is refused, and unregistering removes the name.
\<close>

theorem register_get_unregister:
  assumes "rg_reachable rg" and "rg_heap rg r = Some info" and "si_Handle info = Some h"
    and "h_Name h \<noteq> []" and "rg_services rg (h_Name h) = None"
  shows "\<exists>rg1 rg2. registry_Register now (Some r) rg = (Inr (), rg1) \<and>
     registry_Get (h_Name h) rg1 = Inr r \<and> rg_heap rg1 r = Some (registry_defaults now info) \<and>
     (\<forall>n. n \<noteq> h_Name h \<longrightarrow> registry_Get n rg1 = registry_Get n rg) \<and>
     (\<forall>r' info' h'. rg_heap rg1 r' = Some info' \<longrightarrow> si_Handle info' = Some h' \<longrightarrow> h_Name h' = h_Name h \<longrightarrow>
        registry_Register now' (Some r') rg1 = (Inl (ServiceAlreadyRegistered (h_Name h)), rg1)) \<and>
     registry_Unregister now' (h_Name h) rg1 = (Inr (), rg2) \<and> rg_services rg2 = rg_services rg"
proof -
  define rg1 where "rg1 = snd (registry_Register now (Some r) rg)"
  have reg: "registry_Register now (Some r) rg = (Inr (), rg1)"
    using assms by (simp add: registry_Register_def rg1_def)
  from reg have rg1: "rg_services rg1 = (rg_services rg)(h_Name h \<mapsto> r)"
    "rg_heap rg1 = (rg_heap rg)(r \<mapsto> registry_defaults now info)"
    using assms by (auto simp: registry_Register_def)
  show ?thesis
    using reg assms(4,5) rg1
    by (auto simp: registry_Get_def registry_Unregister_def registry_Register_def fun_upd_idem rg1
        split: if_splits)
qed

theorem register_get_unregister_witness:
  "\<exists>rg1. registry_Register 7 (Some 1) (snd (new_info (demo_info ''log'') demo_registry)) = (Inr (), rg1) \<and>
     registry_Get ''log'' rg1 = Inr 1"
proof -
  let ?rg = "snd (new_info (demo_info ''log'') demo_registry)"
  have pre: "rg_heap ?rg 1 = Some (demo_info ''log'')" "rg_services ?rg ''log'' = None"
    by (simp_all add: new_info_def demo_registry_facts(3,4))
  have h: "si_Handle (demo_info ''log'') = Some \<lparr>h_ID = 1, h_ActorID = 1, h_Name = ''log'', h_Node = 1, h_IsLocal = True\<rparr>"
    by (simp add: demo_info_def)
  from register_get_unregister [OF rg_reachable.new_info [OF demo_registry_facts(1)] pre(1) h, of 7 0] pre(2)
  show ?thesis by (simp add: Handle.simps) blast
qed

text \<open>The events that an operation appends to a watcher with room.\<close>

definition appended :: "registry \<Rightarrow> ServiceEvent list \<Rightarrow> registry \<Rightarrow> bool" where
  "appended rg evs rg' \<longleftrightarrow>
     (\<forall>i c. rg_watchers rg i = Some c \<longrightarrow> (\<exists>c'. rg_watchers rg' i = Some c' \<and>
        ch_buf c' = (if length (ch_buf c) < 100 then ch_buf c @ evs else ch_buf c)))"

lemma appended_notify:
  assumes "watchers_ok (rg_watchers rg)" "rg_watchers rg1 = rg_watchers rg"
  shows "appended rg [ev] (notifyWatchers ev rg1)"
  using assms by (auto simp: appended_def notifyWatchers_def watchers_ok_def offer_buf)

lemma appended_none: "rg_watchers rg' = rg_watchers rg \<Longrightarrow> appended rg [] rg'"
  by (simp add: appended_def)

text \<open>
  Every watcher learns of each successful change exactly once and in order as
  long as it has room: registering, unregistering, changing the metadata and changing the
  status to a different value append one event of the matching type to its buffer; a failing
  operation and an update to the same status append nothing. A watcher with 100 unread events
  loses the event.
\<close>

theorem watchers_see_changes:
  assumes "rg_reachable rg"
  shows "(registry_Register now (Some r) rg = (Inr (), rg') \<longrightarrow>
            appended rg [\<lparr>ev_Type = ServiceEventRegister, ev_Service = r, ev_Timestamp = now\<rparr>] rg') \<and>
     (rg_services rg n = Some r \<longrightarrow>
        appended rg [\<lparr>ev_Type = ServiceEventUnregister, ev_Service = r, ev_Timestamp = now\<rparr>]
          (snd (registry_Unregister now n rg)) \<and>
        appended rg [\<lparr>ev_Type = ServiceEventMetadataChange, ev_Service = r, ev_Timestamp = now\<rparr>]
          (snd (registry_UpdateMetadata now n md rg)) \<and>
        appended rg (if map_option si_Status (rg_heap rg r) = Some st then []
                     else [\<lparr>ev_Type = ServiceEventStatusChange, ev_Service = r, ev_Timestamp = now\<rparr>])
          (snd (registry_UpdateStatus now n st rg))) \<and>
     (rg_services rg n = None \<longrightarrow>
        snd (registry_Unregister now n rg) = rg \<and> snd (registry_UpdateMetadata now n md rg) = rg \<and>
        snd (registry_UpdateStatus now n st rg) = rg) \<and>
     (registry_Register now p rg = (Inl e, rg') \<longrightarrow> rg' = rg)"
proof (intro conjI impI)
  have ok: "rg_ok rg" using assms by (rule rg_reachable_ok)
  then have w: "watchers_ok (rg_watchers rg)" by (simp add: rg_ok_def)
  show "appended rg [\<lparr>ev_Type = ServiceEventRegister, ev_Service = r, ev_Timestamp = now\<rparr>] rg'"
    if "registry_Register now (Some r) rg = (Inr (), rg')"
    using that by (rule registry_Register_Inr) (auto intro!: appended_notify [OF w])
  fix n assume n: "rg_services rg n = Some r"
  then obtain info where info: "rg_heap rg r = Some info"
    using ok by (auto simp: rg_ok_def elim: services_ok_get)
  show "appended rg [\<lparr>ev_Type = ServiceEventUnregister, ev_Service = r, ev_Timestamp = now\<rparr>]
          (snd (registry_Unregister now n rg))"
    "appended rg [\<lparr>ev_Type = ServiceEventMetadataChange, ev_Service = r, ev_Timestamp = now\<rparr>]
          (snd (registry_UpdateMetadata now n md rg))"
    "appended rg (if map_option si_Status (rg_heap rg r) = Some st then []
                     else [\<lparr>ev_Type = ServiceEventStatusChange, ev_Service = r, ev_Timestamp = now\<rparr>])
          (snd (registry_UpdateStatus now n st rg))"
    using n info
    by (simp_all add: registry_Unregister_def registry_UpdateMetadata_def registry_UpdateStatus_def Let_def
        appended_notify [OF w] appended_none)
qed (auto simp: registry_error_same registry_Unregister_def registry_UpdateMetadata_def registry_UpdateStatus_def)

theorem watchers_see_changes_witness:
  "appended demo_registry [\<lparr>ev_Type = ServiceEventUnregister, ev_Service = 0, ev_Timestamp = 9\<rparr>]
     (snd (registry_Unregister 9 ''db'' demo_registry))"
proof -
  have "rg_services demo_registry ''db'' = Some 0" by (simp add: demo_registry_facts(3))
  with watchers_see_changes [OF demo_registry_facts(1), of 9 0 demo_registry "''db''" "[]" 0 None InvalidServiceInfo]
  show ?thesis by blast
qed

text \<open>
  The periodic health check never reports anything: whatever is registered, it
  changes no status, no metadata and no registration and sends no event; all it does is stamp
  the time on the records whose interval has passed.
\<close>

theorem health_checks_only_stamp:
  assumes "rg_reachable rg" and "range_order (rg_services rg) ks"
  shows "rg_services (performHealthChecks now ks rg) = rg_services rg \<and>
     rg_watchers (performHealthChecks now ks rg) = rg_watchers rg \<and>
     (\<forall>n r info. rg_services rg n = Some r \<longrightarrow> rg_heap rg r = Some info \<longrightarrow>
        rg_heap (performHealthChecks now ks rg) r =
          Some (if now - si_LastHealthCheck info > si_HealthCheckInterval info
                then info\<lparr>si_LastHealthCheck := now\<rparr> else info))"
proof -
  let ?rs = "range_values (rg_services rg) ks"
  have ok: "rg_ok rg" using assms(1) by (rule rg_reachable_ok)
  then have so: "services_ok (rg_heap rg) (rg_alloc rg) (rg_services rg)" by (simp add: rg_ok_def)
  have d: "distinct ?rs"
    using range_orderD(1) [OF assms(2)] services_ok_inj [OF so] by (intro distinct_range_values) auto
  have r: "\<forall>r \<in> set ?rs. \<exists>n. rg_services rg n = Some r" "\<And>n r. rg_services rg n = Some r \<Longrightarrow> r \<in> set ?rs"
    by (auto simp: set_range_values [OF assms(2)] ran_def)
  show ?thesis
    using r(2) unfolding performHealthChecks_def health_loop_spec [OF ok d r(1)] by (auto simp: stamp_def)
qed

theorem health_checks_only_stamp_witness:
  "rg_watchers (performHealthChecks 9 [''db''] demo_registry) = rg_watchers demo_registry"
  using health_checks_only_stamp [OF demo_registry_facts(1) demo_registry_facts(2)] by simp

end
