(* ===== verification/Discovery.thy ===== *)
theory Discovery
  imports Registry
begin

text \<open>
  The load balancer and the service discovery facade of \<^verbatim>\<open>core/service_discovery.go\<close>. A
  service is a reference into the registry's heap; its status and name are read through the
  heap, as the code reads them through the pointer. The indices are Go's 64-bit \<^verbatim>\<open>int\<close>s, so
  they wrap and an index that has become negative panics. The number that the random
  generator produces is an argument. The floating-point weight
  \<^verbatim>\<open>int(successRate * responseTimeFactor * 10)\<close> is a parameter \<open>raw_weight\<close>; the clamping to
  the range 1 to 100 is the code's. The floating-point gauges of \<^verbatim>\<open>ServiceMetrics\<close>, which
  nothing reads, are left out.
\<close>

section \<open>Data\<close>

type_synonym LoadBalanceStrategy = u8

definition StrategyRoundRobin :: LoadBalanceStrategy where "StrategyRoundRobin = 0"
definition StrategyRandom :: LoadBalanceStrategy where "StrategyRandom = 1"
definition StrategyLeastConnections :: LoadBalanceStrategy where "StrategyLeastConnections = 2"
definition StrategyWeightedRoundRobin :: LoadBalanceStrategy where "StrategyWeightedRoundRobin = 3"
definition StrategyConsistentHash :: LoadBalanceStrategy where "StrategyConsistentHash = 4"

lemmas Strategy_defs = StrategyRoundRobin_def StrategyRandom_def StrategyLeastConnections_def
  StrategyWeightedRoundRobin_def StrategyConsistentHash_def

definition LoadBalanceStrategy_String :: "LoadBalanceStrategy \<Rightarrow> string" where
  "LoadBalanceStrategy_String s =
     (if s = StrategyRoundRobin then ''round_robin''
      else if s = StrategyRandom then ''random''
      else if s = StrategyLeastConnections then ''least_connections''
      else if s = StrategyWeightedRoundRobin then ''weighted_round_robin''
      else if s = StrategyConsistentHash then ''consistent_hash''
      else ''unknown'')"

record ServiceMetrics =
  mt_ActiveConnections :: u64
  mt_TotalRequests :: u64
  mt_FailedRequests :: u64
  mt_AverageResponseTime :: Duration
  mt_LastUpdated :: Time

record weightedService =
  ws_Service :: info_ref
  ws_Weight :: int

record loadBalancer =
  lb_strategy :: LoadBalanceStrategy
  lb_roundRobinIndex :: u64
  lb_metrics :: "string \<rightharpoonup> ServiceMetrics"
  lb_weightedServices :: "weightedService list"
  lb_weightedIndex :: u64

type_synonym info_heap = "info_ref \<rightharpoonup> ServiceInfo"

definition status_of :: "info_heap \<Rightarrow> info_ref \<Rightarrow> ServiceStatus" where
  "status_of heap r = (case heap r of Some info \<Rightarrow> si_Status info | None \<Rightarrow> ServiceStatusUnknown)"

definition name_of :: "info_heap \<Rightarrow> info_ref \<Rightarrow> string" where
  "name_of heap r = (case heap r of Some info \<Rightarrow> info_name info | None \<Rightarrow> [])"

datatype SelectError = NoServices | NoHealthyServices | DiscoverNotFound string

section \<open>The load balancer\<close>

definition NewLoadBalancer :: "LoadBalanceStrategy \<Rightarrow> loadBalancer" where
  "NewLoadBalancer strategy =
     \<lparr>lb_strategy = strategy, lb_roundRobinIndex = 0, lb_metrics = Map.empty,
      lb_weightedServices = [], lb_weightedIndex = 0\<rparr>"

text \<open>\<^verbatim>\<open>xs[i % len(xs)]\<close> with Go's truncated remainder: \<open>None\<close> is an index out of range.\<close>

definition rem_index :: "u64 \<Rightarrow> nat \<Rightarrow> nat option" where
  "rem_index i n = (if sint i \<ge> 0 then Some (nat (sint i mod int n))
                    else if (- sint i) mod int n = 0 then Some 0 else None)"

definition filterHealthyServices :: "info_heap \<Rightarrow> info_ref list \<Rightarrow> info_ref list" where
  "filterHealthyServices heap services = filter (\<lambda>r. status_of heap r = ServiceStatusHealthy) services"

definition selectRoundRobin :: "info_ref list \<Rightarrow> loadBalancer \<Rightarrow> info_ref option \<times> loadBalancer" where
  "selectRoundRobin services lb =
     (case rem_index (lb_roundRobinIndex lb) (length services) of
        None \<Rightarrow> (None, lb)
      | Some i \<Rightarrow> (Some (services ! i), lb\<lparr>lb_roundRobinIndex := lb_roundRobinIndex lb + 1\<rparr>))"

definition selectRandom :: "nat \<Rightarrow> info_ref list \<Rightarrow> info_ref" where
  "selectRandom rnd services = services ! (rnd mod length services)"

definition connections_of :: "info_heap \<Rightarrow> loadBalancer \<Rightarrow> info_ref \<Rightarrow> int" where
  "connections_of heap lb r =
     (case lb_metrics lb (name_of heap r) of None \<Rightarrow> 0 | Some m \<Rightarrow> sint (mt_ActiveConnections m))"

fun least_loop :: "info_heap \<Rightarrow> loadBalancer \<Rightarrow> int \<Rightarrow> info_ref \<Rightarrow> info_ref list \<Rightarrow> info_ref" where
  "least_loop heap lb bestConnections bestService [] = bestService"
| "least_loop heap lb bestConnections bestService (r # rs) =
     (if connections_of heap lb r < bestConnections
      then least_loop heap lb (connections_of heap lb r) r rs
      else least_loop heap lb bestConnections bestService rs)"

definition selectLeastConnections :: "info_heap \<Rightarrow> loadBalancer \<Rightarrow> info_ref list \<Rightarrow> info_ref" where
  "selectLeastConnections heap lb services = least_loop heap lb (2 ^ 63 - 1) (services ! 0) services"

definition getServiceWeight :: "(ServiceMetrics \<Rightarrow> int) \<Rightarrow> info_heap \<Rightarrow> loadBalancer \<Rightarrow> info_ref \<Rightarrow> int" where
  "getServiceWeight raw_weight heap lb r =
     (case lb_metrics lb (name_of heap r) of
        None \<Rightarrow> 1
      | Some m \<Rightarrow> if raw_weight m < 1 then 1 else if raw_weight m > 100 then 100 else raw_weight m)"

definition buildWeightedServices ::
  "(ServiceMetrics \<Rightarrow> int) \<Rightarrow> info_heap \<Rightarrow> info_ref list \<Rightarrow> loadBalancer \<Rightarrow> loadBalancer" where
  "buildWeightedServices raw_weight heap services lb =
     lb\<lparr>lb_weightedServices :=
          concat (map (\<lambda>r. let w = getServiceWeight raw_weight heap lb r
                           in replicate (nat w) \<lparr>ws_Service = r, ws_Weight = w\<rparr>) services)\<rparr>"

definition selectWeightedRoundRobin ::
  "(ServiceMetrics \<Rightarrow> int) \<Rightarrow> info_heap \<Rightarrow> info_ref list \<Rightarrow> loadBalancer \<Rightarrow> info_ref option \<times> loadBalancer" where
  "selectWeightedRoundRobin raw_weight heap services lb =
     (let lb1 = (if length (lb_weightedServices lb) \<noteq> length services
                 then buildWeightedServices raw_weight heap services lb else lb)
      in if lb_weightedServices lb1 = [] then (Some (services ! 0), lb1)
         else case rem_index (lb_weightedIndex lb1) (length (lb_weightedServices lb1)) of
                None \<Rightarrow> (None, lb1)
              | Some i \<Rightarrow> (Some (ws_Service (lb_weightedServices lb1 ! i)),
                           lb1\<lparr>lb_weightedIndex := lb_weightedIndex lb1 + 1\<rparr>))"

fun to_outcome :: "info_ref option \<times> loadBalancer \<Rightarrow> (SelectError, info_ref) outcome \<times> loadBalancer" where
  "to_outcome (Some r, lb) = (Ok r, lb)"
| "to_outcome (None, lb) = (Panic, lb)"

definition lb_Select ::
  "(ServiceMetrics \<Rightarrow> int) \<Rightarrow> nat \<Rightarrow> info_heap \<Rightarrow> info_ref list \<Rightarrow> loadBalancer \<Rightarrow>
     (SelectError, info_ref) outcome \<times> loadBalancer" where
  "lb_Select raw_weight rnd heap services lb =
     (if services = [] then (Err NoServices, lb)
      else
        let healthy = filterHealthyServices heap services
        in if healthy = [] then (Err NoHealthyServices, lb)
           else if lb_strategy lb = StrategyRoundRobin then to_outcome (selectRoundRobin healthy lb)
           else if lb_strategy lb = StrategyRandom then (Ok (selectRandom rnd healthy), lb)
           else if lb_strategy lb = StrategyLeastConnections
           then (Ok (selectLeastConnections heap lb healthy), lb)
           else if lb_strategy lb = StrategyWeightedRoundRobin
           then to_outcome (selectWeightedRoundRobin raw_weight heap healthy lb)
           else if lb_strategy lb = StrategyConsistentHash then (Ok (selectRandom rnd healthy), lb)
           else (Ok (healthy ! 0), lb))"

definition lb_UpdateMetrics :: "Time \<Rightarrow> string \<Rightarrow> ServiceMetrics \<Rightarrow> loadBalancer \<Rightarrow> loadBalancer" where
  "lb_UpdateMetrics now serviceID metrics lb =
     lb\<lparr>lb_metrics := (lb_metrics lb)(serviceID \<mapsto> metrics\<lparr>mt_LastUpdated := now\<rparr>)\<rparr>"

section \<open>Service discovery\<close>

record ServiceRegistrationInfo =
  ri_Description :: string
  ri_Version :: string
  ri_Tags :: "string list"
  ri_Metadata :: "(string \<rightharpoonup> string) option"
  ri_HealthCheckInterval :: Duration

record serviceDiscovery =
  sd_registry :: registry
  sd_loadBalancer :: loadBalancer

definition NewServiceDiscovery :: serviceDiscovery where
  "NewServiceDiscovery =
     \<lparr>sd_registry = NewServiceRegistry, sd_loadBalancer = NewLoadBalancer StrategyRoundRobin\<rparr>"

definition sd_RegisterService ::
  "Time \<Rightarrow> Handle option \<Rightarrow> ServiceRegistrationInfo \<Rightarrow> serviceDiscovery \<Rightarrow>
     (RegistryError + unit) \<times> serviceDiscovery" where
  "sd_RegisterService now handle info sd =
     (let serviceInfo =
            \<lparr>si_Handle = handle, si_Description = ri_Description info, si_Version = ri_Version info,
             si_Tags = ri_Tags info, si_Status = ServiceStatusHealthy, si_Metadata = ri_Metadata info,
             si_RegisteredAt = now, si_LastHealthCheck = 0,
             si_HealthCheckInterval =
               (if ri_HealthCheckInterval info = 0 then 30 * Second else ri_HealthCheckInterval info)\<rparr>
      in case new_info serviceInfo (sd_registry sd) of
           (r, rg) \<Rightarrow> (case registry_Register now (Some r) rg of
                          (res, rg') \<Rightarrow> (res, sd\<lparr>sd_registry := rg'\<rparr>)))"

definition sd_UnregisterService ::
  "Time \<Rightarrow> string \<Rightarrow> serviceDiscovery \<Rightarrow> (RegistryError + unit) \<times> serviceDiscovery" where
  "sd_UnregisterService now name sd =
     (case registry_Unregister now name (sd_registry sd) of (res, rg) \<Rightarrow> (res, sd\<lparr>sd_registry := rg\<rparr>))"

definition name_query :: "string \<Rightarrow> ServiceQuery" where
  "name_query name = \<lparr>q_Name = name, q_Pattern = [], q_Tags = [], q_Status = [], q_Metadata = [],
                      q_Node = 0, q_Limit = 0\<rparr>"

definition sd_DiscoverService ::
  "(ServiceMetrics \<Rightarrow> int) \<Rightarrow> nat \<Rightarrow> string list \<Rightarrow> string \<Rightarrow> serviceDiscovery \<Rightarrow>
     (SelectError, info_ref) outcome \<times> serviceDiscovery" where
  "sd_DiscoverService raw_weight rnd ks name sd =
     (let services = registry_Discover ks (name_query name) (sd_registry sd)
      in if services = [] then (Err (DiscoverNotFound name), sd)
         else case lb_Select raw_weight rnd (rg_heap (sd_registry sd)) services (sd_loadBalancer sd) of
                (res, lb) \<Rightarrow> (res, sd\<lparr>sd_loadBalancer := lb\<rparr>))"

definition sd_DiscoverServices :: "string list \<Rightarrow> ServiceQuery \<Rightarrow> serviceDiscovery \<Rightarrow> info_ref list" where
  "sd_DiscoverServices ks query sd = registry_Discover ks query (sd_registry sd)"

definition sd_UpdateServiceHealth ::
  "Time \<Rightarrow> string \<Rightarrow> ServiceStatus \<Rightarrow> serviceDiscovery \<Rightarrow> (RegistryError + unit) \<times> serviceDiscovery" where
  "sd_UpdateServiceHealth now name status sd =
     (case registry_UpdateStatus now name status (sd_registry sd) of (res, rg) \<Rightarrow> (res, sd\<lparr>sd_registry := rg\<rparr>))"

definition sd_UpdateServiceMetrics :: "Time \<Rightarrow> string \<Rightarrow> ServiceMetrics \<Rightarrow> serviceDiscovery \<Rightarrow> serviceDiscovery" where
  "sd_UpdateServiceMetrics now name metrics sd =
     sd\<lparr>sd_loadBalancer := lb_UpdateMetrics now name metrics (sd_loadBalancer sd)\<rparr>"

definition sd_SetLoadBalanceStrategy :: "LoadBalanceStrategy \<Rightarrow> serviceDiscovery \<Rightarrow> serviceDiscovery" where
  "sd_SetLoadBalanceStrategy strategy sd = sd\<lparr>sd_loadBalancer := NewLoadBalancer strategy\<rparr>"

section \<open>Selection\<close>

lemma rem_index_less: "0 < n \<Longrightarrow> rem_index i n = Some k \<Longrightarrow> k < n"
  by (auto simp: rem_index_def nat_less_iff split: if_splits)

lemma rem_index_nonneg: "0 \<le> sint i \<Longrightarrow> rem_index i n = Some (nat (sint i) mod n)"
  by (simp add: rem_index_def nat_mod_distrib)

lemma least_loop_in: "least_loop heap lb c b rs \<in> insert b (set rs)"
  by (induction heap lb c b rs rule: least_loop.induct) auto

lemma least_loop_min:
  assumes "connections_of heap lb b = c" "r \<in> insert b (set rs)"
  shows "connections_of heap lb (least_loop heap lb c b rs) \<le> connections_of heap lb r"
  using assms
proof (induction heap lb c b rs arbitrary: r rule: least_loop.induct)
  case (2 heap lb c b x xs)
  show ?case
  proof (cases "connections_of heap lb x < c")
    case True
    with 2(1) [OF True refl, of x] 2(1) [OF True refl, of r] 2(3,4) show ?thesis by auto
  next
    case False
    with 2(2) [OF False 2(3), of b] 2(2) [OF False 2(3), of r] 2(3,4) show ?thesis by auto
  qed
qed simp

lemma connections_le: "connections_of heap lb r \<le> 2 ^ 63 - 1"
proof -
  have "sint (w :: u64) \<le> 2 ^ 63 - 1" for w using sint_lt [of w] by simp
  then show ?thesis by (simp add: connections_of_def split: option.split)
qed

lemma selectLeastConnections_min:
  assumes "r \<in> set services"
  shows "connections_of heap lb (selectLeastConnections heap lb services) \<le> connections_of heap lb r"
proof -
  obtain x xs where s: "services = x # xs" using assms by (cases services) auto
  have "selectLeastConnections heap lb services = least_loop heap lb (connections_of heap lb x) x xs"
    using connections_le [of heap lb x] by (auto simp: selectLeastConnections_def s)
  with least_loop_min [of heap lb x "connections_of heap lb x" r xs] assms s show ?thesis by simp
qed

lemma selectLeastConnections_in: "services \<noteq> [] \<Longrightarrow> selectLeastConnections heap lb services \<in> set services"
  using least_loop_in [of heap lb "2 ^ 63 - 1" "services ! 0" services]
  by (cases services) (auto simp: selectLeastConnections_def)

lemma set_filterHealthy:
  "set (filterHealthyServices heap services) = {r \<in> set services. status_of heap r = ServiceStatusHealthy}"
  by (auto simp: filterHealthyServices_def)

section \<open>Properties of the load balancer\<close>

text \<open>
  Whatever the strategy other than the weighted one, a selection fails exactly
  when no candidate is healthy and otherwise yields one of the candidates that are healthy
  now, as long as fewer than \<open>2 ^ 63\<close> selections were made; the least-connections strategy
  yields one with the fewest connections.
\<close>

theorem select_healthy_candidate:
  assumes "lb_strategy lb \<noteq> StrategyWeightedRoundRobin" and "0 \<le> sint (lb_roundRobinIndex lb)"
    and "services \<noteq> []"
  shows "(fst (lb_Select raw_weight rnd heap services lb) = Err NoHealthyServices \<longleftrightarrow>
            (\<forall>r \<in> set services. status_of heap r \<noteq> ServiceStatusHealthy)) \<and>
     ((\<exists>r \<in> set services. status_of heap r = ServiceStatusHealthy) \<longrightarrow>
        (\<exists>s lb'. lb_Select raw_weight rnd heap services lb = (Ok s, lb') \<and> s \<in> set services \<and>
           status_of heap s = ServiceStatusHealthy \<and>
           (lb_strategy lb = StrategyLeastConnections \<longrightarrow>
              (\<forall>r \<in> set services. status_of heap r = ServiceStatusHealthy \<longrightarrow>
                 connections_of heap lb s \<le> connections_of heap lb r))))"
proof -
  let ?h = "filterHealthyServices heap services"
  show ?thesis
  proof (cases "?h = []")
    case True
    then have "\<forall>r \<in> set services. status_of heap r \<noteq> ServiceStatusHealthy"
      by (auto simp: filterHealthyServices_def filter_empty_conv)
    with True assms(3) show ?thesis by (auto simp: lb_Select_def)
  next
    case False
    then have ex: "\<exists>r \<in> set services. status_of heap r = ServiceStatusHealthy"
      by (auto simp: filterHealthyServices_def filter_empty_conv)
    have "\<exists>s lb'. lb_Select raw_weight rnd heap services lb = (Ok s, lb') \<and> s \<in> set ?h \<and>
        (lb_strategy lb = StrategyLeastConnections \<longrightarrow> s = selectLeastConnections heap lb ?h)"
      using assms False
      by (auto simp: lb_Select_def Let_def selectRoundRobin_def rem_index_nonneg selectRandom_def
          selectLeastConnections_in Strategy_defs)
    then obtain s lb' where s: "lb_Select raw_weight rnd heap services lb = (Ok s, lb')" "s \<in> set ?h"
        "lb_strategy lb = StrategyLeastConnections \<longrightarrow> s = selectLeastConnections heap lb ?h" by blast
    with ex show ?thesis
      using selectLeastConnections_min [of _ ?h heap lb] by (auto simp: set_filterHealthy)
  qed
qed

theorem select_healthy_candidate_witness:
  "\<exists>s lb'. lb_Select (\<lambda>m. 0) 0 (rg_heap demo_registry) [0] (NewLoadBalancer StrategyRandom) = (Ok s, lb') \<and> s = 0"
proof -
  have "status_of (rg_heap demo_registry) 0 = ServiceStatusHealthy"
    by (simp add: status_of_def demo_registry_facts(5) registry_defaults_def demo_info_def ServiceStatus_defs)
  with select_healthy_candidate [of "NewLoadBalancer StrategyRandom" "[0]" "\<lambda>m. 0" 0 "rg_heap demo_registry"]
  show ?thesis by (auto simp: NewLoadBalancer_def Strategy_defs)
qed

text \<open>The services that a run of \<open>k\<close> selections over the same candidates yields.\<close>

primrec round_robin_run :: "nat \<Rightarrow> info_ref list \<Rightarrow> loadBalancer \<Rightarrow> info_ref option list" where
  "round_robin_run 0 services lb = []"
| "round_robin_run (Suc k) services lb =
     (case selectRoundRobin services lb of (r, lb') \<Rightarrow> r # round_robin_run k services lb')"

lemma sint_plus_one:
  assumes "0 \<le> sint (i :: u64)" "sint i + 1 < 2 ^ 63" shows "sint (i + 1) = sint i + 1"
  using assms by (simp add: sint_word_ariths signed_take_bit_int_eq_self)

lemma round_robin_run_nth:
  assumes "services \<noteq> []" and "0 \<le> sint (lb_roundRobinIndex lb)"
    and "sint (lb_roundRobinIndex lb) + int k < 2 ^ 63"
  shows "round_robin_run k services lb =
     map (\<lambda>j. Some (services ! ((nat (sint (lb_roundRobinIndex lb)) + j) mod length services))) [0..<k]"
  using assms(2,3)
proof (induction k arbitrary: lb)
  case (Suc k)
  let ?i = "lb_roundRobinIndex lb"
  let ?lb = "lb\<lparr>lb_roundRobinIndex := ?i + 1\<rparr>"
  have i1: "sint (?i + 1) = sint ?i + 1" using Suc.prems by (intro sint_plus_one) auto
  have "round_robin_run (Suc k) services lb =
      Some (services ! (nat (sint ?i) mod length services)) # round_robin_run k services ?lb"
    using Suc.prems(1) by (simp add: selectRoundRobin_def rem_index_nonneg)
  also have "round_robin_run k services ?lb =
      map (\<lambda>j. Some (services ! ((nat (sint ?i + 1) + j) mod length services))) [0..<k]"
    using Suc.IH [of ?lb] Suc.prems i1 by simp
  also have "nat (sint ?i + 1) = Suc (nat (sint ?i))" using Suc.prems(1) by (simp add: nat_add_distrib)
  finally show ?case
    by (simp add: map_upt_Suc del: upt_Suc)
qed simp

text \<open>
  Round robin is fair: as long as the index stays below \<open>2 ^ 63\<close>, any \<open>n\<close>
  consecutive selections over the same \<open>n\<close> candidates yield each of them exactly once, in
  their order, starting where the previous selection left off.
\<close>

theorem round_robin_fair:
  assumes "services \<noteq> []" and "0 \<le> sint (lb_roundRobinIndex lb)"
    and "sint (lb_roundRobinIndex lb) + int (length services) < 2 ^ 63"
  shows "round_robin_run (length services) services lb =
     map Some (rotate (nat (sint (lb_roundRobinIndex lb))) services)"
  unfolding round_robin_run_nth [OF assms]
  by (rule nth_equalityI) (simp_all add: nth_rotate)

theorem round_robin_fair_witness:
  "round_robin_run 3 [5, 6, 7] ((NewLoadBalancer 0)\<lparr>lb_roundRobinIndex := 4\<rparr>) = [Some 6, Some 7, Some 5]"
  using round_robin_fair [of "[5, 6, 7]" "(NewLoadBalancer 0)\<lparr>lb_roundRobinIndex := 4\<rparr>"]
  by (simp add: rotate_def numeral_eq_Suc)


section \<open>Properties of service discovery\<close>

text \<open>Names are unique in the registry, so looking a name up finds at most one instance.\<close>

lemma distinct_set_single: "distinct xs \<Longrightarrow> set xs = {r} \<Longrightarrow> xs = [r]"
proof (cases xs)
  case (Cons x ys)
  assume "distinct xs" "set xs = {r}"
  with Cons show ?thesis by (cases ys) auto
qed auto

lemma discover_name:
  assumes "rg_ok rg" and "range_order (rg_services rg) ks" and "name \<noteq> []"
  shows "registry_Discover ks (name_query name) rg =
     (case rg_services rg name of None \<Rightarrow> [] | Some r \<Rightarrow> [r])"
proof -
  let ?xs = "registry_Discover ks (name_query name) rg"
  have so: "services_ok (rg_heap rg) (rg_alloc rg) (rg_services rg)" using assms(1) by (simp add: rg_ok_def)
  have sat: "satisfies info (name_query name) \<longleftrightarrow> info_name info = name" for info
    using assms(3) by (simp add: satisfies_def name_query_def)
  have lim: "\<not> 0 < q_Limit (name_query name)" by (simp add: name_query_def)
  have xs: "distinct ?xs" "set ?xs = {r. \<exists>n info. rg_services rg n = Some r \<and> rg_heap rg r = Some info \<and> info_name info = name}"
    using discover_hits [OF assms(1,2), of "name_query name"] unfolding sat
    by (simp_all add: registry_Discover_limited limited_def lim)
  have nm: "(\<exists>info. rg_heap rg r = Some info \<and> info_name info = name) \<longleftrightarrow> n = name"
    if svc: "rg_services rg n = Some r" for n r
  proof -
    obtain info where "rg_heap rg r = Some info" "info_ok n info" by (rule services_ok_get [OF so svc])
    then show ?thesis by (simp add: info_ok_def)
  qed
  have "set ?xs = {r. rg_services rg name = Some r}" unfolding xs(2) using nm by blast
  then show ?thesis
    using distinct_set_single [OF xs(1)] by (cases "rg_services rg name") auto
qed

text \<open>
  With any strategy but the weighted one, discovering a service by name yields
  the record registered under that name if it is healthy, and otherwise the error that tells
  a missing service from an unhealthy one.
\<close>

theorem discover_service_by_name:
  assumes "rg_reachable (sd_registry sd)" and "range_order (rg_services (sd_registry sd)) ks"
    and "name \<noteq> []" and "lb_strategy (sd_loadBalancer sd) \<noteq> StrategyWeightedRoundRobin"
    and "0 \<le> sint (lb_roundRobinIndex (sd_loadBalancer sd))"
  shows "fst (sd_DiscoverService raw_weight rnd ks name sd) =
     (case registry_Get name (sd_registry sd) of
        Inl _ \<Rightarrow> Err (DiscoverNotFound name)
      | Inr r \<Rightarrow> if status_of (rg_heap (sd_registry sd)) r = ServiceStatusHealthy then Ok r
                 else Err NoHealthyServices)"
proof -
  note dn = discover_name [OF rg_reachable_ok [OF assms(1)] assms(2,3)]
  show ?thesis
    using assms(4,5)
    by (auto simp: sd_DiscoverService_def dn registry_Get_def lb_Select_def Let_def filterHealthyServices_def
        selectRoundRobin_def rem_index_nonneg selectRandom_def selectLeastConnections_def
        split: option.split prod.split)
qed

definition demo_discovery :: serviceDiscovery where
  "demo_discovery = \<lparr>sd_registry = demo_registry, sd_loadBalancer = NewLoadBalancer StrategyRoundRobin\<rparr>"

theorem discover_service_by_name_witness:
  "fst (sd_DiscoverService (\<lambda>m. 0) 0 [''db''] ''db'' demo_discovery) = Ok 0"
proof -
  have "status_of (rg_heap demo_registry) 0 = ServiceStatusHealthy"
    by (simp add: status_of_def demo_registry_facts(5) registry_defaults_def demo_info_def ServiceStatus_defs)
  with discover_service_by_name [of demo_discovery "[''db'']" "''db''" "\<lambda>m. 0" 0] demo_registry_facts(1,2)
  show ?thesis
    by (simp add: demo_discovery_def NewLoadBalancer_def Strategy_defs registry_Get_def demo_registry_facts(3))
qed

text \<open>
  The weighted strategy answers from a list it rebuilds only when the number of
  candidates differs from the length of the list: after one service has been discovered, the
  discovery of a different one, also registered and healthy, returns the first.
\<close>

theorem weighted_discovery_stale:
  assumes "rg_reachable (sd_registry sd)" and "range_order (rg_services (sd_registry sd)) ks"
    and "n1 \<noteq> []" and "n2 \<noteq> []"
    and "rg_services (sd_registry sd) n1 = Some r1" and "rg_services (sd_registry sd) n2 = Some r2"
    and "status_of (rg_heap (sd_registry sd)) r1 = ServiceStatusHealthy"
    and "status_of (rg_heap (sd_registry sd)) r2 = ServiceStatusHealthy"
  shows "\<exists>sd1. sd_DiscoverService raw_weight rnd ks n1
            (sd_SetLoadBalanceStrategy StrategyWeightedRoundRobin sd) = (Ok r1, sd1) \<and>
          fst (sd_DiscoverService raw_weight rnd ks n2 sd1) = Ok r1"
proof -
  note ok = rg_reachable_ok [OF assms(1)]
  show ?thesis
    using assms(5-8)
    by (simp add: sd_DiscoverService_def sd_SetLoadBalanceStrategy_def discover_name [OF ok assms(2,3)]
        discover_name [OF ok assms(2,4)] lb_Select_def Let_def filterHealthyServices_def Strategy_defs
        selectWeightedRoundRobin_def NewLoadBalancer_def buildWeightedServices_def getServiceWeight_def
        rem_index_def)
qed

definition demo_two :: registry where
  "demo_two = snd (registry_Register 7 (Some 1) (snd (new_info (demo_info ''log'') demo_registry)))"

theorem weighted_discovery_stale_witness:
  "\<exists>sd1. sd_DiscoverService (\<lambda>m. 0) 0 [''db'', ''log''] ''db''
       (sd_SetLoadBalanceStrategy StrategyWeightedRoundRobin (demo_discovery\<lparr>sd_registry := demo_two\<rparr>)) = (Ok 0, sd1) \<and>
     fst (sd_DiscoverService (\<lambda>m. 0) 0 [''db'', ''log''] ''log'' sd1) = Ok 0"
proof -
  have r: "rg_reachable demo_two"
    unfolding demo_two_def
    by (rule rg_reachable.register [OF rg_reachable.new_info [OF demo_registry_facts(1)] prod.collapse [symmetric]])
  have two: "rg_services demo_two = [''db'' \<mapsto> 0, ''log'' \<mapsto> 1]"
    "rg_heap demo_two 0 = Some (registry_defaults 5 (demo_info ''db''))"
    "rg_heap demo_two 1 = Some (registry_defaults 7 (demo_info ''log''))"
    using demo_registry_facts(3-5)
    by (simp_all add: demo_two_def registry_Register_def new_info_def demo_info_def)
  have ro: "range_order (rg_services demo_two) [''db'', ''log'']" by (auto simp: range_order_def two)
  have st: "status_of (rg_heap demo_two) 0 = ServiceStatusHealthy" "status_of (rg_heap demo_two) 1 = ServiceStatusHealthy"
    by (simp_all add: status_of_def two two(3) [simplified] registry_defaults_def demo_info_def ServiceStatus_defs)
  show ?thesis
    using weighted_discovery_stale [of "demo_discovery\<lparr>sd_registry := demo_two\<rparr>" "[''db'', ''log'']" "''db''" "''log''" 0 1 "\<lambda>m. 0" 0]
      r ro st by (simp add: two)
qed

end
