(* ===== verification/Actor_System.thy ===== *)
theory Actor_System
  imports Routers Sessions Discovery
begin

text \<open>
  The actor system of \<^verbatim>\<open>core/system.go\<close>: one handle-aware router, one service discovery and a
  shutdown flag. Creating an actor only schedules the goroutine that calls \<^verbatim>\<open>Start\<close>, so the
  actors whose start is still to run are part of the state. The session manager is created
  with the system and used by no method of it.
\<close>

record 'h system =
  sy_router :: "'h advancedRouter"
  sy_sessionManager :: SessionManager
  sy_serviceDiscovery :: serviceDiscovery
  sy_nodeID :: u32
  sy_ctxDone :: bool
  sy_starting :: "ActorID list"

datatype SystemError =
    SystemShuttingDown
  | RegisterActorFailed RouterError
  | RegisterServiceFailed RouterError
  | RegisterDiscoveryFailed RegistryError
  | SourceActorNotFound ActorID
  | CallSourceNotFound string
  | CallTargetNotFound string
  | RouteFailed RouterError
  | CallFailed ActorError
  | RemoteError string
  | ShutdownContextDone

section \<open>Creation\<close>

definition NewActorSystemWithNodeID :: "u32 \<Rightarrow> 'h system" where
  "NewActorSystemWithNodeID nodeID =
     \<lparr>sy_router = NewAdvancedRouter nodeID, sy_sessionManager = NewSessionManager,
      sy_serviceDiscovery = NewServiceDiscovery, sy_nodeID = nodeID, sy_ctxDone = False,
      sy_starting = []\<rparr>"

definition NewActorSystem :: "'h system" where
  "NewActorSystem = NewActorSystemWithNodeID 1"

text \<open>\<^verbatim>\<open>NextID\<close> of the embedded basic router.\<close>

definition sys_NextID :: "'h system \<Rightarrow> ActorID \<times> 'h system" where
  "sys_NextID s =
     (case router_NextID (ar_router (sy_router s)) of
        (i, r) \<Rightarrow> (i, s\<lparr>sy_router := (sy_router s)\<lparr>ar_router := r\<rparr>\<rparr>))"

definition sys_NewActor ::
  "'h \<Rightarrow> ActorOptions \<Rightarrow> Time \<Rightarrow> 'h system \<Rightarrow> (SystemError, ActorID) outcome \<times> 'h system" where
  "sys_NewActor handler opts now s =
     (if sy_ctxDone s then (Err SystemShuttingDown, s)
      else case sys_NextID s of
        (i, s1) \<Rightarrow>
          (case NewActor i handler (if o_MailboxSize opts = 0 then DefaultActorOptions else opts) now of
             None \<Rightarrow> (Panic, s1)
           | Some a \<Rightarrow>
               (case ar_Register (Some a) (sy_router s1) of
                  (Inl e, ar) \<Rightarrow> (Err (RegisterActorFailed e), s1\<lparr>sy_router := ar\<rparr>)
                | (Inr _, ar) \<Rightarrow> (Ok i, s1\<lparr>sy_router := ar, sy_starting := sy_starting s1 @ [i]\<rparr>))))"

definition service_options :: "string \<Rightarrow> ActorOptions \<Rightarrow> ActorOptions" where
  "service_options name opts =
     (let opts1 = (if o_MailboxSize opts = 0 then DefaultActorOptions else opts)
      in if o_Name opts1 = [] then opts1\<lparr>o_Name := name\<rparr> else opts1)"

definition service_registration :: "string \<Rightarrow> ServiceRegistrationInfo" where
  "service_registration name =
     \<lparr>ri_Description = ''Service '' @ name, ri_Version = ''1.0.0'', ri_Tags = [''sngo-service''],
      ri_Metadata = Some Map.empty, ri_HealthCheckInterval = 30 * Second\<rparr>"

definition sys_NewService ::
  "string \<Rightarrow> 'h \<Rightarrow> ActorOptions \<Rightarrow> Time \<Rightarrow> 'h system \<Rightarrow> (SystemError, Handle option) outcome \<times> 'h system" where
  "sys_NewService name handler opts now s =
     (if sy_ctxDone s then (Err SystemShuttingDown, s)
      else case sys_NextID s of
        (i, s1) \<Rightarrow>
          (case NewActor i handler (service_options name opts) now of
             None \<Rightarrow> (Panic, s1)
           | Some a \<Rightarrow>
               (case ar_RegisterService (Some a) name (sy_router s1) of
                  (Inl e, ar) \<Rightarrow> (Err (RegisterServiceFailed e), s1\<lparr>sy_router := ar\<rparr>)
                | (Inr h, ar) \<Rightarrow>
                    (case sd_RegisterService now h (service_registration name) (sy_serviceDiscovery s1) of
                       (Inl e, sd) \<Rightarrow>
                         (Err (RegisterDiscoveryFailed e),
                          s1\<lparr>sy_router := snd (ar_UnregisterService name ar), sy_serviceDiscovery := sd\<rparr>)
                     | (Inr _, sd) \<Rightarrow>
                         (Ok h, s1\<lparr>sy_router := ar, sy_serviceDiscovery := sd,
                                   sy_starting := sy_starting s1 @ [i]\<rparr>)))))"

text \<open>An update of one actor in the routing table.\<close>

definition set_actor :: "ActorID \<Rightarrow> 'h actor \<Rightarrow> 'h system \<Rightarrow> 'h system" where
  "set_actor i a s =
     s\<lparr>sy_router := (sy_router s)\<lparr>ar_router := (ar_router (sy_router s))
         \<lparr>rt_actors := (rt_actors (ar_router (sy_router s)))(i \<mapsto> a)\<rparr>\<rparr>\<rparr>"

abbreviation actor_of :: "'h system \<Rightarrow> ActorID \<rightharpoonup> 'h actor" where
  "actor_of s \<equiv> rt_actors (ar_router (sy_router s))"

text \<open>The goroutine scheduled for one new actor: it calls \<^verbatim>\<open>Start\<close> and ignores an error.\<close>

definition run_start :: "ActorID \<Rightarrow> 'h system \<Rightarrow> 'h system" where
  "run_start i s =
     (let s1 = s\<lparr>sy_starting := remove1 i (sy_starting s)\<rparr>
      in case actor_of s i of
           None \<Rightarrow> s1
         | Some a \<Rightarrow> (case actor_Start a of Inl _ \<Rightarrow> s1 | Inr a' \<Rightarrow> set_actor i a' s1))"

section \<open>Messages\<close>

definition sys_GetActor :: "ActorID \<Rightarrow> 'h system \<Rightarrow> 'h actor option" where
  "sys_GetActor i s = router_Lookup (ar_router (sy_router s)) i"

definition sys_GetService :: "string \<Rightarrow> 'h system \<Rightarrow> Handle option \<times> bool" where
  "sys_GetService name s = ar_LookupService name (sy_router s)"

fun lift_route :: "(RouterError, unit) outcome \<Rightarrow> (SystemError, unit) outcome" where
  "lift_route (Ok u) = Ok u"
| "lift_route (Err e) = Err (RouteFailed e)"
| "lift_route Panic = Panic"

definition sys_Send ::
  "bool \<Rightarrow> ActorID \<Rightarrow> ActorID \<Rightarrow> MessageType \<Rightarrow> bytes \<Rightarrow> Time \<Rightarrow> 'h system \<Rightarrow>
     (SystemError, unit) outcome \<times> 'h system" where
  "sys_Send pick source to msgType data now s =
     (let msg = \<lparr>m_ID = 0, m_Type = msgType, m_Source = source, m_Target = to, m_Session = 0,
                 m_Data = data, m_Timestamp = now\<rparr>
      in case router_Route pick (Some msg) (ar_router (sy_router s)) of
           (res, r) \<Rightarrow> (lift_route res, s\<lparr>sy_router := (sy_router s)\<lparr>ar_router := r\<rparr>\<rparr>))"

definition sys_SendByName ::
  "bool \<Rightarrow> string \<Rightarrow> string \<Rightarrow> MessageType \<Rightarrow> bytes \<Rightarrow> Time \<Rightarrow> 'h system \<Rightarrow>
     (SystemError, unit) outcome \<times> 'h system" where
  "sys_SendByName pick source to msgType data now s =
     (let msg = \<lparr>m_ID = 0, m_Type = msgType, m_Source = 0, m_Target = 0, m_Session = 0,
                 m_Data = data, m_Timestamp = now\<rparr>
      in case ar_RouteByName pick source to msg (sy_router s) of
           (res, _, ar) \<Rightarrow> (lift_route res, s\<lparr>sy_router := ar\<rparr>))"

text \<open>
  \<^verbatim>\<open>Call\<close> up to the wait of the actor's \<^verbatim>\<open>Call\<close>, and from its result on. \<^verbatim>\<open>from\<close> is the
  actor whose \<^verbatim>\<open>Call\<close> method is used.
\<close>

definition sys_Call_begin ::
  "bool \<Rightarrow> ActorID \<Rightarrow> ActorID \<Rightarrow> MessageType \<Rightarrow> bytes \<Rightarrow> Time \<Rightarrow> 'h system \<Rightarrow>
     (SystemError, u32) outcome \<times> 'h system" where
  "sys_Call_begin pick source to msgType data now s =
     (case router_Lookup (ar_router (sy_router s)) source of
        None \<Rightarrow> (Err (SourceActorNotFound source), s)
      | Some sourceActor \<Rightarrow>
          (case actor_Call_begin pick
                  \<lparr>m_ID = 0, m_Type = msgType, m_Source = source, m_Target = to, m_Session = 0,
                   m_Data = data, m_Timestamp = now\<rparr> sourceActor of
             (Ok session, a) \<Rightarrow> (Ok session, set_actor source a s)
           | (Err e, a) \<Rightarrow> (Err (CallFailed e), set_actor source a s)
           | (Panic, a) \<Rightarrow> (Panic, set_actor source a s)))"

definition sys_Call_wait ::
  "call_pick \<Rightarrow> bool \<Rightarrow> ActorID \<Rightarrow> u32 \<Rightarrow> 'h system \<Rightarrow> ((SystemError + bytes) \<times> 'h system) option" where
  "sys_Call_wait cp callerDone source session s =
     (case router_Lookup (ar_router (sy_router s)) source of
        None \<Rightarrow> None
      | Some sourceActor \<Rightarrow>
          (case actor_Call_wait cp callerDone session sourceActor of
             None \<Rightarrow> None
           | Some (Inl e, a) \<Rightarrow> Some (Inl (CallFailed e), set_actor source a s)
           | Some (Inr resp, a) \<Rightarrow>
               Some (if m_Type resp = MessageTypeError
                     then Inl (RemoteError (''remote error: '' @ string_of_bytes (m_Data resp)))
                     else Inr (m_Data resp), set_actor source a s)))"

definition sys_CallByName_begin ::
  "bool \<Rightarrow> string \<Rightarrow> string \<Rightarrow> MessageType \<Rightarrow> bytes \<Rightarrow> Time \<Rightarrow> 'h system \<Rightarrow>
     (SystemError, u32) outcome \<times> 'h system" where
  "sys_CallByName_begin pick source to msgType data now s =
     (case ar_LookupService source (sy_router s) of
        (_, False) \<Rightarrow> (Err (CallSourceNotFound source), s)
      | (src, True) \<Rightarrow>
          (case ar_LookupService to (sy_router s) of
             (_, False) \<Rightarrow> (Err (CallTargetNotFound to), s)
           | (tgt, True) \<Rightarrow>
               (case (src, tgt) of
                  (Some sh, Some th) \<Rightarrow> sys_Call_begin pick (h_ActorID sh) (h_ActorID th) msgType data now s
                | _ \<Rightarrow> (Panic, s))))"

section \<open>Shutdown and queries\<close>

text \<open>
  \<open>ns i\<close> is how many messages the loop of actor \<open>i\<close> still takes before it sees the
  cancellation. \<open>None\<close> is a panic in one of the loops.
\<close>

fun stop_all :: "'h handler_fun \<Rightarrow> Time \<Rightarrow> (ActorID \<Rightarrow> nat) \<Rightarrow> ActorID list \<Rightarrow> 'h system \<Rightarrow> 'h system option" where
  "stop_all handle now ns [] s = Some s"
| "stop_all handle now ns (i # is) s =
     (case actor_of s i of
        None \<Rightarrow> stop_all handle now ns is s
      | Some a \<Rightarrow>
          (case actor_Stop handle now (ns i) a of
             (Panic, _) \<Rightarrow> None
           | (_, a') \<Rightarrow> stop_all handle now ns is (set_actor i a' s)))"

text \<open>
  \<open>pick\<close> and \<open>ctxDone\<close> say whether the final \<^verbatim>\<open>select\<close> takes the caller's context; otherwise
  the scheduled start goroutines have all run when \<^verbatim>\<open>Shutdown\<close> returns.
\<close>

definition sys_Shutdown ::
  "'h handler_fun \<Rightarrow> Time \<Rightarrow> (ActorID \<Rightarrow> nat) \<Rightarrow> ActorID list \<Rightarrow> bool \<Rightarrow> bool \<Rightarrow> 'h system \<Rightarrow>
     (SystemError, unit) outcome \<times> 'h system" where
  "sys_Shutdown handle now ns ks pick ctxDone s =
     (let s1 = s\<lparr>sy_ctxDone := True\<rparr>
      in case stop_all handle now ns (router_List ks (ar_router (sy_router s1))) s1 of
           None \<Rightarrow> (Panic, s1)
         | Some s2 \<Rightarrow>
             if ctxDone \<and> pick then (Err ShutdownContextDone, s2)
             else (Ok (), foldl (\<lambda>s i. run_start i s) s2 (sy_starting s2)))"

definition sys_Stats :: "ActorID list \<Rightarrow> 'h system \<Rightarrow> ActorStats list" where
  "sys_Stats ks s =
     map actor_Stats (range_values (actor_of s) (router_List ks (ar_router (sy_router s))))"

definition sys_ListServices :: "u32 list \<Rightarrow> 'h system \<Rightarrow> Handle list" where
  "sys_ListServices ks s = ListHandles ks (ar_handleManager (sy_router s))"

definition sys_DiscoverService ::
  "(ServiceMetrics \<Rightarrow> int) \<Rightarrow> nat \<Rightarrow> string list \<Rightarrow> string \<Rightarrow> 'h system \<Rightarrow>
     (SelectError, info_ref) outcome \<times> 'h system" where
  "sys_DiscoverService raw_weight rnd ks name s =
     (case sd_DiscoverService raw_weight rnd ks name (sy_serviceDiscovery s) of
        (res, sd) \<Rightarrow> (res, s\<lparr>sy_serviceDiscovery := sd\<rparr>))"

definition sys_DiscoverServices :: "string list \<Rightarrow> ServiceQuery \<Rightarrow> 'h system \<Rightarrow> info_ref list" where
  "sys_DiscoverServices ks query s = sd_DiscoverServices ks query (sy_serviceDiscovery s)"

definition sys_UpdateServiceHealth ::
  "Time \<Rightarrow> string \<Rightarrow> ServiceStatus \<Rightarrow> 'h system \<Rightarrow> (RegistryError + unit) \<times> 'h system" where
  "sys_UpdateServiceHealth now name status s =
     (case sd_UpdateServiceHealth now name status (sy_serviceDiscovery s) of
        (res, sd) \<Rightarrow> (res, s\<lparr>sy_serviceDiscovery := sd\<rparr>))"

definition sys_SetLoadBalanceStrategy :: "LoadBalanceStrategy \<Rightarrow> 'h system \<Rightarrow> 'h system" where
  "sys_SetLoadBalanceStrategy strategy s =
     s\<lparr>sy_serviceDiscovery := sd_SetLoadBalanceStrategy strategy (sy_serviceDiscovery s)\<rparr>"

section \<open>What each operation does to the routing table\<close>

lemma set_actor_simps [simp]:
  "actor_of (set_actor i a s) = (actor_of s)(i \<mapsto> a)"
  "ar_handleManager (sy_router (set_actor i a s)) = ar_handleManager (sy_router s)"
  "sy_starting (set_actor i a s) = sy_starting s" "sy_ctxDone (set_actor i a s) = sy_ctxDone s"
  "rt_idCounter (ar_router (sy_router (set_actor i a s))) = rt_idCounter (ar_router (sy_router s))"
  by (simp_all add: set_actor_def)

lemma sys_NextID_simps:
  "sys_NextID s = (rt_idCounter (ar_router (sy_router s)) + 1,
     s\<lparr>sy_router := (sy_router s)\<lparr>ar_router := (ar_router (sy_router s))
         \<lparr>rt_idCounter := rt_idCounter (ar_router (sy_router s)) + 1\<rparr>\<rparr>\<rparr>)"
  by (simp add: sys_NextID_def router_NextID_def)

lemma NewActor_Some:
  assumes "NewActor i h opts t = Some a"
  shows "ac_id a = i" "ac_state a = ActorStateIdle" "ac_loops a = []" "ac_pendingCalls a = Map.empty"
    "ac_mailbox a = make_chan (nat (o_MailboxSize opts))"
  using assms by (auto simp: NewActor_def split: if_splits)

lemma ar_RegisterService_Inr:
  assumes "ar_ok ar" "ar_RegisterService (Some a) name ar = (Inr h, ar')"
  shows "rt_actors (ar_router ar) (ac_id a) = None"
    and "rt_actors (ar_router ar') = (rt_actors (ar_router ar))(ac_id a \<mapsto> a)"
    and "AllocateHandle (ac_id a) name (ar_handleManager ar) = (Inr h, ar_handleManager ar')"
    and "hm_actorToHandle (ar_handleManager ar) (ac_id a) = None"
    and "name = [] \<or> hm_nameToHandle (ar_handleManager ar) name = None"
    and "h = Some \<lparr>h_ID = hm_handleCounter (ar_handleManager ar), h_ActorID = ac_id a, h_Name = name,
                   h_Node = hm_nodeID (ar_handleManager ar), h_IsLocal = True\<rparr>"
proof -
  show none: "rt_actors (ar_router ar) (ac_id a) = None"
    and "rt_actors (ar_router ar') = (rt_actors (ar_router ar))(ac_id a \<mapsto> a)"
    and al: "AllocateHandle (ac_id a) name (ar_handleManager ar) = (Inr h, ar_handleManager ar')"
    using assms(2)
    by (auto simp: ar_RegisterService_def router_Register_def split: if_splits prod.splits sum.splits)
  show noact: "hm_actorToHandle (ar_handleManager ar) (ac_id a) = None"
    using assms(1) none by (auto simp: ar_ok_def)
  show noname: "name = [] \<or> hm_nameToHandle (ar_handleManager ar) name = None"
    using al noact by (auto simp: AllocateHandle_def split: if_splits)
  show "h = Some \<lparr>h_ID = hm_handleCounter (ar_handleManager ar), h_ActorID = ac_id a, h_Name = name,
                   h_Node = hm_nodeID (ar_handleManager ar), h_IsLocal = True\<rparr>"
    using al AllocateHandle_fresh [OF noact noname] by simp
qed

text \<open>The rollback of a service registration removes at most the actor just registered.\<close>

lemma rollback_actors:
  assumes "ar_ok ar" "hm_fresh (ar_handleManager ar)" "ar_RegisterService (Some a) name ar = (Inr h, ar')"
  shows "rt_actors (ar_router (snd (ar_UnregisterService name ar'))) =
     (if name = [] then rt_actors (ar_router ar') else rt_actors (ar_router ar))"
proof -
  note r = ar_RegisterService_Inr [OF assms(1,3)]
  have hm': "ar_handleManager ar' = snd (AllocateHandle (ac_id a) name (ar_handleManager ar))"
    using r(3) by simp
  have ok': "hm_ok (ar_handleManager ar')"
    using hm_ok_Allocate [OF _ assms(2) r(3)] assms(1) by (simp add: ar_ok_def)
  show ?thesis
  proof (cases "name = []")
    case True
    then have "hm_nameToHandle (ar_handleManager ar') name = None"
      using hm_ok_name [OF ok', of name] by (cases "hm_nameToHandle (ar_handleManager ar') name") auto
    with True show ?thesis by (simp add: ar_UnregisterService_def GetHandleByName_def)
  next
    case False
    have "GetHandleByName (ar_handleManager ar') name = (h, True)"
      using False unfolding hm' AllocateHandle_fresh [OF r(4,5)] r(6) by (simp add: GetHandleByName_def)
    then show ?thesis
      using False r(1,2,6)
      by (auto simp: ar_UnregisterService_def router_Unregister_def fun_upd_idem split: prod.splits)
  qed
qed

section \<open>Quiescent systems\<close>

text \<open>
  Between messages every actor is idle, its loop waits or has not been started, and the
  actors whose start is scheduled have no loop yet.
\<close>

definition quiet :: "'h actor \<Rightarrow> bool" where
  "quiet a \<longleftrightarrow> ac_state a = ActorStateIdle \<and> ac_loops a \<in> {[], [Selecting]} \<and>
     pending_ok (ac_id a) (ac_pendingCalls a) \<and> \<not> ch_closed (ac_mailbox a) \<and>
     None \<notin> set (ch_buf (ac_mailbox a))"

definition table_quiet :: "(ActorID \<rightharpoonup> 'h actor) \<Rightarrow> ActorID list \<Rightarrow> bool" where
  "table_quiet t starting \<longleftrightarrow>
     (\<forall>i a. t i = Some a \<longrightarrow> ac_id a = i \<and> quiet a) \<and> distinct starting \<and>
     (\<forall>i \<in> set starting. \<exists>a. t i = Some a \<and> ac_loops a = [])"

lemma table_quiet_upd:
  assumes "table_quiet t starting" "t i = Some a" "quiet a'" "ac_id a' = ac_id a" "ac_loops a' = ac_loops a"
  shows "table_quiet (t(i \<mapsto> a')) starting"
  using assms unfolding table_quiet_def by auto

lemma table_quiet_new:
  assumes "table_quiet t starting" "t i = None" "quiet a" "ac_id a = i" "ac_loops a = []"
  shows "table_quiet (t(i \<mapsto> a)) starting" and "table_quiet (t(i \<mapsto> a)) (starting @ [i])"
  using assms unfolding table_quiet_def by (auto; force)+

lemma quiet_New: "NewActor i h opts t = Some a \<Longrightarrow> quiet a"
  by (auto simp: quiet_def pending_ok_def NewActor_Some)

lemma quiet_Send:
  assumes "quiet a" "actor_Send pick (Some m) a = (res, a')"
  shows "quiet a' \<and> ac_id a' = ac_id a \<and> ac_loops a' = ac_loops a \<and> res \<noteq> Panic"
proof (cases "res = Ok ()")
  case True
  then show ?thesis using assms by (auto simp: actor_Send_Ok send_select_Ok quiet_def)
next
  case False
  then show ?thesis
    using actor_Send_not_Ok [OF assms(2) False] assms
    by (auto simp: actor_Send_def send_select_def try_send_def quiet_def split: if_splits)
qed

lemma quiet_call_prepare: "quiet a \<Longrightarrow> quiet (call_prepare a)"
  by (simp add: quiet_def pending_ok_new)

lemma quiet_call_leave: "quiet a \<Longrightarrow> quiet (call_leave s a)"
  by (simp add: quiet_def pending_ok_None)

lemma quiet_Call_begin:
  assumes "quiet a" "actor_Call_begin pick m a = (res, a')"
  shows "quiet a' \<and> ac_id a' = ac_id a \<and> ac_loops a' = ac_loops a \<and> res \<noteq> Panic"
proof -
  obtain r2 a2 where snd: "actor_Send pick (Some (m\<lparr>m_Session := ac_sessionCounter a + 1\<rparr>)) (call_prepare a) = (r2, a2)"
    by force
  from quiet_Send [OF quiet_call_prepare [OF assms(1)] snd] snd assms(2) show ?thesis
    by (cases r2) (auto simp: actor_Call_begin_def quiet_call_leave)
qed

lemma quiet_process:
  assumes "quiet a" "ch_buf (ac_mailbox a) = Some m # ms"
  shows "quiet (processMessage handle now m (set_buf ms a))"
    and "ac_loops (processMessage handle now m (set_buf ms a)) = ac_loops a"
  using assms pending_ok_process_end [of "process_begin now (set_buf ms a)" handle now m]
  by (auto simp: quiet_def processMessage_def)

lemma quiet_Stop:
  assumes "quiet a"
  shows "\<exists>a'. actor_Stop handle now n a = (Ok (), a') \<and> ac_state a' = ActorStateStopped"
proof -
  let ?a2 = "stop_cancel (a\<lparr>ac_state := ActorStateStopping\<rparr>)"
  have pre: "pending_ok (ac_id ?a2) (ac_pendingCalls ?a2)" "None \<notin> set (ch_buf (ac_mailbox ?a2))"
    "\<not> ch_closed (ac_mailbox ?a2)"
    using assms by (simp_all add: stop_cancel_def quiet_def)
  obtain a3 where "loop_run handle now n ?a2 = Some a3" using loop_run_answers [OF pre] by blast
  then show ?thesis
    using assms by (auto simp: actor_Stop_def stop_cas_def quiet_def stop_cancel_def stop_finish_def)
qed

text \<open>One actor's loop takes the next message of its mailbox and handles it.\<close>

definition run_message :: "'h handler_fun \<Rightarrow> Time \<Rightarrow> ActorID \<Rightarrow> 'h system \<Rightarrow> 'h system" where
  "run_message handle now i s =
     (case actor_of s i of
        None \<Rightarrow> s
      | Some a \<Rightarrow>
          (case ch_buf (ac_mailbox a) of
             Some m # ms \<Rightarrow> if ac_loops a = [Selecting]
                           then set_actor i (processMessage handle now m (set_buf ms a)) s else s
           | _ \<Rightarrow> s))"

inductive sys_reach :: "'h handler_fun \<Rightarrow> u32 \<Rightarrow> nat \<Rightarrow> 'h system \<Rightarrow> bool" for handle node where
  new: "sys_reach handle node 0 (NewActorSystemWithNodeID node)"
| new_actor: "sys_reach handle node n s \<Longrightarrow> sys_reach handle node (Suc n) (snd (sys_NewActor h opts now s))"
| new_service: "sys_reach handle node n s \<Longrightarrow> sys_reach handle node (Suc n) (snd (sys_NewService name h opts now s))"
| run_start: "sys_reach handle node n s \<Longrightarrow> i \<in> set (sy_starting s) \<Longrightarrow> sys_reach handle node n (run_start i s)"
| send: "sys_reach handle node n s \<Longrightarrow> sys_reach handle node n (snd (sys_Send pick src to t d now s))"
| send_by_name: "sys_reach handle node n s \<Longrightarrow> sys_reach handle node n (snd (sys_SendByName pick f g t d now s))"
| call: "sys_reach handle node n s \<Longrightarrow> sys_reach handle node n (snd (sys_Call_begin pick src to t d now s))"
| call_return: "sys_reach handle node n s \<Longrightarrow> sys_Call_wait cp cd src ses s = Some (res, s') \<Longrightarrow> sys_reach handle node n s'"
| run_message: "sys_reach handle node n s \<Longrightarrow> sys_reach handle node n (run_message handle now i s)"

definition sys_inv :: "u32 \<Rightarrow> nat \<Rightarrow> 'h system \<Rightarrow> bool" where
  "sys_inv node n s \<longleftrightarrow> ar_ok (sy_router s) \<and> table_quiet (actor_of s) (sy_starting s) \<and>
     (\<exists>k \<le> n. hm_reachable node k (ar_handleManager (sy_router s)))"

lemma sys_inv_set_actor:
  assumes "sys_inv node n s" "actor_of s i = Some a" "quiet a'" "ac_id a' = ac_id a" "ac_loops a' = ac_loops a"
  shows "sys_inv node n (set_actor i a' s)"
proof -
  have "table_quiet ((actor_of s)(i \<mapsto> a')) (sy_starting s)"
    using assms by (auto simp: sys_inv_def intro: table_quiet_upd)
  moreover have "dom ((actor_of s)(i \<mapsto> a')) = dom (actor_of s)" using assms(2) by auto
  ultimately show ?thesis using assms(1) unfolding sys_inv_def ar_ok_def by auto
qed

lemma sys_inv_quiet: "sys_inv node n s \<Longrightarrow> actor_of s i = Some a \<Longrightarrow> quiet a \<and> ac_id a = i"
  by (simp add: sys_inv_def table_quiet_def)

lemma sys_inv_fresh: "sys_inv node n s \<Longrightarrow> n < 2 ^ 32 \<Longrightarrow> hm_fresh (ar_handleManager (sy_router s))"
  unfolding sys_inv_def using hm_reachable_fresh by (meson le_less_trans)

lemma sys_inv_NextID:
  assumes "sys_inv node n s" and "sys_NextID s = (i, s1)"
  shows "sys_inv node n s1 \<and> sy_starting s1 = sy_starting s \<and>
     actor_of s1 = actor_of s \<and> ar_handleManager (sy_router s1) = ar_handleManager (sy_router s) \<and>
     sy_serviceDiscovery s1 = sy_serviceDiscovery s"
proof -
  have "s1 = snd (sys_NextID s)" using assms(2) by simp
  then show ?thesis using assms(1) by (simp add: sys_NextID_simps sys_inv_def ar_ok_def)
qed

lemma ar_Register_Inr:
  "ar_Register (Some a) ar = (Inr u, ar') \<Longrightarrow> \<exists>h. ar_RegisterService (Some a) [] ar = (Inr h, ar')"
  "ar_Register (Some a) ar = (Inl e, ar') \<Longrightarrow> \<exists>e'. ar_RegisterService (Some a) [] ar = (Inl e', ar')"
  by (auto simp: ar_Register_def ar_RegisterService_def split: prod.splits sum.splits)

text \<open>The router after an attempt to register an actor for a new id.\<close>

lemma register_attempt:
  assumes "sys_inv node n s" "n < 2 ^ 32" "NewActor i h opts t = Some a"
    and "ar_RegisterService (Some a) name (sy_router s) = (res, ar')"
  shows "ar_ok ar'" and "\<exists>k \<le> Suc n. hm_reachable node k (ar_handleManager ar')"
    and "rt_actors (ar_router ar') = actor_of s \<or>
         actor_of s i = None \<and> rt_actors (ar_router ar') = (actor_of s)(i \<mapsto> a)"
    and "table_quiet (rt_actors (ar_router ar')) (sy_starting s)"
    and "\<And>x. res = Inr x \<Longrightarrow> table_quiet (rt_actors (ar_router ar')) (sy_starting s @ [i])"
proof -
  have ok: "ar_ok (sy_router s)" and tq: "table_quiet (actor_of s) (sy_starting s)"
    using assms(1) by (simp_all add: sys_inv_def)
  show "ar_ok ar'"
    using ar_ok_RegisterService [OF ok sys_inv_fresh [OF assms(1,2)], of "Some a" name] assms(4) by simp
  have i: "ac_id a = i" using NewActor_Some(1) [OF assms(3)] .
  obtain k where k: "k \<le> n" "hm_reachable node k (ar_handleManager (sy_router s))"
    using assms(1) by (auto simp: sys_inv_def)
  have "ar_handleManager ar' = ar_handleManager (sy_router s) \<or>
      (\<exists>a r. AllocateHandle a name (ar_handleManager (sy_router s)) = (r, ar_handleManager ar'))"
    using ar_Register_hm(2) [of "Some a" name "sy_router s"] assms(4) by simp
  then show "\<exists>k \<le> Suc n. hm_reachable node k (ar_handleManager ar')"
  proof (elim disjE exE)
    fix b r assume "AllocateHandle b name (ar_handleManager (sy_router s)) = (r, ar_handleManager ar')"
    from AllocateHandle_reachable [OF k(2) this] k(1)
    show "\<exists>k \<le> Suc n. hm_reachable node k (ar_handleManager ar')" by (meson Suc_le_mono le_trans)
  qed (use k in \<open>auto intro: le_SucI\<close>)
  show t: "rt_actors (ar_router ar') = actor_of s \<or>
         actor_of s i = None \<and> rt_actors (ar_router ar') = (actor_of s)(i \<mapsto> a)"
    using assms(4) i
    by (auto simp: ar_RegisterService_def router_Register_def split: if_splits prod.splits)
  note q = quiet_New [OF assms(3)] i NewActor_Some(3) [OF assms(3)]
  show "table_quiet (rt_actors (ar_router ar')) (sy_starting s)"
    using t tq table_quiet_new(1) [OF tq _ q] by auto
  show "table_quiet (rt_actors (ar_router ar')) (sy_starting s @ [i])" if "res = Inr x" for x
    using ar_RegisterService_Inr(1,2) [OF ok, of a name x ar'] assms(4) that i
      table_quiet_new(2) [OF tq _ q] by simp
qed

lemma sys_inv_mono: "sys_inv node n s \<Longrightarrow> sys_inv node (Suc n) s"
  unfolding sys_inv_def by (meson le_SucI)

lemma sys_inv_NewActor:
  assumes "sys_inv node n s" "n < 2 ^ 32"
  shows "sys_inv node (Suc n) (snd (sys_NewActor h opts now s))"
proof -
  obtain i s1 where n1: "sys_NextID s = (i, s1)" by force
  note i1 = sys_inv_NextID [OF assms(1) n1]
  let ?opts = "if o_MailboxSize opts = 0 then DefaultActorOptions else opts"
  show ?thesis
  proof (cases "NewActor i h ?opts now")
    case None
    then show ?thesis using assms(1) i1 by (simp add: sys_NewActor_def n1 sys_inv_mono)
  next
    case (Some a)
    obtain res ar' where reg: "ar_Register (Some a) (sy_router s1) = (res, ar')" by force
    obtain res' where reg': "ar_RegisterService (Some a) [] (sy_router s1) = (res', ar')" "(\<exists>x. res' = Inr x) \<longleftrightarrow> (\<exists>u. res = Inr u)"
      using ar_Register_Inr reg by (cases res) fastforce+
    note at = register_attempt [OF conjunct1 [OF i1] assms(2) Some reg'(1)]
    show ?thesis
      using at reg'(2) reg Some n1 assms(1)
      by (cases res) (auto simp: sys_NewActor_def sys_inv_mono sys_inv_def [of _ _ "_\<lparr>sy_router := _\<rparr>"]
          sys_inv_def [of _ _ "_\<lparr>sy_router := _, sy_starting := _\<rparr>"])
  qed
qed

lemma sys_inv_NewService:
  assumes "sys_inv node n s" "n < 2 ^ 32"
  shows "sys_inv node (Suc n) (snd (sys_NewService name h opts now s))"
proof -
  obtain i s1 where n1: "sys_NextID s = (i, s1)" by force
  note i1 = sys_inv_NextID [OF assms(1) n1]
  show ?thesis
  proof (cases "NewActor i h (service_options name opts) now")
    case None
    then show ?thesis using assms(1) i1 by (simp add: sys_NewService_def n1 sys_inv_mono)
  next
    case (Some a)
    obtain res ar' where reg: "ar_RegisterService (Some a) name (sy_router s1) = (res, ar')" by force
    note at = register_attempt [OF conjunct1 [OF i1] assms(2) Some reg]
    show ?thesis
    proof (cases "sy_ctxDone s")
      case True
      then show ?thesis using assms(1) by (simp add: sys_NewService_def sys_inv_mono)
    next
      case running: False
      show ?thesis
      proof (cases res)
        case (Inl e)
        then show ?thesis
          using running n1 Some reg at by (auto simp: sys_NewService_def sys_inv_def)
      next
        case (Inr hd)
        obtain r2 sd where sd: "sd_RegisterService now hd (service_registration name) (sy_serviceDiscovery s1) = (r2, sd)"
          by force
        let ?ar2 = "snd (ar_UnregisterService name ar')"
        have "ar_ok ?ar2" using ar_ok_UnregisterService [OF at(1)] by simp
        moreover have "\<exists>k \<le> Suc n. hm_reachable node k (ar_handleManager ?ar2)"
          using ar_UnregisterService_hm [of name ar'] at(2) ReleaseHandle_reachable by metis
        moreover have "table_quiet (rt_actors (ar_router ?ar2)) (sy_starting s1)"
          using rollback_actors [OF _ sys_inv_fresh [OF conjunct1 [OF i1] assms(2)], of a name hd ar'] reg Inr at(4) i1
          by (auto simp: sys_inv_def split: if_splits)
        ultimately show ?thesis
          using running n1 Some reg Inr sd at
          by (cases r2) (auto simp: sys_NewService_def sys_inv_def)
      qed
    qed
  qed
qed

lemma router_Route_effect:
  assumes "router_Route pick (Some m) r = (res, r')"
  shows "(res \<noteq> Panic \<and> r' = r) \<or> (\<exists>a x a'. rt_actors r (m_Target m) = Some a \<and> actor_Send pick (Some m) a = (x, a') \<and>
     res = lift_send x \<and> r' = r\<lparr>rt_actors := (rt_actors r)(m_Target m \<mapsto> a')\<rparr>)"
  using assms by (auto simp: router_Route_def split: option.splits prod.splits)

lemma sys_inv_route:
  assumes "sys_inv node n s" "router_Route pick (Some m) (ar_router (sy_router s)) = (res, r')"
  shows "sys_inv node n (s\<lparr>sy_router := (sy_router s)\<lparr>ar_router := r'\<rparr>\<rparr>)" and "res \<noteq> Panic"
proof -
  have "sys_inv node n (s\<lparr>sy_router := (sy_router s)\<lparr>ar_router := r'\<rparr>\<rparr>) \<and> res \<noteq> Panic"
    using router_Route_effect [OF assms(2)]
  proof (elim disjE exE conjE)
    fix a x a'
    assume a: "actor_of s (m_Target m) = Some a" "actor_Send pick (Some m) a = (x, a')" "res = lift_send x"
      "r' = (ar_router (sy_router s))\<lparr>rt_actors := (actor_of s)(m_Target m \<mapsto> a')\<rparr>"
    have q: "quiet a' \<and> ac_id a' = ac_id a \<and> ac_loops a' = ac_loops a \<and> x \<noteq> Panic"
      using quiet_Send [OF _ a(2)] sys_inv_quiet [OF assms(1) a(1)] by blast
    then have "sys_inv node n (set_actor (m_Target m) a' s)"
      using sys_inv_set_actor [OF assms(1) a(1)] by blast
    with q show ?thesis unfolding a(3,4) set_actor_def by (cases x) simp_all
  qed (use assms(1) in simp)
  then show "sys_inv node n (s\<lparr>sy_router := (sy_router s)\<lparr>ar_router := r'\<rparr>\<rparr>)" and "res \<noteq> Panic" by auto
qed

lemma sys_inv_Send: "sys_inv node n s \<Longrightarrow> sys_inv node n (snd (sys_Send pick src to t d now s))"
  using sys_inv_route(1) by (auto simp: sys_Send_def Let_def split: prod.split)

lemma ar_RouteByName_effect:
  assumes "ar_RouteByName pick f g m ar = (res, m', ar')"
  shows "ar' = ar \<or> (\<exists>r'. router_Route pick (Some m') (ar_router ar) = (res, r') \<and> ar' = ar\<lparr>ar_router := r'\<rparr>)"
  using assms
  by (auto simp: ar_RouteByName_def Let_def split: prod.splits option.splits bool.splits if_splits)

lemma sys_inv_SendByName: "sys_inv node n s \<Longrightarrow> sys_inv node n (snd (sys_SendByName pick f g t d now s))"
  using sys_inv_route(1) ar_RouteByName_effect
  by (fastforce simp: sys_SendByName_def Let_def split: prod.split)

lemma sys_inv_Call_begin: 
  assumes "sys_inv node n s" shows "sys_inv node n (snd (sys_Call_begin pick src to t d now s))"
proof (cases "actor_of s src")
  case None
  then show ?thesis using assms by (simp add: sys_Call_begin_def router_Lookup_def)
next
  case (Some a)
  obtain x a' where c: "actor_Call_begin pick \<lparr>m_ID = 0, m_Type = t, m_Source = src, m_Target = to, m_Session = 0,
      m_Data = d, m_Timestamp = now\<rparr> a = (x, a')" by force
  from quiet_Call_begin [OF _ c] sys_inv_quiet [OF assms Some]
  have "sys_inv node n (set_actor src a' s)" using sys_inv_set_actor [OF assms Some] by blast
  with Some c assms show ?thesis by (cases x) (simp_all add: sys_Call_begin_def router_Lookup_def)
qed

lemma sys_inv_Call_wait:
  assumes "sys_inv node n s" "sys_Call_wait cp cd src ses s = Some (res, s')"
  shows "sys_inv node n s'"
proof -
  obtain a a' x where a: "actor_of s src = Some a" "actor_Call_wait cp cd ses a = Some (x, a')" "s' = set_actor src a' s"
    using assms(2) by (auto simp: sys_Call_wait_def router_Lookup_def split: option.splits prod.splits sum.splits)
  then have "a' = call_leave ses a" by (simp add: actor_Call_wait_Some)
  with a show ?thesis
    using sys_inv_set_actor [OF assms(1) a(1), of a'] sys_inv_quiet [OF assms(1) a(1)]
    by (simp add: quiet_call_leave)
qed

lemma sys_inv_run_start:
  assumes "sys_inv node n s" "i \<in> set (sy_starting s)" shows "sys_inv node n (run_start i s)"
proof -
  have tq: "table_quiet (actor_of s) (sy_starting s)" using assms(1) by (simp add: sys_inv_def)
  then obtain a where a: "actor_of s i = Some a" "ac_loops a = []" "quiet a" "ac_id a = i"
    using assms(2) unfolding table_quiet_def by blast
  have run: "run_start i s = set_actor i (start_spawn a) (s\<lparr>sy_starting := remove1 i (sy_starting s)\<rparr>)"
    using a by (simp add: run_start_def actor_Start_def quiet_def)
  have "table_quiet ((actor_of s)(i \<mapsto> start_spawn a)) (remove1 i (sy_starting s))"
    using tq a unfolding table_quiet_def by (auto simp: start_spawn_def quiet_def)
  with assms(1) a(1) show ?thesis unfolding run sys_inv_def ar_ok_def by auto
qed

lemma sys_inv_run_message: 
  assumes "sys_inv node n s" shows "sys_inv node n (run_message handle now i s)"
proof -
  have "sys_inv node n (set_actor i (processMessage handle now m (set_buf ms a)) s)"
    if "actor_of s i = Some a" "ch_buf (ac_mailbox a) = Some m # ms" for a m ms
    using sys_inv_set_actor [OF assms that(1)] sys_inv_quiet [OF assms that(1)] quiet_process [OF _ that(2)] by simp
  with assms show ?thesis by (auto simp: run_message_def split: option.split list.split)
qed

lemma sys_reach_inv: "sys_reach handle node n s \<Longrightarrow> n \<le> 2 ^ 32 \<Longrightarrow> sys_inv node n s"
proof (induction rule: sys_reach.induct)
  case new
  then show ?case
    by (auto simp: sys_inv_def NewActorSystemWithNodeID_def NewAdvancedRouter_def NewRouter_def table_quiet_def
        ar_ok_def NewHandleManager_def hm_ok_def intro: hm_reachable.new [unfolded NewHandleManager_def])
qed (auto intro: sys_inv_NewActor sys_inv_NewService sys_inv_run_start sys_inv_Send sys_inv_SendByName
      sys_inv_Call_begin sys_inv_Call_wait sys_inv_run_message)

section \<open>Shutting down\<close>

lemma stop_all_stops:
  assumes "distinct is" and "\<forall>i a. i \<in> set is \<longrightarrow> actor_of s i = Some a \<longrightarrow> quiet a"
  shows "\<exists>s'. stop_all handle now ns is s = Some s' \<and> sy_starting s' = sy_starting s \<and>
     sy_ctxDone s' = sy_ctxDone s \<and> dom (actor_of s') = dom (actor_of s) \<and>
     (\<forall>i. i \<notin> set is \<longrightarrow> actor_of s' i = actor_of s i) \<and>
     (\<forall>i a. i \<in> set is \<longrightarrow> actor_of s' i = Some a \<longrightarrow> ac_state a = ActorStateStopped)"
  using assms
proof (induction "is" arbitrary: s)
  case (Cons i "is")
  show ?case
  proof (cases "actor_of s i")
    case None
    with Cons.IH [of s] Cons.prems obtain s' where
      "stop_all handle now ns is s = Some s'" "sy_starting s' = sy_starting s"
      "sy_ctxDone s' = sy_ctxDone s" "dom (actor_of s') = dom (actor_of s)"
      "\<forall>i. i \<notin> set is \<longrightarrow> actor_of s' i = actor_of s i"
      "\<forall>i a. i \<in> set is \<longrightarrow> actor_of s' i = Some a \<longrightarrow> ac_state a = ActorStateStopped" by auto
    with None Cons.prems(1) show ?thesis by auto
  next
    case (Some a)
    obtain a' where a': "actor_Stop handle now (ns i) a = (Ok (), a')" "ac_state a' = ActorStateStopped"
      using quiet_Stop Cons.prems(2) Some by fastforce
    let ?s = "set_actor i a' s"
    have d: "distinct is" and q: "\<forall>j b. j \<in> set is \<longrightarrow> actor_of ?s j = Some b \<longrightarrow> quiet b"
      using Cons.prems by auto
    from Cons.IH [OF d q] obtain s' where
      s': "stop_all handle now ns is ?s = Some s'" "sy_starting s' = sy_starting ?s"
      "sy_ctxDone s' = sy_ctxDone ?s" "dom (actor_of s') = dom (actor_of ?s)"
      "\<forall>j. j \<notin> set is \<longrightarrow> actor_of s' j = actor_of ?s j"
      "\<forall>j b. j \<in> set is \<longrightarrow> actor_of s' j = Some b \<longrightarrow> ac_state b = ActorStateStopped" by blast
    have "actor_of s' i = Some a'" using s'(5) Cons.prems(1) by simp
    with s' a' Some show ?thesis by auto
  qed
qed simp

lemma run_start_stopped:
  assumes "\<And>a. actor_of s i = Some a \<Longrightarrow> ac_state a = ActorStateStopped"
  shows "run_start i s = s\<lparr>sy_starting := remove1 i (sy_starting s)\<rparr>"
  using assms by (auto simp: run_start_def Let_def actor_Start_def split: option.split)

lemma run_starts_stopped:
  assumes "\<forall>i a. actor_of s i = Some a \<longrightarrow> ac_state a = ActorStateStopped"
  shows "foldl (\<lambda>s i. run_start i s) s is = s\<lparr>sy_starting := foldl (\<lambda>xs i. remove1 i xs) (sy_starting s) is\<rparr>"
  using assms
proof (induction "is" arbitrary: s)
  case (Cons i "is")
  then show ?case using run_start_stopped [of s i] by simp
qed simp

lemma remove1_all: "foldl (\<lambda>xs i. remove1 i xs) xs xs = []"
proof -
  have "foldl (\<lambda>xs i. remove1 i xs) (ys @ zs) ys = zs" for ys zs :: "'a list"
    by (induction ys) auto
  from this [of xs "[]"] show ?thesis by simp
qed

section \<open>Properties\<close>

lemma shutdown_stops:
  assumes "sys_reach handle node n s" and "n \<le> 2 ^ 32" and "range_order (actor_of s) ks"
  shows "\<exists>s'. sys_Shutdown handle now ns ks pick False s = (Ok (), s') \<and>
     dom (actor_of s') = dom (actor_of s) \<and> sy_starting s' = [] \<and>
     (\<forall>i a. actor_of s' i = Some a \<longrightarrow> ac_state a = ActorStateStopped \<and>
        fst (sys_Send pick' src i t d now' s') = Err (RouteFailed (DeliveryFailed (ActorNotRunning (ac_id a) ActorStateStopped)))) \<and>
     sys_NewActor h opts now' s' = (Err SystemShuttingDown, s') \<and>
     sys_NewService name h opts now' s' = (Err SystemShuttingDown, s')"
proof -
  let ?s1 = "s\<lparr>sy_ctxDone := True\<rparr>"
  have inv: "sys_inv node n s" using sys_reach_inv assms(1,2) by blast
  have l: "router_List ks (ar_router (sy_router s)) = ks"
    using range_orderD(3) [OF assms(3)] unfolding router_List_def by (intro filter_True) blast
  have "\<forall>i a. i \<in> set ks \<longrightarrow> actor_of ?s1 i = Some a \<longrightarrow> quiet a"
    using sys_inv_quiet [OF inv] by simp
  from stop_all_stops [OF range_orderD(1) [OF assms(3)] this] obtain s2 where
    s2: "stop_all handle now ns ks ?s1 = Some s2" "sy_ctxDone s2 = sy_ctxDone ?s1" "dom (actor_of s2) = dom (actor_of ?s1)"
      "\<forall>i a. i \<in> set ks \<longrightarrow> actor_of s2 i = Some a \<longrightarrow> ac_state a = ActorStateStopped" by blast
  then have s2d: "sy_ctxDone s2" "dom (actor_of s2) = dom (actor_of s)" by simp_all
  have st: "\<forall>i a. actor_of s2 i = Some a \<longrightarrow> ac_state a = ActorStateStopped"
    using s2d(2) s2(4) range_orderD(2) [OF assms(3)] by blast
  define s' where "s' = s2\<lparr>sy_starting := []\<rparr>"
  have "sys_Shutdown handle now ns ks pick False s = (Ok (), s')"
    using s2(1) l run_starts_stopped [of s2 "sy_starting s2", OF st]
    by (simp add: sys_Shutdown_def s'_def remove1_all)
  moreover have "\<forall>i a. actor_of s' i = Some a \<longrightarrow> ac_state a = ActorStateStopped \<and>
        fst (sys_Send pick' src i t d now' s') = Err (RouteFailed (DeliveryFailed (ActorNotRunning (ac_id a) ActorStateStopped)))"
    using st by (auto simp: s'_def sys_Send_def Let_def router_Route_def actor_Send_def)
  ultimately show ?thesis
    using s2d by (intro exI [of _ s']) (simp add: s'_def sys_NewActor_def sys_NewService_def)
qed


text \<open>A system with one service, still to be started.\<close>

definition demo_system :: "unit system" where
  "demo_system = snd (sys_NewService ''db'' () DefaultActorOptions 5 (NewActorSystemWithNodeID 1))"

lemma demo_system_facts:
  shows "sys_reach (\<lambda>h m. (h, None)) 1 (Suc 0) demo_system"
    and "range_order (actor_of demo_system) [1]" and "sy_starting demo_system = [1]"
    and "\<not> sy_ctxDone demo_system"
    and "ar_LookupService ''db'' (sy_router demo_system) =
      (Some \<lparr>h_ID = 16777217, h_ActorID = 1, h_Name = ''db'', h_Node = 1, h_IsLocal = True\<rparr>, True)"
proof -
  show "sys_reach (\<lambda>h m. (h, None)) 1 (Suc 0) demo_system"
    unfolding demo_system_def by (rule sys_reach.new_service [OF sys_reach.new])
qed (simp_all add: demo_system_def sys_NewService_def NewActorSystemWithNodeID_def sys_NextID_simps
  NewAdvancedRouter_def NewRouter_def NewActor_def service_options_def DefaultActorOptions_def
  ar_RegisterService_def router_Register_def AllocateHandle_def NewHandleManager_def Let_def
  sd_RegisterService_def NewServiceDiscovery_def NewServiceRegistry_def new_info_def registry_Register_def
  range_order_def ar_LookupService_def GetHandleByName_def push_bit_eq_mult)




text \<open>
  A failing \<^verbatim>\<open>NewService\<close> leaks its actor: with a name that is taken, and with an
  empty name, it returns an error although the new actor stays in the routing table, where it
  receives messages that nothing will ever process, since its start is never scheduled.
\<close>

theorem failed_new_service_leaks_actor:
  assumes "sys_reach handle node n s" and "n < 2 ^ 32" and "\<not> sy_ctxDone s"
    and "o_MailboxSize opts > 0"
    and "name = [] \<or> snd (sys_GetService name s)"
    and "sys_GetActor (rt_idCounter (ar_router (sy_router s)) + 1) s = None"
  shows "\<exists>e s' a. sys_NewService name h opts now s = (Err e, s') \<and> sy_starting s' = sy_starting s \<and>
     sys_GetActor (rt_idCounter (ar_router (sy_router s)) + 1) s' = Some a \<and> ac_loops a = [] \<and>
     fst (sys_Send False src (rt_idCounter (ar_router (sy_router s)) + 1) t d now s') = Ok ()"
proof -
  let ?i = "rt_idCounter (ar_router (sy_router s)) + 1"
  have inv: "sys_inv node n s" using sys_reach_inv [OF assms(1)] assms(2) by simp
  obtain s1 where n1: "sys_NextID s = (?i, s1)" by (simp add: sys_NextID_simps)
  note i1 = sys_inv_NextID [OF inv n1]
  have ok1: "ar_ok (sy_router s1)" using i1 by (simp add: sys_inv_def)
  have size: "o_MailboxSize (service_options name opts) = o_MailboxSize opts"
    using assms(4) by (simp add: service_options_def Let_def)
  then obtain a where a: "NewActor ?i h (service_options name opts) now = Some a"
    using assms(4) by (simp add: NewActor_def)
  note new = NewActor_Some [OF a]
  have none: "rt_actors (ar_router (sy_router s1)) (ac_id a) = None"
    using assms(6) i1 new(1) by (simp add: sys_GetActor_def router_Lookup_def)
  have noact: "hm_actorToHandle (ar_handleManager (sy_router s1)) (ac_id a) = None"
    using ok1 none by (auto simp: ar_ok_def)
  have "\<exists>e s'. sys_NewService name h opts now s = (Err e, s') \<and> sy_starting s' = sy_starting s \<and>
     actor_of s' = (actor_of s)(?i \<mapsto> a)"
  proof (cases "name = []")
    case True
    obtain hp ar' where reg: "ar_RegisterService (Some a) name (sy_router s1) = (Inr hp, ar')"
      using none noact True by (simp add: ar_RegisterService_def router_Register_def AllocateHandle_def Let_def)
    have rb: "rt_actors (ar_router (snd (ar_UnregisterService name ar'))) = (actor_of s)(?i \<mapsto> a)"
      using rollback_actors [OF ok1 sys_inv_fresh [OF conjunct1 [OF i1] assms(2)] reg] True
        ar_RegisterService_Inr(2) [OF ok1 reg] i1 new(1) by simp
    obtain e sd where "sd_RegisterService now hp (service_registration name) (sy_serviceDiscovery s1) = (Inl e, sd)"
      using True ar_RegisterService_Inr(6) [OF ok1 reg]
      by (simp add: sd_RegisterService_def Let_def new_info_def registry_Register_def)
    then show ?thesis using assms(3) n1 a reg rb i1 by (simp add: sys_NewService_def)
  next
    case False
    then have nm: "hm_nameToHandle (ar_handleManager (sy_router s1)) name \<noteq> None"
      using assms(5) i1 by (auto simp: sys_GetService_def ar_LookupService_def GetHandleByName_def split: option.splits)
    have "ar_RegisterService (Some a) name (sy_router s1) =
        (Inl (HandleFailed (ServiceNameExists name)),
         (sy_router s1)\<lparr>ar_router := (ar_router (sy_router s1))\<lparr>rt_actors := (actor_of s)(?i \<mapsto> a)\<rparr>\<rparr>)"
      using none noact nm False i1 new(1)
      by (simp add: ar_RegisterService_def router_Register_def AllocateHandle_def)
    then show ?thesis using assms(3) n1 a i1 by (simp add: sys_NewService_def)
  qed
  then show ?thesis
    using new size assms(4)
    by (auto simp: sys_GetActor_def router_Lookup_def sys_Send_def Let_def router_Route_def actor_Send_def
        send_select_def try_send_def)
qed

theorem failed_new_service_leaks_actor_witness:
  "\<exists>e s'. sys_NewService ''db'' () DefaultActorOptions 6 demo_system = (Err e, s') \<and>
     sys_GetActor (rt_idCounter (ar_router (sy_router demo_system)) + 1) s' \<noteq> None"
proof -
  have "rt_idCounter (ar_router (sy_router demo_system)) = 1"
    by (simp add: demo_system_def sys_NewService_def NewActorSystemWithNodeID_def sys_NextID_simps
      NewAdvancedRouter_def NewRouter_def NewActor_def service_options_def DefaultActorOptions_def
      ar_RegisterService_def router_Register_def AllocateHandle_def NewHandleManager_def Let_def
      sd_RegisterService_def NewServiceDiscovery_def NewServiceRegistry_def new_info_def registry_Register_def)
  moreover have "(2 :: u32) \<notin> dom (actor_of demo_system)"
    unfolding range_orderD(2) [OF demo_system_facts(2), symmetric] by simp
  ultimately have "sys_GetActor (rt_idCounter (ar_router (sy_router demo_system)) + 1) demo_system = None"
    by (simp add: sys_GetActor_def router_Lookup_def domIff)
  from failed_new_service_leaks_actor [OF demo_system_facts(1) _ demo_system_facts(4) _ _ this,
      of DefaultActorOptions "''db''" "()" 6 0 0 "[]"] demo_system_facts(5)
  show ?thesis by (auto simp: DefaultActorOptions_def sys_GetService_def)
qed

text \<open>
  Property C40. \<^verbatim>\<open>Call\<close> never reaches its target: whatever target it names, the message goes into
  the mailbox of the calling actor itself and the target actor is left as it was. The answer
  that the caller gets is its own handler's.
\<close>

theorem call_goes_to_caller:
  assumes "sys_Call_begin pick source to msgType data now s = (Ok session, s')" and "to \<noteq> source"
  shows "sys_GetActor to s' = sys_GetActor to s \<and>
     (\<exists>a a'. sys_GetActor source s = Some a \<and> sys_GetActor source s' = Some a' \<and>
        ch_buf (ac_mailbox a') = ch_buf (ac_mailbox a) @
          [Some \<lparr>m_ID = 0, m_Type = msgType, m_Source = source, m_Target = to, m_Session = session,
                 m_Data = data, m_Timestamp = now\<rparr>])"
proof -
  let ?m = "\<lparr>m_ID = 0, m_Type = msgType, m_Source = source, m_Target = to, m_Session = 0,
                 m_Data = data, m_Timestamp = now\<rparr>"
  obtain a a' where a: "actor_of s source = Some a" "actor_Call_begin pick ?m a = (Ok session, a')"
      "s' = set_actor source a' s"
    using assms(1)
    by (auto simp: sys_Call_begin_def router_Lookup_def split: option.splits prod.splits outcome.splits)
  from actor_Call_begin_Ok(2) [OF a(2)] have "a' = set_buf (ch_buf (ac_mailbox a) @ [Some (?m\<lparr>m_Session := session\<rparr>)]) (call_prepare a)"
    by (simp add: actor_Send_Ok send_select_Ok)
  with a assms(2) show ?thesis by (simp add: sys_GetActor_def router_Lookup_def)
qed

theorem call_goes_to_caller_witness:
  "\<exists>session s'. sys_Call_begin False 1 2 MessageTypeRequest [] 7 demo_system = (Ok session, s') \<and>
     sys_GetActor 2 s' = sys_GetActor 2 demo_system"
proof -
  obtain a where a: "actor_of demo_system 1 = Some a"
    using range_orderD(3) [OF demo_system_facts(2), of 1] by auto
  then have "ac_mailbox a = make_chan 1000" "ac_state a = ActorStateIdle" "\<not> ac_ctxDone a"
    by (auto simp: demo_system_def sys_NewService_def NewActorSystemWithNodeID_def sys_NextID_simps
      NewAdvancedRouter_def NewRouter_def NewActor_def service_options_def DefaultActorOptions_def
      ar_RegisterService_def router_Register_def AllocateHandle_def NewHandleManager_def Let_def
      sd_RegisterService_def NewServiceDiscovery_def NewServiceRegistry_def new_info_def registry_Register_def)
  then have "\<exists>ses a'. actor_Call_begin False m a = (Ok ses, a')" for m
    by (simp add: actor_Call_begin_def Let_def actor_Send_def send_select_def try_send_def)
  then obtain session a' where "actor_Call_begin False \<lparr>m_ID = 0, m_Type = MessageTypeRequest, m_Source = 1, m_Target = 2,
      m_Session = 0, m_Data = [], m_Timestamp = 7\<rparr> a = (Ok session, a')" by blast
  then obtain s' where "sys_Call_begin False 1 2 MessageTypeRequest [] 7 demo_system = (Ok session, s')"
    using a by (simp add: sys_Call_begin_def router_Lookup_def)
  with call_goes_to_caller [OF this] show ?thesis by simp
qed

end
