(* ===== verification/Lifecycle.thy ===== *)
theory Lifecycle
  imports Sngo_Prelude "HOL-Library.AList" "HOL-Library.List_Lexorder" "HOL-Library.Char_ord"
begin

text \<open>
  \<^verbatim>\<open>DefaultLifecycleManager\<close> of \<^verbatim>\<open>bootstrap/lifecycle.go\<close>. Services are user code: a state
  and functions that start, stop and check it, each returning an error text or none. Every
  call of them is recorded in a history. The two Go maps of \<^verbatim>\<open>calculateStartOrder\<close> are
  association lists, and the orders in which maps are ranged over are arguments. Kahn's
  algorithm is a total function; that it finds an order exactly when one exists is proved
  against the definition \<open>valid_order\<close>.
\<close>

section \<open>Data\<close>

text \<open>Health of a service; the values under \<^verbatim>\<open>Data\<close> are numbers, the only ones the code stores.\<close>

type_synonym HealthState = string

definition HealthUnknown :: HealthState where "HealthUnknown = ''unknown''"
definition HealthStarting :: HealthState where "HealthStarting = ''starting''"
definition HealthHealthy :: HealthState where "HealthHealthy = ''healthy''"
definition HealthUnhealthy :: HealthState where "HealthUnhealthy = ''unhealthy''"
definition HealthCritical :: HealthState where "HealthCritical = ''critical''"
definition HealthStopping :: HealthState where "HealthStopping = ''stopping''"
definition HealthStopped :: HealthState where "HealthStopped = ''stopped''"

record HealthStatus =
  hs_State :: HealthState
  hs_Message :: string
  hs_LastCheck :: Time
  hs_Data :: "string \<rightharpoonup> int"

record 'u service_ops =
  so_Start :: "'u \<Rightarrow> 'u \<times> string option"
  so_Stop :: "'u \<Rightarrow> 'u \<times> string option"
  so_Health :: "'u \<Rightarrow> string + HealthStatus"

datatype event_data = No_data | Dependencies "string list" | Order "string list"

record LifecycleEvent =
  le_Type :: string
  le_Service :: string
  le_Timestamp :: Time
  le_Error :: "string option"
  le_Data :: event_data

text \<open>The calls made on the services, with their success.\<close>

datatype service_call = Start_call string bool | Stop_call string bool

record 'u DefaultLifecycleManager =
  lm_services :: "string \<rightharpoonup> 'u"
  lm_dependencies :: "string \<rightharpoonup> string list"
  lm_startOrder :: "string list"
  lm_started :: bool
  lm_stopping :: bool
  lm_eventChan :: "LifecycleEvent chan"
  lm_listeners :: "nat list"
  lm_notified :: "(nat \<times> LifecycleEvent) list"
  lm_timeout :: Duration
  lm_calls :: "service_call list"

datatype LifecycleError =
    LcEmptyName
  | LcNilService
  | LcAlreadyStarted
  | LcServiceExists string
  | DependencyNotRegistered string string
  | CircularDependency
  | StartFailed string string
  | LcAlreadyStopping
  | StopFailed string

section \<open>Registration and events\<close>

definition NewLifecycleManager :: "'u DefaultLifecycleManager" where
  "NewLifecycleManager =
     \<lparr>lm_services = Map.empty, lm_dependencies = Map.empty, lm_startOrder = [], lm_started = False,
      lm_stopping = False, lm_eventChan = make_chan 100, lm_listeners = [], lm_notified = [],
      lm_timeout = 30 * Second, lm_calls = []\<rparr>"

text \<open>The event goes to the channel if it has room, and one goroutine per listener gets it.\<close>

definition broadcastEvent :: "LifecycleEvent \<Rightarrow> 'u DefaultLifecycleManager \<Rightarrow> 'u DefaultLifecycleManager" where
  "broadcastEvent ev lm =
     lm\<lparr>lm_eventChan := offer ev (lm_eventChan lm),
        lm_notified := lm_notified lm @ map (\<lambda>l. (l, ev)) (lm_listeners lm)\<rparr>"

definition lc_event :: "string \<Rightarrow> string \<Rightarrow> Time \<Rightarrow> string option \<Rightarrow> event_data \<Rightarrow> LifecycleEvent" where
  "lc_event t s now e d = \<lparr>le_Type = t, le_Service = s, le_Timestamp = now, le_Error = e, le_Data = d\<rparr>"

definition lm_Register ::
  "Time \<Rightarrow> string \<Rightarrow> 'u option \<Rightarrow> string list \<Rightarrow> 'u DefaultLifecycleManager \<Rightarrow>
     (LifecycleError + unit) \<times> 'u DefaultLifecycleManager" where
  "lm_Register now name service deps lm =
     (if name = [] then (Inl LcEmptyName, lm)
      else case service of
        None \<Rightarrow> (Inl LcNilService, lm)
      | Some u \<Rightarrow>
          if lm_started lm then (Inl LcAlreadyStarted, lm)
          else if lm_services lm name \<noteq> None then (Inl (LcServiceExists name), lm)
          else (Inr (), broadcastEvent (lc_event ''service.registered'' name now None (Dependencies deps))
                 (lm\<lparr>lm_services := (lm_services lm)(name \<mapsto> u),
                     lm_dependencies := (lm_dependencies lm)(name \<mapsto> deps)\<rparr>)))"

definition lm_AddListener :: "nat \<Rightarrow> 'u DefaultLifecycleManager \<Rightarrow> 'u DefaultLifecycleManager" where
  "lm_AddListener l lm = lm\<lparr>lm_listeners := lm_listeners lm @ [l]\<rparr>"

definition lm_SetTimeout :: "Duration \<Rightarrow> 'u DefaultLifecycleManager \<Rightarrow> 'u DefaultLifecycleManager" where
  "lm_SetTimeout d lm = lm\<lparr>lm_timeout := d\<rparr>"

text \<open>\<^verbatim>\<open>sort.Strings\<close> of the names, bytewise.\<close>

definition lm_Services :: "string list \<Rightarrow> 'u DefaultLifecycleManager \<Rightarrow> string list" where
  "lm_Services ks lm = sort (filter (\<lambda>n. lm_services lm n \<noteq> None) ks)"

definition lm_GetService :: "string \<Rightarrow> 'u DefaultLifecycleManager \<Rightarrow> 'u option" where
  "lm_GetService name lm = lm_services lm name"

definition lm_GetDependencies :: "string \<Rightarrow> 'u DefaultLifecycleManager \<Rightarrow> string list option" where
  "lm_GetDependencies name lm = lm_dependencies lm name"

definition lm_Events :: "'u DefaultLifecycleManager \<Rightarrow> LifecycleEvent chan" where
  "lm_Events lm = lm_eventChan lm"

definition lm_IsStarted :: "'u DefaultLifecycleManager \<Rightarrow> bool" where
  "lm_IsStarted lm = lm_started lm"

definition lm_IsStopping :: "'u DefaultLifecycleManager \<Rightarrow> bool" where
  "lm_IsStopping lm = lm_stopping lm"

definition lm_Health :: "'u service_ops \<Rightarrow> 'u DefaultLifecycleManager \<Rightarrow> string \<rightharpoonup> HealthStatus" where
  "lm_Health ops lm name =
     (case lm_services lm name of
        None \<Rightarrow> None
      | Some u \<Rightarrow>
          Some (case so_Health ops u of
                  Inl err \<Rightarrow> \<lparr>hs_State = HealthUnhealthy, hs_Message = err, hs_LastCheck = 0, hs_Data = Map.empty\<rparr>
                | Inr status \<Rightarrow> status))"

section \<open>The start order\<close>

text \<open>Reading and writing the maps \<^verbatim>\<open>inDegree\<close> and \<^verbatim>\<open>graph\<close>; a missing key reads as zero.\<close>

definition al_get :: "'v \<Rightarrow> (string \<times> 'v) list \<Rightarrow> string \<Rightarrow> 'v" where
  "al_get z al k = (case map_of al k of None \<Rightarrow> z | Some v \<Rightarrow> v)"

fun add_deps ::
  "('u DefaultLifecycleManager) \<Rightarrow> string \<Rightarrow> string list \<Rightarrow> (string \<times> int) list \<times> (string \<times> string list) list \<Rightarrow>
     LifecycleError + (string \<times> int) list \<times> (string \<times> string list) list" where
  "add_deps lm service [] st = Inr st"
| "add_deps lm service (dep # deps) (inDegree, graph) =
     (if lm_services lm dep = None then Inl (DependencyNotRegistered dep service)
      else add_deps lm service deps
             (AList.update service (al_get 0 inDegree service + 1) inDegree,
              AList.update dep (al_get [] graph dep @ [service]) graph))"

fun build_graph ::
  "('u DefaultLifecycleManager) \<Rightarrow> string list \<Rightarrow> (string \<times> int) list \<times> (string \<times> string list) list \<Rightarrow>
     LifecycleError + (string \<times> int) list \<times> (string \<times> string list) list" where
  "build_graph lm [] st = Inr st"
| "build_graph lm (service # ss) st =
     (case add_deps lm service (go_get [] (lm_dependencies lm) service) st of
        Inl e \<Rightarrow> Inl e
      | Inr st' \<Rightarrow> build_graph lm ss st')"

fun reduce :: "string list \<Rightarrow> (string \<times> int) list \<Rightarrow> string list \<Rightarrow> (string \<times> int) list \<times> string list" where
  "reduce [] inDegree queue = (inDegree, queue)"
| "reduce (dependent # ds) inDegree queue =
     (let d = al_get 0 inDegree dependent - 1
      in reduce ds (AList.update dependent d inDegree) (if d = 0 then queue @ [dependent] else queue))"

definition positives :: "(string \<times> int) list \<Rightarrow> nat" where
  "positives al = length (filter (\<lambda>(k, d). d > 0) al)"

lemma positives_update:
  "d < al_get 0 al k \<Longrightarrow> positives (AList.update k d al) + (if d = 0 then 1 else 0) \<le> positives al"
proof (induction al)
  case Nil
  then show ?case by (simp add: positives_def al_get_def)
next
  case (Cons p al)
  then show ?case by (cases p) (auto simp: positives_def al_get_def split: if_splits)
qed

lemma reduce_measure:
  "reduce ds inDegree queue = (inDegree', queue') \<Longrightarrow>
     length queue' + positives inDegree' \<le> length queue + positives inDegree"
proof (induction ds inDegree queue rule: reduce.induct)
  case (2 k ds al queue)
  let ?d = "al_get 0 al k - 1"
  have "positives (AList.update k ?d al) + (if ?d = 0 then 1 else 0) \<le> positives al"
    by (rule positives_update) simp
  moreover have "length queue' + positives inDegree' \<le>
      length (if ?d = 0 then queue @ [k] else queue) + positives (AList.update k ?d al)"
    using 2 by (simp add: Let_def)
  ultimately show ?case by (auto split: if_splits)
qed simp

function kahn ::
  "(string \<times> string list) list \<Rightarrow> string list \<Rightarrow> (string \<times> int) list \<Rightarrow> string list \<Rightarrow> string list" where
  "kahn graph [] inDegree result = result"
| "kahn graph (current # queue) inDegree result =
     (case reduce (al_get [] graph current) inDegree queue of
        (inDegree', queue') \<Rightarrow> kahn graph queue' inDegree' (result @ [current]))"
  by pat_completeness auto
termination
  by (relation "measure (\<lambda>(graph, queue, inDegree, result). length queue + positives inDegree)")
     (auto dest!: reduce_measure [OF sym] simp: less_Suc_eq_le)

text \<open>
  \<open>ks\<close>, \<open>ds\<close> and \<open>qs\<close> are the orders of the three ranges: over the services, over the
  dependencies and over the in-degrees.
\<close>

definition calculateStartOrder ::
  "string list \<Rightarrow> string list \<Rightarrow> string list \<Rightarrow> 'u DefaultLifecycleManager \<Rightarrow> LifecycleError + string list" where
  "calculateStartOrder ks ds qs lm =
     (case build_graph lm ds (map (\<lambda>s. (s, 0)) ks, map (\<lambda>s. (s, [])) ks) of
        Inl e \<Rightarrow> Inl e
      | Inr (inDegree, graph) \<Rightarrow>
          let result = kahn graph (filter (\<lambda>s. al_get 0 inDegree s = 0) qs) inDegree []
          in if length result \<noteq> length ks then Inl CircularDependency else Inr result)"

section \<open>Starting and stopping\<close>

text \<open>
  A start order lists registered services only (\<open>valid_order\<close> below), so the case of a missing
  service, on which the Go code would panic, does not arise; the loops skip it.
\<close>

fun start_loop ::
  "'u service_ops \<Rightarrow> Time \<Rightarrow> string list \<Rightarrow> 'u DefaultLifecycleManager \<Rightarrow>
     (LifecycleError + unit) \<times> 'u DefaultLifecycleManager" where
  "start_loop ops now [] lm = (Inr (), lm)"
| "start_loop ops now (n # ns) lm =
     (case lm_services lm n of
        None \<Rightarrow> start_loop ops now ns lm
      | Some u \<Rightarrow>
          let lm1 = broadcastEvent (lc_event ''service.starting'' n now None No_data) lm
          in case so_Start ops u of
               (u', err) \<Rightarrow>
                 let lm2 = lm1\<lparr>lm_services := (lm_services lm1)(n \<mapsto> u'),
                               lm_calls := lm_calls lm1 @ [Start_call n (err = None)]\<rparr>
                 in case err of
                      Some e \<Rightarrow> (Inl (StartFailed n e),
                                 broadcastEvent (lc_event ''service.start_failed'' n now (Some e) No_data) lm2)
                    | None \<Rightarrow> start_loop ops now ns
                        (broadcastEvent (lc_event ''service.started'' n now None No_data)
                          (lm2\<lparr>lm_startOrder := lm_startOrder lm2 @ [n]\<rparr>)))"

definition lm_Start ::
  "'u service_ops \<Rightarrow> Time \<Rightarrow> string list \<Rightarrow> string list \<Rightarrow> string list \<Rightarrow> 'u DefaultLifecycleManager \<Rightarrow>
     (LifecycleError + unit) \<times> 'u DefaultLifecycleManager" where
  "lm_Start ops now ks ds qs lm =
     (if lm_started lm then (Inl LcAlreadyStarted, lm)
      else case calculateStartOrder ks ds qs lm of
        Inl e \<Rightarrow> (Inl e, lm)
      | Inr order \<Rightarrow>
          (case start_loop ops now order
                  (broadcastEvent (lc_event ''lifecycle.starting'' [] now None (Order order)) lm) of
             (Inl e, lm') \<Rightarrow> (Inl e, lm')
           | (Inr _, lm') \<Rightarrow>
               (Inr (), broadcastEvent (lc_event ''lifecycle.started'' [] now None No_data)
                          (lm'\<lparr>lm_started := True\<rparr>))))"

fun stop_loop ::
  "'u service_ops \<Rightarrow> Time \<Rightarrow> string list \<Rightarrow> LifecycleError option \<Rightarrow> 'u DefaultLifecycleManager \<Rightarrow>
     LifecycleError option \<times> 'u DefaultLifecycleManager" where
  "stop_loop ops now [] lastError lm = (lastError, lm)"
| "stop_loop ops now (n # ns) lastError lm =
     (case lm_services lm n of
        None \<Rightarrow> stop_loop ops now ns lastError lm
      | Some u \<Rightarrow>
          let lm1 = broadcastEvent (lc_event ''service.stopping'' n now None No_data) lm
          in case so_Stop ops u of
               (u', err) \<Rightarrow>
                 let lm2 = lm1\<lparr>lm_services := (lm_services lm1)(n \<mapsto> u'),
                               lm_calls := lm_calls lm1 @ [Stop_call n (err = None)]\<rparr>
                 in case err of
                      Some e \<Rightarrow> stop_loop ops now ns (Some (StopFailed e))
                        (broadcastEvent (lc_event ''service.stop_failed'' n now (Some e) No_data) lm2)
                    | None \<Rightarrow> stop_loop ops now ns lastError
                        (broadcastEvent (lc_event ''service.stopped'' n now None No_data) lm2))"

text \<open>The in-place reversal of \<^verbatim>\<open>stopOrder\<close>: swaps from the middle outwards.\<close>

fun reverse_loop :: "nat \<Rightarrow> 'a list \<Rightarrow> 'a list" where
  "reverse_loop 0 xs = xs"
| "reverse_loop (Suc i) xs =
     (let opp = length xs - 1 - i in reverse_loop i (xs[i := xs ! opp, opp := xs ! i]))"

definition lm_Stop ::
  "'u service_ops \<Rightarrow> Time \<Rightarrow> 'u DefaultLifecycleManager \<Rightarrow> (LifecycleError + unit) \<times> 'u DefaultLifecycleManager" where
  "lm_Stop ops now lm =
     (if \<not> lm_started lm then (Inr (), lm)
      else if lm_stopping lm then (Inl LcAlreadyStopping, lm)
      else
        let stopOrder = reverse_loop (length (lm_startOrder lm) div 2) (lm_startOrder lm)
        in case stop_loop ops now stopOrder None
                  (broadcastEvent (lc_event ''lifecycle.stopping'' [] now None No_data) (lm\<lparr>lm_stopping := True\<rparr>)) of
             (lastError, lm') \<Rightarrow>
               ((case lastError of None \<Rightarrow> Inr () | Some e \<Rightarrow> Inl e),
                broadcastEvent (lc_event ''lifecycle.stopped'' [] now None No_data)
                  (lm'\<lparr>lm_started := False, lm_stopping := False, lm_startOrder := []\<rparr>)))"

section \<open>What a start order is\<close>

text \<open>Every service once, after all the services it depends on.\<close>

definition valid_order :: "string set \<Rightarrow> (string \<Rightarrow> string list) \<Rightarrow> string list \<Rightarrow> bool" where
  "valid_order S D xs \<longleftrightarrow> distinct xs \<and> set xs = S \<and>
     (\<forall>i < length xs. set (D (xs ! i)) \<subseteq> set (take i xs))"

abbreviation deps_of :: "'u DefaultLifecycleManager \<Rightarrow> string \<Rightarrow> string list" where
  "deps_of lm \<equiv> go_get [] (lm_dependencies lm)"

section \<open>The graph\<close>

lemma al_get_update [simp]: "al_get z (AList.update k v al) j = (if j = k then v else al_get z al j)"
  by (simp add: al_get_def AList.update_conv')

lemma count_list_snoc: "count_list (xs @ [x]) y = count_list xs y + (if x = y then 1 else 0)"
  by simp

lemma add_deps_Inr:
  assumes "add_deps lm s deps (I, G) = Inr (I', G')"
  shows "set deps \<subseteq> dom (lm_services lm)"
    and "al_get 0 I' v = al_get 0 I v + (if v = s then int (length deps) else 0)"
    and "count_list (al_get [] G' d) v = count_list (al_get [] G d) v + (if v = s then count_list deps d else 0)"
  using assms
proof (induction lm s deps "(I, G)" arbitrary: I G rule: add_deps.induct)
  case (2 lm s dep deps I G)
  { case 1 then show ?case using 2 by (auto split: if_splits)
  next
    case 2 then show ?case using "2.hyps"(2) by (auto split: if_splits)
  next
    case 3 then show ?case using "2.hyps"(3) by (auto split: if_splits) }
qed simp_all

lemma add_deps_total:
  "set deps \<subseteq> dom (lm_services lm) \<Longrightarrow> \<exists>st'. add_deps lm s deps st = Inr st'"
  by (induction lm s deps st rule: add_deps.induct) auto

lemma build_graph_Inr:
  assumes "build_graph lm ss (I, G) = Inr (I', G')" and "distinct ss"
  shows "\<forall>s \<in> set ss. set (deps_of lm s) \<subseteq> dom (lm_services lm)"
    and "al_get 0 I' v = al_get 0 I v + (if v \<in> set ss then int (length (deps_of lm v)) else 0)"
    and "count_list (al_get [] G' d) v =
           count_list (al_get [] G d) v + (if v \<in> set ss then count_list (deps_of lm v) d else 0)"
proof -
  have "(\<forall>s \<in> set ss. set (deps_of lm s) \<subseteq> dom (lm_services lm)) \<and>
      (\<forall>v. al_get 0 I' v = al_get 0 I v + (if v \<in> set ss then int (length (deps_of lm v)) else 0)) \<and>
      (\<forall>d v. count_list (al_get [] G' d) v =
           count_list (al_get [] G d) v + (if v \<in> set ss then count_list (deps_of lm v) d else 0))"
    using assms
  proof (induction ss arbitrary: I G)
    case (Cons s ss)
    then obtain I1 G1 where a: "add_deps lm s (deps_of lm s) (I, G) = Inr (I1, G1)"
      and b: "build_graph lm ss (I1, G1) = Inr (I', G')"
      by (auto split: sum.splits)
    have "distinct ss" "s \<notin> set ss" using Cons.prems(2) by auto
    with Cons.IH [OF b] add_deps_Inr [OF a] show ?case by auto
  qed simp
  then show "\<forall>s \<in> set ss. set (deps_of lm s) \<subseteq> dom (lm_services lm)"
    and "al_get 0 I' v = al_get 0 I v + (if v \<in> set ss then int (length (deps_of lm v)) else 0)"
    and "count_list (al_get [] G' d) v =
           count_list (al_get [] G d) v + (if v \<in> set ss then count_list (deps_of lm v) d else 0)"
    by blast+
qed

lemma build_graph_total:
  "\<forall>s \<in> set ss. set (deps_of lm s) \<subseteq> dom (lm_services lm) \<Longrightarrow> \<exists>st'. build_graph lm ss st = Inr st'"
proof (induction ss arbitrary: st)
  case (Cons s ss)
  have "set (deps_of lm s) \<subseteq> dom (lm_services lm)" using Cons.prems by simp
  from add_deps_total [OF this, of s st] obtain st1 where "add_deps lm s (deps_of lm s) st = Inr st1" by blast
  with Cons show ?case by simp
qed simp

lemma add_deps_no_StartFailed: "add_deps lm s zs st \<noteq> Inl (StartFailed n e)"
  by (induction lm s zs st rule: add_deps.induct) auto

lemma build_graph_no_StartFailed: "build_graph lm zs st \<noteq> Inl (StartFailed n e)"
  by (induction lm zs st rule: build_graph.induct) (auto simp: add_deps_no_StartFailed split: sum.splits)

section \<open>Kahn's algorithm\<close>

lemma reduce_spec:
  assumes "\<And>v. int (count_list ds v) \<le> al_get 0 I v" and "reduce ds I q = (I', q')"
  shows "al_get 0 I' v = al_get 0 I v - int (count_list ds v)"
    and "\<exists>new. q' = q @ new \<and> distinct new \<and>
           set new = {v \<in> set ds. al_get 0 I v = int (count_list ds v)}"
proof -
  have "(\<forall>v. al_get 0 I' v = al_get 0 I v - int (count_list ds v)) \<and>
    (\<exists>new. q' = q @ new \<and> distinct new \<and> set new = {v \<in> set ds. al_get 0 I v = int (count_list ds v)})"
    using assms
  proof (induction ds I q rule: reduce.induct)
    case (2 k ds I q)
    let ?d = "al_get 0 I k - 1"
    let ?I = "AList.update k ?d I"
    have le: "int (count_list ds v) \<le> al_get 0 ?I v" for v using "2.prems"(1) [of v] by auto
    have red: "reduce ds ?I (if ?d = 0 then q @ [k] else q) = (I', q')"
      using "2.prems"(2) by (simp add: Let_def)
    from "2.IH" [OF refl le red] obtain new where
      I': "\<And>v. al_get 0 I' v = al_get 0 ?I v - int (count_list ds v)" and
      new: "q' = (if ?d = 0 then q @ [k] else q) @ new" "distinct new"
        "set new = {v \<in> set ds. al_get 0 ?I v = int (count_list ds v)}" by blast
    have I'': "al_get 0 I' v = al_get 0 I v - int (count_list (k # ds) v)" for v using I' by simp
    show ?case
    proof (cases "?d = 0")
      case True
      have "count_list ds k = 0" using le [of k] True by simp
      then have "k \<notin> set ds" by (simp add: count_list_0_iff)
      with new I'' True show ?thesis by (intro conjI allI exI [of _ "k # new"]) (auto simp: count_list_0_iff)
    next
      case False
      have "set new = {v \<in> set (k # ds). al_get 0 I v = int (count_list (k # ds) v)}"
        using new(3) False by (auto simp: count_list_0_iff)
      with new I'' False show ?thesis by auto
    qed
  qed simp
  then show "al_get 0 I' v = al_get 0 I v - int (count_list ds v)"
    and "\<exists>new. q' = q @ new \<and> distinct new \<and>
           set new = {v \<in> set ds. al_get 0 I v = int (count_list ds v)}" by blast+
qed

text \<open>
  The loop invariant: the in-degree of a service counts its dependencies that are not yet in
  the result, the services with in-degree zero are those in the result or the queue, and the
  result so far respects the dependencies.
\<close>

definition kahn_inv ::
  "string set \<Rightarrow> (string \<Rightarrow> string list) \<Rightarrow> string list \<Rightarrow> (string \<times> int) list \<Rightarrow> string list \<Rightarrow> bool" where
  "kahn_inv S D queue I result \<longleftrightarrow>
     (\<forall>v \<in> S. al_get 0 I v = int (length (filter (\<lambda>d. d \<notin> set result) (D v)))) \<and>
     (\<forall>v. v \<notin> S \<longrightarrow> al_get 0 I v = 0 \<and> v \<notin> set (result @ queue)) \<and>
     (\<forall>v \<in> S. v \<in> set (result @ queue) \<longleftrightarrow> al_get 0 I v = 0) \<and>
     distinct (result @ queue) \<and>
     (\<forall>i < length result. set (D (result ! i)) \<subseteq> set (take i result))"

lemma length_filter_drop:
  "q \<notin> R \<Longrightarrow> int (length (filter (\<lambda>d. d \<notin> R) xs)) - int (count_list xs q) =
     int (length (filter (\<lambda>d. d \<notin> insert q R) xs))"
  by (induction xs) auto

lemma count_le_filter: "q \<notin> R \<Longrightarrow> count_list xs q \<le> length (filter (\<lambda>d. d \<notin> R) xs)"
  by (induction xs) auto

lemma kahn_inv_step:
  assumes inv: "kahn_inv S D (q # qs) I result"
    and graph: "\<And>d v. count_list (al_get [] graph d) v = (if v \<in> S then count_list (D v) d else 0)"
    and red: "reduce (al_get [] graph q) I qs = (I', qs')"
  shows "kahn_inv S D qs' I' (result @ [q])"
proof -
  let ?g = "al_get [] graph q"
  have qS: "q \<in> S" and qr: "q \<notin> set result" and q0: "al_get 0 I q = 0"
    using inv by (auto simp: kahn_inv_def)
  have deg: "al_get 0 I v = int (length (filter (\<lambda>d. d \<notin> set result) (D v)))" if "v \<in> S" for v
    using inv that by (simp add: kahn_inv_def)
  have le: "int (count_list ?g v) \<le> al_get 0 I v" for v
    using graph [of q v] deg [of v] count_le_filter [OF qr, of "D v"] inv
    by (cases "v \<in> S") (simp_all add: kahn_inv_def)
  note I' = reduce_spec(1) [OF le red]
  obtain new where new: "qs' = qs @ new" "distinct new" "set new = {v \<in> set ?g. al_get 0 I v = int (count_list ?g v)}"
    using reduce_spec(2) [OF le red] by blast
  have gS: "v \<in> set ?g \<Longrightarrow> v \<in> S" for v using graph [of q v] by (metis count_list_0_iff)
  have gpos: "v \<in> set ?g \<Longrightarrow> al_get 0 I v > 0" for v
  proof -
    assume "v \<in> set ?g"
    then have "count_list ?g v \<noteq> 0" by (simp add: count_list_0_iff)
    then show ?thesis using le [of v] by linarith
  qed
  have newq: "v \<notin> set (result @ q # qs)" if "v \<in> set new" for v
    using that gpos [of v] gS [of v] new(3) inv by (auto simp: kahn_inv_def)
  have deg': "al_get 0 I' v = int (length (filter (\<lambda>d. d \<notin> set (result @ [q])) (D v)))" if "v \<in> S" for v
    using I' [of v] graph [of q v] deg [OF that] length_filter_drop [OF qr, of "D v"] that by simp
  have zero: "v \<in> set (result @ [q] @ qs') \<longleftrightarrow> al_get 0 I' v = 0" if "v \<in> S" for v
  proof (cases "v \<in> set ?g")
    case True
    then have "v \<notin> set (result @ q # qs)" using gpos [OF True] inv that by (auto simp: kahn_inv_def)
    then have "v \<in> set (result @ [q] @ qs') \<longleftrightarrow> v \<in> set new" using new(1) by auto
    also have "\<dots> \<longleftrightarrow> al_get 0 I v = int (count_list ?g v)" using new(3) True by auto
    finally show ?thesis using I' [of v] by simp
  next
    case False
    then have "v \<notin> set new" "al_get 0 I' v = al_get 0 I v" using new(3) I' [of v] by (auto simp: count_list_0_iff)
    moreover have "v \<in> set (result @ q # qs) \<longleftrightarrow> al_get 0 I v = 0" using inv that by (simp add: kahn_inv_def)
    ultimately show ?thesis using new(1) by auto
  qed
  have "set (D q) \<subseteq> set result"
    using q0 deg [OF qS] by (auto simp: filter_empty_conv)
  then have ord: "\<forall>i < length (result @ [q]). set (D ((result @ [q]) ! i)) \<subseteq> set (take i (result @ [q]))"
    using inv by (auto simp: kahn_inv_def nth_append less_Suc_eq)
  have out: "al_get 0 I' v = 0 \<and> v \<notin> set (result @ [q] @ qs')" if "v \<notin> S" for v
    using that I' [of v] graph [of q v] inv qS new(1,3) gS by (auto simp: kahn_inv_def)
  show ?thesis
    unfolding kahn_inv_def
    using deg' zero out ord newq newq [of q] new(1,2) inv by (auto simp: kahn_inv_def)
qed


lemma kahn_result:
  assumes "kahn_inv S D queue I result"
    and "\<And>d v. count_list (al_get [] graph d) v = (if v \<in> S then count_list (D v) d else 0)"
  shows "\<exists>I'. kahn_inv S D [] I' (kahn graph queue I result)"
  using assms
proof (induction graph queue I result rule: kahn.induct)
  case (1 graph I result)
  then show ?case by auto
next
  case (2 graph q qs I result)
  obtain I' qs' where red: "reduce (al_get [] graph q) I qs = (I', qs')" by force
  from "2.IH" [OF red [symmetric] kahn_inv_step [OF "2.prems" red] "2.prems"(2)]
  show ?case by (simp add: red)
qed

lemma kahn_inv_final:
  assumes "kahn_inv S D [] I result"
  shows "distinct result" and "set result \<subseteq> S"
    and "\<forall>i < length result. set (D (result ! i)) \<subseteq> set (take i result)"
    and "v \<in> S \<Longrightarrow> set (D v) \<subseteq> set result \<Longrightarrow> v \<in> set result"
  using assms by (auto simp: kahn_inv_def filter_empty_conv)

text \<open>A service left out, together with an order of all, would be the first one left out.\<close>

lemma valid_order_all:
  assumes "valid_order S D xs" and "\<And>v. v \<in> S \<Longrightarrow> set (D v) \<subseteq> R \<Longrightarrow> v \<in> R"
  shows "S \<subseteq> R"
proof -
  have "set (take i xs) \<subseteq> R" if "i \<le> length xs" for i
    using that
  proof (induction i)
    case (Suc i)
    then have "set (D (xs ! i)) \<subseteq> R" "xs ! i \<in> S"
      using assms(1) by (auto simp: valid_order_def) (meson Suc_le_lessD subset_iff)+
    with Suc assms(2) show ?case by (auto simp: take_Suc_conv_app_nth)
  qed simp
  from this [of "length xs"] show ?thesis using assms(1) by (auto simp: valid_order_def)
qed

definition lm_ok :: "'u DefaultLifecycleManager \<Rightarrow> bool" where
  "lm_ok lm \<longleftrightarrow> dom (lm_dependencies lm) = dom (lm_services lm)"

lemma al_get_init: "al_get z (map (\<lambda>s. (s, z)) ks) v = z"
  by (induction ks) (auto simp: al_get_def)

lemma start_order_inv:
  assumes "lm_ok lm" and "range_order (lm_services lm) ks" and "range_order (lm_dependencies lm) ds"
    and "range_order (lm_services lm) qs"
    and "build_graph lm ds (map (\<lambda>s. (s, 0)) ks, map (\<lambda>s. (s, [])) ks) = Inr (I, G)"
  shows "\<exists>I'. kahn_inv (dom (lm_services lm)) (deps_of lm) [] I'
     (kahn G (filter (\<lambda>s. al_get 0 I s = 0) qs) I [])"
proof -
  have ds: "distinct ds" "set ds = dom (lm_services lm)"
    using range_orderD(1,2) [OF assms(3)] assms(1) by (simp_all add: lm_ok_def)
  note bg = build_graph_Inr [OF assms(5) ds(1)]
  have G: "count_list (al_get [] G d) v = (if v \<in> dom (lm_services lm) then count_list (deps_of lm v) d else 0)" for d v
    using bg(3) [of d v] ds(2) by (simp add: al_get_init)
  have I: "al_get 0 I v = (if v \<in> dom (lm_services lm) then int (length (deps_of lm v)) else 0)" for v
    using bg(2) [of v] ds(2) by (simp add: al_get_init)
  have "kahn_inv (dom (lm_services lm)) (deps_of lm) (filter (\<lambda>s. al_get 0 I s = 0) qs) I []"
    using range_orderD(1,2) [OF assms(4)] I unfolding kahn_inv_def by auto
  from kahn_result [OF this G] show ?thesis .
qed

lemma start_order_spec:
  assumes "lm_ok lm" and "range_order (lm_services lm) ks" and "range_order (lm_dependencies lm) ds"
    and "range_order (lm_services lm) qs"
  shows "calculateStartOrder ks ds qs lm = Inr xs \<Longrightarrow> valid_order (dom (lm_services lm)) (deps_of lm) xs"
    and "valid_order (dom (lm_services lm)) (deps_of lm) ys \<Longrightarrow> \<exists>xs. calculateStartOrder ks ds qs lm = Inr xs"
proof -
  let ?S = "dom (lm_services lm)"
  let ?init = "(map (\<lambda>s. (s, 0)) ks, map (\<lambda>s. (s, [])) ks)"
  have fin: "finite ?S" and len: "length ks = card ?S"
    using range_order_finite [OF assms(2)] range_order_length [OF assms(2)] by auto
  note inv = start_order_inv [OF assms]
  show "valid_order ?S (deps_of lm) xs" if ret: "calculateStartOrder ks ds qs lm = Inr xs"
  proof -
    obtain I G where b: "build_graph lm ds ?init = Inr (I, G)"
      and xs: "xs = kahn G (filter (\<lambda>s. al_get 0 I s = 0) qs) I []" "length xs = length ks"
      using ret by (auto simp: calculateStartOrder_def Let_def split: sum.splits if_splits)
    from inv [OF b] xs(1) obtain I' where "kahn_inv ?S (deps_of lm) [] I' xs" by blast
    note f = kahn_inv_final [OF this]
    have "set xs = ?S" using f(1,2) xs(2) len fin by (metis card_subset_eq distinct_card)
    with f show ?thesis by (simp add: valid_order_def)
  qed
  show "\<exists>xs. calculateStartOrder ks ds qs lm = Inr xs" if v: "valid_order ?S (deps_of lm) ys"
  proof -
    have "set (deps_of lm s) \<subseteq> ?S" if "s \<in> set ds" for s
    proof -
      have "s \<in> set ys" using that v range_orderD(2) [OF assms(3)] assms(1) by (simp add: valid_order_def lm_ok_def)
      then obtain i where "i < length ys" "ys ! i = s" by (auto simp: in_set_conv_nth)
      then show ?thesis using v unfolding valid_order_def by (metis in_set_takeD subset_iff)
    qed
    then obtain I G where b: "build_graph lm ds ?init = Inr (I, G)"
      using build_graph_total [of ds lm ?init] by auto
    let ?xs = "kahn G (filter (\<lambda>s. al_get 0 I s = 0) qs) I []"
    from inv [OF b] obtain I' where "kahn_inv ?S (deps_of lm) [] I' ?xs" by blast
    note f = kahn_inv_final [OF this]
    have "set ?xs = ?S" using valid_order_all [OF v, of "set ?xs"] f(2,4) by blast
    then have "length ?xs = length ks" using f(1) len by (metis distinct_card)
    then show ?thesis using b by (simp add: calculateStartOrder_def)
  qed
qed

section \<open>Start and stop sequences\<close>

lemma broadcastEvent_frame [simp]:
  "lm_services (broadcastEvent ev lm) = lm_services lm"
  "lm_dependencies (broadcastEvent ev lm) = lm_dependencies lm"
  "lm_startOrder (broadcastEvent ev lm) = lm_startOrder lm"
  "lm_started (broadcastEvent ev lm) = lm_started lm"
  "lm_stopping (broadcastEvent ev lm) = lm_stopping lm"
  "lm_calls (broadcastEvent ev lm) = lm_calls lm"
  by (simp_all add: broadcastEvent_def)

lemma start_loop_effect:
  assumes "set ns \<subseteq> dom (lm_services lm)"
  shows "(case start_loop ops now ns lm of
       (Inr _, lm') \<Rightarrow> lm_calls lm' = lm_calls lm @ map (\<lambda>n. Start_call n True) ns \<and>
          lm_startOrder lm' = lm_startOrder lm @ ns
     | (Inl err, lm') \<Rightarrow> \<exists>pre n post e. err = StartFailed n e \<and> ns = pre @ n # post \<and>
          lm_calls lm' = lm_calls lm @ map (\<lambda>n. Start_call n True) pre @ [Start_call n False] \<and>
          lm_startOrder lm' = lm_startOrder lm @ pre) \<and>
     dom (lm_services (snd (start_loop ops now ns lm))) = dom (lm_services lm) \<and>
     lm_dependencies (snd (start_loop ops now ns lm)) = lm_dependencies lm \<and>
     lm_started (snd (start_loop ops now ns lm)) = lm_started lm \<and>
     lm_stopping (snd (start_loop ops now ns lm)) = lm_stopping lm"
  using assms
proof (induction ns arbitrary: lm)
  case (Cons n ns)
  obtain u where u: "lm_services lm n = Some u" using Cons.prems by auto
  obtain u' err where s: "so_Start ops u = (u', err)" by force
  have dd: "insert n (dom (lm_services lm)) = dom (lm_services lm)"
    "dom (\<lambda>a. if a = n then Some u' else lm_services lm a) = dom (lm_services lm)"
    using u by (auto split: if_splits)
  show ?case
  proof (cases err)
    case (Some e)
    then show ?thesis
      using u s dd by (simp add: Let_def)
  next
    case None
    define lm1 where "lm1 = broadcastEvent (lc_event ''service.started'' n now None No_data)
      ((broadcastEvent (lc_event ''service.starting'' n now None No_data) lm)
        \<lparr>lm_services := (lm_services lm)(n \<mapsto> u'), lm_calls := lm_calls lm @ [Start_call n True],
         lm_startOrder := lm_startOrder lm @ [n]\<rparr>)"
    have step: "start_loop ops now (n # ns) lm = start_loop ops now ns lm1"
      using u s None by (simp add: Let_def lm1_def)
    have lm1: "dom (lm_services lm1) = dom (lm_services lm)" "lm_calls lm1 = lm_calls lm @ [Start_call n True]"
      "lm_startOrder lm1 = lm_startOrder lm @ [n]" "lm_dependencies lm1 = lm_dependencies lm"
      "lm_started lm1 = lm_started lm" "lm_stopping lm1 = lm_stopping lm"
      using u dd by (simp_all add: lm1_def)
    have "set ns \<subseteq> dom (lm_services lm1)" using Cons.prems lm1(1) by simp
    from Cons.IH [OF this] show ?thesis
      unfolding step using lm1
      by (auto split: prod.splits sum.splits)
  qed
qed simp

lemma stop_loop_effect:
  assumes "set ns \<subseteq> dom (lm_services lm)"
  shows "\<exists>bs. length bs = length ns \<and>
       lm_calls (snd (stop_loop ops now ns err lm)) = lm_calls lm @ map2 Stop_call ns bs \<and>
       dom (lm_services (snd (stop_loop ops now ns err lm))) = dom (lm_services lm) \<and>
       lm_dependencies (snd (stop_loop ops now ns err lm)) = lm_dependencies lm"
  using assms
proof (induction ns arbitrary: lm err)
  case (Cons n ns)
  obtain u where u: "lm_services lm n = Some u" using Cons.prems by auto
  obtain u' e where s: "so_Stop ops u = (u', e)" by force
  have dd: "insert n (dom (lm_services lm)) = dom (lm_services lm)"
    "dom (\<lambda>a. if a = n then Some u' else lm_services lm a) = dom (lm_services lm)"
    using u by (auto split: if_splits)
  have "\<exists>lm1 err1. stop_loop ops now (n # ns) err lm = stop_loop ops now ns err1 lm1 \<and>
      dom (lm_services lm1) = dom (lm_services lm) \<and> lm_dependencies lm1 = lm_dependencies lm \<and>
      lm_calls lm1 = lm_calls lm @ [Stop_call n (e = None)]"
    using u s by (cases e) (simp_all add: Let_def, (intro exI conjI, rule refl, simp_all add: dd)+)
  then obtain lm1 err1 where lm1: "stop_loop ops now (n # ns) err lm = stop_loop ops now ns err1 lm1"
      "dom (lm_services lm1) = dom (lm_services lm)" "lm_dependencies lm1 = lm_dependencies lm"
      "lm_calls lm1 = lm_calls lm @ [Stop_call n (e = None)]" by blast
  have "set ns \<subseteq> dom (lm_services lm1)" using Cons.prems lm1(2) by simp
  from Cons.IH [OF this, of err1] obtain bs where "length bs = length ns"
    "lm_calls (snd (stop_loop ops now ns err1 lm1)) = lm_calls lm1 @ map2 Stop_call ns bs"
    "dom (lm_services (snd (stop_loop ops now ns err1 lm1))) = dom (lm_services lm1)"
    "lm_dependencies (snd (stop_loop ops now ns err1 lm1)) = lm_dependencies lm1" by blast
  then show ?case using lm1 by (intro exI [of _ "(e = None) # bs"]) simp
qed simp

lemma length_reverse_loop [simp]: "length (reverse_loop k xs) = length xs"
  by (induction k xs rule: reverse_loop.induct) (simp_all add: Let_def)

lemma nth_reverse_loop:
  assumes "2 * k \<le> length xs" "j < length xs"
  shows "reverse_loop k xs ! j = (if j < k \<or> length xs - k \<le> j then xs ! (length xs - 1 - j) else xs ! j)"
  using assms
proof (induction k xs rule: reverse_loop.induct)
  case (2 i xs)
  let ?opp = "length xs - 1 - i"
  let ?ys = "xs[i := xs ! ?opp, ?opp := xs ! i]"
  have lt: "i < ?opp" "?opp < length xs" using "2.prems" by auto
  have "reverse_loop (Suc i) xs ! j = reverse_loop i ?ys ! j" by (simp add: Let_def)
  also have "\<dots> = (if j < i \<or> length xs - i \<le> j then ?ys ! (length xs - 1 - j) else ?ys ! j)"
    using "2.IH" [OF refl] "2.prems" by simp
  finally show ?case
    using lt "2.prems" by (auto simp: nth_list_update)
qed simp

lemma reverse_loop_rev: "reverse_loop (length xs div 2) xs = rev xs"
proof (rule nth_equalityI)
  fix j assume "j < length (reverse_loop (length xs div 2) xs)"
  moreover have "length xs - 1 - j = j" if "\<not> j < length xs div 2" "\<not> length xs - length xs div 2 \<le> j"
    using that by linarith
  ultimately show "reverse_loop (length xs div 2) xs ! j = rev xs ! j"
    by (auto simp: nth_reverse_loop rev_nth)
qed simp

section \<open>Every history\<close>

lemma lm_ok_Register [inv_step]: "lm_ok lm \<Longrightarrow> lm_ok (snd (lm_Register now n u deps lm))"
  by (auto simp: lm_ok_def lm_Register_def split: option.split)

text \<open>A valid order only names registered services.\<close>

lemma start_order_dom:
  assumes "lm_ok lm" and "range_order (lm_services lm) ks" and "range_order (lm_dependencies lm) ds"
    and "range_order (lm_services lm) qs" and "calculateStartOrder ks ds qs lm = Inr xs"
  shows "set xs = dom (lm_services lm)"
  using start_order_spec(1) [OF assms] by (simp add: valid_order_def)

inductive lm_reach :: "'u service_ops \<Rightarrow> 'u DefaultLifecycleManager \<Rightarrow> bool" for ops where
  new: "lm_reach ops NewLifecycleManager"
| register: "lm_reach ops lm \<Longrightarrow> lm_reach ops (snd (lm_Register now n u deps lm))"
| listen: "lm_reach ops lm \<Longrightarrow> lm_reach ops (lm_AddListener l lm)"
| timeout: "lm_reach ops lm \<Longrightarrow> lm_reach ops (lm_SetTimeout d lm)"
| start: "lm_reach ops lm \<Longrightarrow> range_order (lm_services lm) ks \<Longrightarrow> range_order (lm_dependencies lm) ds \<Longrightarrow>
    range_order (lm_services lm) qs \<Longrightarrow> lm_reach ops (snd (lm_Start ops now ks ds qs lm))"
| stop: "lm_reach ops lm \<Longrightarrow> lm_reach ops (snd (lm_Stop ops now lm))"

definition lm_inv :: "'u DefaultLifecycleManager \<Rightarrow> bool" where
  "lm_inv lm \<longleftrightarrow> lm_ok lm \<and> set (lm_startOrder lm) \<subseteq> dom (lm_services lm) \<and> \<not> lm_stopping lm"

lemma lm_inv_Start:
  assumes "lm_inv lm" and ro: "range_order (lm_services lm) ks" "range_order (lm_dependencies lm) ds"
    "range_order (lm_services lm) qs"
  shows "lm_inv (snd (lm_Start ops now ks ds qs lm))"
proof (cases "lm_started lm \<or> (\<exists>e. calculateStartOrder ks ds qs lm = Inl e)")
  case True
  then show ?thesis using assms(1) by (auto simp: lm_Start_def)
next
  case False
  then obtain xs where xs: "calculateStartOrder ks ds qs lm = Inr xs" "\<not> lm_started lm"
    by (cases "calculateStartOrder ks ds qs lm") auto
  let ?lm0 = "broadcastEvent (lc_event ''lifecycle.starting'' [] now None (Order xs)) lm"
  have d: "set xs = dom (lm_services lm)"
    using start_order_dom [OF _ ro xs(1)] assms(1) by (simp add: lm_inv_def)
  have "set xs \<subseteq> dom (lm_services ?lm0)" using d by simp
  note eff = start_loop_effect [OF this, of ops now]
  obtain r lm' where sl: "start_loop ops now xs ?lm0 = (r, lm')" by force
  have "set (lm_startOrder lm') \<subseteq> set (lm_startOrder lm) \<union> set xs"
    using eff sl by (cases r) auto
  moreover have "dom (lm_services lm') = dom (lm_services lm)" "lm_dependencies lm' = lm_dependencies lm"
    "\<not> lm_stopping lm'"
    using eff sl assms(1) by (simp_all add: lm_inv_def)
  ultimately have "lm_inv lm'" using assms(1) d unfolding lm_inv_def lm_ok_def by auto
  then show ?thesis
    using xs sl by (cases r) (simp_all add: lm_Start_def lm_inv_def lm_ok_def)
qed

lemma lm_inv_Stop:
  assumes "lm_inv lm" shows "lm_inv (snd (lm_Stop ops now lm))"
proof -
  let ?lm0 = "broadcastEvent (lc_event ''lifecycle.stopping'' [] now None No_data) (lm\<lparr>lm_stopping := True\<rparr>)"
  have "set (rev (lm_startOrder lm)) \<subseteq> dom (lm_services ?lm0)" using assms by (simp add: lm_inv_def)
  from stop_loop_effect [OF this, of ops now None] show ?thesis
    using assms unfolding lm_Stop_def lm_inv_def lm_ok_def
    by (cases "stop_loop ops now (rev (lm_startOrder lm)) None ?lm0") (clarsimp simp: Let_def reverse_loop_rev)
qed

lemma lm_reach_inv: "lm_reach ops lm \<Longrightarrow> lm_inv lm"
proof (induction rule: lm_reach.induct)
  case (register lm now n u deps)
  then show ?case
    by (auto simp: lm_inv_def lm_ok_def lm_Register_def split: option.split)
qed (auto simp: lm_inv_Start lm_inv_Stop, auto simp: lm_inv_def lm_ok_def NewLifecycleManager_def
    lm_AddListener_def lm_SetTimeout_def)


section \<open>Properties\<close>

text \<open>
  Property C9. The start order is computed correctly for every order in which the maps are
  visited: whatever \<^verbatim>\<open>calculateStartOrder\<close> returns lists every registered service exactly once
  and after all its dependencies, and it returns an order whenever one exists, so that it
  fails only for unregistered or circular dependencies.
\<close>

theorem start_order_correct:
  assumes "lm_reach ops lm" and "range_order (lm_services lm) ks"
    and "range_order (lm_dependencies lm) ds" and "range_order (lm_services lm) qs"
  shows "(\<forall>xs. calculateStartOrder ks ds qs lm = Inr xs \<longrightarrow>
            valid_order (dom (lm_services lm)) (deps_of lm) xs) \<and>
     ((\<exists>ys. valid_order (dom (lm_services lm)) (deps_of lm) ys) \<longleftrightarrow>
        (\<exists>xs. calculateStartOrder ks ds qs lm = Inr xs))"
proof -
  have "lm_ok lm" using lm_reach_inv [OF assms(1)] by (simp add: lm_inv_def)
  note so = start_order_spec [OF this assms(2-4)]
  show ?thesis using so by blast
qed

text \<open>Three services; the second depends on the first and the third on both.\<close>

definition demo_ops :: "nat service_ops" where
  "demo_ops = \<lparr>so_Start = (\<lambda>u. (u, if u = 13 then Some ''boom'' else None)), so_Stop = (\<lambda>u. (u, None)),
      so_Health = (\<lambda>u. Inl ''unknown'')\<rparr>"

definition demo_lm :: "nat \<Rightarrow> nat DefaultLifecycleManager" where
  "demo_lm u = snd (lm_Register 0 ''c'' (Some u) [''a'', ''b'']
     (snd (lm_Register 0 ''b'' (Some 2) [''a''] (snd (lm_Register 0 ''a'' (Some 1) [] NewLifecycleManager)))))"

lemma demo_lm_facts:
  shows "lm_reach demo_ops (demo_lm u)"
    and "range_order (lm_services (demo_lm u)) [''c'', ''b'', ''a'']"
    and "range_order (lm_dependencies (demo_lm u)) [''b'', ''c'', ''a'']"
    and "lm_startOrder (demo_lm u) = []" and "\<not> lm_started (demo_lm u)"
    and "calculateStartOrder [''c'', ''b'', ''a''] [''b'', ''c'', ''a''] [''c'', ''b'', ''a''] (demo_lm u) =
      Inr [''a'', ''b'', ''c'']"
    and "lm_services (demo_lm u) ''a'' = Some 1" and "lm_services (demo_lm u) ''b'' = Some 2"
    and "lm_services (demo_lm u) ''c'' = Some u"
proof -
  show "lm_reach demo_ops (demo_lm u)"
    unfolding demo_lm_def by (intro lm_reach.register lm_reach.new)
  have s: "lm_services (demo_lm u) = [''a'' \<mapsto> 1, ''b'' \<mapsto> 2, ''c'' \<mapsto> u]"
    and d: "lm_dependencies (demo_lm u) = [''a'' \<mapsto> [], ''b'' \<mapsto> [''a''], ''c'' \<mapsto> [''a'', ''b'']]"
    and "lm_startOrder (demo_lm u) = []" "\<not> lm_started (demo_lm u)"
    by (simp_all add: demo_lm_def lm_Register_def NewLifecycleManager_def)
  then show "lm_startOrder (demo_lm u) = []" "\<not> lm_started (demo_lm u)"
    "range_order (lm_services (demo_lm u)) [''c'', ''b'', ''a'']"
    "range_order (lm_dependencies (demo_lm u)) [''b'', ''c'', ''a'']"
    "lm_services (demo_lm u) ''a'' = Some 1" "lm_services (demo_lm u) ''b'' = Some 2"
    "lm_services (demo_lm u) ''c'' = Some u"
    by (auto simp: range_order_def)
  show "calculateStartOrder [''c'', ''b'', ''a''] [''b'', ''c'', ''a''] [''c'', ''b'', ''a''] (demo_lm u) =
      Inr [''a'', ''b'', ''c'']"
    by (simp add: calculateStartOrder_def s d go_get_def al_get_def Let_def)
qed

theorem start_order_correct_witness:
  "valid_order (dom (lm_services (demo_lm 3))) (deps_of (demo_lm 3)) [''a'', ''b'', ''c'']"
  using start_order_correct [OF demo_lm_facts(1,2,3,2), of 3] demo_lm_facts(6) [of 3] by blast



text \<open>
  A start that fails half way leaves the services before the failing one running
  for good: they were started successfully and are recorded, but since the manager does not
  count as started, \<^verbatim>\<open>Stop\<close> reports success without stopping any of them.
\<close>

theorem failed_start_never_stopped:
  assumes "lm_reach ops lm" and "range_order (lm_services lm) ks"
    and "range_order (lm_dependencies lm) ds" and "range_order (lm_services lm) qs"
    and "lm_startOrder lm = []" and "lm_Start ops now ks ds qs lm = (Inl (StartFailed n e), lm1)"
  shows "\<exists>pre. lm_calls lm1 = lm_calls lm @ map (\<lambda>n. Start_call n True) pre @ [Start_call n False] \<and>
     lm_startOrder lm1 = pre \<and> set (deps_of lm n) \<subseteq> set pre \<and> lm_Stop ops now' lm1 = (Inr (), lm1)"
proof -
  have ok: "lm_ok lm" using lm_reach_inv [OF assms(1)] by (simp add: lm_inv_def)
  obtain xs where xs: "calculateStartOrder ks ds qs lm = Inr xs \<or> calculateStartOrder ks ds qs lm = Inl (StartFailed n e)" "\<not> lm_started lm"
    using assms(6) by (auto simp: lm_Start_def split: if_splits sum.splits)
  have c: "calculateStartOrder ks ds qs lm = Inr xs"
    using xs(1) by (auto simp: calculateStartOrder_def build_graph_no_StartFailed Let_def split: sum.splits if_splits)
  have v: "valid_order (dom (lm_services lm)) (deps_of lm) xs"
    by (rule start_order_spec(1) [OF ok assms(2-4) c])
  let ?lm0 = "broadcastEvent (lc_event ''lifecycle.starting'' [] now None (Order xs)) lm"
  have sl: "start_loop ops now xs ?lm0 = (Inl (StartFailed n e), lm1)"
    using assms(6) c xs(2) by (auto simp: lm_Start_def split: prod.splits sum.splits)
  have "set xs \<subseteq> dom (lm_services ?lm0)" using v by (simp add: valid_order_def)
  from start_loop_effect [OF this, of ops now] sl assms(5) obtain pre post where
    p: "xs = pre @ n # post" "lm_calls lm1 = lm_calls lm @ map (\<lambda>n. Start_call n True) pre @ [Start_call n False]"
      "lm_startOrder lm1 = pre" "lm_started lm1 = lm_started lm" by auto
  have "set (deps_of lm n) \<subseteq> set pre"
    using v p(1) unfolding valid_order_def by (auto dest!: spec [of _ "length pre"])
  with p xs(2) show ?thesis by (intro exI [of _ pre]) (simp add: lm_Stop_def)
qed

theorem failed_start_never_stopped_witness:
  "\<exists>lm1 n e. lm_Start demo_ops 5 [''c'', ''b'', ''a''] [''b'', ''c'', ''a''] [''c'', ''b'', ''a''] (demo_lm 13) = (Inl (StartFailed n e), lm1) \<and>
     lm_Stop demo_ops 6 lm1 = (Inr (), lm1)"
proof -
  obtain lm1 where "lm_Start demo_ops 5 [''c'', ''b'', ''a''] [''b'', ''c'', ''a''] [''c'', ''b'', ''a''] (demo_lm 13) =
      (Inl (StartFailed ''c'' ''boom''), lm1)"
    using demo_lm_facts(5-9) [of 13]
    by (simp add: lm_Start_def demo_ops_def Let_def)
  from this failed_start_never_stopped [OF demo_lm_facts(1,2,3,2,4) this, of 6] show ?thesis by blast
qed

end
