(* ===== verification/Simple_DB.thy ===== *)
theory Simple_DB
  imports Actor_System Lifecycle Json
begin

text \<open>
  \<^verbatim>\<open>examples/simpledb/main.go\<close>: a key-value store behind an actor. A request is the JSON text of a
  \<^verbatim>\<open>DBRequest\<close> or a line of words; the response is written to the log, which is part of the
  state here. \<open>order\<close> is the order in which a \<^verbatim>\<open>range\<close> visits the map, and \<open>upper\<close> is what
  \<^verbatim>\<open>strings.ToUpper\<close> does to texts that are not ASCII, by the tables of Unicode.
\<close>

section \<open>Patterns\<close>

definition matchPattern :: "string \<Rightarrow> string \<Rightarrow> bool" where
  "matchPattern text pattern \<longleftrightarrow>
     (if pattern = ''*'' then True
      else if CHR ''*'' \<in> set pattern
      then (case Split CHR ''*'' pattern of
              [prefix, suffix] \<Rightarrow> HasPrefix text prefix \<and> HasSuffix text suffix
            | _ \<Rightarrow> text = pattern)
      else text = pattern)"

section \<open>The store\<close>

record SimpleDB =
  db_data :: "string \<rightharpoonup> string"
  db_log :: "string list"

definition NewSimpleDB :: SimpleDB where
  "NewSimpleDB = \<lparr>db_data = Map.empty, db_log = []\<rparr>"

definition db_get :: "string \<Rightarrow> SimpleDB \<Rightarrow> string" where
  "db_get key db = go_get [] (db_data db) key"

definition db_set :: "string \<Rightarrow> string \<Rightarrow> SimpleDB \<Rightarrow> string \<times> SimpleDB" where
  "db_set key value db = (go_get [] (db_data db) key, db\<lparr>db_data := (db_data db)(key \<mapsto> value)\<rparr>)"

definition db_delete :: "string \<Rightarrow> SimpleDB \<Rightarrow> string \<times> SimpleDB" where
  "db_delete key db = (go_get [] (db_data db) key, db\<lparr>db_data := (db_data db)(key := None)\<rparr>)"

definition db_exists :: "string \<Rightarrow> SimpleDB \<Rightarrow> bool" where
  "db_exists key db \<longleftrightarrow> db_data db key \<noteq> None"

type_synonym range = "(string \<rightharpoonup> string) \<Rightarrow> string list"

definition db_keys :: "range \<Rightarrow> string \<Rightarrow> SimpleDB \<Rightarrow> string list" where
  "db_keys order pattern db = filter (\<lambda>key. pattern = ''*'' \<or> matchPattern key pattern) (order (db_data db))"

definition db_clear :: "range \<Rightarrow> SimpleDB \<Rightarrow> int \<times> SimpleDB" where
  "db_clear order db = (int (length (order (db_data db))), db\<lparr>db_data := Map.empty\<rparr>)"

definition db_size :: "range \<Rightarrow> SimpleDB \<Rightarrow> int" where
  "db_size order db = int (length (order (db_data db)))"

section \<open>Requests\<close>

record DBResponse =
  r_Result :: json
  r_Error :: string

abbreviation result :: "json \<Rightarrow> DBResponse" where
  "result v \<equiv> \<lparr>r_Result = v, r_Error = []\<rparr>"

abbreviation failure :: "string \<Rightarrow> DBResponse" where
  "failure e \<equiv> \<lparr>r_Result = JNull, r_Error = e\<rparr>"

definition response_text :: "DBResponse \<Rightarrow> string" where
  "response_text r = json_text (JObj ([(''result'', r_Result r)] @ (if r_Error r = [] then [] else [(''error'', JStr (r_Error r))])))"

fun first_string :: "string \<Rightarrow> json list \<Rightarrow> string" where
  "first_string d (JStr s # _) = s"
| "first_string d _ = d"

definition db_handleRequest :: "(string \<Rightarrow> string) \<Rightarrow> range \<Rightarrow> command \<Rightarrow> SimpleDB \<Rightarrow> DBResponse \<times> SimpleDB" where
  "db_handleRequest upper order req db =
     (case req of (command, args) \<Rightarrow>
       let cmd = ToUpper upper command
       in if cmd = ''GET'' then
            (case args of
               [JStr key] \<Rightarrow> (result (JStr (db_get key db)), db)
             | [_] \<Rightarrow> (failure ''key must be string'', db)
             | _ \<Rightarrow> (failure ''GET requires 1 argument'', db))
          else if cmd = ''SET'' then
            (case args of
               [JStr key, JStr value] \<Rightarrow> (case db_set key value db of (old, db') \<Rightarrow> (result (JStr old), db'))
             | [JStr key, _] \<Rightarrow> (failure ''value must be string'', db)
             | [_, _] \<Rightarrow> (failure ''key must be string'', db)
             | _ \<Rightarrow> (failure ''SET requires 2 arguments'', db))
          else if cmd = ''DELETE'' \<or> cmd = ''DEL'' then
            (case args of
               [JStr key] \<Rightarrow> (case db_delete key db of (old, db') \<Rightarrow> (result (JStr old), db'))
             | [_] \<Rightarrow> (failure ''key must be string'', db)
             | _ \<Rightarrow> (failure ''DELETE requires 1 argument'', db))
          else if cmd = ''EXISTS'' then
            (case args of
               [JStr key] \<Rightarrow> (result (JBool (db_exists key db)), db)
             | [_] \<Rightarrow> (failure ''key must be string'', db)
             | _ \<Rightarrow> (failure ''EXISTS requires 1 argument'', db))
          else if cmd = ''KEYS'' then (result (JArr (map JStr (db_keys order (first_string ''*'' args) db))), db)
          else if cmd = ''CLEAR'' then (case db_clear order db of (count, db') \<Rightarrow> (result (JInt count), db'))
          else if cmd = ''SIZE'' \<or> cmd = ''COUNT'' then (result (JInt (db_size order db)), db)
          else if cmd = ''PING'' then (result (JStr (first_string ''PONG'' args)), db)
          else (failure (''unknown command: '' @ cmd), db))"

text \<open>The request a message carries: JSON, or else words.\<close>

definition db_request :: "bytes \<Rightarrow> command option" where
  "db_request data =
     (case Unmarshal_command data of
        Some req \<Rightarrow> Some req
      | None \<Rightarrow> (case Fields (string_of_bytes data) of [] \<Rightarrow> None | w # ws \<Rightarrow> Some (w, map JStr ws)))"

definition db_HandleMessage :: "(string \<Rightarrow> string) \<Rightarrow> range \<Rightarrow> SimpleDB handler_fun" where
  "db_HandleMessage upper order db msg =
     (if m_Type msg = MessageTypeRequest
      then (case db_request (m_Data msg) of
              None \<Rightarrow> (db, Some ''empty command'')
            | Some req \<Rightarrow>
                (case db_handleRequest upper order req db of
                   (response, db') \<Rightarrow> (db'\<lparr>db_log := db_log db' @ [response_text response]\<rparr>, None)))
      else (db, Some (''unsupported message type: '' @ decimal (unat (m_Type msg)))))"

section \<open>The service\<close>

record SimpleDBService =
  ds_db :: SimpleDB
  ds_handle :: "Handle option"
  ds_system :: "SimpleDB system option"

definition NewSimpleDBService :: SimpleDBService where
  "NewSimpleDBService = \<lparr>ds_db = NewSimpleDB, ds_handle = None, ds_system = None\<rparr>"

definition ds_Name :: "SimpleDBService \<Rightarrow> string" where
  "ds_Name s = ''simpledb''"

definition ds_Start :: "Time \<Rightarrow> SimpleDBService \<Rightarrow> (SystemError, unit) outcome \<times> SimpleDBService" where
  "ds_Start now s =
     (case sys_NewService ''SIMPLEDB'' (ds_db s) DefaultActorOptions now NewActorSystem of
        (Ok h, sys) \<Rightarrow> (Ok (), s\<lparr>ds_system := Some sys, ds_handle := h\<rparr>)
      | (Err e, sys) \<Rightarrow> (Err e, s\<lparr>ds_system := Some sys\<rparr>)
      | (Panic, sys) \<Rightarrow> (Panic, s\<lparr>ds_system := Some sys\<rparr>))"

definition ds_Stop :: "SimpleDBService \<Rightarrow> SimpleDBService" where
  "ds_Stop s = s"

definition ds_Health :: "SimpleDBService \<Rightarrow> HealthStatus" where
  "ds_Health s =
     (if ds_handle s = None
      then \<lparr>hs_State = HealthStopped, hs_Message = ''SimpleDB not running'', hs_LastCheck = 0, hs_Data = Map.empty\<rparr>
      else \<lparr>hs_State = HealthHealthy, hs_Message = ''SimpleDB operational'', hs_LastCheck = 0, hs_Data = Map.empty\<rparr>)"

definition ds_GetHandle :: "SimpleDBService \<Rightarrow> Handle option" where
  "ds_GetHandle s = ds_handle s"

section \<open>The store as a table\<close>

interpretation db: resettable_store db_data "\<lambda>k v db. snd (db_set k v db)" "\<lambda>k db. snd (db_delete k db)" "\<lambda>db. snd (db_clear order db)"
  for order
  by unfold_locales (simp_all add: db_set_def db_delete_def db_clear_def)

text \<open>What a message writes, if anything.\<close>

definition db_write :: "(string \<Rightarrow> string) \<Rightarrow> Message \<Rightarrow> (string, string) kv_write option" where
  "db_write upper msg =
     (if m_Type msg \<noteq> MessageTypeRequest then None
      else case db_request (m_Data msg) of
             None \<Rightarrow> None
           | Some (command, args) \<Rightarrow>
               let cmd = ToUpper upper command
               in if cmd = ''SET'' then (case args of [JStr k, JStr v] \<Rightarrow> Some (Put k v) | _ \<Rightarrow> None)
                  else if cmd = ''DELETE'' \<or> cmd = ''DEL'' then (case args of [JStr k] \<Rightarrow> Some (Del k) | _ \<Rightarrow> None)
                  else if cmd = ''CLEAR'' then Some Reset else None)"

lemma db_apply_write:
  "db_data (db.apply_write order op db) =
     (case op of Put k v \<Rightarrow> (db_data db)(k \<mapsto> v) | Del k \<Rightarrow> (db_data db)(k := None) | Reset \<Rightarrow> Map.empty)"
  by (cases op) (simp_all only: db.apply_write.simps db.look_put db.look_del db.look_reset kv_write.case)

lemma handle_writes:
  "db_data (fst (db_HandleMessage upper order db msg)) =
     (case db_write upper msg of None \<Rightarrow> db_data db | Some op \<Rightarrow> db_data (db.apply_write order op db))"
  unfolding db_apply_write
  by (auto simp: db_HandleMessage_def db_write_def db_handleRequest_def db_set_def db_delete_def db_clear_def Let_def
      split: option.splits list.splits json.splits)

text \<open>A history of messages is the history of their writes.\<close>

lemma history_writes:
  "db_data (foldl (\<lambda>h m. fst (db_HandleMessage upper order h m)) db ms) =
     db_data (foldl (\<lambda>s op. db.apply_write order op s) db (List.map_filter (db_write upper) ms))"
proof (induction ms rule: rev_induct)
  case (snoc m ms)
  have "List.map_filter (db_write upper) (ms @ [m]) =
      List.map_filter (db_write upper) ms @ (case db_write upper m of None \<Rightarrow> [] | Some op \<Rightarrow> [op])"
    by (simp add: List.map_filter_def split: option.splits)
  then show ?case
    using snoc by (simp add: handle_writes db_apply_write split: option.splits kv_write.splits)
qed (simp add: List.map_filter_def)

lemma history_get:
  "db_data (foldl (\<lambda>h m. fst (db_HandleMessage upper order h m)) db ms) k =
     (case find (touches k) (rev (List.map_filter (db_write upper) ms)) of None \<Rightarrow> db_data db k | Some op \<Rightarrow> value_written op)"
  unfolding history_writes by (rule db.last_write)

text \<open>A request sent as JSON, the way \<^verbatim>\<open>examples/simpledb/test_client.go\<close> builds it.\<close>

definition db_message :: "string \<Rightarrow> json list option \<Rightarrow> Message \<Rightarrow> bool" where
  "db_message cmd args msg \<longleftrightarrow> m_Type msg = MessageTypeRequest \<and> m_Data msg = Marshal (command_json cmd args)"

lemma db_message_request:
  assumes "db_message cmd args msg" "ascii cmd"
    and "case args of None \<Rightarrow> True | Some vs \<Rightarrow> \<forall>v\<in>set vs. \<exists>s. v = JStr s \<and> ascii s"
  shows "db_request (m_Data msg) = Some (cmd, case args of None \<Rightarrow> [] | Some vs \<Rightarrow> vs)"
proof -
  have "depth v = 0" "plain v" "any_ok v" if "args = Some vs" "v \<in> set vs" for v vs
    using assms(3) that by fastforce+
  moreover from this have "foldr max (map depth vs) 0 = 0" if "args = Some vs" for vs
    using that by (induction vs arbitrary: args) auto
  ultimately have "Unmarshal_command (Marshal (command_json cmd args)) = Some (cmd, case args of None \<Rightarrow> [] | Some vs \<Rightarrow> vs)"
    using assms(2) by (intro Unmarshal_command_json) (auto simp: command_json_def list_all_iff split: option.splits)
  then show ?thesis using assms(1) by (simp add: db_request_def db_message_def)
qed

lemma ToUpper_commands [simp]:
  "ToUpper upper ''GET'' = ''GET''" "ToUpper upper ''SET'' = ''SET''" "ToUpper upper ''PING'' = ''PING''"
  "ToUpper upper ''KEYS'' = ''KEYS''" "ToUpper upper ''SIZE'' = ''SIZE''"
  by (simp_all add: ToUpper_def)

lemma get_answer:
  assumes "db_message ''GET'' (Some [JStr k]) g" "ascii k"
  shows "db_HandleMessage upper order db g = (db\<lparr>db_log := db_log db @ [response_text (result (JStr (db_get k db)))]\<rparr>, None)"
  using db_message_request [OF assms(1)] assms by (simp add: db_message_def db_HandleMessage_def db_handleRequest_def)

lemma set_answer:
  assumes "db_message ''SET'' (Some [JStr k, JStr v]) m" "ascii k" "ascii v"
  shows "db_write upper m = Some (Put k v)"
    and "db_HandleMessage upper order db m =
      (db\<lparr>db_data := (db_data db)(k \<mapsto> v), db_log := db_log db @ [response_text (result (JStr (db_get k db)))]\<rparr>, None)"
  using db_message_request [OF assms(1)] assms
  by (simp_all add: db_write_def db_message_def db_HandleMessage_def db_handleRequest_def db_set_def db_get_def)

section \<open>What patterns match\<close>

lemma matchPattern_star:
  assumes "CHR ''*'' \<notin> set pre" "CHR ''*'' \<notin> set suf"
  shows "matchPattern text (pre @ ''*'' @ suf) \<longleftrightarrow> HasPrefix text pre \<and> HasSuffix text suf"
proof (cases "pre @ ''*'' @ suf = ''*''")
  case True
  then have "pre = []" "suf = []" by (cases pre; simp)+
  then show ?thesis by (simp add: matchPattern_def HasPrefix_def HasSuffix_def)
qed (use assms in \<open>simp add: matchPattern_def\<close>)

lemma prefix_suffix_split:
  "(\<exists>mid. text = pre @ mid @ suf) \<longleftrightarrow> HasPrefix text pre \<and> HasSuffix text suf \<and> length pre + length suf \<le> length text"
proof
  assume r: "HasPrefix text pre \<and> HasSuffix text suf \<and> length pre + length suf \<le> length text"
  then have "text = pre @ drop (length pre) text" by (metis HasPrefix_def append_take_drop_id)
  moreover have "drop (length pre) text = take (length text - length pre - length suf) (drop (length pre) text) @ suf"
  proof -
    have "drop (length text - length pre - length suf) (drop (length pre) text) = suf"
      using r by (auto simp: HasSuffix_def)
    then show ?thesis by (metis append_take_drop_id)
  qed
  ultimately show "\<exists>mid. text = pre @ mid @ suf" by metis
qed (auto simp: HasPrefix_def HasSuffix_def)

section \<open>Properties\<close>

text \<open>
  Property C34. A store behind an actor: whatever the interleaving of its clients and its message
  loop, the messages handled so far are the first ones accepted, and a key holds the value of
  the last of them that wrote it, or nothing when the last one removed it or emptied the
  store.
\<close>

theorem db_actor_last_write:
  assumes "actor_reach (db_HandleMessage upper order) a0 w" "NewActor i NewSimpleDB opts t = Some a0"
    and "length (ac_loops (w_actor w)) \<le> 1"
  shows "(\<exists>rest. List.map_filter id (w_accepted w) = w_finished w @ rest) \<and>
     db_data (ac_handler (w_actor w)) k =
       (case find (touches k) (rev (List.map_filter (db_write upper) (w_finished w))) of
          None \<Rightarrow> None | Some op \<Rightarrow> value_written op)"
proof -
  have f: "\<exists>rest. List.map_filter id (w_accepted w) = w_begun w @ rest" "w_begun w = w_finished w @ current (ac_loops (w_actor w))"
    "ac_handler (w_actor w) = foldl (\<lambda>h m. fst (db_HandleMessage upper order h m)) NewSimpleDB (w_finished w)"
    using actor_fifo [OF assms] by auto
  then show ?thesis unfolding f(3) history_get by (auto simp: NewSimpleDB_def split: option.splits)
qed

text \<open>
  Set, then get: after a \<^verbatim>\<open>SET\<close> sent as JSON and any messages that leave the key alone,
  a \<^verbatim>\<open>GET\<close> of the key logs a JSON text that reads back as the value that was set.
\<close>

theorem set_then_get:
  assumes "db_message ''SET'' (Some [JStr k, JStr v]) s" "db_message ''GET'' (Some [JStr k]) g" "ascii k" "ascii v"
    and "\<forall>m\<in>set ms. \<forall>op. db_write upper m = Some op \<longrightarrow> \<not> touches k op"
  shows "\<exists>db'. foldl (\<lambda>h m. fst (db_HandleMessage upper order h m)) db (s # ms @ [g]) = db' \<and> db_data db' k = Some v \<and>
     json_parse (bytes_of_string (last (db_log db'))) = Some (JObj [(''result'', JStr v)])"
proof -
  let ?run = "foldl (\<lambda>h m. fst (db_HandleMessage upper order h m))"
  define db1 where "db1 = ?run db (s # ms)"
  have "find (touches k) (rev (List.map_filter (db_write upper) ms)) = None"
    using assms(5) by (fastforce simp: find_None_iff List.map_filter_def)
  then have "db_data db1 k = Some v"
    unfolding db1_def foldl.simps history_get [of upper order _ ms] by (simp add: set_answer(2) [OF assms(1,3,4)])
  moreover have "response_text (result (JStr v)) = json_text (JObj [(''result'', JStr v)])" by (simp add: response_text_def)
  moreover have "json_parse (Marshal (JObj [(''result'', JStr v)])) = Some (JObj [(''result'', JStr v)])"
    by (rule Marshal_parse) (use assms(4) in simp_all)
  moreover have "?run db (s # ms @ [g]) = fst (db_HandleMessage upper order db1 g)" by (simp add: db1_def)
  ultimately show ?thesis
    using get_answer [OF assms(2,3), of upper order db1] by (simp add: db_get_def go_get_def Marshal_def)
qed

text \<open>Two messages of a client.\<close>

definition db_demo :: "string \<Rightarrow> json list \<Rightarrow> Message" where
  "db_demo cmd args = \<lparr>m_ID = 1, m_Type = MessageTypeRequest, m_Source = 2, m_Target = 1, m_Session = 0,
     m_Data = Marshal (command_json cmd (Some args)), m_Timestamp = 0\<rparr>"

theorem db_actor_last_write_witness:
  "\<exists>w. actor_reach (db_HandleMessage (\<lambda>s. s) (\<lambda>m. [])) (the (NewActor 1 NewSimpleDB DefaultActorOptions 0)) w \<and>
     w_finished w = [db_demo ''SET'' [JStr ''a'', JStr ''b'']] \<and> db_data (ac_handler (w_actor w)) ''a'' = Some ''b''"
proof -
  let ?h = "db_HandleMessage (\<lambda>s. s) (\<lambda>m. [])" and ?m = "db_demo ''SET'' [JStr ''a'', JStr ''b'']"
  let ?a0 = "the (NewActor 1 NewSimpleDB DefaultActorOptions 0)"
  have new: "NewActor 1 NewSimpleDB DefaultActorOptions 0 = Some ?a0" "0 < o_MailboxSize DefaultActorOptions"
    by (simp_all add: NewActor_def DefaultActorOptions_def)
  obtain w where w: "actor_reach ?h ?a0 w" "ac_loops (w_actor w) = [Processing ?m]" "\<not> w_panic w" "w_begun w = [?m]"
    using reach_processing [OF new, of ?h ?m] by blast
  let ?w = "w\<lparr>w_actor := set_loop 0 Selecting (process_end ?h 9 ?m (w_actor w)), w_finished := w_finished w @ [?m]\<rparr>"
  have r: "actor_reach ?h ?a0 ?w"
    by (rule actor_reach.step [OF w(1) actor_step.finish]) (use w in \<open>simp_all\<close>)
  have fin: "w_finished w = []" using actor_fifo [OF w(1) new(1)] w by simp
  have "db_message ''SET'' (Some [JStr ''a'', JStr ''b'']) ?m" by (simp add: db_message_def db_demo_def)
  then have "db_write (\<lambda>s. s) ?m = Some (Put ''a'' ''b'')" by (rule set_answer(1)) simp_all
  with db_actor_last_write [OF r new(1), of "''a''"] w fin r show ?thesis
    by (intro exI [of _ ?w]) (simp add: List.map_filter_def)
qed

theorem set_then_get_witness:
  "\<exists>db'. foldl (\<lambda>h m. fst (db_HandleMessage (\<lambda>s. s) (\<lambda>m. []) h m)) NewSimpleDB
       [db_demo ''SET'' [JStr ''a'', JStr ''<b>''], db_demo ''GET'' [JStr ''a'']] = db' \<and> db_data db' ''a'' = Some ''<b>''"
  using set_then_get [of "''a''" "''<b>''" "db_demo ''SET'' [JStr ''a'', JStr ''<b>'']" "db_demo ''GET'' [JStr ''a'']" "[]"
      "\<lambda>s. s" "\<lambda>m. []" NewSimpleDB]
  by (simp add: db_message_def db_demo_def)



end
