(* ===== verification/Wire.thy ===== *)
theory Wire
  imports Go_Strings
begin

text \<open>
  \<^verbatim>\<open>net.Conn\<close> as the login and the message server use it. What a peer sends is the list of
  segments that one \<^verbatim>\<open>Read\<close> each delivers, and what is written is collected; the end of the
  list is a read error. Both servers read lines with one \<^verbatim>\<open>Read\<close> of at most 1024 bytes.
\<close>

record net_conn =
  con_in :: "bytes list"
  con_out :: bytes
  con_closed :: bool

text \<open>
  \<^verbatim>\<open>net.Conn\<close>: one \<^verbatim>\<open>Read\<close> delivers at most one segment, and of a longer segment the rest
  stays. Reading no bytes succeeds at once. \<open>None\<close> is an error.
\<close>

definition conn_Read :: "nat \<Rightarrow> 'c net_conn_scheme \<Rightarrow> bytes option \<times> 'c net_conn_scheme" where
  "conn_Read n c =
     (if con_closed c then (None, c)
      else if n = 0 then (Some [], c)
      else case con_in c of
        [] \<Rightarrow> (None, c)
      | seg # segs \<Rightarrow>
          if seg = [] then (None, c)
          else (Some (take n seg), c\<lparr>con_in := (if length seg \<le> n then segs else drop n seg # segs)\<rparr>))"

definition conn_Write :: "bytes \<Rightarrow> 'c net_conn_scheme \<Rightarrow> bool \<times> 'c net_conn_scheme" where
  "conn_Write data c = (if con_closed c then (False, c) else (True, c\<lparr>con_out := con_out c @ data\<rparr>))"

definition conn_Close :: "'c net_conn_scheme \<Rightarrow> 'c net_conn_scheme" where
  "conn_Close c = c\<lparr>con_closed := True\<rparr>"

definition readLine :: "'c net_conn_scheme \<Rightarrow> string option \<times> 'c net_conn_scheme" where
  "readLine c =
     (case conn_Read 1024 c of
        (None, c') \<Rightarrow> (None, c')
      | (Some b, c') \<Rightarrow> (Some (TrimSpace (string_of_bytes b)), c'))"

abbreviation text_line :: "string \<Rightarrow> bytes" where
  "text_line s \<equiv> bytes_of_string (s @ [CHR 0x0A])"

definition pending :: "'c net_conn_scheme \<Rightarrow> nat" where
  "pending c = sum_list (map (\<lambda>s. length s + 1) (con_in c))"

lemma conn_Read_pending:
  "conn_Read n c = (r, c') \<Longrightarrow> pending c' \<le> pending c"
  "conn_Read n c = (Some b, c') \<Longrightarrow> 0 < n \<Longrightarrow> pending c' < pending c"
  by (auto simp: conn_Read_def pending_def split: if_splits list.splits)

lemma conn_Write_pending [simp]: "pending (snd (conn_Write d c)) = pending c"
  by (simp add: conn_Write_def pending_def)

lemma readLine_pending:
  "readLine c = (Some line, c') \<Longrightarrow> pending c' < pending c"
  by (auto simp: readLine_def split: prod.splits option.splits dest!: conn_Read_pending(2))

lemma read_whole_line:
  assumes "con_in c = text_line s # rest" and "\<not> con_closed c" and "length s < 1024"
    and "s = [] \<or> printable (hd s) \<and> printable (last s)"
  shows "readLine c = (Some s, c\<lparr>con_in := rest\<rparr>)"
proof -
  have "length (text_line s) \<le> 1024" "text_line s \<noteq> []" using assms(3) by (simp_all add: bytes_of_string_def)
  moreover have "take 1024 (text_line s) = text_line s" using assms(3) by (simp add: bytes_of_string_def)
  moreover have "TrimSpace (string_of_bytes (text_line s)) = s"
    using TrimSpace_line(1) [OF assms(4)] by simp
  ultimately show ?thesis using assms(1,2) by (simp add: readLine_def conn_Read_def)
qed


end
