(* ===== verification/Loginserver.thy ===== *)
theory Loginserver
  imports Crypt Wire
begin

text \<open>
  \<^verbatim>\<open>loginserver/loginserver.go\<close>. A connection runs one conversation: challenge, key exchange,
  proof of the secret, encrypted token, login. Its random keys and the time are arguments, so
  are the digest and the cipher; the handler is user code with a state of its own. A panic of
  the key exchange or of the decryption is recovered by \<^verbatim>\<open>handleConnection\<close>, which then closes
  the connection. A game server is its handle and the messages it was sent; \<open>kick_json\<close> is
  the JSON text of a kick.
\<close>

section \<open>Data\<close>

record LoginServerConfig =
  lc_Host :: string
  lc_Port :: int
  lc_Name :: string
  lc_MultiLogin :: bool

record 'h login_handler =
  h_AuthHandler :: "string \<Rightarrow> 'h \<Rightarrow> (string + string \<times> string) \<times> 'h"
  h_LoginHandler :: "string \<Rightarrow> string \<Rightarrow> bytes \<Rightarrow> 'h \<Rightarrow> (string + string) \<times> 'h"

record UserInfo =
  ui_UID :: string
  ui_Server :: string
  ui_Address :: string
  ui_SubID :: string
  ui_LoginAt :: Time

record 'h LoginServer =
  ls_config :: LoginServerConfig
  ls_handler :: 'h
  ls_actors :: "string \<rightharpoonup> string"
  ls_users :: "string \<rightharpoonup> UserInfo"
  ls_sent :: "(string \<times> string) list"

text \<open>The primitives of Go's \<^verbatim>\<open>crypto\<close> packages, and the encoder of kicks.\<close>

record login_prims =
  lp_hmac :: "bytes \<Rightarrow> bytes \<Rightarrow> bytes"
  lp_decrypt :: "bytes \<Rightarrow> bytes \<Rightarrow> bytes"
  lp_kick_json :: "string \<Rightarrow> string \<Rightarrow> string"

definition NewLoginServer :: "LoginServerConfig \<Rightarrow> 'h \<Rightarrow> 'h LoginServer" where
  "NewLoginServer config handler =
     \<lparr>ls_config = config, ls_handler = handler, ls_actors = Map.empty, ls_users = Map.empty, ls_sent = []\<rparr>"

definition RegisterGameServer :: "string \<Rightarrow> string \<Rightarrow> 'h LoginServer \<Rightarrow> 'h LoginServer" where
  "RegisterGameServer server handle ls = ls\<lparr>ls_actors := (ls_actors ls)(server \<mapsto> handle)\<rparr>"

definition Logout :: "string \<Rightarrow> string \<Rightarrow> 'h LoginServer \<Rightarrow> 'h LoginServer" where
  "Logout uid subid ls =
     (case ls_users ls uid of
        Some userInfo \<Rightarrow> if ui_SubID userInfo = subid then ls\<lparr>ls_users := (ls_users ls)(uid := None)\<rparr> else ls
      | None \<Rightarrow> ls)"

definition GetOnlineUsers :: "'h LoginServer \<Rightarrow> string \<rightharpoonup> UserInfo" where
  "GetOnlineUsers ls = ls_users ls"

definition login_readLine :: "net_conn \<Rightarrow> string option \<times> net_conn" where
  "login_readLine c = readLine c"

section \<open>The conversation\<close>

definition kickUser :: "login_prims \<Rightarrow> UserInfo \<Rightarrow> 'h LoginServer \<Rightarrow> 'h LoginServer" where
  "kickUser prims userInfo ls =
     (let ls1 = (case ls_actors ls (ui_Server userInfo) of
                   Some gameServer \<Rightarrow>
                     ls\<lparr>ls_sent := ls_sent ls @
                         [(ui_Server userInfo, lp_kick_json prims (ui_UID userInfo) (ui_SubID userInfo))]\<rparr>
                 | None \<Rightarrow> ls)
      in ls1\<lparr>ls_users := (ls_users ls1)(ui_UID userInfo := None)\<rparr>)"

text \<open>Up to the verification of the HMAC; \<open>None\<close> when the conversation ends.\<close>

definition login_exchange ::
  "login_prims \<Rightarrow> bytes \<Rightarrow> bytes \<Rightarrow> net_conn \<Rightarrow> bytes option \<times> net_conn" where
  "login_exchange prims challenge serverPrivate c =
     (case conn_Write (text_line (Base64Encode challenge)) c of
        (False, c1) \<Rightarrow> (None, c1)
      | (True, c1) \<Rightarrow>
     (case login_readLine c1 of
        (None, c2) \<Rightarrow> (None, c2)
      | (Some clientKeyStr, c2) \<Rightarrow>
     (case Base64Decode clientKeyStr of
        None \<Rightarrow> (None, c2)
      | Some clientKey \<Rightarrow>
     (case DHExchange serverPrivate of
        Inl panic \<Rightarrow> (None, c2)
      | Inr serverPublic \<Rightarrow>
     (case conn_Write (text_line (Base64Encode serverPublic)) c2 of
        (False, c3) \<Rightarrow> (None, c3)
      | (True, c3) \<Rightarrow>
     (case DHSecret serverPrivate clientKey of
        Inl panic \<Rightarrow> (None, c3)
      | Inr secret \<Rightarrow>
     (case login_readLine c3 of
        (None, c4) \<Rightarrow> (None, c4)
      | (Some hmacStr, c4) \<Rightarrow>
     (case Base64Decode hmacStr of
        None \<Rightarrow> (None, c4)
      | Some clientHMAC \<Rightarrow>
          if clientHMAC \<noteq> HMAC64 (lp_hmac prims) challenge secret
          then (None, snd (conn_Write (text_line ''401 HMAC verification failed'') c4))
          else (Some secret, c4)))))))))"

text \<open>From the authorised token on.\<close>

definition login_user ::
  "'h login_handler \<Rightarrow> login_prims \<Rightarrow> Time \<Rightarrow> bytes \<Rightarrow> string \<Rightarrow> string \<Rightarrow> net_conn \<Rightarrow> 'h LoginServer \<Rightarrow>
     net_conn \<times> 'h LoginServer" where
  "login_user ops prims now secret server uid c ls =
     (case ls_actors ls server of
        None \<Rightarrow> (snd (conn_Write (text_line ''404 Unknown server'') c), ls)
      | Some gameServer \<Rightarrow>
          let ls1 = (if \<not> lc_MultiLogin (ls_config ls)
                     then (case ls_users ls uid of Some existingUser \<Rightarrow> kickUser prims existingUser ls | None \<Rightarrow> ls)
                     else ls)
          in case h_LoginHandler ops server uid secret (ls_handler ls1) of
               (Inl err, h) \<Rightarrow> (snd (conn_Write (text_line (''500 '' @ err)) c), ls1\<lparr>ls_handler := h\<rparr>)
             | (Inr subid, h) \<Rightarrow>
                 (snd (conn_Write (text_line (''200 '' @ Base64Encode (bytes_of_string subid))) c),
                  ls1\<lparr>ls_handler := h,
                      ls_users := (ls_users ls1)(uid \<mapsto>
                        \<lparr>ui_UID = uid, ui_Server = server, ui_Address = gameServer, ui_SubID = subid, ui_LoginAt = now\<rparr>)\<rparr>))"

definition login_handleConnection ::
  "'h login_handler \<Rightarrow> login_prims \<Rightarrow> bytes \<Rightarrow> bytes \<Rightarrow> Time \<Rightarrow> net_conn \<Rightarrow> 'h LoginServer \<Rightarrow> net_conn \<times> 'h LoginServer" where
  "login_handleConnection ops prims challenge serverPrivate now c ls =
     (let (c', ls') =
        (case login_exchange prims challenge serverPrivate c of
           (None, c1) \<Rightarrow> (c1, ls)
         | (Some secret, c1) \<Rightarrow>
             (case login_readLine c1 of
                (None, c2) \<Rightarrow> (c2, ls)
              | (Some tokenStr, c2) \<Rightarrow>
                  (case Base64Decode tokenStr of
                     None \<Rightarrow> (c2, ls)
                   | Some encryptedToken \<Rightarrow>
                       (case DesDecode (lp_decrypt prims) secret encryptedToken of
                          Inl panic \<Rightarrow> (c2, ls)
                        | Inr tokenBytes \<Rightarrow>
                            (case h_AuthHandler ops (string_of_bytes tokenBytes) (ls_handler ls) of
                               (Inl err, h) \<Rightarrow>
                                 (snd (conn_Write (text_line (''403 '' @ err)) c2), ls\<lparr>ls_handler := h\<rparr>)
                             | (Inr (server, uid), h) \<Rightarrow>
                                 login_user ops prims now secret server uid c2 (ls\<lparr>ls_handler := h\<rparr>))))))
      in (conn_Close c', ls'))"

section \<open>Lemmas\<close>

lemma Base64_line_ends:
  "Base64Encode d = [] \<or> printable (hd (Base64Encode d)) \<and> printable (last (Base64Encode d))"
  using Base64Encode_chars [of _ d] hd_in_set last_in_set by (cases "Base64Encode d = []") (auto simp: printable_def)

lemma read_base64_line:
  assumes "con_in c = text_line (Base64Encode d) # rest" and "\<not> con_closed c" and "length (Base64Encode d) < 1024"
  shows "login_readLine c = (Some (Base64Encode d), c\<lparr>con_in := rest\<rparr>)"
  unfolding login_readLine_def using read_whole_line [OF assms Base64_line_ends] .

lemma length_Base64Encode: "length (Base64Encode d) = 4 * ((length d + 2) div 3)"
proof (induction d rule: Base64Encode.induct)
  case (1 a b c rest)
  have "(5 + length rest) div 3 = Suc ((2 + length rest) div 3)" by presburger
  with 1 show ?case by (simp add: Let_def)
qed (simp_all add: Let_def)

lemma length_HMAC64: "length (HMAC64 hmac ch s) \<le> 8"
  by (simp add: HMAC64_def)

lemma length_each_block:
  assumes "8 dvd length d" and "\<And>b. length b = 8 \<Longrightarrow> length (f b) = 8"
  shows "length (each_block f d) = length d"
  using assms
proof (induction f d rule: each_block.induct)
  case (1 f d)
  show ?case
  proof (cases "d = []")
    case False
    then have "8 \<le> length d" using "1.prems"(1) by (simp add: dvd_imp_le)
    moreover have "8 dvd length (drop 8 d)" using "1.prems"(1) by (simp add: dvd_diff_nat)
    ultimately show ?thesis using 1 False by (subst each_block.simps) simp
  qed (simp add: each_block.simps)
qed

lemma length_DESEncode:
  assumes "block_cipher encrypt decrypt" and "DESEncode encrypt key d = Inr box"
  shows "length box \<le> length d + 7"
proof -
  have k: "length key = 8" and box: "box = each_block (encrypt key) (pad_block d)"
    using assms(2) by (simp_all add: DESEncode_def split: if_splits)
  have "length box = length (pad_block d)"
    unfolding box using length_each_block [OF length_pad_block] block_cipherD [OF assms(1) k] by blast
  also have "\<dots> \<le> length d + 7" by (auto simp: pad_block_def Let_def)
  finally show ?thesis .
qed

text \<open>Both ends agree on the secret, whoever computes it.\<close>

lemma secrets_agree:
  assumes "DHExchange a = Inr pa" "DHExchange b = Inr pb" "DHSecret a pb = Inr s"
  shows "DHSecret b pa = Inr s" and "length s = 8" and "length pa = 8"
proof -
  have l: "length a = 8" "length b = 8" using assms(1,2) by (auto simp: DHExchange_def split: if_splits)
  obtain s' where "DHSecret a pb = Inr s'" "DHSecret b pa = Inr s'" "length s' = 8"
    using dh_shared [OF l] assms by auto
  with assms show "DHSecret b pa = Inr s" "length s = 8" by auto
  show "length pa = 8" using assms(1) DHExchange_eq [OF l(1)] by auto
qed

text \<open>The three lines of a client that knows the secret.\<close>

definition client_lines :: "login_prims \<Rightarrow> bytes \<Rightarrow> bytes \<Rightarrow> bytes \<Rightarrow> bytes \<Rightarrow> bytes list" where
  "client_lines prims challenge clientPublic secret box =
     [text_line (Base64Encode clientPublic), text_line (Base64Encode (HMAC64 (lp_hmac prims) challenge secret)),
      text_line (Base64Encode box)]"

lemma b64_short: "length d \<le> 707 \<Longrightarrow> length (Base64Encode d) < 1024"
  unfolding length_Base64Encode by linarith

lemma exchange_succeeds:
  assumes c: "con_in c = client_lines prims challenge pa s box" "\<not> con_closed c"
    and keys: "DHExchange b = Inr pb" "DHSecret b pa = Inr s" "length pa = 8"
  shows "login_exchange prims challenge b c =
     (Some s, c\<lparr>con_in := [text_line (Base64Encode box)],
        con_out := con_out c @ text_line (Base64Encode challenge) @ text_line (Base64Encode pb)\<rparr>)"
proof -
  let ?hm = "HMAC64 (lp_hmac prims) challenge s"
  define c1 where "c1 = c\<lparr>con_out := con_out c @ text_line (Base64Encode challenge)\<rparr>"
  define c3 where "c3 = c\<lparr>con_in := tl (con_in c), con_out := con_out c @ text_line (Base64Encode challenge) @ text_line (Base64Encode pb)\<rparr>"
  have r1: "login_readLine c1 = (Some (Base64Encode pa), c1\<lparr>con_in := tl (con_in c)\<rparr>)"
    by (rule read_base64_line) (use c keys(3) in \<open>simp_all add: c1_def client_lines_def b64_short\<close>)
  have r2: "login_readLine c3 = (Some (Base64Encode ?hm), c3\<lparr>con_in := [text_line (Base64Encode box)]\<rparr>)"
    by (rule read_base64_line)
      (use c length_HMAC64 [of "lp_hmac prims" challenge s] in \<open>simp_all add: c3_def client_lines_def b64_short\<close>)
  have w1: "conn_Write (text_line (Base64Encode challenge)) c = (True, c1)"
    using c(2) by (simp add: conn_Write_def c1_def)
  have w2: "conn_Write (text_line (Base64Encode pb)) (c1\<lparr>con_in := tl (con_in c)\<rparr>) = (True, c3)"
    using c(2) by (simp add: conn_Write_def c1_def c3_def)
  show ?thesis
    unfolding login_exchange_def w1 prod.case r1 option.case Base64_roundtrip keys sum.case w2 r2 bool.case
    by (simp add: c3_def Base64_roundtrip)
qed

lemma token_decoded:
  assumes "block_cipher encrypt (lp_decrypt prims)" and "DESEncode encrypt s (bytes_of_string token) = Inr box"
    and "\<not> (token \<noteq> [] \<and> length token mod 8 = 0 \<and> (of_char (last token) :: nat) \<in> {1..8})"
  shows "DesDecode (lp_decrypt prims) s box = Inr (bytes_of_string token)"
proof -
  have k: "length s = 8" using assms(2) by (simp add: DESEncode_def split: if_splits)
  have "unat (last (bytes_of_string token)) = of_char (last token)" if "token \<noteq> []"
    using that by (simp add: bytes_of_string_def last_map unat_of_char_u8)
  with DES_inverse [OF assms(1) k, of "bytes_of_string token"] assms(2,3) show ?thesis
    by (auto simp: DesDecode_def bytes_of_string_def)
qed

text \<open>Users are filed under their own id.\<close>

definition users_ok :: "'h LoginServer \<Rightarrow> bool" where
  "users_ok ls \<longleftrightarrow> (\<forall>uid i. ls_users ls uid = Some i \<longrightarrow> ui_UID i = uid)"

lemma kickUser_effect:
  "ls_users (kickUser prims i ls) = (ls_users ls)(ui_UID i := None)"
  "ls_handler (kickUser prims i ls) = ls_handler ls" "ls_actors (kickUser prims i ls) = ls_actors ls"
  "ls_config (kickUser prims i ls) = ls_config ls"
  "ls_sent (kickUser prims i ls) = ls_sent ls @
     (if ls_actors ls (ui_Server i) = None then [] else [(ui_Server i, lp_kick_json prims (ui_UID i) (ui_SubID i))])"
  by (simp_all add: kickUser_def Let_def split: option.splits)

lemma users_ok_step:
  assumes "users_ok ls"
  shows "users_ok (snd (login_handleConnection ops prims challenge b now c ls))" and "users_ok (Logout uid subid ls)"
    and "users_ok (RegisterGameServer server handle ls)"
proof -
  have kick: "users_ok (kickUser prims i ls)" for i
    using assms by (simp add: users_ok_def kickUser_effect)
  have h: "users_ok (ls\<lparr>ls_handler := x\<rparr>)" for x using assms by (simp add: users_ok_def)
  have user: "users_ok (snd (login_user ops prims now s server uid c1 (ls\<lparr>ls_handler := x\<rparr>)))" for s server uid c1 x
    using assms unfolding login_user_def Let_def
    by (auto simp: users_ok_def kickUser_effect split: option.splits prod.splits sum.splits if_splits)
  show "users_ok (snd (login_handleConnection ops prims challenge b now c ls))"
    using assms h user unfolding login_handleConnection_def Let_def
    by (auto split: option.splits prod.splits sum.splits) (metis snd_conv)
  show "users_ok (Logout uid subid ls)" "users_ok (RegisterGameServer server handle ls)"
    using assms by (auto simp: users_ok_def Logout_def RegisterGameServer_def split: option.splits if_splits)
qed

text \<open>With an authorised token the conversation comes to \<^const>\<open>login_user\<close>.\<close>

lemma login_reaches_user:
  assumes cipher: "block_cipher encrypt (lp_decrypt prims)"
    and keys: "DHExchange a = Inr pa" "DHExchange b = Inr pb" "DHSecret a pb = Inr s"
    and box: "DESEncode encrypt s (bytes_of_string token) = Inr box" "length token \<le> 700"
      "\<not> (token \<noteq> [] \<and> length token mod 8 = 0 \<and> (of_char (last token) :: nat) \<in> {1..8})"
    and c: "con_in c = client_lines prims challenge pa s box" "\<not> con_closed c"
    and auth: "h_AuthHandler ops token (ls_handler ls) = (Inr (server, uid), h1)"
  shows "login_handleConnection ops prims challenge b now c ls =
    (let r = login_user ops prims now s server uid
               (c\<lparr>con_in := [], con_out := con_out c @ text_line (Base64Encode challenge) @ text_line (Base64Encode pb)\<rparr>)
               (ls\<lparr>ls_handler := h1\<rparr>)
     in (conn_Close (fst r), snd r))"
proof -
  note agree = secrets_agree [OF keys]
  define c1 where "c1 = c\<lparr>con_in := [text_line (Base64Encode box)],
      con_out := con_out c @ text_line (Base64Encode challenge) @ text_line (Base64Encode pb)\<rparr>"
  have ex: "login_exchange prims challenge b c = (Some s, c1)"
    using exchange_succeeds [OF c keys(2) agree(1,3)] by (simp add: c1_def)
  have "length box \<le> 707" using length_DESEncode [OF cipher box(1)] box(2) by (simp add: bytes_of_string_def)
  then have "login_readLine c1 = (Some (Base64Encode box), c1\<lparr>con_in := []\<rparr>)"
    by (intro read_base64_line) (use c in \<open>simp_all add: c1_def b64_short\<close>)
  moreover have "c1\<lparr>con_in := []\<rparr> =
      c\<lparr>con_in := [], con_out := con_out c @ text_line (Base64Encode challenge) @ text_line (Base64Encode pb)\<rparr>"
    by (cases c) (simp add: c1_def)
  ultimately show ?thesis
    using token_decoded [OF cipher box(1,3)]
    by (simp add: login_handleConnection_def ex auth Base64_roundtrip Let_def case_prod_unfold)
qed

lemma login_succeeds:
  assumes cipher: "block_cipher encrypt (lp_decrypt prims)"
    and keys: "DHExchange a = Inr pa" "DHExchange b = Inr pb" "DHSecret a pb = Inr s"
    and box: "DESEncode encrypt s (bytes_of_string token) = Inr box" "length token \<le> 700"
      "\<not> (token \<noteq> [] \<and> length token mod 8 = 0 \<and> (of_char (last token) :: nat) \<in> {1..8})"
    and c: "con_in c = client_lines prims challenge pa s box" "\<not> con_closed c"
    and ok: "users_ok ls" "h_AuthHandler ops token (ls_handler ls) = (Inr (server, uid), h1)"
      "ls_actors ls server = Some gs" "h_LoginHandler ops server uid s h1 = (Inr subid, h2)"
  shows "\<exists>c' ls'. login_handleConnection ops prims challenge b now c ls = (c', ls') \<and>
     con_out c' = con_out c @ text_line (Base64Encode challenge) @ text_line (Base64Encode pb) @
       text_line (''200 '' @ Base64Encode (bytes_of_string subid)) \<and>
     ls_users ls' = (ls_users ls)(uid \<mapsto>
       \<lparr>ui_UID = uid, ui_Server = server, ui_Address = gs, ui_SubID = subid, ui_LoginAt = now\<rparr>) \<and>
     ls_handler ls' = h2 \<and>
     ls_sent ls' = ls_sent ls @
       (case ls_users ls uid of
          Some i \<Rightarrow> if lc_MultiLogin (ls_config ls) \<or> ls_actors ls (ui_Server i) = None then []
                    else [(ui_Server i, lp_kick_json prims uid (ui_SubID i))]
        | None \<Rightarrow> [])"
proof -
  have uid: "ui_UID i = uid" if "ls_users ls uid = Some i" for i using ok(1) that by (simp add: users_ok_def)
  show ?thesis
    using c(2) uid unfolding login_reaches_user [OF cipher keys box c ok(2)]
    by (auto simp: login_user_def ok(3,4) Let_def kickUser_effect conn_Close_def conn_Write_def split: option.splits)
qed

text \<open>A server whose users are their tokens, and a cipher that turns blocks around.\<close>

definition token_handler :: "nat login_handler" where
  "token_handler = \<lparr>h_AuthHandler = (\<lambda>t h. (Inr (''game'', t), Suc h)), h_LoginHandler = (\<lambda>srv uid sec h. (Inr (''7''), Suc h))\<rparr>"

definition plain_prims :: login_prims where
  "plain_prims = \<lparr>lp_hmac = (\<lambda>k m. m @ k), lp_decrypt = (\<lambda>k b. rev b), lp_kick_json = (\<lambda>uid subid. uid @ subid)\<rparr>"

definition token_server :: "nat LoginServer" where
  "token_server = RegisterGameServer ''game'' ''h1''
     (NewLoginServer \<lparr>lc_Host = [], lc_Port = 0, lc_Name = [], lc_MultiLogin = False\<rparr> 0)"

lemma token_setup:
  obtains pa pb s box where "block_cipher (\<lambda>k b. rev b) (lp_decrypt plain_prims)"
    and "DHExchange [0, 0, 0, 0, 0, 0, 0, 5] = Inr pa" and "DHExchange [0, 0, 0, 0, 0, 0, 0, 3] = Inr pb"
    and "DHSecret [0, 0, 0, 0, 0, 0, 0, 5] pb = Inr s" and "DESEncode (\<lambda>k b. rev b) s (bytes_of_string ''bob'') = Inr box"
    and "users_ok token_server" and "ls_actors token_server ''game'' = Some ''h1''"
proof -
  let ?a = "[0, 0, 0, 0, 0, 0, 0, 5] :: bytes" and ?b = "[0, 0, 0, 0, 0, 0, 0, 3] :: bytes"
  obtain pa pb s where k: "DHExchange ?a = Inr pa" "DHExchange ?b = Inr pb" "DHSecret ?a pb = Inr s" "length s = 8"
    using dh_shared [of ?a ?b] by auto
  have cipher: "block_cipher (\<lambda>k b. rev b) (lp_decrypt plain_prims)" by (simp add: block_cipher_def plain_prims_def)
  obtain box where box: "DESEncode (\<lambda>k b. rev b) s (bytes_of_string ''bob'') = Inr box"
    using DES_inverse [OF cipher k(4)] by blast
  have "users_ok token_server" "ls_actors token_server ''game'' = Some ''h1''"
    by (simp_all add: users_ok_def token_server_def RegisterGameServer_def NewLoginServer_def)
  with cipher k box show thesis by (rule_tac that) assumption+
qed

abbreviation token_run :: "bytes \<Rightarrow> bytes \<Rightarrow> bytes \<Rightarrow> net_conn \<times> nat LoginServer" where
  "token_run pa s box \<equiv>
     login_handleConnection token_handler plain_prims [1, 2, 3, 4, 5, 6, 7, 8] [0, 0, 0, 0, 0, 0, 0, 3] 5
       \<lparr>con_in = client_lines plain_prims [1, 2, 3, 4, 5, 6, 7, 8] pa s box, con_out = [], con_closed = False\<rparr> token_server"

lemma token_login: "\<exists>pa s box. ls_users (snd (token_run pa s box)) ''bob'' \<noteq> None"
proof -
  obtain pa pb s box where t: "block_cipher (\<lambda>k b. rev b) (lp_decrypt plain_prims)"
    "DHExchange [0, 0, 0, 0, 0, 0, 0, 5] = Inr pa" "DHExchange [0, 0, 0, 0, 0, 0, 0, 3] = Inr pb"
    "DHSecret [0, 0, 0, 0, 0, 0, 0, 5] pb = Inr s" "DESEncode (\<lambda>k b. rev b) s (bytes_of_string ''bob'') = Inr box"
    "users_ok token_server" "ls_actors token_server ''game'' = Some ''h1''" by (rule token_setup)
  from login_succeeds [OF t(1-5) _ _ _ _ t(6) _ t(7), where c = "\<lparr>con_in = client_lines plain_prims [1, 2, 3, 4, 5, 6, 7, 8] pa s box, con_out = [], con_closed = False\<rparr>"
      and challenge = "[1, 2, 3, 4, 5, 6, 7, 8]" and ops = token_handler and uid = "''bob''" and now = 5]
  have "ls_users (snd (token_run pa s box)) ''bob'' \<noteq> None"
    by (fastforce simp: token_handler_def)
  then show ?thesis by blast
qed

lemma token_server_empty: "ls_users token_server u = None"
  by (simp add: token_server_def RegisterGameServer_def NewLoginServer_def)

section \<open>Properties\<close>



text \<open>
  Property C12. Nobody logs in without the secret: when a conversation changes anything on the
  server, its first line was an 8-byte key and its second the HMAC of the challenge under
  the secret that this key and the server's make.
\<close>

theorem login_needs_hmac:
  assumes "snd (login_handleConnection ops prims challenge b now c ls) \<noteq> ls"
  shows "\<exists>key line1 line2 s c1 c2 c3 c4.
     login_readLine c1 = (Some line1, c2) \<and> Base64Decode line1 = Some key \<and> con_in c1 = con_in c \<and>
     DHSecret b key = Inr s \<and> login_readLine c3 = (Some line2, c4) \<and> con_in c3 = con_in c2 \<and>
     Base64Decode line2 = Some (HMAC64 (lp_hmac prims) challenge s)"
proof -
  obtain s c' where ex: "login_exchange prims challenge b c = (Some s, c')"
    using assms by (auto simp: login_handleConnection_def split: prod.splits option.splits)
  then obtain c1 line1 c2 key pb c3 line2 where
    r1: "conn_Write (text_line (Base64Encode challenge)) c = (True, c1)" "login_readLine c1 = (Some line1, c2)"
    and r2: "Base64Decode line1 = Some key" "DHSecret b key = Inr s" "conn_Write (text_line (Base64Encode pb)) c2 = (True, c3)"
    and r3: "login_readLine c3 = (Some line2, c')" "Base64Decode line2 = Some (HMAC64 (lp_hmac prims) challenge s)"
    by (auto simp: login_exchange_def split: prod.splits option.splits sum.splits bool.splits if_splits)
  have "con_in c1 = con_in c" "con_in c3 = con_in c2"
    using r1(1) r2(3) by (auto simp: conn_Write_def split: if_splits)
  with r1 r2 r3 show ?thesis by blast
qed

theorem login_needs_hmac_witness:
  "\<exists>key line2 s c3 c4. DHSecret [0, 0, 0, 0, 0, 0, 0, 3] key = Inr s \<and> login_readLine c3 = (Some line2, c4) \<and>
     Base64Decode line2 = Some (HMAC64 (lp_hmac plain_prims) [1, 2, 3, 4, 5, 6, 7, 8] s)"
proof -
  obtain c where "snd (login_handleConnection token_handler plain_prims [1, 2, 3, 4, 5, 6, 7, 8] [0, 0, 0, 0, 0, 0, 0, 3] 5 c token_server) \<noteq>
      token_server"
    using token_login token_server_empty by (metis option.distinct(1))
  from login_needs_hmac [OF this] show ?thesis by blast
qed

end
