(* ===== verification/Msgserver.thy ===== *)
theory Msgserver
  imports Crypt Wire
begin

text \<open>
  \<^verbatim>\<open>msgserver/msgserver.go\<close>. Connections and sessions are shared pointers: a connection keeps its
  session after \<^verbatim>\<open>CleanupSessions\<close> has dropped it from the table, so sessions live in a heap.
  What a peer sends is the list of segments that one \<^verbatim>\<open>Read\<close> each delivers, and what is written
  is collected; the end of the list is a read error. The handler is user code: functions on a
  state of its own. The receive buffer of a connection is never used by the code, and
  \<^verbatim>\<open>nextFD++\<close>, which takes no lock, is one step.
\<close>

section \<open>Data\<close>

record MsgServerConfig =
  mc_Host :: string
  mc_Port :: int
  mc_Name :: string
  mc_MaxConn :: int
  mc_Timeout :: int

record 'h msg_handler =
  h_Connect :: "int \<Rightarrow> string \<Rightarrow> 'h \<Rightarrow> 'h"
  h_Disconnect :: "int \<Rightarrow> 'h \<Rightarrow> 'h"
  h_Error :: "int \<Rightarrow> 'h \<Rightarrow> 'h"
  h_Message :: "int \<Rightarrow> u32 \<Rightarrow> bytes \<Rightarrow> 'h \<Rightarrow> bytes option \<times> 'h"
  h_Auth :: "string \<Rightarrow> bytes \<Rightarrow> 'h \<Rightarrow> (string + string \<times> string) \<times> 'h"

record Session =
  ses_ID :: u32
  ses_UserID :: string
  ses_SubID :: string
  ses_Username :: string
  ses_Secret :: bytes
  ses_Seq :: u32
  ses_ConnTime :: Time
  ses_LastSeen :: Time

record Connection = net_conn +
  con_fd :: int
  con_session :: "nat option"
  con_seq :: u32

record 'h MsgServer =
  ms_config :: MsgServerConfig
  ms_handler :: 'h
  ms_connections :: "int \<rightharpoonup> Connection"
  ms_sessions :: "string \<rightharpoonup> nat"
  ms_heap :: "nat \<rightharpoonup> Session"
  ms_fresh :: nat
  ms_nextFD :: "32 word"
  ms_running :: bool

definition NewMsgServer :: "MsgServerConfig \<Rightarrow> 'h \<Rightarrow> 'h MsgServer" where
  "NewMsgServer config handler =
     \<lparr>ms_config = config, ms_handler = handler, ms_connections = Map.empty, ms_sessions = Map.empty,
      ms_heap = Map.empty, ms_fresh = 0, ms_nextFD = 1, ms_running = False\<rparr>"

text \<open>\<open>listening\<close> tells whether the operating system let the server listen.\<close>

definition ms_Start :: "bool \<Rightarrow> 'h MsgServer \<Rightarrow> bool \<times> 'h MsgServer" where
  "ms_Start listening ms = (if listening then (True, ms\<lparr>ms_running := True\<rparr>) else (False, ms))"

definition ms_Stop :: "'h MsgServer \<Rightarrow> 'h MsgServer" where
  "ms_Stop ms = ms\<lparr>ms_running := False\<rparr>"

section \<open>Handshake\<close>

text \<open>The part of \<^verbatim>\<open>handleHandshake\<close> under the lock.\<close>

definition handshake_session ::
  "Time \<Rightarrow> string \<Rightarrow> nat \<Rightarrow> string \<Rightarrow> string \<Rightarrow> Connection \<Rightarrow> 'h MsgServer \<Rightarrow> bool \<times> Connection \<times> 'h MsgServer" where
  "handshake_session now username seq uid subid c ms =
     (case ms_sessions ms username of
        Some a \<Rightarrow>
          let session = the (ms_heap ms a)
          in if (of_nat seq :: u32) \<le> ses_Seq session
             then (False, snd (conn_Write (text_line ''402 Invalid sequence'') c), ms)
             else (True,
                   snd (conn_Write (text_line ''200 OK'') (c\<lparr>con_session := Some a, con_seq := of_nat seq\<rparr>)),
                   ms\<lparr>ms_heap := (ms_heap ms)(a \<mapsto> session\<lparr>ses_Seq := of_nat seq, ses_LastSeen := now\<rparr>)\<rparr>)
      | None \<Rightarrow>
          let a = ms_fresh ms;
              session = \<lparr>ses_ID = of_int (con_fd c), ses_UserID = uid, ses_SubID = subid, ses_Username = username,
                         ses_Secret = [], ses_Seq = 0, ses_ConnTime = now, ses_LastSeen = now\<rparr>
          in (True,
              snd (conn_Write (text_line ''200 OK'') (c\<lparr>con_session := Some a, con_seq := of_nat seq\<rparr>)),
              ms\<lparr>ms_heap := (ms_heap ms)(a \<mapsto> session), ms_sessions := (ms_sessions ms)(username \<mapsto> a),
                 ms_fresh := Suc a\<rparr>))"

definition handleHandshake ::
  "'h msg_handler \<Rightarrow> Time \<Rightarrow> Connection \<Rightarrow> 'h MsgServer \<Rightarrow> bool \<times> Connection \<times> 'h MsgServer" where
  "handleHandshake ops now c ms =
     (case readLine c of
        (None, c1) \<Rightarrow> (False, c1, ms)
      | (Some line, c1) \<Rightarrow>
          (case Split (CHR '':'') line of
             [username, seqStr, signatureStr] \<Rightarrow>
               (case ParseUint32 seqStr of
                  None \<Rightarrow> (False, c1, ms)
                | Some seq \<Rightarrow>
                    (case Base64Decode signatureStr of
                       None \<Rightarrow> (False, c1, ms)
                     | Some signature \<Rightarrow>
                         (case h_Auth ops username signature (ms_handler ms) of
                            (Inl err, h) \<Rightarrow>
                              (False, snd (conn_Write (text_line ''401 Auth failed'') c1), ms\<lparr>ms_handler := h\<rparr>)
                          | (Inr (uid, subid), h) \<Rightarrow>
                              handshake_session now username seq uid subid c1 (ms\<lparr>ms_handler := h\<rparr>))))
           | _ \<Rightarrow> (False, c1, ms)))"

section \<open>Messages\<close>

text \<open>
  One turn of the loop; \<open>True\<close> to go on. The body is read with a single \<^verbatim>\<open>Read\<close> into a
  zeroed buffer of the announced length.
\<close>

definition touch_session :: "Time \<Rightarrow> Connection \<Rightarrow> 'h MsgServer \<Rightarrow> 'h MsgServer" where
  "touch_session now c ms =
     (case con_session c of
        None \<Rightarrow> ms
      | Some a \<Rightarrow> ms\<lparr>ms_heap := (ms_heap ms)(a \<mapsto> (the (ms_heap ms a))\<lparr>ses_LastSeen := now\<rparr>)\<rparr>)"

definition message_turn ::
  "'h msg_handler \<Rightarrow> Time \<Rightarrow> Connection \<Rightarrow> 'h MsgServer \<Rightarrow> bool \<times> Connection \<times> 'h MsgServer" where
  "message_turn ops now c ms =
     (case readLine c of
        (None, c1) \<Rightarrow> (False, c1, ms\<lparr>ms_handler := h_Error ops (con_fd c1) (ms_handler ms)\<rparr>)
      | (Some line, c1) \<Rightarrow>
          (case Split (CHR '':'') line of
             [sessionStr, lengthStr] \<Rightarrow>
               (case ParseUint32 sessionStr of
                  None \<Rightarrow> (True, c1, ms)
                | Some sessionID \<Rightarrow>
                    (case ParseUint32 lengthStr of
                       None \<Rightarrow> (True, c1, ms)
                     | Some len \<Rightarrow>
                         (case conn_Read len c1 of
                            (None, c2) \<Rightarrow>
                              (False, c2, ms\<lparr>ms_handler := h_Error ops (con_fd c2) (ms_handler ms)\<rparr>)
                          | (Some body, c2) \<Rightarrow>
                              let msgData = body @ replicate (len - length body) 0
                              in case h_Message ops (con_fd c2) (of_nat sessionID) msgData (ms_handler ms) of
                                   (response, h) \<Rightarrow>
                                     let c3 = (case response of
                                                 None \<Rightarrow> c2
                                               | Some r \<Rightarrow>
                                                   snd (conn_Write r (snd (conn_Write
                                                     (text_line (decimal sessionID @ '':'' @ decimal (length r))) c2))))
                                     in (True, c3, touch_session now c3 (ms\<lparr>ms_handler := h\<rparr>)))))
           | _ \<Rightarrow> (True, c1, ms)))"

lemma message_turn_pending:
  "message_turn ops now c ms = (True, c', ms') \<Longrightarrow> pending c' < pending c"
  by (auto simp: message_turn_def Let_def split: prod.splits option.splits list.splits
      dest!: readLine_pending conn_Read_pending(1))

text \<open>The loop ends, because every turn consumes input. \<open>clock\<close> gives the time of each turn.\<close>

function messageLoop ::
  "'h msg_handler \<Rightarrow> (nat \<Rightarrow> Time) \<Rightarrow> Connection \<Rightarrow> 'h MsgServer \<Rightarrow> Connection \<times> 'h MsgServer" where
  "messageLoop ops clock c ms =
     (case message_turn ops (clock 0) c ms of
        (False, c', ms') \<Rightarrow> (c', ms')
      | (True, c', ms') \<Rightarrow> messageLoop ops (\<lambda>i. clock (Suc i)) c' ms')"
  by pat_completeness auto
termination
  by (relation "measure (\<lambda>(ops, clock, c, ms). pending c)") (auto dest: message_turn_pending [OF sym])

declare messageLoop.simps [simp del]

section \<open>Connections\<close>

text \<open>
  \<^verbatim>\<open>handleConnection\<close> before the handshake and its deferred calls, and the whole for a client
  that sends \<open>input\<close>.
\<close>

definition connect_begin ::
  "'h msg_handler \<Rightarrow> string \<Rightarrow> bytes list \<Rightarrow> 'h MsgServer \<Rightarrow> Connection \<times> 'h MsgServer" where
  "connect_begin ops addr input ms =
     (let fd = sint (ms_nextFD ms);
          c = \<lparr>con_in = input, con_out = [], con_closed = False, con_fd = fd, con_session = None, con_seq = 0\<rparr>
      in (c, ms\<lparr>ms_nextFD := ms_nextFD ms + 1, ms_connections := (ms_connections ms)(fd \<mapsto> c),
                ms_handler := h_Connect ops fd addr (ms_handler ms)\<rparr>))"

definition connect_end :: "'h msg_handler \<Rightarrow> Connection \<Rightarrow> 'h MsgServer \<Rightarrow> Connection \<times> 'h MsgServer" where
  "connect_end ops c ms =
     (let ms1 = ms\<lparr>ms_connections := (ms_connections ms)(con_fd c := None)\<rparr>
      in (conn_Close c,
          if con_session c \<noteq> None
          then ms1\<lparr>ms_handler := h_Disconnect ops (con_fd c) (ms_handler ms1)\<rparr> else ms1))"

definition handleConnection ::
  "'h msg_handler \<Rightarrow> (nat \<Rightarrow> Time) \<Rightarrow> string \<Rightarrow> bytes list \<Rightarrow> 'h MsgServer \<Rightarrow> Connection \<times> 'h MsgServer" where
  "handleConnection ops clock addr input ms =
     (case connect_begin ops addr input ms of
        (c, ms1) \<Rightarrow>
          (case handleHandshake ops (clock 0) c ms1 of
             (False, c2, ms2) \<Rightarrow> connect_end ops c2 ms2
           | (True, c2, ms2) \<Rightarrow>
               (case messageLoop ops (\<lambda>i. clock (Suc i)) c2 ms2 of
                  (c3, ms3) \<Rightarrow> connect_end ops c3 ms3)))"

datatype MsgError = ConnectionNotFound int | WriteFailed

definition ms_Send :: "int \<Rightarrow> bytes \<Rightarrow> 'h MsgServer \<Rightarrow> (MsgError + unit) \<times> 'h MsgServer" where
  "ms_Send fd data ms =
     (case ms_connections ms fd of
        None \<Rightarrow> (Inl (ConnectionNotFound fd), ms)
      | Some c \<Rightarrow>
          (case conn_Write (text_line (decimal 0 @ '':'' @ decimal (length data))) c of
             (False, c1) \<Rightarrow> (Inl WriteFailed, ms\<lparr>ms_connections := (ms_connections ms)(fd \<mapsto> c1)\<rparr>)
           | (True, c1) \<Rightarrow>
               (case conn_Write data c1 of
                  (ok, c2) \<Rightarrow> (if ok then Inr () else Inl WriteFailed,
                               ms\<lparr>ms_connections := (ms_connections ms)(fd \<mapsto> c2)\<rparr>))))"

definition ms_Kick :: "int \<Rightarrow> 'h MsgServer \<Rightarrow> (MsgError + unit) \<times> 'h MsgServer" where
  "ms_Kick fd ms =
     (case ms_connections ms fd of
        None \<Rightarrow> (Inl (ConnectionNotFound fd), ms)
      | Some c \<Rightarrow> (Inr (), ms\<lparr>ms_connections := (ms_connections ms)(fd \<mapsto> conn_Close c)\<rparr>))"

definition ms_GetSession :: "string \<Rightarrow> 'h MsgServer \<Rightarrow> nat option" where
  "ms_GetSession username ms = ms_sessions ms username"

definition GetConnections :: "'h MsgServer \<Rightarrow> int \<rightharpoonup> Connection" where
  "GetConnections ms = ms_connections ms"

definition CleanupSessions :: "Duration \<Rightarrow> Time \<Rightarrow> 'h MsgServer \<Rightarrow> 'h MsgServer" where
  "CleanupSessions timeout now ms =
     ms\<lparr>ms_sessions := (\<lambda>u. case ms_sessions ms u of
          None \<Rightarrow> None
        | Some a \<Rightarrow> if now - ses_LastSeen (the (ms_heap ms a)) > timeout then None else Some a)\<rparr>"

section \<open>Interleaving\<close>

text \<open>
  Connections run concurrently: each step is one of theirs, an arrival of data, or a call from
  outside. A connection that fails its handshake or ends its loop runs the deferred calls.
\<close>

abbreviation set_conn :: "int \<Rightarrow> Connection \<Rightarrow> 'h MsgServer \<Rightarrow> 'h MsgServer" where
  "set_conn fd c ms \<equiv> ms\<lparr>ms_connections := (ms_connections ms)(fd \<mapsto> c)\<rparr>"

inductive msg_step :: "'h msg_handler \<Rightarrow> 'h MsgServer \<Rightarrow> 'h MsgServer \<Rightarrow> bool" for ops where
  accept: "ms_connections ms (sint (ms_nextFD ms)) = None \<Longrightarrow>
     msg_step ops ms (snd (connect_begin ops addr [] ms))"
| arrive: "ms_connections ms fd = Some c \<Longrightarrow>
     msg_step ops ms (set_conn fd (c\<lparr>con_in := con_in c @ [seg]\<rparr>) ms)"
| handshake: "ms_connections ms fd = Some c \<Longrightarrow> con_session c = None \<Longrightarrow>
     handleHandshake ops now c ms = (ok, c', ms') \<Longrightarrow>
     msg_step ops ms (if ok then set_conn fd c' ms' else snd (connect_end ops c' ms'))"
| turn: "ms_connections ms fd = Some c \<Longrightarrow> con_session c \<noteq> None \<Longrightarrow>
     message_turn ops now c ms = (ok, c', ms') \<Longrightarrow>
     msg_step ops ms (if ok then set_conn fd c' ms' else snd (connect_end ops c' ms'))"
| send: "msg_step ops ms (snd (ms_Send fd data ms))"
| kick: "msg_step ops ms (snd (ms_Kick fd ms))"
| cleanup: "msg_step ops ms (CleanupSessions timeout now ms)"

text \<open>
  Sessions in the table exist and carry the name they are filed under, so do those of the
  connections; every address in use is allocated.
\<close>

definition msg_ok :: "'h MsgServer \<Rightarrow> bool" where
  "msg_ok ms \<longleftrightarrow>
     (\<forall>u a. ms_sessions ms u = Some a \<longrightarrow> (\<exists>s. ms_heap ms a = Some s \<and> ses_Username s = u)) \<and>
     (\<forall>fd c. ms_connections ms fd = Some c \<longrightarrow> con_fd c = fd \<and>
        (\<forall>a. con_session c = Some a \<longrightarrow> ms_heap ms a \<noteq> None)) \<and>
     (\<forall>a. a \<in> dom (ms_heap ms) \<longrightarrow> a < ms_fresh ms)"

text \<open>Sessions are never lost from the heap, and only their clock and their sequence move.\<close>

definition heap_grows :: "'h MsgServer \<Rightarrow> 'h MsgServer \<Rightarrow> bool" where
  "heap_grows ms ms' \<longleftrightarrow>
     (\<forall>a s. ms_heap ms a = Some s \<longrightarrow>
        (\<exists>t q. ms_heap ms' a = Some (s\<lparr>ses_Seq := q, ses_LastSeen := t\<rparr>) \<and> ses_Seq s \<le> q))"

lemma heap_grows_refl: "ms_heap ms' = ms_heap ms \<Longrightarrow> heap_grows ms ms'"
  unfolding heap_grows_def
proof (intro allI impI)
  fix a s
  assume "ms_heap ms' = ms_heap ms" "ms_heap ms a = Some s"
  then have "ms_heap ms' a = Some (s\<lparr>ses_Seq := ses_Seq s, ses_LastSeen := ses_LastSeen s\<rparr>)" by simp
  then show "\<exists>t q. ms_heap ms' a = Some (s\<lparr>ses_Seq := q, ses_LastSeen := t\<rparr>) \<and> ses_Seq s \<le> q"
    by blast
qed

lemma heap_grows_trans: "heap_grows a b \<Longrightarrow> heap_grows b c \<Longrightarrow> heap_grows a c"
  unfolding heap_grows_def by (fastforce intro: order_trans)

definition table_ok :: "'h MsgServer \<Rightarrow> bool" where
  "table_ok ms \<longleftrightarrow>
     (\<forall>u a. ms_sessions ms u = Some a \<longrightarrow> (\<exists>s. ms_heap ms a = Some s \<and> ses_Username s = u)) \<and>
     (\<forall>a. a \<in> dom (ms_heap ms) \<longrightarrow> a < ms_fresh ms)"

text \<open>What a step of connection \<open>c\<close> may do.\<close>

definition conn_effect :: "Connection \<Rightarrow> 'h MsgServer \<Rightarrow> Connection \<Rightarrow> 'h MsgServer \<Rightarrow> bool" where
  "conn_effect c ms c' ms' \<longleftrightarrow>
     ms_connections ms' = ms_connections ms \<and> con_fd c' = con_fd c \<and> heap_grows ms ms' \<and> table_ok ms' \<and>
     (\<forall>a. con_session c' = Some a \<longrightarrow> ms_heap ms' a \<noteq> None)"

lemma conn_Read_keeps:
  "conn_Read n c = (r, c') \<Longrightarrow> con_fd c' = con_fd c \<and> con_session c' = con_session c \<and> con_closed c' = con_closed c"
  by (auto simp: conn_Read_def split: if_splits list.splits)

lemma readLine_keeps:
  "readLine c = (r, c') \<Longrightarrow> con_fd c' = con_fd c \<and> con_session c' = con_session c \<and> con_closed c' = con_closed c"
  by (auto simp: readLine_def split: prod.splits option.splits dest!: conn_Read_keeps)

lemma conn_Write_keeps [simp]:
  "con_fd (snd (conn_Write d c)) = con_fd c" "con_session (snd (conn_Write d c)) = con_session c"
  by (simp_all add: conn_Write_def)

lemma heap_grows_dom: "heap_grows ms ms' \<Longrightarrow> ms_heap ms a \<noteq> None \<Longrightarrow> ms_heap ms' a \<noteq> None"
  unfolding heap_grows_def by blast

lemma msg_okI:
  assumes "table_ok ms"
    and "\<forall>fd c. ms_connections ms fd = Some c \<longrightarrow> con_fd c = fd \<and> (\<forall>a. con_session c = Some a \<longrightarrow> ms_heap ms a \<noteq> None)"
  shows "msg_ok ms"
  using assms unfolding msg_ok_def table_ok_def by blast

lemma msg_okD:
  "msg_ok ms \<Longrightarrow> table_ok ms"
  "msg_ok ms \<Longrightarrow> ms_connections ms fd = Some c \<Longrightarrow> con_fd c = fd"
  "msg_ok ms \<Longrightarrow> ms_connections ms fd = Some c \<Longrightarrow> con_session c = Some a \<Longrightarrow> ms_heap ms a \<noteq> None"
  unfolding msg_ok_def table_ok_def by blast+

text \<open>Steps that leave the heap alone.\<close>

lemma conn_effect_simple:
  assumes "table_ok ms" and "ms_connections ms' = ms_connections ms" "ms_heap ms' = ms_heap ms"
    and "ms_sessions ms' = ms_sessions ms" "ms_fresh ms' = ms_fresh ms"
    and "con_fd c' = con_fd c" and "\<forall>a. con_session c' = Some a \<longrightarrow> ms_heap ms a \<noteq> None"
  shows "conn_effect c ms c' ms'"
  using assms heap_grows_refl [OF assms(3)] by (simp add: conn_effect_def table_ok_def)

lemma heap_update_grows:
  assumes "ms_heap ms a = Some s" and "ms_heap ms' = (ms_heap ms)(a \<mapsto> s\<lparr>ses_Seq := q, ses_LastSeen := t\<rparr>)"
    and "ses_Seq s \<le> q"
  shows "heap_grows ms ms'"
  unfolding heap_grows_def
proof (intro allI impI)
  fix b r
  assume r: "ms_heap ms b = Some r"
  show "\<exists>t q. ms_heap ms' b = Some (r\<lparr>ses_Seq := q, ses_LastSeen := t\<rparr>) \<and> ses_Seq r \<le> q"
  proof (cases "b = a")
    case True
    then show ?thesis using assms r by auto
  next
    case False
    then have "ms_heap ms' b = Some (r\<lparr>ses_Seq := ses_Seq r, ses_LastSeen := ses_LastSeen r\<rparr>)" using assms r by simp
    then show ?thesis by blast
  qed
qed

lemma table_ok_update:
  assumes ok: "table_ok ms" and s: "ms_heap ms a = Some s" and name: "ses_Username s' = ses_Username s"
  shows "table_ok (ms\<lparr>ms_heap := (ms_heap ms)(a \<mapsto> s')\<rparr>)"
proof -
  have "\<exists>r. ((ms_heap ms)(a \<mapsto> s')) b = Some r \<and> ses_Username r = u" if u: "ms_sessions ms u = Some b" for u b
  proof -
    obtain r where "ms_heap ms b = Some r" "ses_Username r = u" using ok u unfolding table_ok_def by blast
    then show ?thesis using s name by (cases "b = a") auto
  qed
  moreover have "insert a (dom (ms_heap ms)) = dom (ms_heap ms)" using s by blast
  ultimately show ?thesis using ok unfolding table_ok_def by simp
qed

lemma touch_session_effect:
  assumes "table_ok ms" and "\<forall>a. con_session c = Some a \<longrightarrow> ms_heap ms a \<noteq> None"
  shows "conn_effect c ms c (touch_session now c ms)"
proof (cases "con_session c")
  case None
  then show ?thesis using assms(1) by (simp add: touch_session_def conn_effect_simple)
next
  case (Some a)
  with assms(2) obtain s where s: "ms_heap ms a = Some s" by blast
  have "ms_heap (touch_session now c ms) = (ms_heap ms)(a \<mapsto> s\<lparr>ses_Seq := ses_Seq s, ses_LastSeen := now\<rparr>)"
    using Some s by (simp add: touch_session_def)
  then have "heap_grows ms (touch_session now c ms)" using heap_update_grows [OF s] by blast
  moreover have "table_ok (touch_session now c ms)"
    using table_ok_update [OF assms(1) s] Some s by (simp add: touch_session_def)
  ultimately show ?thesis using Some by (simp add: conn_effect_def touch_session_def)
qed

lemma handshake_session_effect:
  assumes "table_ok ms" and "handshake_session now u q uid subid c ms = (ok, c', ms')" and "con_session c = None"
  shows "conn_effect c ms c' ms'"
proof (cases "ms_sessions ms u")
  case (Some a)
  with assms(1) obtain s where s: "ms_heap ms a = Some s" "ses_Username s = u" unfolding table_ok_def by blast
  show ?thesis
  proof (cases "(of_nat q :: u32) \<le> ses_Seq s")
    case True
    then show ?thesis using assms Some s
      by (auto simp: handshake_session_def intro!: conn_effect_simple)
  next
    case False
    have ms': "ms' = ms\<lparr>ms_heap := (ms_heap ms)(a \<mapsto> s\<lparr>ses_Seq := of_nat q, ses_LastSeen := now\<rparr>)\<rparr>"
      and c': "con_fd c' = con_fd c" "con_session c' = Some a"
      using assms(2) Some s False by (auto simp: handshake_session_def)
    have "heap_grows ms ms'" using heap_update_grows [OF s(1)] False by (simp add: ms')
    moreover have "table_ok ms'" unfolding ms' by (rule table_ok_update [OF assms(1) s(1)]) simp
    ultimately show ?thesis using c' by (simp add: conn_effect_def ms')
  qed
next
  case None
  obtain ses where ms': "ms' = ms\<lparr>ms_heap := (ms_heap ms)(ms_fresh ms \<mapsto> ses), ms_sessions := (ms_sessions ms)(u \<mapsto> ms_fresh ms),
      ms_fresh := Suc (ms_fresh ms)\<rparr>" "ses_Username ses = u"
    and c': "con_fd c' = con_fd c" "con_session c' = Some (ms_fresh ms)"
    using assms(2) None by (auto simp: handshake_session_def Let_def)
  have new: "ms_heap ms (ms_fresh ms) = None" using assms(1) unfolding table_ok_def by blast
  have "heap_grows ms ms'"
    unfolding heap_grows_def
  proof (intro allI impI)
    fix b r
    assume "ms_heap ms b = Some r"
    then have "ms_heap ms' b = Some (r\<lparr>ses_Seq := ses_Seq r, ses_LastSeen := ses_LastSeen r\<rparr>)"
      using new ms' by auto
    then show "\<exists>t q. ms_heap ms' b = Some (r\<lparr>ses_Seq := q, ses_LastSeen := t\<rparr>) \<and> ses_Seq r \<le> q" by blast
  qed
  moreover have "table_ok ms'"
    using assms(1) new ms'(2) unfolding table_ok_def ms'(1) by (auto simp: less_Suc_eq)
  ultimately show ?thesis using c' by (simp add: conn_effect_def ms')
qed

lemma handleHandshake_effect:
  assumes ok: "table_ok ms" and c: "con_session c = None" and h: "handleHandshake ops now c ms = (r, c', ms')"
  shows "conn_effect c ms c' ms'"
proof -
  obtain l c1 where rl: "readLine c = (l, c1)" by force
  note keep = readLine_keeps [OF rl]
  have stay: "conn_effect c ms c1 ms" using ok c keep by (auto intro!: conn_effect_simple)
  have wrote: "conn_effect c ms (snd (conn_Write d c1)) (ms\<lparr>ms_handler := x\<rparr>)" for d x
    using ok c keep by (auto intro!: conn_effect_simple)
  have ses: "conn_effect c ms c' ms'"
    if "handshake_session now u q uid subid c1 (ms\<lparr>ms_handler := x\<rparr>) = (r, c', ms')" for u q uid subid x
  proof -
    have "conn_effect c1 (ms\<lparr>ms_handler := x\<rparr>) c' ms'"
      using handshake_session_effect [OF _ that] ok c keep by (simp add: table_ok_def)
    then show ?thesis using keep by (simp add: conn_effect_def heap_grows_def)
  qed
  show ?thesis
    using h rl stay wrote ses
    by (auto simp: handleHandshake_def split: option.splits list.splits sum.splits prod.splits)
qed

lemma message_turn_effect:
  assumes ok: "table_ok ms" and c: "\<forall>a. con_session c = Some a \<longrightarrow> ms_heap ms a \<noteq> None"
    and h: "message_turn ops now c ms = (r, c', ms')"
  shows "conn_effect c ms c' ms'"
proof -
  obtain l c1 where rl: "readLine c = (l, c1)" by force
  note keep = readLine_keeps [OF rl]
  have same: "conn_effect c ms d (ms\<lparr>ms_handler := x\<rparr>)" if "con_fd d = con_fd c" "con_session d = con_session c" for d x
    using ok c that by (auto intro!: conn_effect_simple)
  have stay: "conn_effect c ms c1 ms" using same [of c1 "ms_handler ms"] keep by simp
  have touched: "conn_effect c ms d (touch_session now d (ms\<lparr>ms_handler := x\<rparr>))"
    if "con_fd d = con_fd c" "con_session d = con_session c" for d x
  proof -
    have "conn_effect d (ms\<lparr>ms_handler := x\<rparr>) d (touch_session now d (ms\<lparr>ms_handler := x\<rparr>))"
      using ok c that by (intro touch_session_effect) (simp_all add: table_ok_def)
    then show ?thesis using that by (simp add: conn_effect_def heap_grows_def)
  qed
  show ?thesis
    using h rl keep stay same touched
    by (auto simp: message_turn_def Let_def split: option.splits list.splits prod.splits dest!: conn_Read_keeps)
qed

lemma conn_effect_step:
  assumes "msg_ok ms" and "ms_connections ms fd = Some c" and "conn_effect c ms c' ms'"
  shows "msg_ok (set_conn fd c' ms')" and "msg_ok (snd (connect_end ops c' ms'))"
proof -
  have fd: "con_fd c' = fd" using msg_okD(2) [OF assms(1,2)] assms(3) by (simp add: conn_effect_def)
  have t: "table_ok ms'" and conns: "ms_connections ms' = ms_connections ms" and g: "heap_grows ms ms'"
    and c': "\<forall>a. con_session c' = Some a \<longrightarrow> ms_heap ms' a \<noteq> None"
    using assms(3) by (simp_all add: conn_effect_def)
  have others: "con_fd d = k \<and> (\<forall>a. con_session d = Some a \<longrightarrow> ms_heap ms' a \<noteq> None)"
    if "ms_connections ms k = Some d" for k d
    using msg_okD(2,3) [OF assms(1) that] heap_grows_dom [OF g] by blast
  show "msg_ok (set_conn fd c' ms')"
    by (rule msg_okI) (use t conns fd c' others in \<open>auto simp: table_ok_def\<close>)
  show "msg_ok (snd (connect_end ops c' ms'))"
    by (rule msg_okI) (use t conns fd others in \<open>auto simp: table_ok_def connect_end_def Let_def\<close>)
qed

lemma heap_grows_handler: "heap_grows ms ms' \<Longrightarrow> ms_heap ms'' = ms_heap ms' \<Longrightarrow> heap_grows ms ms''"
  by (simp add: heap_grows_def)

lemma connect_end_heap [simp]: "ms_heap (snd (connect_end ops c ms)) = ms_heap ms"
  by (simp add: connect_end_def Let_def)

lemma conn_effect_grows:
  "conn_effect c ms c' ms' \<Longrightarrow> heap_grows ms (if r then set_conn fd c' ms' else snd (connect_end ops c' ms'))"
  by (auto simp: conn_effect_def intro: heap_grows_handler)

lemma msg_step_ok:
  assumes "msg_step ops ms ms'" and "msg_ok ms"
  shows "msg_ok ms' \<and> heap_grows ms ms'"
  using assms
proof (cases rule: msg_step.cases)
  case (handshake fd c now r c' ms'')
  have "conn_effect c ms c' ms''"
    using handleHandshake_effect [OF msg_okD(1) [OF assms(2)] handshake(3,4)] .
  from conn_effect_step [OF assms(2) handshake(2) this] conn_effect_grows [OF this]
  show ?thesis unfolding handshake(1) by simp
next
  case (turn fd c now r c' ms'')
  have "\<forall>a. con_session c = Some a \<longrightarrow> ms_heap ms a \<noteq> None" using msg_okD(3) [OF assms(2) turn(2)] by blast
  then have e: "conn_effect c ms c' ms''" using message_turn_effect [OF msg_okD(1) [OF assms(2)] _ turn(4)] by blast
  from conn_effect_step [OF assms(2) turn(2) e] conn_effect_grows [OF e]
  show ?thesis unfolding turn(1) by simp
next
  case (accept addr)
  then show ?thesis using assms(2)
    by (auto simp: connect_begin_def Let_def msg_ok_def intro!: heap_grows_refl split: if_splits)
next
  case (arrive fd c seg)
  then show ?thesis using assms(2) by (auto simp: msg_ok_def intro!: heap_grows_refl split: if_splits)
next
  case (send fd data)
  then show ?thesis using assms(2)
    by (auto simp: ms_Send_def conn_Write_def msg_ok_def intro!: heap_grows_refl split: option.splits if_splits)
next
  case (kick fd)
  then show ?thesis using assms(2)
    by (auto simp: ms_Kick_def conn_Close_def msg_ok_def intro!: heap_grows_refl split: option.splits if_splits)
next
  case (cleanup timeout now)
  then show ?thesis using assms(2)
    by (auto simp: CleanupSessions_def msg_ok_def intro!: heap_grows_refl split: option.splits if_splits)
qed

section \<open>What goes over the wire\<close>

definition handshake_line :: "string \<Rightarrow> nat \<Rightarrow> bytes \<Rightarrow> string" where
  "handshake_line u n sig = u @ '':'' @ decimal n @ '':'' @ Base64Encode sig"

lemma colon_printable: "printable (CHR '':'')"
  by (simp add: printable_def)

lemma colon_free: "CHR '':'' \<notin> set (decimal n)" "CHR '':'' \<notin> set (Base64Encode sig)"
proof -
  show "CHR '':'' \<notin> set (decimal n)" using decimal_digits [of "CHR '':''" n] by (auto simp: is_digit_def)
  show "CHR '':'' \<notin> set (Base64Encode sig)" using Base64Encode_chars by blast
qed

lemma handshake_line_ends:
  "u = [] \<or> printable (hd u) \<Longrightarrow> printable (hd (handshake_line u n sig)) \<and> printable (last (handshake_line u n sig))"
proof -
  assume "u = [] \<or> printable (hd u)"
  moreover have "printable (last (Base64Encode sig))" if "Base64Encode sig \<noteq> []"
    using Base64Encode_chars [OF last_in_set [OF that]] by (simp add: printable_def)
  ultimately show ?thesis by (cases u) (auto simp: handshake_line_def colon_printable last_append)
qed

lemma handshake_parsed:
  assumes c: "con_in c = text_line (handshake_line u n sig) # rest" "\<not> con_closed c"
    and line: "length (handshake_line u n sig) < 1024" "CHR '':'' \<notin> set u" "u = [] \<or> printable (hd u)" "n < 2 ^ 32"
    and auth: "h_Auth ops u sig (ms_handler ms) = (Inr (uid, subid), h)"
  shows "handleHandshake ops now c ms =
    handshake_session now u n uid subid (c\<lparr>con_in := rest\<rparr>) (ms\<lparr>ms_handler := h\<rparr>)"
proof -
  have "readLine c = (Some (handshake_line u n sig), c\<lparr>con_in := rest\<rparr>)"
    using read_whole_line [OF c line(1)] handshake_line_ends [OF line(3)] by blast
  moreover have "Split (CHR '':'') (handshake_line u n sig) = [u, decimal n, Base64Encode sig]"
    using line(2) colon_free(1) [of n] colon_free(2) [of sig] by (simp add: handshake_line_def)
  ultimately show ?thesis using line(4) auth by (simp add: handleHandshake_def Base64_roundtrip)
qed

text \<open>A handler that accepts everybody, counts the messages and sends them back.\<close>

definition echo_handler :: "nat msg_handler" where
  "echo_handler =
     \<lparr>h_Connect = (\<lambda>_ _ h. h), h_Disconnect = (\<lambda>_ h. h), h_Error = (\<lambda>_ h. h),
      h_Message = (\<lambda>_ _ b h. (Some b, Suc h)), h_Auth = (\<lambda>u s h. (Inr (u, ''1''), h))\<rparr>"

definition no_config :: MsgServerConfig where
  "no_config = \<lparr>mc_Host = [], mc_Port = 0, mc_Name = [], mc_MaxConn = 0, mc_Timeout = 0\<rparr>"

definition bob_conn :: Connection where
  "bob_conn = \<lparr>con_in = [text_line (handshake_line ''bob'' 5 [])], con_out = [], con_closed = False, con_fd = 1,
     con_session = None, con_seq = 0\<rparr>"

lemma bob_line:
  "length (handshake_line ''bob'' 5 []) < 1024" "CHR '':'' \<notin> set ''bob''" "printable (CHR ''b'')"
  by (simp_all add: handshake_line_def decimal.simps printable_def)

definition bob_server :: "nat MsgServer" where
  "bob_server =
     (case handleHandshake echo_handler 0 bob_conn (set_conn 1 bob_conn (snd (connect_begin echo_handler [] [] (NewMsgServer no_config 0)))) of
        (ok, c, ms) \<Rightarrow> set_conn 1 c ms)"

lemma bob_server_facts:
  "(msg_step echo_handler)\<^sup>*\<^sup>* (NewMsgServer no_config 0) bob_server"
  "ms_sessions bob_server ''bob'' = Some 0" "ms_heap bob_server 0 \<noteq> None"
proof -
  let ?ms0 = "NewMsgServer no_config (0 :: nat)"
  define ms1 where "ms1 = snd (connect_begin echo_handler [] [] ?ms0)"
  define ms2 where "ms2 = set_conn 1 bob_conn ms1"
  have c1: "ms_connections ms1 1 = Some (bob_conn\<lparr>con_in := []\<rparr>)"
    by (simp add: ms1_def connect_begin_def NewMsgServer_def bob_conn_def Let_def)
  have "msg_step echo_handler ?ms0 ms1"
    unfolding ms1_def by (rule msg_step.accept) (simp add: NewMsgServer_def)
  moreover have "msg_step echo_handler ms1 ms2"
    using msg_step.arrive [OF c1, of echo_handler "text_line (handshake_line ''bob'' 5 [])"]
    by (simp add: ms2_def bob_conn_def)
  moreover have hs: "handleHandshake echo_handler 0 bob_conn ms2 =
      handshake_session 0 ''bob'' 5 ''bob'' ''1'' (bob_conn\<lparr>con_in := []\<rparr>) ms2"
    using handshake_parsed [of bob_conn "''bob''" 5 "[]" "[]" echo_handler ms2] bob_line
    by (simp add: bob_conn_def echo_handler_def)
  have fresh: "ms_sessions ms2 ''bob'' = None" "ms_fresh ms2 = 0"
    by (simp_all add: ms2_def ms1_def connect_begin_def NewMsgServer_def Let_def)
  then obtain c ms3 where h: "handleHandshake echo_handler 0 bob_conn ms2 = (True, c, ms3)"
      "ms_sessions ms3 ''bob'' = Some 0" "ms_heap ms3 0 \<noteq> None"
    unfolding hs by (simp add: handshake_session_def Let_def)
  have b: "bob_server = set_conn 1 c ms3"
    using h(1) by (simp add: bob_server_def ms2_def ms1_def)
  have "msg_step echo_handler ms2 bob_server"
    using msg_step.handshake [OF _ _ h(1), of 1] by (simp add: b ms2_def bob_conn_def)
  ultimately show "(msg_step echo_handler)\<^sup>*\<^sup>* ?ms0 bob_server" by auto
  show "ms_sessions bob_server ''bob'' = Some 0" "ms_heap bob_server 0 \<noteq> None" unfolding b using h(2,3) by simp_all
qed

section \<open>Properties\<close>

text \<open>
  Property C27. Under every interleaving of connections, data, cleanups and calls, the session
  table stays sound: a session is filed under its own name, connections only refer to
  sessions that exist, and from any reachable state on a session keeps its identity while its
  sequence number never falls.
\<close>

theorem msg_sessions_sound:
  assumes "(msg_step ops)\<^sup>*\<^sup>* (NewMsgServer cfg h) ms" and "(msg_step ops)\<^sup>*\<^sup>* ms ms'"
  shows "(\<forall>u a. ms_sessions ms u = Some a \<longrightarrow> (\<exists>s. ms_heap ms a = Some s \<and> ses_Username s = u)) \<and>
         (\<forall>fd c a. ms_connections ms fd = Some c \<longrightarrow> con_session c = Some a \<longrightarrow> ms_heap ms a \<noteq> None) \<and>
         (\<forall>a s. ms_heap ms a = Some s \<longrightarrow>
            (\<exists>t q. ms_heap ms' a = Some (s\<lparr>ses_Seq := q, ses_LastSeen := t\<rparr>) \<and> ses_Seq s \<le> q))"
proof -
  have "msg_ok (NewMsgServer cfg h)" by (simp add: msg_ok_def NewMsgServer_def)
  with assms(1) have ok: "msg_ok ms" by (induction) (auto dest: msg_step_ok)
  from assms(2) have "msg_ok ms' \<and> heap_grows ms ms'"
  proof induction
    case base
    then show ?case using ok by (simp add: heap_grows_refl)
  next
    case (step y z)
    then show ?case using msg_step_ok heap_grows_trans by blast
  qed
  with ok show ?thesis unfolding heap_grows_def msg_ok_def by blast
qed

theorem msg_sessions_sound_witness:
  "\<exists>s. ms_heap bob_server 0 = Some s \<and> ses_Username s = ''bob''"
  using msg_sessions_sound [OF bob_server_facts(1) rtranclp.rtrancl_refl] bob_server_facts(2) by blast

text \<open>
  A handshake line is read as what it was written from, and an authorised one is
  accepted exactly when its user has no session or its number exceeds the one recorded. A
  session records the number of every handshake but its first: that one can be replayed once.
\<close>

theorem handshake_sequence:
  assumes line: "length (handshake_line u n sig) < 1024" "CHR '':'' \<notin> set u" "u = [] \<or> printable (hd u)" "n < 2 ^ 32"
    and auth: "\<forall>h. h_Auth ops u sig h = (Inr (uid, subid), h)"
    and conn: "\<forall>c \<in> {c1, c2, c3}. con_in c = [text_line (handshake_line u n sig)] \<and> \<not> con_closed c"
  shows "(fst (handleHandshake ops now c1 ms) \<longleftrightarrow>
            (case ms_sessions ms u of None \<Rightarrow> True | Some a \<Rightarrow> ses_Seq (the (ms_heap ms a)) < of_nat n)) \<and>
         (ms_sessions ms u = None \<longrightarrow> n > 0 \<longrightarrow>
            (\<exists>c1' ms1 c2' ms2 c3' ms3.
               handleHandshake ops now c1 ms = (True, c1', ms1) \<and>
               handleHandshake ops now c2 ms1 = (True, c2', ms2) \<and>
               handleHandshake ops now c3 ms2 = (False, c3', ms3)))"
proof -
  have p: "handleHandshake ops now c m = handshake_session now u n uid subid (c\<lparr>con_in := []\<rparr>) m"
    if "c \<in> {c1, c2, c3}" for c m
  proof -
    have "con_in c = [text_line (handshake_line u n sig)]" "\<not> con_closed c" using conn that by blast+
    from handshake_parsed [OF this line spec [OF auth]] show ?thesis by simp
  qed
  have pos: "(of_nat n :: u32) = 0 \<longleftrightarrow> n = 0"
    using line(4) by (simp add: unat_eq_zero [symmetric] unat_of_nat del: unat_eq_zero)
  show ?thesis
    by (auto simp: p pos handshake_session_def Let_def not_le split: option.splits if_splits)
qed

theorem handshake_sequence_witness:
  "\<exists>c1' ms1 c2' ms2 c3' ms3.
     handleHandshake echo_handler 0 bob_conn (NewMsgServer no_config 0) = (True, c1', ms1) \<and>
     handleHandshake echo_handler 0 bob_conn ms1 = (True, c2', ms2) \<and>
     handleHandshake echo_handler 0 bob_conn ms2 = (False, c3', ms3)"
  using handshake_sequence [of "''bob''" 5 "[]" echo_handler "''bob''" "''1''" bob_conn bob_conn bob_conn 0
      "NewMsgServer no_config 0"]
  by (simp add: bob_line echo_handler_def bob_conn_def NewMsgServer_def)

text \<open>
  What the loop computes on well delimited input: the handler sees the bodies in order, and
  the answers go out in the same order.
\<close>

fun serve :: "'h msg_handler \<Rightarrow> int \<Rightarrow> (nat \<times> bytes) list \<Rightarrow> 'h \<Rightarrow> bytes \<times> 'h" where
  "serve ops fd [] h = ([], h)"
| "serve ops fd ((i, body) # reqs) h =
     (case h_Message ops fd (of_nat i) body h of
        (response, h1) \<Rightarrow>
          (case serve ops fd reqs h1 of
             (out, h2) \<Rightarrow>
               ((case response of None \<Rightarrow> [] | Some r \<Rightarrow> text_line (decimal i @ '':'' @ decimal (length r)) @ r) @ out,
                h2)))"

definition request_segments :: "(nat \<times> bytes) list \<Rightarrow> bytes list" where
  "request_segments reqs =
     concat (map (\<lambda>(i, body). [text_line (decimal i @ '':'' @ decimal (length body)), body]) reqs)"

definition request_ok :: "nat \<times> bytes \<Rightarrow> bool" where
  "request_ok r \<longleftrightarrow> fst r < 2 ^ 32 \<and> snd r \<noteq> [] \<and> length (snd r) < 2 ^ 32"

lemma length_decimal: "n < 10 ^ Suc k \<Longrightarrow> length (decimal n) \<le> Suc k"
proof (induction k arbitrary: n)
  case 0
  then show ?case by (subst decimal.simps) simp
next
  case (Suc k)
  then have "length (decimal (n div 10)) \<le> Suc k" by (simp add: div_less_iff_less_mult)
  then show ?case by (subst decimal.simps) simp
qed

lemma header_read:
  assumes "con_in c = text_line (decimal i @ '':'' @ decimal n) # rest" and "\<not> con_closed c"
    and "i < 2 ^ 32" "n < 2 ^ 32"
  shows "readLine c = (Some (decimal i @ '':'' @ decimal n), c\<lparr>con_in := rest\<rparr>)"
proof (rule read_whole_line [OF assms(1,2)])
  have "length (decimal i) \<le> 10" "length (decimal n) \<le> 10"
    using length_decimal [of i 9] length_decimal [of n 9] assms(3,4) by simp_all
  then show "length (decimal i @ '':'' @ decimal n) < 1024" by simp
  have "printable (hd (decimal i))" "printable (last (decimal n))"
    using decimal_digits digit_printable decimal_nonempty hd_in_set last_in_set by blast+
  then show "decimal i @ '':'' @ decimal n = [] \<or>
      printable (hd (decimal i @ '':'' @ decimal n)) \<and> printable (last (decimal i @ '':'' @ decimal n))"
    by (simp add: hd_append last_append)
qed

text \<open>One turn on a header and the segment that follows it, whole or not.\<close>

lemma message_turn_body:
  assumes c: "con_in c = text_line (decimal i @ '':'' @ decimal n) # seg # rest" "\<not> con_closed c"
    and n: "i < 2 ^ 32" "n < 2 ^ 32" "0 < length seg" "length seg \<le> n"
    and h: "h_Message ops (con_fd c) (of_nat i) (seg @ replicate (n - length seg) 0) (ms_handler ms) = (response, h')"
  shows "message_turn ops now c ms =
    (let c' = c\<lparr>con_in := rest, con_out := con_out c @
                 (case response of None \<Rightarrow> [] | Some r \<Rightarrow> text_line (decimal i @ '':'' @ decimal (length r)) @ r)\<rparr>
     in (True, c', touch_session now c' (ms\<lparr>ms_handler := h'\<rparr>)))"
proof -
  let ?c1 = "c\<lparr>con_in := seg # rest\<rparr>"
  note line = header_read [OF c n(1,2)]
  have body: "conn_Read n ?c1 = (Some seg, c\<lparr>con_in := rest\<rparr>)"
    using c(2) n(3,4) by (cases n) (simp_all add: conn_Read_def)
  show ?thesis
    using c(2) n h
    by (simp add: message_turn_def line colon_free body conn_Write_def Let_def split: option.splits)
qed

lemma touch_session_simps [simp]:
  "ms_handler (touch_session now c ms) = ms_handler ms"
  by (simp add: touch_session_def split: option.splits)

lemma messageLoop_serves:
  assumes "con_in c = request_segments reqs" and "\<not> con_closed c" and "\<forall>r \<in> set reqs. request_ok r"
  shows "\<exists>c' ms'. messageLoop ops clock c ms = (c', ms') \<and> con_in c' = [] \<and>
     con_out c' = con_out c @ fst (serve ops (con_fd c) reqs (ms_handler ms)) \<and>
     ms_handler ms' = h_Error ops (con_fd c) (snd (serve ops (con_fd c) reqs (ms_handler ms)))"
  using assms
proof (induction reqs arbitrary: c clock ms)
  case Nil
  then have "message_turn ops (clock 0) c ms = (False, c, ms\<lparr>ms_handler := h_Error ops (con_fd c) (ms_handler ms)\<rparr>)"
    by (simp add: message_turn_def readLine_def conn_Read_def request_segments_def)
  then show ?case using Nil by (subst messageLoop.simps) (simp add: request_segments_def)
next
  case (Cons req reqs)
  obtain i body where req: "req = (i, body)" by force
  have ok: "i < 2 ^ 32" "body \<noteq> []" "length body < 2 ^ 32" using Cons.prems(3) req by (auto simp: request_ok_def)
  obtain response h' where h: "h_Message ops (con_fd c) (of_nat i) body (ms_handler ms) = (response, h')" by force
  define c' where "c' = c\<lparr>con_in := request_segments reqs, con_out := con_out c @
      (case response of None \<Rightarrow> [] | Some r \<Rightarrow> text_line (decimal i @ '':'' @ decimal (length r)) @ r)\<rparr>"
  have "message_turn ops (clock 0) c ms = (True, c', touch_session (clock 0) c' (ms\<lparr>ms_handler := h'\<rparr>))"
    using message_turn_body [of c i "length body" body "request_segments reqs" ops ms response h' "clock 0"] Cons.prems ok h
    by (simp add: req request_segments_def c'_def Let_def)
  then have loop: "messageLoop ops clock c ms =
      messageLoop ops (\<lambda>k. clock (Suc k)) c' (touch_session (clock 0) c' (ms\<lparr>ms_handler := h'\<rparr>))"
    by (subst messageLoop.simps) simp
  obtain out h2 where s: "serve ops (con_fd c) reqs h' = (out, h2)" by force
  from Cons.IH [of c' "\<lambda>k. clock (Suc k)" "touch_session (clock 0) c' (ms\<lparr>ms_handler := h'\<rparr>)"] Cons.prems
  show ?case unfolding loop by (auto simp: c'_def req h s)
qed

text \<open>
  Property C28. A client whose headers and bodies arrive in segments of their own is served in
  order: the loop ends at the end of the input, the handler has seen exactly the bodies sent,
  and what was written is exactly its answers. A body that arrives in two segments is not put
  together: the handler gets the first one filled up with zeros.
\<close>

theorem messages_served_in_order:
  assumes up: "\<not> con_closed c"
  shows "((\<forall>r \<in> set reqs. request_ok r) \<longrightarrow> con_in c = request_segments reqs \<longrightarrow>
            (\<exists>c' ms'. messageLoop ops clock c ms = (c', ms') \<and> con_in c' = [] \<and>
               con_out c' = con_out c @ fst (serve ops (con_fd c) reqs (ms_handler ms)) \<and>
               ms_handler ms' = h_Error ops (con_fd c) (snd (serve ops (con_fd c) reqs (ms_handler ms))))) \<and>
         (request_ok (i, body) \<longrightarrow> body = part @ missing \<longrightarrow> part \<noteq> [] \<longrightarrow>
            con_in c = text_line (decimal i @ '':'' @ decimal (length body)) # part # rest \<longrightarrow>
            (\<exists>c' ms'. message_turn ops now c ms = (True, c', ms') \<and>
               ms_handler ms' = snd (h_Message ops (con_fd c) (of_nat i) (part @ replicate (length missing) 0) (ms_handler ms))))"
proof (intro conjI impI)
  assume "\<forall>r \<in> set reqs. request_ok r" "con_in c = request_segments reqs"
  then show "\<exists>c' ms'. messageLoop ops clock c ms = (c', ms') \<and> con_in c' = [] \<and>
      con_out c' = con_out c @ fst (serve ops (con_fd c) reqs (ms_handler ms)) \<and>
      ms_handler ms' = h_Error ops (con_fd c) (snd (serve ops (con_fd c) reqs (ms_handler ms)))"
    using messageLoop_serves [OF _ up] by blast
next
  assume r: "request_ok (i, body)" "body = part @ missing" "part \<noteq> []"
    and c: "con_in c = text_line (decimal i @ '':'' @ decimal (length body)) # part # rest"
  obtain response h' where h: "h_Message ops (con_fd c) (of_nat i) (part @ replicate (length missing) 0) (ms_handler ms) = (response, h')"
    by force
  from r have "i < 2 ^ 32" "length body < 2 ^ 32" "0 < length part" "length part \<le> length body"
    by (simp_all add: request_ok_def)
  from message_turn_body [OF c up this, of ops ms response h' now] h r(2)
  show "\<exists>c' ms'. message_turn ops now c ms = (True, c', ms') \<and>
      ms_handler ms' = snd (h_Message ops (con_fd c) (of_nat i) (part @ replicate (length missing) 0) (ms_handler ms))"
    by (simp add: Let_def)
qed

theorem messages_served_in_order_witness:
  "\<exists>c' ms'. messageLoop echo_handler (\<lambda>_. 0) (bob_conn\<lparr>con_in := request_segments [(7, [1, 2])]\<rparr>) (NewMsgServer no_config 0) = (c', ms') \<and>
     con_out c' = text_line (decimal 7 @ '':'' @ decimal 2) @ [1, 2]"
proof -
  let ?c = "bob_conn\<lparr>con_in := request_segments [(7, [1, 2])]\<rparr>"
  have up: "\<not> con_closed ?c" and fit: "\<forall>r \<in> set [(7, [1, 2])]. request_ok r" by (simp_all add: bob_conn_def request_ok_def)
  have "serve echo_handler (con_fd ?c) [(7, [1, 2])] (0 :: nat) = (text_line (decimal 7 @ '':'' @ decimal 2) @ [1, 2], 1)"
    by (simp add: echo_handler_def numeral_2_eq_2)
  then show ?thesis
    using conjunct1 [OF messages_served_in_order [OF up], of "[(7, [1, 2])]" echo_handler "\<lambda>_. 0" "NewMsgServer no_config 0"] fit
    by (auto simp: NewMsgServer_def bob_conn_def)
qed

end
