(* ===== verification/Login_Example.thy ===== *)
theory Login_Example
  imports Loginserver Msgserver
begin

text \<open>
  \<^verbatim>\<open>examples/login\<close>: the handlers of the example login and message servers, the servers as
  \<^verbatim>\<open>main\<close> builds them, and the example client. The clock and the client's random key are
  arguments. The client reads lines with a \<^verbatim>\<open>bufio.Reader\<close>, whose buffer is part of its state;
  the servers read each line with one \<^verbatim>\<open>Read\<close>.
\<close>

section \<open>The handler of the login server\<close>

type_synonym game_servers = "string \<rightharpoonup> string"

definition AuthHandler :: "string \<Rightarrow> game_servers \<Rightarrow> (string + string \<times> string) \<times> game_servers" where
  "AuthHandler token h =
     ((case Split CHR ''@'' token of
         [userPart, serverPassPart] \<Rightarrow>
           (case Split CHR '':'' serverPassPart of
              [serverPart, passwordPart] \<Rightarrow>
                (case Base64Decode userPart of
                   None \<Rightarrow> Inl ''invalid user encoding''
                 | Some userBytes \<Rightarrow>
                (case Base64Decode serverPart of
                   None \<Rightarrow> Inl ''invalid server encoding''
                 | Some serverBytes \<Rightarrow>
                (case Base64Decode passwordPart of
                   None \<Rightarrow> Inl ''invalid password encoding''
                 | Some passwordBytes \<Rightarrow>
                     let server = string_of_bytes serverBytes
                     in if string_of_bytes passwordBytes \<noteq> ''password'' then Inl ''invalid password''
                        else if h server = None then Inl (''unknown server: '' @ server)
                        else Inr (server, string_of_bytes userBytes))))
            | _ \<Rightarrow> Inl ''invalid token format'')
       | _ \<Rightarrow> Inl ''invalid token format''), h)"

definition LoginHandler :: "Time \<Rightarrow> string \<Rightarrow> string \<Rightarrow> bytes \<Rightarrow> game_servers \<Rightarrow> (string + string) \<times> game_servers" where
  "LoginHandler now server uid secret h = (Inr (int_text (time_Unix now)), h)"

definition login_ops :: "Time \<Rightarrow> game_servers login_handler" where
  "login_ops now = \<lparr>h_AuthHandler = AuthHandler, h_LoginHandler = LoginHandler now\<rparr>"

text \<open>Arguments of a command are strings or other values; the type assertions panic on those.\<close>

datatype arg = A_string string | A_other

definition CommandHandler ::
  "bool \<Rightarrow> string \<Rightarrow> arg list \<Rightarrow> game_servers LoginServer \<Rightarrow> (string, string) outcome \<times> game_servers LoginServer" where
  "CommandHandler wired command args ls =
     (if command = ''register_gate'' then
        (case args of
           A_string server # A_string address # _ \<Rightarrow> (Ok ''OK'', ls\<lparr>ls_handler := (ls_handler ls)(server \<mapsto> address)\<rparr>)
         | _ # _ # _ \<Rightarrow> (Panic, ls)
         | _ \<Rightarrow> (Err ''register_gate requires server and address'', ls))
      else if command = ''logout'' then
        (case args of
           A_string uid # A_string subid # _ \<Rightarrow> (Ok ''OK'', if wired then Logout uid subid ls else ls)
         | _ # _ # _ \<Rightarrow> (Panic, ls)
         | _ \<Rightarrow> (Err ''logout requires uid and subid'', ls))
      else (Err (''unknown command: '' @ command), ls))"

section \<open>The handler of the message server\<close>

definition Auth :: "string \<Rightarrow> bytes \<Rightarrow> unit \<Rightarrow> (string + string \<times> string) \<times> unit" where
  "Auth username signature h =
     ((case Split CHR '':'' username of
         [uid, subid, seqStr] \<Rightarrow>
           if ParseUint32 seqStr = None then Inl ''invalid sequence number''
           else if signature = [] then Inl ''missing signature''
           else Inr (uid, subid)
       | _ \<Rightarrow> Inl ''invalid username format''), h)"

definition example_Message :: "int \<Rightarrow> u32 \<Rightarrow> bytes \<Rightarrow> unit \<Rightarrow> bytes option \<times> unit" where
  "example_Message fd session msg h = (Some (bytes_of_string (''Echo: '' @ string_of_bytes msg)), h)"

definition msg_ops :: "unit msg_handler" where
  "msg_ops = \<lparr>h_Connect = (\<lambda>fd addr h. h), h_Disconnect = (\<lambda>fd h. h), h_Error = (\<lambda>fd h. h),
              h_Message = example_Message, h_Auth = Auth\<rparr>"

section \<open>The servers\<close>

definition example_login_server :: "game_servers LoginServer" where
  "example_login_server =
     snd (CommandHandler True ''register_gate'' [A_string ''sample'', A_string ''127.0.0.1:8888'']
       (NewLoginServer \<lparr>lc_Host = ''127.0.0.1'', lc_Port = 8001, lc_Name = ''login_master'', lc_MultiLogin = False\<rparr> Map.empty))"

definition example_msg_server :: "bool \<Rightarrow> bool \<times> unit MsgServer" where
  "example_msg_server listening =
     ms_Start listening (NewMsgServer \<lparr>mc_Host = ''127.0.0.1'', mc_Port = 8888, mc_Name = ''sample'', mc_MaxConn = 64, mc_Timeout = 300\<rparr> ())"

section \<open>The client\<close>

text \<open>\<^verbatim>\<open>bufio.Reader.ReadString('\n')\<close>, with the bytes read ahead; \<open>None\<close> at the end of the input.\<close>

definition newline :: u8 where "newline = 10"

function ReadString :: "bytes \<Rightarrow> net_conn \<Rightarrow> string option \<times> bytes \<times> net_conn" where
  "ReadString buf c =
     (if newline \<in> set buf
      then (Some (string_of_bytes (takeWhile (\<lambda>b. b \<noteq> newline) buf @ [newline])), tl (dropWhile (\<lambda>b. b \<noteq> newline) buf), c)
      else case conn_Read 4096 c of
             (None, c') \<Rightarrow> (None, [], c')
           | (Some b, c') \<Rightarrow> ReadString (buf @ b) c')"
  by pat_completeness auto
termination by (relation "measure (\<lambda>(buf, c). pending c)") (auto dest: conn_Read_pending(2) [OF sym])

declare ReadString.simps [simp del]

datatype client_error =
    ReadFailed string | InvalidText string | SendFailed string | LoginRefused string | HandshakeRefused string | BadResponse

text \<open>\<open>prims\<close> and \<open>encrypt\<close> are the digest and the cipher of Go's \<^verbatim>\<open>crypto\<close> packages.\<close>

definition client_token :: string where
  "client_token =
     Base64Encode (bytes_of_string ''testuser'') @ ''@'' @ Base64Encode (bytes_of_string ''sample'') @ '':'' @
     Base64Encode (bytes_of_string ''password'')"

definition login_reply :: "string \<Rightarrow> (client_error, string) outcome" where
  "login_reply response =
     (if \<not> HasPrefix response ''200'' then Err (LoginRefused response)
      else case Split CHR '' '' response of
             _ # part # _ \<Rightarrow> (case Base64Decode part of None \<Rightarrow> Err (InvalidText ''subid'') | Some subid \<Rightarrow> Ok (string_of_bytes subid))
           | _ \<Rightarrow> Err BadResponse)"

definition performLogin ::
  "login_prims \<Rightarrow> (bytes \<Rightarrow> bytes \<Rightarrow> bytes) \<Rightarrow> bytes \<Rightarrow> net_conn \<Rightarrow> (client_error, string) outcome \<times> net_conn" where
  "performLogin prims encrypt clientPrivate c =
     (case ReadString [] c of
        (None, _, c1) \<Rightarrow> (Err (ReadFailed ''challenge''), c1)
      | (Some challengeStr, buf1, c1) \<Rightarrow>
     (case Base64Decode (TrimSpace challengeStr) of
        None \<Rightarrow> (Err (InvalidText ''challenge''), c1)
      | Some challenge \<Rightarrow>
     (case DHExchange clientPrivate of
        Inl panic \<Rightarrow> (Panic, c1)
      | Inr clientPublic \<Rightarrow>
     (case conn_Write (text_line (Base64Encode clientPublic)) c1 of
        (False, c2) \<Rightarrow> (Err (SendFailed ''client key''), c2)
      | (True, c2) \<Rightarrow>
     (case ReadString buf1 c2 of
        (None, _, c3) \<Rightarrow> (Err (ReadFailed ''server key''), c3)
      | (Some serverKeyStr, buf3, c3) \<Rightarrow>
     (case Base64Decode (TrimSpace serverKeyStr) of
        None \<Rightarrow> (Err (InvalidText ''server key''), c3)
      | Some serverPublic \<Rightarrow>
     (case DHSecret clientPrivate serverPublic of
        Inl panic \<Rightarrow> (Panic, c3)
      | Inr secret \<Rightarrow>
     (case conn_Write (text_line (Base64Encode (HMAC64 (lp_hmac prims) challenge secret))) c3 of
        (False, c4) \<Rightarrow> (Err (SendFailed ''HMAC''), c4)
      | (True, c4) \<Rightarrow>
     (case DesEncode encrypt secret (bytes_of_string client_token) of
        Inl panic \<Rightarrow> (Panic, c4)
      | Inr encryptedToken \<Rightarrow>
     (case conn_Write (text_line (Base64Encode encryptedToken)) c4 of
        (False, c5) \<Rightarrow> (Err (SendFailed ''token''), c5)
      | (True, c5) \<Rightarrow>
     (case ReadString buf3 c5 of
        (None, _, c6) \<Rightarrow> (Err (ReadFailed ''response''), c6)
      | (Some response, _, c6) \<Rightarrow> (login_reply (TrimSpace response), c6))))))))))))"

definition handshake_text :: string where
  "handshake_text = ''testuser:12345:1'' @ '':'' @ ''1'' @ '':'' @ Base64Encode (bytes_of_string ''dummy_signature'')"

definition performGameHandshake :: "net_conn \<Rightarrow> (client_error, unit) outcome \<times> net_conn" where
  "performGameHandshake c =
     (case conn_Write (text_line handshake_text) c of
        (False, c1) \<Rightarrow> (Err (SendFailed ''handshake''), c1)
      | (True, c1) \<Rightarrow>
          (case ReadString [] c1 of
             (None, _, c2) \<Rightarrow> (Err (ReadFailed ''handshake response''), c2)
           | (Some response, _, c2) \<Rightarrow>
               if HasPrefix (TrimSpace response) ''200'' then (Ok (), c2)
               else (Err (HandshakeRefused (TrimSpace response)), c2)))"

text \<open>
  One message of \<^verbatim>\<open>sendTestMessages\<close>: the response printed, if any, with the reader and the
  connection after it. The header comes through the reader, the data straight from the
  connection; a negative length is a panic.
\<close>

definition test_message :: "nat \<Rightarrow> string" where
  "test_message i = ''Hello from client, message '' @ decimal i"

definition response_data :: "bytes \<Rightarrow> nat \<Rightarrow> bytes" where
  "response_data b n = b @ replicate (n - length b) 0"

definition test_turn :: "nat \<Rightarrow> bytes \<Rightarrow> net_conn \<Rightarrow> (string, bytes option) outcome \<times> bytes \<times> net_conn" where
  "test_turn i buf c =
     (let message = test_message i
      in case conn_Write (text_line (decimal i @ '':'' @ decimal (length message))) c of
           (False, c1) \<Rightarrow> (Ok None, buf, c1)
         | (True, c1) \<Rightarrow>
         (case conn_Write (bytes_of_string message) c1 of
           (False, c2) \<Rightarrow> (Ok None, buf, c2)
         | (True, c2) \<Rightarrow>
         (case ReadString buf c2 of
           (None, buf', c3) \<Rightarrow> (Ok None, buf', c3)
         | (Some header, buf', c3) \<Rightarrow>
             (case Split CHR '':'' (TrimSpace header) of
                [_, lengthStr] \<Rightarrow>
                  (case Atoi lengthStr of
                     None \<Rightarrow> (Ok None, buf', c3)
                   | Some len \<Rightarrow>
                       if len < 0 then (Panic, buf', c3)
                       else (case conn_Read (nat len) c3 of
                               (None, c4) \<Rightarrow> (Ok None, buf', c4)
                             | (Some b, c4) \<Rightarrow> (Ok (Some (response_data b (nat len))), buf', c4)))
              | _ \<Rightarrow> (Ok None, buf', c3)))))"

fun test_turns :: "nat list \<Rightarrow> bytes \<Rightarrow> net_conn \<Rightarrow> (nat \<times> bytes) list option \<times> net_conn" where
  "test_turns [] buf c = (Some [], c)"
| "test_turns (i # is) buf c =
     (case test_turn i buf c of
        (Panic, _, c') \<Rightarrow> (None, c')
      | (Err e, buf', c') \<Rightarrow> test_turns is buf' c'
      | (Ok r, buf', c') \<Rightarrow>
          (case test_turns is buf' c' of
             (None, c'') \<Rightarrow> (None, c'')
           | (Some rs, c'') \<Rightarrow> (Some ((case r of None \<Rightarrow> [] | Some d \<Rightarrow> [(i, d)]) @ rs), c'')))"

definition sendTestMessages :: "net_conn \<Rightarrow> (nat \<times> bytes) list option \<times> net_conn" where
  "sendTestMessages c = test_turns [1, 2, 3] [] c"

section \<open>Reading lines\<close>

abbreviation flowing :: "net_conn \<Rightarrow> bool" where
  "flowing c \<equiv> \<not> con_closed c \<and> [] \<notin> set (con_in c)"

lemma newline_text: "newline \<in> set (bytes_of_string s) \<longleftrightarrow> CHR 0x0A \<in> set s"
proof -
  have "(of_nat (of_char c) :: u8) = newline \<longleftrightarrow> c = CHR 0x0A" for c
  proof
    assume "(of_nat (of_char c) :: u8) = newline"
    then have "unat (of_nat (of_char c) :: u8) = 10" by (simp add: newline_def)
    then have "(of_char c :: nat) = of_char CHR 0x0A" by (simp add: unat_of_char_u8)
    then show "c = CHR 0x0A" by (simp only: of_char_eq_iff)
  qed (simp add: newline_def)
  then show ?thesis by (simp add: bytes_of_string_def image_iff) metis
qed

text \<open>However the input is cut into segments, the reader delivers the next line and keeps the rest.\<close>

lemma ReadString_line:
  assumes "flowing c" "buf @ concat (con_in c) = text_line s @ rest" "CHR 0x0A \<notin> set s"
  shows "\<exists>buf' c'. ReadString buf c = (Some (s @ [CHR 0x0A]), buf', c') \<and> buf' @ concat (con_in c') = rest \<and>
    flowing c' \<and> con_out c' = con_out c"
  using assms
proof (induction buf c rule: ReadString.induct)
  case (1 buf c)
  have nl: "newline \<notin> set (bytes_of_string s)" and line: "text_line s = bytes_of_string s @ [newline]"
    using "1.prems"(3) by (simp_all add: newline_text) (simp add: bytes_of_string_def newline_def)
  let ?P = "\<lambda>b. b \<noteq> newline"
  show ?case
  proof (cases "newline \<in> set buf")
    case True
    have "takeWhile ?P buf = takeWhile ?P (buf @ concat (con_in c))" using True by (simp add: takeWhile_append1)
    also have "\<dots> = bytes_of_string s" unfolding "1.prems"(2) line using nl by (subst append_assoc, subst takeWhile_append2) auto
    finally have t: "takeWhile ?P buf = bytes_of_string s" .
    have "dropWhile ?P buf @ concat (con_in c) = dropWhile ?P (buf @ concat (con_in c))"
      using True by (simp add: dropWhile_append1)
    also have "\<dots> = newline # rest" unfolding "1.prems"(2) line using nl by (subst append_assoc, subst dropWhile_append2) auto
    finally have "tl (dropWhile ?P buf) @ concat (con_in c) = rest"
      using True by (cases "dropWhile ?P buf") (auto simp: dropWhile_eq_Nil_conv)
    moreover have "string_of_bytes (takeWhile ?P buf @ [newline]) = s @ [CHR 0x0A]"
      using string_of_bytes_of_string [of "s @ [CHR 0x0A]"] t line by simp
    ultimately show ?thesis using True "1.prems"(1) by (subst ReadString.simps) simp
  next
    case False
    have "newline \<in> set (buf @ concat (con_in c))" unfolding "1.prems"(2) line by simp
    with False obtain seg segs where segs: "con_in c = seg # segs" by (cases "con_in c") auto
    define c' where "c' = c\<lparr>con_in := (if length seg \<le> 4096 then segs else drop 4096 seg # segs)\<rparr>"
    have rd: "conn_Read 4096 c = (Some (take 4096 seg), c')"
      using "1.prems"(1) segs by (auto simp: conn_Read_def c'_def)
    have "flowing c'" using "1.prems"(1) segs by (auto simp: c'_def)
    moreover have "(buf @ take 4096 seg) @ concat (con_in c') = text_line s @ rest"
    proof -
      have "take 4096 seg @ concat (con_in c') = seg @ concat segs"
        by (simp add: c'_def)
      then show ?thesis using "1.prems"(2) segs by simp
    qed
    ultimately have "\<exists>buf' c''. ReadString (buf @ take 4096 seg) c' = (Some (s @ [CHR 0x0A]), buf', c'') \<and>
        buf' @ concat (con_in c'') = rest \<and> flowing c'' \<and> con_out c'' = con_out c'"
      using "1.IH" [OF False rd [symmetric] refl] "1.prems"(3) by simp
    moreover have "ReadString buf c = ReadString (buf @ take 4096 seg) c'"
      using False rd by (subst ReadString.simps) simp
    ultimately show ?thesis by (simp add: c'_def)
  qed
qed

lemma ReadString_segment:
  assumes "\<not> con_closed c" "con_in c = (text_line s @ rest) # segs" "length (text_line s @ rest) \<le> 4096" "CHR 0x0A \<notin> set s"
  shows "ReadString [] c = (Some (s @ [CHR 0x0A]), rest, c\<lparr>con_in := segs\<rparr>)"
proof -
  have line: "text_line s = bytes_of_string s @ [newline]" and nl: "newline \<notin> set (bytes_of_string s)"
    using assms(4) by (simp_all add: newline_text) (simp add: bytes_of_string_def newline_def)
  have rd: "conn_Read 4096 c = (Some (text_line s @ rest), c\<lparr>con_in := segs\<rparr>)"
    using assms(1-3) by (simp add: conn_Read_def line)
  have "takeWhile (\<lambda>b. b \<noteq> newline) (bytes_of_string s @ newline # rest) = bytes_of_string s"
    "dropWhile (\<lambda>b. b \<noteq> newline) (bytes_of_string s @ newline # rest) = newline # rest"
    using nl by (subst takeWhile_append2 dropWhile_append2; auto)+
  moreover have "string_of_bytes (bytes_of_string s @ [newline]) = s @ [CHR 0x0A]"
    using string_of_bytes_of_string [of "s @ [CHR 0x0A]"] line by simp
  ultimately have "ReadString (text_line s @ rest) (c\<lparr>con_in := segs\<rparr>) = (Some (s @ [CHR 0x0A]), rest, c\<lparr>con_in := segs\<rparr>)"
    unfolding line by (subst ReadString.simps) simp
  then show ?thesis using rd by (subst ReadString.simps) simp
qed

lemma Base64_line: "CHR 0x0A \<notin> set (Base64Encode d)" "TrimSpace (Base64Encode d @ [CHR 0x0A]) = Base64Encode d"
proof -
  show "CHR 0x0A \<notin> set (Base64Encode d)" using Base64Encode_chars [of "CHR 0x0A" d] by auto
  show "TrimSpace (Base64Encode d @ [CHR 0x0A]) = Base64Encode d" by (rule TrimSpace_line(1) [OF Base64_line_ends])
qed

text \<open>What the client does on a connection whose input is the server's side of the protocol.\<close>

lemma client_run:
  assumes c: "flowing c" "concat (con_in c) = text_line (Base64Encode challenge) @ text_line (Base64Encode pb) @ text_line reply"
    and reply: "CHR 0x0A \<notin> set reply" "reply = [] \<or> printable (hd reply) \<and> printable (last reply)"
    and keys: "DHExchange a = Inr pa" "DHSecret a pb = Inr s" "DESEncode encrypt s (bytes_of_string client_token) = Inr box"
  shows "\<exists>c'. performLogin prims encrypt a c = (login_reply reply, c') \<and>
     con_out c' = con_out c @ concat (client_lines prims challenge pa s box)"
proof -
  obtain b1 c1 where r1: "ReadString [] c = (Some (Base64Encode challenge @ [CHR 0x0A]), b1, c1)"
    "b1 @ concat (con_in c1) = text_line (Base64Encode pb) @ text_line reply" "flowing c1" "con_out c1 = con_out c"
    using ReadString_line [OF c(1), of "[]" "Base64Encode challenge" "text_line (Base64Encode pb) @ text_line reply"]
      c(2) Base64_line(1) by auto
  define c2 where "c2 = c1\<lparr>con_out := con_out c1 @ text_line (Base64Encode pa)\<rparr>"
  have w1: "conn_Write (text_line (Base64Encode pa)) c1 = (True, c2)" using r1(3) by (simp add: conn_Write_def c2_def)
  obtain b3 c3 where r2: "ReadString b1 c2 = (Some (Base64Encode pb @ [CHR 0x0A]), b3, c3)"
    "b3 @ concat (con_in c3) = text_line reply" "flowing c3" "con_out c3 = con_out c2"
    using ReadString_line [of c2 b1 "Base64Encode pb" "text_line reply"] r1(2,3) Base64_line(1) by (auto simp: c2_def)
  let ?hm = "text_line (Base64Encode (HMAC64 (lp_hmac prims) challenge s))"
  define c5 where "c5 = c3\<lparr>con_out := con_out c3 @ ?hm @ text_line (Base64Encode box)\<rparr>"
  have w2: "conn_Write ?hm c3 = (True, c3\<lparr>con_out := con_out c3 @ ?hm\<rparr>)"
    "conn_Write (text_line (Base64Encode box)) (c3\<lparr>con_out := con_out c3 @ ?hm\<rparr>) = (True, c5)"
    using r2(3) by (simp_all add: conn_Write_def c5_def)
  obtain b6 c6 where r3: "ReadString b3 c5 = (Some (reply @ [CHR 0x0A]), b6, c6)" "con_out c6 = con_out c5"
    using ReadString_line [of c5 b3 reply "[]"] r2(2,3) reply(1) by (auto simp: c5_def)
  have "performLogin prims encrypt a c = (login_reply reply, c6)"
    unfolding performLogin_def r1(1) prod.case option.case Base64_line(2) Base64_roundtrip keys(1,2) sum.case w1 bool.case r2(1) w2
      DesEncode_def keys(3) r3(1) TrimSpace_line(1) [OF reply(2)] by (rule refl)
  then show ?thesis using r1(4) r2(4) r3(2) by (simp add: c2_def c5_def client_lines_def)
qed

section \<open>The token\<close>

lemma at_free: "CHR ''@'' \<notin> set (Base64Encode d)"
  using Base64Encode_chars by blast

lemma client_token_facts:
  "length client_token = 34" "h ''sample'' \<noteq> None \<Longrightarrow> AuthHandler client_token h = (Inr (''sample'', ''testuser''), h)"
proof -
  show "length client_token = 34"
    by (simp add: client_token_def length_Base64Encode bytes_of_string_def)
  assume "h ''sample'' \<noteq> None"
  then show "AuthHandler client_token h = (Inr (''sample'', ''testuser''), h)"
    by (simp add: client_token_def AuthHandler_def at_free colon_free Base64_roundtrip Let_def del: Base64Encode.simps)
qed

lemma reply_texts:
  "CHR 0x0A \<notin> set (''200 '' @ Base64Encode d)" "printable (hd (''200 '' @ Base64Encode d))"
  "d \<noteq> [] \<Longrightarrow> printable (last (''200 '' @ Base64Encode d))" "login_reply (''200 '' @ Base64Encode d) = Ok (string_of_bytes d)"
  "CHR 0x0A \<notin> set ''404 Unknown server''" "printable (hd ''404 Unknown server'')" "printable (last ''404 Unknown server'')"
  "login_reply ''404 Unknown server'' = Err (LoginRefused ''404 Unknown server'')"
proof -
  have "CHR '' '' \<notin> set (Base64Encode d)" using Base64Encode_chars [of "CHR '' ''" d] by auto
  then show "login_reply (''200 '' @ Base64Encode d) = Ok (string_of_bytes d)"
    by (simp add: login_reply_def HasPrefix_def Base64_roundtrip)
  show "printable (last (''200 '' @ Base64Encode d))" if "d \<noteq> []"
  proof -
    have "0 < length d" using that by simp
    then have "0 < (length d + 2) div 3" by linarith
    then have "0 < length (Base64Encode d)" unfolding length_Base64Encode by simp
    then have "Base64Encode d \<noteq> []" by simp
    then show ?thesis using Base64Encode_chars [OF last_in_set] by (simp add: printable_def)
  qed
qed (use Base64_line(1) in \<open>simp_all add: printable_def login_reply_def HasPrefix_def\<close>)

text \<open>What the server sends last, and what it keeps, for the token of the client.\<close>

lemma server_run:
  assumes cipher: "block_cipher encrypt (lp_decrypt prims)"
    and keys: "DHExchange a = Inr pa" "DHExchange b = Inr pb" "DHSecret a pb = Inr s"
      "DESEncode encrypt s (bytes_of_string client_token) = Inr box"
    and c: "con_in c = client_lines prims challenge pa s box" "\<not> con_closed c" "con_out c = []"
    and ls: "users_ok ls" "ls_handler ls ''sample'' \<noteq> None"
  shows "\<exists>c' ls' reply. login_handleConnection (login_ops now) prims challenge b now c ls = (c', ls') \<and>
     con_out c' = text_line (Base64Encode challenge) @ text_line (Base64Encode pb) @ text_line reply \<and>
     (case ls_actors ls ''sample'' of
        None \<Rightarrow> reply = ''404 Unknown server'' \<and> ls' = ls
      | Some gs \<Rightarrow> reply = ''200 '' @ Base64Encode (bytes_of_string (int_text (time_Unix now))) \<and>
          ls_users ls' ''testuser'' = Some \<lparr>ui_UID = ''testuser'', ui_Server = ''sample'', ui_Address = gs,
            ui_SubID = int_text (time_Unix now), ui_LoginAt = now\<rparr>)"
proof -
  have short: "length client_token \<le> 700"
    "\<not> (client_token \<noteq> [] \<and> length client_token mod 8 = 0 \<and> (of_char (last client_token) :: nat) \<in> {1..8})"
    using client_token_facts(1) by simp_all
  have auth: "h_AuthHandler (login_ops now) client_token (ls_handler ls) = (Inr (''sample'', ''testuser''), ls_handler ls)"
    using client_token_facts(2) [of "ls_handler ls"] ls(2) by (simp add: login_ops_def)
  show ?thesis
  proof (cases "ls_actors ls ''sample''")
    case None
    then show ?thesis
      using c(2,3) unfolding login_reaches_user [OF cipher keys(1-4) short c(1,2) auth]
      by (simp add: login_user_def Let_def conn_Close_def conn_Write_def)
  next
    case (Some gs)
    from login_succeeds [OF cipher keys(1-4) short c(1,2) ls(1) auth Some, of "int_text (time_Unix now)" "ls_handler ls" now] Some c(3)
    show ?thesis by (fastforce simp: login_ops_def LoginHandler_def)
  qed
qed

section \<open>Properties\<close>

text \<open>
  The example client and the example login server, each fed with what the other
  writes, however the network cuts the server's lines: the client sends exactly the lines the
  server read. When the game server \<^verbatim>\<open>sample\<close> was registered at the login server itself, the
  client ends with the sub id that the server recorded for its user; when it is known to the
  handler only, as in the example's \<^verbatim>\<open>main\<close>, every login ends with \<^verbatim>\<open>404 Unknown server\<close>.
\<close>

theorem example_login:
  assumes cipher: "block_cipher encrypt (lp_decrypt prims)"
    and keys: "DHExchange a = Inr pa" "DHExchange b = Inr pb" "DHSecret a pb = Inr s"
      "DESEncode encrypt s (bytes_of_string client_token) = Inr box"
    and server: "con_in sc = client_lines prims challenge pa s box" "\<not> con_closed sc" "con_out sc = []"
    and ls: "users_ok ls" "ls_handler ls ''sample'' \<noteq> None"
    and client: "flowing cc" "con_out cc = []"
      "concat (con_in cc) = con_out (fst (login_handleConnection (login_ops now) prims challenge b now sc ls))"
  shows "con_out (snd (performLogin prims encrypt a cc)) = concat (con_in sc) \<and>
     (case ls_actors ls ''sample'' of
        None \<Rightarrow> fst (performLogin prims encrypt a cc) = Err (LoginRefused ''404 Unknown server'') \<and>
          snd (login_handleConnection (login_ops now) prims challenge b now sc ls) = ls
      | Some gs \<Rightarrow> \<exists>subid. fst (performLogin prims encrypt a cc) = Ok subid \<and>
          ls_users (snd (login_handleConnection (login_ops now) prims challenge b now sc ls)) ''testuser'' =
            Some \<lparr>ui_UID = ''testuser'', ui_Server = ''sample'', ui_Address = gs, ui_SubID = subid, ui_LoginAt = now\<rparr>) \<and>
     ls_actors example_login_server = Map.empty"
proof -
  obtain c' ls' reply where run: "login_handleConnection (login_ops now) prims challenge b now sc ls = (c', ls')"
    "con_out c' = text_line (Base64Encode challenge) @ text_line (Base64Encode pb) @ text_line reply"
    and res: "case ls_actors ls ''sample'' of
        None \<Rightarrow> reply = ''404 Unknown server'' \<and> ls' = ls
      | Some gs \<Rightarrow> reply = ''200 '' @ Base64Encode (bytes_of_string (int_text (time_Unix now))) \<and>
          ls_users ls' ''testuser'' = Some \<lparr>ui_UID = ''testuser'', ui_Server = ''sample'', ui_Address = gs,
            ui_SubID = int_text (time_Unix now), ui_LoginAt = now\<rparr>"
    using server_run [OF cipher keys server ls] by metis
  have "bytes_of_string (int_text (time_Unix now)) \<noteq> []" by (simp add: bytes_of_string_def int_text_def)
  then have reply: "CHR 0x0A \<notin> set reply" "reply = [] \<or> printable (hd reply) \<and> printable (last reply)"
    using res reply_texts by (auto split: option.splits)
  obtain cc' where "performLogin prims encrypt a cc = (login_reply reply, cc')" "con_out cc' = concat (con_in sc)"
    using client_run [OF client(1) _ reply keys(1,3,4), of challenge prims] client run server(1) by auto
  moreover have "ls_actors example_login_server = Map.empty"
    by (simp add: example_login_server_def CommandHandler_def NewLoginServer_def)
  ultimately show ?thesis
    using res reply_texts(4) [of "bytes_of_string (int_text (time_Unix now))"] reply_texts(8) run(1) by (auto split: option.splits)
qed

text \<open>
  Nobody gets through the handshake of the example message server: the server cuts
  the line at its colons, so the name it hands to \<^verbatim>\<open>Auth\<close> has none, and \<^verbatim>\<open>Auth\<close> wants three fields
  in it. The example client's own line has five fields; it is dropped without an answer.
\<close>

theorem example_handshake_fails:
  "fst (handleHandshake msg_ops now c ms) = False \<and>
   (con_in c = [text_line handshake_text] \<longrightarrow> \<not> con_closed c \<longrightarrow>
      con_out (fst (snd (handleHandshake msg_ops now c ms))) = con_out c)"
proof
  have "Split CHR '':'' u = [u]" if "u # ps = Split CHR '':'' line" for u ps line
    using Split_parts [of u "CHR '':''" line] that by (metis Split_plain list.set_intros(1))
  then show "fst (handleHandshake msg_ops now c ms) = False"
    by (auto simp: handleHandshake_def msg_ops_def Auth_def split: prod.splits option.splits list.splits) (metis list.distinct(1) list.inject)+
  show "con_in c = [text_line handshake_text] \<longrightarrow> \<not> con_closed c \<longrightarrow>
      con_out (fst (snd (handleHandshake msg_ops now c ms))) = con_out c"
  proof (intro impI)
    assume c: "con_in c = [text_line handshake_text]" "\<not> con_closed c"
    have "readLine c = (Some handshake_text, c\<lparr>con_in := []\<rparr>)"
    proof (rule read_whole_line [OF c])
      have "Base64Encode (bytes_of_string ''dummy_signature'') \<noteq> []" by (simp add: bytes_of_string_def)
      with Base64Encode_chars [OF last_in_set [OF this]]
      show "handshake_text = [] \<or> printable (hd handshake_text) \<and> printable (last handshake_text)"
        by (simp add: handshake_text_def printable_def del: Base64Encode.simps)
    qed (simp add: handshake_text_def length_Base64Encode bytes_of_string_def)
    then show "con_out (fst (snd (handleHandshake msg_ops now c ms))) = con_out c"
      by (simp add: handleHandshake_def handshake_text_def colon_free)
  qed
qed

text \<open>Keys and a cipher that turns blocks around.\<close>

lemma example_setup:
  obtains pa pb s box where "block_cipher (\<lambda>k b. rev b) (lp_decrypt plain_prims)"
    and "DHExchange [0, 0, 0, 0, 0, 0, 0, 5] = Inr pa" and "DHExchange [0, 0, 0, 0, 0, 0, 0, 3] = Inr pb"
    and "DHSecret [0, 0, 0, 0, 0, 0, 0, 5] pb = Inr s" and "DESEncode (\<lambda>k b. rev b) s (bytes_of_string client_token) = Inr box"
proof -
  let ?a = "[0, 0, 0, 0, 0, 0, 0, 5] :: bytes" and ?b = "[0, 0, 0, 0, 0, 0, 0, 3] :: bytes"
  obtain pa pb s where k: "DHExchange ?a = Inr pa" "DHExchange ?b = Inr pb" "DHSecret ?a pb = Inr s" "length s = 8"
    using dh_shared [of ?a ?b] by auto
  have cipher: "block_cipher (\<lambda>k b. rev b) (lp_decrypt plain_prims)" by (simp add: block_cipher_def plain_prims_def)
  obtain box where "DESEncode (\<lambda>k b. rev b) s (bytes_of_string client_token) = Inr box"
    using DES_inverse [OF cipher k(4)] by blast
  with cipher k show thesis by (rule_tac that) assumption+
qed

theorem example_login_witness:
  "\<exists>cc. fst (performLogin plain_prims (\<lambda>k b. rev b) [0, 0, 0, 0, 0, 0, 0, 5] cc) = Err (LoginRefused ''404 Unknown server'')"
proof -
  obtain pa pb s box where k: "block_cipher (\<lambda>k b. rev b) (lp_decrypt plain_prims)"
    "DHExchange [0, 0, 0, 0, 0, 0, 0, 5] = Inr pa" "DHExchange [0, 0, 0, 0, 0, 0, 0, 3] = Inr pb"
    "DHSecret [0, 0, 0, 0, 0, 0, 0, 5] pb = Inr s" "DESEncode (\<lambda>k b. rev b) s (bytes_of_string client_token) = Inr box"
    by (rule example_setup)
  let ?sc = "\<lparr>con_in = client_lines plain_prims [1, 2, 3, 4, 5, 6, 7, 8] pa s box, con_out = [], con_closed = False\<rparr>"
  let ?srv = "login_handleConnection (login_ops 5) plain_prims [1, 2, 3, 4, 5, 6, 7, 8] [0, 0, 0, 0, 0, 0, 0, 3] 5 ?sc example_login_server"
  have ls: "users_ok example_login_server" "ls_handler example_login_server ''sample'' \<noteq> None" "ls_actors example_login_server = Map.empty"
    by (simp_all add: users_ok_def example_login_server_def CommandHandler_def NewLoginServer_def)
  have "con_out (fst ?srv) \<noteq> []"
    using server_run [OF k _ _ _ ls(1,2), where c = ?sc and challenge = "[1, 2, 3, 4, 5, 6, 7, 8]" and now = 5]
    by (auto simp: bytes_of_string_def)
  then have "flowing \<lparr>con_in = [con_out (fst ?srv)], con_out = [], con_closed = False\<rparr>" by simp
  from example_login [OF k _ _ _ ls(1,2) this, where sc = ?sc and challenge = "[1, 2, 3, 4, 5, 6, 7, 8]" and now = 5] ls(3)
  show ?thesis by auto
qed

theorem example_handshake_fails_witness:
  "con_out (fst (snd (handleHandshake msg_ops 0
     \<lparr>con_in = [text_line handshake_text], con_out = [], con_closed = False, con_fd = 1, con_session = None, con_seq = 0\<rparr>
     (snd (example_msg_server True))))) = []"
  using example_handshake_fails [of 0 "\<lparr>con_in = [text_line handshake_text], con_out = [], con_closed = False, con_fd = 1,
    con_session = None, con_seq = 0\<rparr>" "snd (example_msg_server True)"] by simp

text \<open>
  The client's test messages lose responses: a response whose header and data come
  in segments of their own is printed; when both come in one segment, the reader has taken the
  data in with the header, nothing is printed, and the data are still with the reader when the
  next header is looked for.
\<close>

theorem test_response_delivery:
  assumes "\<not> con_closed c" "n = length data" "0 < n" "n < 4000" "i < 2 ^ 32"
  shows "(con_in c = text_line (decimal i @ '':'' @ decimal n) # data # segs \<longrightarrow>
            (\<exists>c'. test_turn i [] c = (Ok (Some data), [], c') \<and> con_in c' = segs)) \<and>
         (con_in c = [text_line (decimal i @ '':'' @ decimal n) @ data] \<longrightarrow>
            (\<exists>c'. test_turn i [] c = (Ok None, data, c')))"
proof -
  let ?h = "decimal i @ '':'' @ decimal n"
  have digits: "CHR 0x0A \<notin> set (decimal m)" for m using decimal_digits [of "CHR 0x0A" m] by (auto simp: is_digit_def)
  have h: "CHR 0x0A \<notin> set ?h" using digits by simp
  have "length (decimal i) \<le> 10" "length (decimal n) \<le> 10"
    using length_decimal [of i 9] length_decimal [of n 9] assms(4,5) by simp_all
  then have short: "length (text_line ?h) \<le> 96" by (simp add: bytes_of_string_def)
  have ends: "printable (hd ?h)" "printable (last ?h)"
    using decimal_digits digit_printable decimal_nonempty hd_in_set last_in_set by (metis hd_append2, metis append_is_Nil_conv last_append)
  have parts: "Split CHR '':'' (TrimSpace (?h @ [CHR 0x0A])) = [decimal i, decimal n]"
    using TrimSpace_line(1) [of ?h] ends colon_free(1) by simp
  let ?line = "text_line (decimal i @ '':'' @ decimal (length (test_message i)))"
  define c2 where "c2 = c\<lparr>con_out := con_out c @ ?line @ bytes_of_string (test_message i)\<rparr>"
  have w: "conn_Write ?line c = (True, c\<lparr>con_out := con_out c @ ?line\<rparr>)"
    "conn_Write (bytes_of_string (test_message i)) (c\<lparr>con_out := con_out c @ ?line\<rparr>) = (True, c2)"
    using assms(1) by (simp_all add: conn_Write_def c2_def)
  have turn: "test_turn i [] c =
      (case conn_Read n c3 of (None, c4) \<Rightarrow> (Ok None, buf', c4) | (Some b, c4) \<Rightarrow> (Ok (Some (response_data b n)), buf', c4))"
    if "ReadString [] c2 = (Some (?h @ [CHR 0x0A]), buf', c3)" for buf' c3
    unfolding test_turn_def Let_def w prod.case bool.case that option.case parts list.case using assms(4) by (simp split: prod.split option.split)
  show ?thesis
  proof (intro conjI impI)
    assume "con_in c = text_line ?h # data # segs"
    then have "ReadString [] c2 = (Some (?h @ [CHR 0x0A]), [], c2\<lparr>con_in := data # segs\<rparr>)"
      using ReadString_segment [of c2 ?h "[]" "data # segs"] assms(1) short h by (simp add: c2_def)
    from turn [OF this] show "\<exists>c'. test_turn i [] c = (Ok (Some data), [], c') \<and> con_in c' = segs"
      using assms(1-3) by (auto simp: conn_Read_def c2_def response_data_def)
  next
    assume "con_in c = [text_line ?h @ data]"
    then have "ReadString [] c2 = (Some (?h @ [CHR 0x0A]), data, c2\<lparr>con_in := []\<rparr>)"
      using ReadString_segment [of c2 ?h data "[]"] assms(1,2,4) short h by (simp add: c2_def)
    from turn [OF this] show "\<exists>c'. test_turn i [] c = (Ok None, data, c')"
      using assms(1,3) by (simp add: conn_Read_def c2_def)
  qed
qed

theorem test_response_delivery_witness:
  "\<exists>c'. test_turn 1 [] \<lparr>con_in = [text_line (decimal 1 @ '':'' @ decimal 1) @ [7]], con_out = [], con_closed = False\<rparr> = (Ok None, [7], c')"
  using test_response_delivery [of "\<lparr>con_in = [text_line (decimal 1 @ '':'' @ decimal 1) @ [7]], con_out = [], con_closed = False\<rparr>" 1 "[7]" 1 "[]"]
  by simp

end
