(* ===== verification/Gate.thy ===== *)
theory Gate
  imports Actor_System Lifecycle Json
begin

text \<open>
  \<^verbatim>\<open>examples/gate/gate.go\<close>: the service that holds client connections. A \<^verbatim>\<open>Connection\<close> is shared
  by the table and by the goroutine that reads it, so connections live in a heap; goroutines
  between two steps are counted. The gate's own actor system holds the gate's actor, whose
  handler state is kept here, beside it. \<open>jerr\<close> is the text of a JSON error.
\<close>

section \<open>Data\<close>

record gate_conn =
  gc_FD :: int
  gc_IP :: string
  gc_Client :: int
  gc_Agent :: ActorID
  gc_Mode :: string
  gc_closed :: bool

record Gate =
  gt_watchdog :: ActorID
  gt_listening :: bool
  gt_connections :: "int \<rightharpoonup> nat"
  gt_nextFD :: int
  gt_system :: "unit system option"
  gt_running :: bool
  gt_heap :: "nat \<rightharpoonup> gate_conn"
  gt_loops :: nat
  gt_accepted :: "string list"
  gt_readers :: "nat set"

definition NewGate :: Gate where
  "NewGate = \<lparr>gt_watchdog = 0, gt_listening = False, gt_connections = Map.empty, gt_nextFD = 1, gt_system = None,
     gt_running = False, gt_heap = Map.empty, gt_loops = 0, gt_accepted = [], gt_readers = {}\<rparr>"

section \<open>Messages to the watchdog and to agents\<close>

text \<open>\<^verbatim>\<open>json.Marshal\<close> of a map writes its keys in order.\<close>

definition event_json :: "string \<Rightarrow> int \<Rightarrow> string \<Rightarrow> json" where
  "event_json eventType fd data =
     JObj ((if eventType = ''open'' then [(''address'', JStr data)] else []) @
           [(''fd'', JInt fd)] @
           (if eventType = ''error'' \<or> eventType = ''data'' then [(''message'', JStr data)] else []) @
           [(''type'', JStr eventType)])"

definition gate_Send :: "bool \<Rightarrow> ActorID \<Rightarrow> bytes \<Rightarrow> Time \<Rightarrow> Gate \<Rightarrow> (SystemError, unit) outcome option \<times> Gate" where
  "gate_Send pick to data now g =
     (case gt_system g of
        None \<Rightarrow> (None, g)
      | Some sys \<Rightarrow> (case sys_Send pick to to MessageTypeText data now sys of (r, sys') \<Rightarrow> (Some r, g\<lparr>gt_system := Some sys'\<rparr>)))"

definition notifyWatchdog :: "bool \<Rightarrow> Time \<Rightarrow> string \<Rightarrow> int \<Rightarrow> string \<Rightarrow> Gate \<Rightarrow> Gate" where
  "notifyWatchdog pick now eventType fd data g =
     (if gt_watchdog g = 0 then g
      else snd (gate_Send pick (gt_watchdog g) (Marshal (event_json eventType fd data)) now g))"

definition forwardToAgent :: "bool \<Rightarrow> Time \<Rightarrow> gate_conn \<Rightarrow> bytes \<Rightarrow> Gate \<Rightarrow> (SystemError, unit) outcome option \<times> Gate" where
  "forwardToAgent pick now conn data g = gate_Send pick (gc_Agent conn) data now g"

section \<open>Connections\<close>

text \<open>
  One turn of \<^verbatim>\<open>acceptLoop\<close>: \<open>accepted\<close> is the address of the client that connected, \<open>None\<close> an
  error. The connection is handled by a goroutine of its own, which has still to run.
\<close>

definition acceptLoop_turn :: "string option \<Rightarrow> Gate \<Rightarrow> Gate" where
  "acceptLoop_turn accepted g =
     (if gt_running g
      then (case accepted of None \<Rightarrow> g | Some addr \<Rightarrow> g\<lparr>gt_accepted := gt_accepted g @ [addr]\<rparr>)
      else g\<lparr>gt_loops := gt_loops g - 1\<rparr>)"

definition handleNewConnection :: "bool \<Rightarrow> Time \<Rightarrow> nat \<Rightarrow> string \<Rightarrow> Gate \<Rightarrow> Gate" where
  "handleNewConnection pick now a addr g =
     (let fd = gt_nextFD g;
          conn = \<lparr>gc_FD = fd, gc_IP = addr, gc_Client = 0, gc_Agent = 0, gc_Mode = [], gc_closed = False\<rparr>;
          g1 = g\<lparr>gt_nextFD := fd + 1, gt_heap := (gt_heap g)(a \<mapsto> conn), gt_connections := (gt_connections g)(fd \<mapsto> a)\<rparr>;
          g2 = notifyWatchdog pick now ''open'' fd addr g1
      in g2\<lparr>gt_readers := insert a (gt_readers g2)\<rparr>)"

definition close_conn :: "nat \<Rightarrow> Gate \<Rightarrow> Gate" where
  "close_conn a g =
     (case gt_heap g a of None \<Rightarrow> g | Some conn \<Rightarrow> g\<lparr>gt_heap := (gt_heap g)(a \<mapsto> conn\<lparr>gc_closed := True\<rparr>)\<rparr>)"

text \<open>
  One turn of \<^verbatim>\<open>readFromConnection\<close>, the deferred function included. \<open>Inl\<close> is a read error: whether
  it is the value \<^verbatim>\<open>net.ErrClosed\<close> itself, and its text.
\<close>

definition reader_end :: "bool \<Rightarrow> Time \<Rightarrow> nat \<Rightarrow> int \<Rightarrow> Gate \<Rightarrow> Gate" where
  "reader_end pick now a fd g =
     (let g1 = close_conn a g;
          g2 = g1\<lparr>gt_connections := (gt_connections g1)(fd := None)\<rparr>;
          g3 = notifyWatchdog pick now ''close'' fd [] g2
      in g3\<lparr>gt_readers := gt_readers g3 - {a}\<rparr>)"

definition readFromConnection_turn :: "bool \<Rightarrow> Time \<Rightarrow> (bool \<times> string) + bytes \<Rightarrow> nat \<Rightarrow> Gate \<Rightarrow> Gate" where
  "readFromConnection_turn pick now got a g =
     (case gt_heap g a of
        None \<Rightarrow> g
      | Some conn \<Rightarrow>
          (case got of
             Inl (is_closed, e) \<Rightarrow>
               reader_end pick now a (gc_FD conn) (if is_closed then g else notifyWatchdog pick now ''error'' (gc_FD conn) e g)
           | Inr data \<Rightarrow>
               if gc_Agent conn \<noteq> 0 then snd (forwardToAgent pick now conn data g)
               else notifyWatchdog pick now ''data'' (gc_FD conn) (string_of_bytes data) g))"

section \<open>Commands\<close>

datatype GateError =
    GateAlreadyRunning | ListenFailed string | ConnectionMissing int | CommandRefused string

definition gate_address :: "(string \<times> json) list \<Rightarrow> string \<times> int" where
  "gate_address config =
     ((case json_get config ''address'' of Some (JStr addr) \<Rightarrow> addr | _ \<Rightarrow> ''127.0.0.1''),
      (case json_get config ''port'' of Some (JNum p) \<Rightarrow> float_int p | _ \<Rightarrow> 8888))"

text \<open>\<open>listen\<close> tells for an address whether the operating system lets the gate listen.\<close>

definition gate_open :: "(string \<Rightarrow> bool) \<Rightarrow> (string \<times> json) list \<Rightarrow> Gate \<Rightarrow> (GateError, unit) outcome \<times> Gate" where
  "gate_open listen config g =
     (if gt_running g then (Err GateAlreadyRunning, g)
      else case gate_address config of
        (address, port) \<Rightarrow>
          let listenAddr = address @ '':'' @ int_text port
          in if listen listenAddr then (Ok (), g\<lparr>gt_listening := True, gt_running := True, gt_loops := Suc (gt_loops g)\<rparr>)
             else (Err (ListenFailed listenAddr), g))"

definition update_conn :: "int \<Rightarrow> (gate_conn \<Rightarrow> gate_conn) \<Rightarrow> Gate \<Rightarrow> (GateError, unit) outcome \<times> Gate" where
  "update_conn fd f g =
     (case gt_connections g fd of
        None \<Rightarrow> (Err (ConnectionMissing fd), g)
      | Some a \<Rightarrow> (Ok (), g\<lparr>gt_heap := (gt_heap g)(a := map_option f (gt_heap g a))\<rparr>))"

definition gate_forward :: "int \<Rightarrow> int \<Rightarrow> ActorID \<Rightarrow> Gate \<Rightarrow> (GateError, unit) outcome \<times> Gate" where
  "gate_forward fd client agentID = update_conn fd (\<lambda>c. c\<lparr>gc_Client := client, gc_Agent := agentID\<rparr>)"

definition gate_accept :: "int \<Rightarrow> Gate \<Rightarrow> (GateError, unit) outcome \<times> Gate" where
  "gate_accept fd = update_conn fd (\<lambda>c. c\<lparr>gc_Mode := ''accepted''\<rparr>)"

definition gate_kick :: "int \<Rightarrow> Gate \<Rightarrow> (GateError, unit) outcome \<times> Gate" where
  "gate_kick fd g =
     (case gt_connections g fd of
        None \<Rightarrow> (Err (ConnectionMissing fd), g)
      | Some a \<Rightarrow> (Ok (), close_conn a (g\<lparr>gt_connections := (gt_connections g)(fd := None)\<rparr>)))"

definition gate_close :: "int list \<Rightarrow> Gate \<Rightarrow> Gate" where
  "gate_close fds g =
     (if gt_running g
      then foldl (\<lambda>g a. close_conn a g) (g\<lparr>gt_running := False, gt_listening := False\<rparr>) (range_values (gt_connections g) fds)
      else g)"

text \<open>The type assertions on the arguments panic when an argument is not a number.\<close>

definition gate_handleCommand ::
  "(bytes \<Rightarrow> string) \<Rightarrow> (string \<Rightarrow> bool) \<Rightarrow> bytes \<Rightarrow> Gate \<Rightarrow> (GateError, unit) outcome \<times> Gate" where
  "gate_handleCommand jerr listen data g =
     (case Unmarshal_command data of
        None \<Rightarrow> (Err (CommandRefused (''failed to parse command: '' @ jerr data)), g)
      | Some (command, args) \<Rightarrow>
          if command = ''open'' then
            (case args of
               JObj config # _ \<Rightarrow> gate_open listen config g
             | _ \<Rightarrow> (Err (CommandRefused ''open command requires configuration''), g))
          else if command = ''forward'' then
            (case args of
               JNum fd # JNum client # JNum agentID # _ \<Rightarrow> gate_forward (float_int fd) (float_int client) (float_uint32 agentID) g
             | _ # _ # _ # _ \<Rightarrow> (Panic, g)
             | _ \<Rightarrow> (Err (CommandRefused ''forward command requires fd, client, agent''), g))
          else if command = ''accept'' then
            (case args of
               JNum fd # _ \<Rightarrow> gate_accept (float_int fd) g
             | _ # _ \<Rightarrow> (Panic, g)
             | [] \<Rightarrow> (Err (CommandRefused ''accept command requires fd''), g))
          else if command = ''kick'' then
            (case args of
               JNum fd # _ \<Rightarrow> gate_kick (float_int fd) g
             | _ # _ \<Rightarrow> (Panic, g)
             | [] \<Rightarrow> (Err (CommandRefused ''kick command requires fd''), g))
          else (Err (CommandRefused (''unknown command: '' @ command)), g))"

definition gate_handleClientData :: "Message \<Rightarrow> Gate \<Rightarrow> (GateError, unit) outcome \<times> Gate" where
  "gate_handleClientData msg g = (Ok (), g)"

definition gate_HandleMessage ::
  "(bytes \<Rightarrow> string) \<Rightarrow> (string \<Rightarrow> bool) \<Rightarrow> Message \<Rightarrow> Gate \<Rightarrow> (GateError, unit) outcome \<times> Gate" where
  "gate_HandleMessage jerr listen msg g =
     (if m_Type msg = MessageTypeRequest then gate_handleCommand jerr listen (m_Data msg) g
      else if m_Type msg = MessageTypeText then gate_handleClientData msg g
      else (Err (CommandRefused (''unsupported message type: '' @ decimal (unat (m_Type msg)))), g))"

section \<open>The service\<close>

record GateService =
  gs_gate :: Gate
  gs_handle :: "Handle option"

definition NewGateService :: GateService where
  "NewGateService = \<lparr>gs_gate = NewGate, gs_handle = None\<rparr>"

definition gs_Name :: "GateService \<Rightarrow> string" where
  "gs_Name s = ''gate''"

definition gs_Start :: "Time \<Rightarrow> GateService \<Rightarrow> (SystemError, unit) outcome \<times> GateService" where
  "gs_Start now s =
     (case sys_NewService ''GATE'' () DefaultActorOptions now NewActorSystem of
        (r, sys) \<Rightarrow>
          let s1 = s\<lparr>gs_gate := (gs_gate s)\<lparr>gt_system := Some sys\<rparr>\<rparr>
          in case r of Ok h \<Rightarrow> (Ok (), s1\<lparr>gs_handle := h\<rparr>) | Err e \<Rightarrow> (Err e, s1) | Panic \<Rightarrow> (Panic, s1))"

definition gs_Stop :: "int list \<Rightarrow> GateService \<Rightarrow> GateService" where
  "gs_Stop fds s = s\<lparr>gs_gate := gate_close fds (gs_gate s)\<rparr>"

definition gs_Health :: "GateService \<Rightarrow> HealthStatus" where
  "gs_Health s =
     (if gs_handle s = None
      then \<lparr>hs_State = HealthStopped, hs_Message = ''Gate not running'', hs_LastCheck = 0, hs_Data = Map.empty\<rparr>
      else \<lparr>hs_State = HealthHealthy, hs_Message = ''Gate operational'', hs_LastCheck = 0, hs_Data = Map.empty\<rparr>)"

definition gs_GetHandle :: "GateService \<Rightarrow> Handle option" where
  "gs_GetHandle s = gs_handle s"

section \<open>Interleaving\<close>

text \<open>
  A started gate and everything that can happen to it: commands, the accept loops, the
  goroutines of accepted connections and their readers, the shutdown, and its actor system at
  work on the actor it has.
\<close>

inductive gate_step :: "Gate \<Rightarrow> Gate \<Rightarrow> bool" where
  opened: "gate_open listen config g = (r, g') \<Longrightarrow> gate_step g g'"
| accept_turn: "0 < gt_loops g \<Longrightarrow> gate_step g (acceptLoop_turn accepted g)"
| new: "\<lbrakk>addr \<in> set (gt_accepted g); gt_heap g a = None\<rbrakk> \<Longrightarrow>
    gate_step g (handleNewConnection pick now a addr (g\<lparr>gt_accepted := remove1 addr (gt_accepted g)\<rparr>))"
| read: "\<lbrakk>a \<in> gt_readers g; gt_heap g a = Some c; gc_closed c \<longrightarrow> isl got\<rbrakk> \<Longrightarrow>
    gate_step g (readFromConnection_turn pick now got a g)"
| forward: "gate_forward fd client agentID g = (r, g') \<Longrightarrow> gate_step g g'"
| accept: "gate_accept fd g = (r, g') \<Longrightarrow> gate_step g g'"
| kick: "gate_kick fd g = (r, g') \<Longrightarrow> gate_step g g'"
| close: "range_order (gt_connections g) fds \<Longrightarrow> gate_step g (gate_close fds g)"
| system: "\<lbrakk>gt_system g = Some sys; dom (actor_of sys') = dom (actor_of sys)\<rbrakk> \<Longrightarrow> gate_step g (g\<lparr>gt_system := Some sys'\<rparr>)"

inductive gate_reach :: "Gate \<Rightarrow> bool" where
  start: "gs_Start now NewGateService = (Ok (), s) \<Longrightarrow> gate_reach (gs_gate s)"
| step: "gate_reach g \<Longrightarrow> gate_step g g' \<Longrightarrow> gate_reach g'"

section \<open>Invariant\<close>

definition table_inv :: "Gate \<Rightarrow> bool" where
  "table_inv g \<longleftrightarrow>
     (\<forall>fd a. gt_connections g fd = Some a \<longrightarrow> a \<in> gt_readers g \<and> (\<exists>c. gt_heap g a = Some c \<and> gc_FD c = fd)) \<and>
     (\<forall>a c. gt_heap g a = Some c \<longrightarrow> gc_FD c < gt_nextFD g) \<and>
     (\<forall>a b c d. gt_heap g a = Some c \<longrightarrow> gt_heap g b = Some d \<longrightarrow> gc_FD c = gc_FD d \<longrightarrow> a = b) \<and>
     (\<forall>a c. gt_heap g a = Some c \<longrightarrow> \<not> gc_closed c \<longrightarrow> gt_connections g (gc_FD c) = Some a) \<and>
     (\<forall>a\<in>gt_readers g. gt_heap g a \<noteq> None)"

definition alone_inv :: "Gate \<Rightarrow> bool" where
  "alone_inv g \<longleftrightarrow> gt_watchdog g = 0 \<and> (\<exists>sys. gt_system g = Some sys \<and> dom (actor_of sys) = {1})"

lemma alone_notify: "alone_inv g \<Longrightarrow> notifyWatchdog pick now e fd d g = g"
  by (simp add: alone_inv_def notifyWatchdog_def)

lemma table_inv_system [simp]:
  "table_inv (g\<lparr>gt_system := x\<rparr>) = table_inv g" "table_inv (g\<lparr>gt_accepted := y\<rparr>) = table_inv g"
  "table_inv (g\<lparr>gt_running := b\<rparr>) = table_inv g" "table_inv (g\<lparr>gt_listening := b\<rparr>) = table_inv g"
  "table_inv (g\<lparr>gt_loops := n\<rparr>) = table_inv g"
  by (simp_all add: table_inv_def)

lemma alone_inv_frame [simp]:
  "alone_inv (g\<lparr>gt_accepted := y\<rparr>) = alone_inv g" "alone_inv (g\<lparr>gt_running := b\<rparr>) = alone_inv g"
  "alone_inv (g\<lparr>gt_listening := b\<rparr>) = alone_inv g" "alone_inv (g\<lparr>gt_loops := n\<rparr>) = alone_inv g"
  "alone_inv (g\<lparr>gt_heap := h\<rparr>) = alone_inv g" "alone_inv (g\<lparr>gt_connections := cs\<rparr>) = alone_inv g"
  "alone_inv (g\<lparr>gt_readers := rs\<rparr>) = alone_inv g" "alone_inv (g\<lparr>gt_nextFD := m\<rparr>) = alone_inv g"
  by (simp_all add: alone_inv_def)

lemma close_conn_frame [simp]:
  "alone_inv (close_conn a g) = alone_inv g" "gt_connections (close_conn a g) = gt_connections g"
  "gt_readers (close_conn a g) = gt_readers g" "gt_nextFD (close_conn a g) = gt_nextFD g"
  by (simp_all add: close_conn_def split: option.split)

lemma close_conn_heap:
  "gt_heap (close_conn a g) b =
     (if b = a then map_option (\<lambda>c. c\<lparr>gc_closed := True\<rparr>) (gt_heap g a) else gt_heap g b)"
  by (simp add: close_conn_def split: option.split)

lemma table_inv_close: "table_inv g \<Longrightarrow> table_inv (close_conn a g)"
  by (fastforce simp: table_inv_def close_conn_heap split: if_splits)

lemma table_invI:
  assumes "\<And>fd a. gt_connections g fd = Some a \<Longrightarrow> a \<in> gt_readers g \<and> (\<exists>c. gt_heap g a = Some c \<and> gc_FD c = fd)"
    and "\<And>a c. gt_heap g a = Some c \<Longrightarrow> gc_FD c < gt_nextFD g"
    and "\<And>a b c d. \<lbrakk>gt_heap g a = Some c; gt_heap g b = Some d; gc_FD c = gc_FD d\<rbrakk> \<Longrightarrow> a = b"
    and "\<And>a c. \<lbrakk>gt_heap g a = Some c; \<not> gc_closed c\<rbrakk> \<Longrightarrow> gt_connections g (gc_FD c) = Some a"
    and "\<And>a. a \<in> gt_readers g \<Longrightarrow> gt_heap g a \<noteq> None"
  shows "table_inv g"
  using assms unfolding table_inv_def by blast

lemma table_invD:
  assumes "table_inv g"
  shows "gt_connections g fd = Some a \<Longrightarrow> a \<in> gt_readers g \<and> (\<exists>c. gt_heap g a = Some c \<and> gc_FD c = fd)"
    and "gt_heap g a = Some c \<Longrightarrow> gc_FD c < gt_nextFD g"
    and "\<lbrakk>gt_heap g a = Some c; gt_heap g b = Some d; gc_FD c = gc_FD d\<rbrakk> \<Longrightarrow> a = b"
    and "\<lbrakk>gt_heap g a = Some c; \<not> gc_closed c\<rbrakk> \<Longrightarrow> gt_connections g (gc_FD c) = Some a"
    and "a \<in> gt_readers g \<Longrightarrow> gt_heap g a \<noteq> None"
  using assms unfolding table_inv_def by blast+

lemma table_inv_new:
  assumes "table_inv g" "gt_heap g a = None" "gc_FD conn = gt_nextFD g" "g' = g\<lparr>gt_nextFD := gt_nextFD g + 1,
    gt_heap := (gt_heap g)(a \<mapsto> conn), gt_connections := (gt_connections g)(gt_nextFD g \<mapsto> a), gt_readers := insert a (gt_readers g)\<rparr>"
  shows "table_inv g'"
proof -
  note D = table_invD [OF assms(1)]
  have old: "gc_FD c \<noteq> gt_nextFD g" if "gt_heap g b = Some c" for b c using D(2) [OF that] by simp
  show ?thesis
  proof (rule table_invI)
    show "b \<in> gt_readers g' \<and> (\<exists>c. gt_heap g' b = Some c \<and> gc_FD c = fd)" if "gt_connections g' fd = Some b" for fd b
      using that D(1) [of fd b] assms(2,3) by (auto simp: assms(4) split: if_splits)
    show "gc_FD c < gt_nextFD g'" if "gt_heap g' b = Some c" for b c
      using that D(2) [of b c] assms(3) by (auto simp: assms(4) split: if_splits)
    show "b = b'" if "gt_heap g' b = Some c" "gt_heap g' b' = Some d" "gc_FD c = gc_FD d" for b b' c d
      using that D(3) [of b c b' d] old [of b c] old [of b' d] assms(3) by (auto simp: assms(4) split: if_splits)
    show "gt_connections g' (gc_FD c) = Some b" if "gt_heap g' b = Some c" "\<not> gc_closed c" for b c
      using that D(4) [of b c] old [of b c] assms(3) by (auto simp: assms(4) split: if_splits)
    show "gt_heap g' b \<noteq> None" if "b \<in> gt_readers g'" for b using that D(5) [of b] by (auto simp: assms(4))
  qed
qed

lemma table_inv_update:
  assumes "table_inv g" "\<And>c. gc_FD (f c) = gc_FD c" "\<And>c. gc_closed (f c) = gc_closed c"
  shows "table_inv (g\<lparr>gt_heap := (gt_heap g)(a := map_option f (gt_heap g a))\<rparr>)"
proof -
  note D = table_invD [OF assms(1)]
  show ?thesis
    by (rule table_invI) (use D assms(2,3) in \<open>auto split: if_splits\<close>, (metis (no_types, lifting))+)
qed

lemma table_inv_remove:
  assumes "table_inv g" "gt_heap g a = Some ca" "rs = gt_readers g \<or> rs = gt_readers g - {a}" and fd: "fd = gc_FD ca"
  shows "table_inv ((close_conn a (g\<lparr>gt_connections := (gt_connections g)(fd := None)\<rparr>))\<lparr>gt_readers := rs\<rparr>)"
proof -
  note D = table_invD [OF assms(1)]
  have other: "b \<noteq> a" if "gt_connections g k = Some b" "k \<noteq> fd" for b k
    using D(1) [OF that(1)] assms(2) that(2) fd by auto
  show ?thesis
  proof (rule table_invI, goal_cases)
    case (1 k b)
    then have "gt_connections g k = Some b" "k \<noteq> fd" by (auto split: if_splits)
    with D(1) [of k b] other [of k b] assms(3) show ?case by (auto simp: close_conn_heap)
  next
    case (2 b c)
    with D(2) show ?case by (auto simp: close_conn_heap split: if_splits)
  next
    case (3 b b' c d)
    with D(3) show ?case by (fastforce simp: close_conn_heap split: if_splits)
  next
    case (4 b c)
    then have b: "gt_heap g b = Some c" "b \<noteq> a" by (auto simp: close_conn_heap split: if_splits)
    then have in_table: "gt_connections g (gc_FD c) = Some b" using D(4) 4(2) by blast
    have "gc_FD c \<noteq> fd" using D(3) [OF b(1) assms(2)] b(2) fd by auto
    with in_table show ?case by simp
  next
    case (5 b)
    with D(5) [of b] assms(3) show ?case by (auto simp: close_conn_heap)
  qed
qed

lemma gate_Send_keeps:
  assumes "alone_inv g" "table_inv g"
  shows "alone_inv (snd (gate_Send pick to data now g))" "table_inv (snd (gate_Send pick to data now g))"
proof -
  have dom: "dom (actor_of (snd (sys_Send pick to to MessageTypeText data now sys))) = dom (actor_of sys)" for sys :: "unit system"
    by (auto simp: sys_Send_def Let_def router_Route_def split: option.splits prod.splits)
  have "alone_inv (snd (gate_Send pick to data now g)) \<and> table_inv (snd (gate_Send pick to data now g))"
  proof (cases "gt_system g")
    case (Some sys)
    obtain r sys' where r: "sys_Send pick to to MessageTypeText data now sys = (r, sys')" by force
    have "dom (actor_of sys') = dom (actor_of sys)" using dom [of sys] r by simp
    then show ?thesis using assms Some r by (simp add: gate_Send_def alone_inv_def)
  qed (use assms in \<open>simp add: gate_Send_def\<close>)
  then show "alone_inv (snd (gate_Send pick to data now g))" "table_inv (snd (gate_Send pick to data now g))" by simp_all
qed

lemma kick_keeps:
  assumes "alone_inv g" "table_inv g" "gate_kick fd g = (r, g')"
  shows "alone_inv g' \<and> table_inv g'"
proof (cases "gt_connections g fd")
  case None
  then show ?thesis using assms by (simp add: gate_kick_def)
next
  case (Some a)
  define h where "h = close_conn a (g\<lparr>gt_connections := (gt_connections g)(fd := None)\<rparr>)"
  obtain ca where "gt_heap g a = Some ca" "gc_FD ca = fd" using table_invD(1) [OF assms(2) Some] by blast
  then have "table_inv (h\<lparr>gt_readers := gt_readers g\<rparr>)"
    using table_inv_remove [OF assms(2), of a ca "gt_readers g" fd] by (simp add: h_def)
  moreover have "h\<lparr>gt_readers := gt_readers g\<rparr> = h" by (simp add: h_def close_conn_def split: option.split)
  moreover have "g' = h" using assms(3) Some by (simp add: gate_kick_def h_def)
  moreover have "alone_inv h" using assms(1) by (simp add: h_def)
  ultimately show ?thesis by simp
qed

lemma gate_close_keeps: "alone_inv g \<and> table_inv g \<Longrightarrow> alone_inv (gate_close fds g) \<and> table_inv (gate_close fds g)"
proof -
  have "alone_inv h \<and> table_inv h \<Longrightarrow>
      alone_inv (foldl (\<lambda>g a. close_conn a g) h xs) \<and> table_inv (foldl (\<lambda>g a. close_conn a g) h xs)" for h xs
    by (induction xs arbitrary: h) (simp_all add: table_inv_close)
  then show "alone_inv g \<and> table_inv g \<Longrightarrow> alone_inv (gate_close fds g) \<and> table_inv (gate_close fds g)"
    by (simp add: gate_close_def)
qed

lemma reader_keeps:
  assumes "alone_inv g" "table_inv g" "gt_heap g a = Some c"
  shows "alone_inv (readFromConnection_turn pick now got a g) \<and> table_inv (readFromConnection_turn pick now got a g)"
proof -
  have e: "reader_end pick now a (gc_FD c) g =
      (close_conn a (g\<lparr>gt_connections := (gt_connections g)(gc_FD c := None)\<rparr>))\<lparr>gt_readers := gt_readers g - {a}\<rparr>"
    using assms(1,3) by (simp add: reader_end_def Let_def close_conn_def alone_notify)
  show ?thesis
    using assms table_inv_remove [OF assms(2,3) _ refl, of "gt_readers g - {a}"] gate_Send_keeps [OF assms(1,2)] e
    by (auto simp: readFromConnection_turn_def alone_notify forwardToAgent_def split: sum.splits)
qed

lemma gate_step_keeps: "gate_step g g' \<Longrightarrow> alone_inv g \<and> table_inv g \<Longrightarrow> alone_inv g' \<and> table_inv g'"
proof (induction rule: gate_step.induct)
  case (new addr g a pick now)
  define g0 where "g0 = g\<lparr>gt_accepted := remove1 addr (gt_accepted g)\<rparr>"
  have ok: "alone_inv g0" "table_inv g0" "gt_heap g0 a = None" using new by (simp_all add: g0_def)
  let ?c = "\<lparr>gc_FD = gt_nextFD g0, gc_IP = addr, gc_Client = 0, gc_Agent = 0, gc_Mode = [], gc_closed = False\<rparr>"
  let ?g = "g0\<lparr>gt_nextFD := gt_nextFD g0 + 1, gt_heap := (gt_heap g0)(a \<mapsto> ?c),
     gt_connections := (gt_connections g0)(gt_nextFD g0 \<mapsto> a), gt_readers := insert a (gt_readers g0)\<rparr>"
  have "handleNewConnection pick now a addr g0 = ?g" using ok(1) by (simp add: handleNewConnection_def Let_def alone_notify)
  moreover have "table_inv ?g" by (rule table_inv_new [OF ok(2,3)]) simp_all
  ultimately show ?case using ok(1) by (simp flip: g0_def)
next
  case (kick fd g r g')
  then show ?case using kick_keeps by blast
next
  case (close g fds)
  then show ?case by (intro gate_close_keeps)
next
  case (read a g c got pick now)
  then show ?case using reader_keeps by blast
next
  case (system g sys sys')
  then show ?case by (simp add: alone_inv_def)
qed (auto simp: gate_open_def acceptLoop_turn_def gate_forward_def gate_accept_def update_conn_def Let_def table_inv_update
    split: if_splits prod.splits option.splits)

lemma gate_start:
  assumes "gs_Start now NewGateService = (Ok (), s)"
  shows "alone_inv (gs_gate s) \<and> table_inv (gs_gate s)"
proof -
  have "dom (actor_of (snd (sys_NewService ''GATE'' () DefaultActorOptions now NewActorSystem))) = {1}"
    by (simp add: NewActorSystem_def sys_NewService_def NewActorSystemWithNodeID_def sys_NextID_simps
        NewAdvancedRouter_def NewRouter_def NewActor_def service_options_def DefaultActorOptions_def
        ar_RegisterService_def router_Register_def AllocateHandle_def NewHandleManager_def Let_def
        sd_RegisterService_def NewServiceDiscovery_def NewServiceRegistry_def new_info_def registry_Register_def)
  then show ?thesis
    using assms by (auto simp: gs_Start_def NewGateService_def NewGate_def alone_inv_def table_inv_def Let_def
        split: prod.splits outcome.splits)
qed

lemma gate_reach_inv: "gate_reach g \<Longrightarrow> alone_inv g \<and> table_inv g"
proof (induction rule: gate_reach.induct)
  case (start now s)
  then show ?case by (rule gate_start)
next
  case (step g g')
  then show ?case using gate_step_keeps [OF step(2)] by simp
qed

lemma closed_by_close:
  assumes "table_inv g" "range_order (gt_connections g) fds" "gt_running g" "gt_heap (gate_close fds g) a = Some c"
  shows "gc_closed c"
proof -
  have fold: "gt_heap (foldl (\<lambda>g a. close_conn a g) h xs) b =
      (if b \<in> set xs then map_option (\<lambda>c. c\<lparr>gc_closed := True\<rparr>) (gt_heap h b) else gt_heap h b)" for h xs b
    by (induction xs arbitrary: h) (auto simp: close_conn_heap option.map_comp comp_def)
  have set: "set (range_values (gt_connections g) fds) = ran (gt_connections g)"
    using assms(2) by (rule set_range_values)
  show ?thesis
  proof (cases "a \<in> ran (gt_connections g)")
    case True
    then show ?thesis using assms(3,4) by (auto simp: gate_close_def fold set)
  next
    case False
    then have "gt_heap g a = Some c" using assms(3,4) by (simp add: gate_close_def fold set)
    then show ?thesis using table_invD(4) [OF assms(1)] False by (auto simp: ran_def)
  qed
qed

text \<open>A gate that was started, with a client on descriptor 1.\<close>

definition demo_gate :: Gate where
  "demo_gate = handleNewConnection False 5 0 ''c'' ((snd (gate_open (\<lambda>addr. True) [] (gs_gate (snd (gs_Start 5 NewGateService)))))\<lparr>gt_accepted := []\<rparr>)"

lemma demo_gate_reach: "gate_reach demo_gate" "gt_connections demo_gate 1 = Some 0" "gt_running demo_gate"
  "gt_heap demo_gate 0 = Some \<lparr>gc_FD = 1, gc_IP = ''c'', gc_Client = 0, gc_Agent = 0, gc_Mode = [], gc_closed = False\<rparr>"
  "gt_connections demo_gate = [1 \<mapsto> 0]"
proof -
  obtain s sys where s: "gs_Start 5 NewGateService = (Ok (), s)" "gs_gate s = NewGate\<lparr>gt_system := sys\<rparr>"
    by (simp add: gs_Start_def NewGateService_def NewActorSystem_def sys_NewService_def NewActorSystemWithNodeID_def sys_NextID_simps
        NewAdvancedRouter_def NewRouter_def NewActor_def service_options_def DefaultActorOptions_def
        ar_RegisterService_def router_Register_def AllocateHandle_def NewHandleManager_def Let_def
        sd_RegisterService_def NewServiceDiscovery_def NewServiceRegistry_def new_info_def registry_Register_def)
  define g1 where "g1 = snd (gate_open (\<lambda>addr. True) [] (gs_gate s))"
  have g1: "gt_running g1" "gt_loops g1 = Suc 0" "gt_accepted g1 = []" "gt_heap g1 = Map.empty" "gt_connections g1 = Map.empty"
    "gt_nextFD g1 = 1" "gt_watchdog g1 = 0"
    using s(2) by (simp_all add: g1_def gate_open_def NewGate_def gate_address_def Let_def)
  have "gate_reach g1"
    by (rule gate_reach.step [OF gate_reach.start [OF s(1)] gate_step.opened]) (simp add: g1_def prod_eq_iff)
  then have r2: "gate_reach (acceptLoop_turn (Some ''c'') g1)"
    by (rule gate_reach.step [OF _ gate_step.accept_turn]) (simp add: g1)
  define g2 where "g2 = acceptLoop_turn (Some ''c'') g1"
  have d: "demo_gate = handleNewConnection False 5 0 ''c'' (g2\<lparr>gt_accepted := remove1 ''c'' (gt_accepted g2)\<rparr>)"
    using s(1) g1 by (simp add: demo_gate_def g2_def acceptLoop_turn_def flip: g1_def)
  show "gate_reach demo_gate"
    unfolding d by (rule gate_reach.step [OF _ gate_step.new]) (use r2 g1 in \<open>simp_all add: g2_def acceptLoop_turn_def\<close>)
  show "gt_connections demo_gate 1 = Some 0" "gt_running demo_gate" "gt_connections demo_gate = [1 \<mapsto> 0]"
    "gt_heap demo_gate 0 = Some \<lparr>gc_FD = 1, gc_IP = ''c'', gc_Client = 0, gc_Agent = 0, gc_Mode = [], gc_closed = False\<rparr>"
    unfolding d using g1 by (simp_all add: g2_def acceptLoop_turn_def handleNewConnection_def notifyWatchdog_def Let_def)
qed

section \<open>Properties\<close>



text \<open>
  The gate is on its own: it lives in an actor system of its own that has no other
  actor, and it is never told the watchdog. So what a client sends before it is forwarded is
  dropped, and once it is forwarded, sending it to any agent but actor 1, the gate itself,
  fails.
\<close>

theorem gate_isolated:
  assumes "gate_reach g" "gt_heap g a = Some c"
  shows "(gc_Agent c = 0 \<longrightarrow> readFromConnection_turn pick now (Inr data) a g = g) \<and>
     (gc_Agent c \<notin> {0, 1} \<longrightarrow>
        fst (forwardToAgent pick now c data g) = Some (Err (RouteFailed (TargetActorNotFound (gc_Agent c)))))"
proof -
  obtain sys where sys: "gt_system g = Some sys" "dom (actor_of sys) = {1}" "gt_watchdog g = 0" "alone_inv g"
    using gate_reach_inv [OF assms(1)] by (auto simp: alone_inv_def)
  have "actor_of sys i = None" if "i \<noteq> 1" for i using sys(2) that by blast
  then show ?thesis
    using assms(2) sys by (auto simp: readFromConnection_turn_def alone_notify forwardToAgent_def gate_Send_def sys_Send_def
        router_Route_def Let_def)
qed

theorem gate_isolated_witness: "readFromConnection_turn False 6 (Inr [1, 2]) 0 demo_gate = demo_gate"
  using gate_isolated [OF demo_gate_reach(1,4)] by simp

end
