(* ===== verification/Watchdog.thy ===== *)
theory Watchdog
  imports Gate
begin

text \<open>
  \<^verbatim>\<open>examples/watchdog/watchdog.go\<close> and \<^verbatim>\<open>examples/agent/agent.go\<close>: the watchdog creates an agent
  for every client the gate reports, in the watchdog's own actor system. The handler states in
  that system are the agents; the watchdog's own actor has \<open>None\<close> there, its state is kept
  beside the system, because its handler works on the system.
\<close>

section \<open>Agents\<close>

record Agent =
  ag_gate :: "Handle option"
  ag_client :: int
  ag_watchdog :: "Handle option"

definition NewAgent :: Agent where
  "NewAgent = \<lparr>ag_gate = None, ag_client = 0, ag_watchdog = None\<rparr>"

text \<open>
  A value decoded from JSON is never a \<^verbatim>\<open>*core.Handle\<close> or an \<^verbatim>\<open>int\<close>, so of the type assertions of
  \<^verbatim>\<open>start\<close> only the one to \<^verbatim>\<open>float64\<close> can succeed.
\<close>

definition agent_start :: "(string \<times> json) list \<Rightarrow> Agent \<Rightarrow> Agent" where
  "agent_start config ag =
     (case json_get config ''client'' of Some (JNum client) \<Rightarrow> ag\<lparr>ag_client := float_int client\<rparr> | _ \<Rightarrow> ag)"

definition agent_disconnect :: "Agent \<Rightarrow> Agent" where
  "agent_disconnect ag = ag"

definition agent_handleCommand :: "(bytes \<Rightarrow> string) \<Rightarrow> bytes \<Rightarrow> Agent \<Rightarrow> Agent \<times> string option" where
  "agent_handleCommand jerr data ag =
     (case Unmarshal_command data of
        None \<Rightarrow> (ag, Some (''failed to parse command: '' @ jerr data))
      | Some (command, args) \<Rightarrow>
          if command = ''start'' then
            (case args of JObj config # _ \<Rightarrow> (agent_start config ag, None) | _ \<Rightarrow> (ag, Some ''start command requires configuration''))
          else if command = ''disconnect'' then (agent_disconnect ag, None)
          else (ag, Some (''unknown command: '' @ command)))"

definition agent_handleMessage :: "(bytes \<Rightarrow> string) \<Rightarrow> bytes \<Rightarrow> Agent \<Rightarrow> Agent \<times> string option" where
  "agent_handleMessage jerr data ag =
     (case Unmarshal_command data of None \<Rightarrow> (ag, None) | Some _ \<Rightarrow> agent_handleCommand jerr data ag)"

definition agent_HandleMessage :: "(bytes \<Rightarrow> string) \<Rightarrow> Agent handler_fun" where
  "agent_HandleMessage jerr ag msg =
     (if m_Type msg = MessageTypeRequest then agent_handleCommand jerr (m_Data msg) ag
      else if m_Type msg = MessageTypeText then agent_handleMessage jerr (m_Data msg) ag
      else (ag, Some (''unsupported message type: '' @ decimal (unat (m_Type msg)))))"

text \<open>The handlers of the watchdog's system, its own actor aside.\<close>

definition system_handler :: "(bytes \<Rightarrow> string) \<Rightarrow> Agent option handler_fun" where
  "system_handler jerr h msg =
     (case h of None \<Rightarrow> (None, None) | Some ag \<Rightarrow> (case agent_HandleMessage jerr ag msg of (ag', e) \<Rightarrow> (Some ag', e)))"

section \<open>Socket events\<close>

record SocketEvent =
  se_Type :: string
  se_FD :: int
  se_Address :: string
  se_Message :: string
  se_Size :: int

definition int_field :: "int \<Rightarrow> json \<Rightarrow> int option" where
  "int_field old v = (case v of JNum lit \<Rightarrow> Atoi lit | JNull \<Rightarrow> Some old | _ \<Rightarrow> None)"

fun event_member :: "SocketEvent option \<Rightarrow> string \<times> json \<Rightarrow> SocketEvent option" where
  "event_member None m = None"
| "event_member (Some e) (k, v) =
     (if fold_name k = ''type'' then map_option (\<lambda>s. e\<lparr>se_Type := s\<rparr>) (string_field (se_Type e) v)
      else if fold_name k = ''fd'' then map_option (\<lambda>i. e\<lparr>se_FD := i\<rparr>) (int_field (se_FD e) v)
      else if fold_name k = ''address'' then map_option (\<lambda>s. e\<lparr>se_Address := s\<rparr>) (string_field (se_Address e) v)
      else if fold_name k = ''message'' then map_option (\<lambda>s. e\<lparr>se_Message := s\<rparr>) (string_field (se_Message e) v)
      else if fold_name k = ''size'' then map_option (\<lambda>i. e\<lparr>se_Size := i\<rparr>) (int_field (se_Size e) v)
      else Some e)"

definition Unmarshal_event :: "bytes \<Rightarrow> SocketEvent option" where
  "Unmarshal_event = into_struct event_member \<lparr>se_Type = [], se_FD = 0, se_Address = [], se_Message = [], se_Size = 0\<rparr>"

section \<open>The watchdog\<close>

record Watchdog =
  wd_gate :: "Handle option"
  wd_agents :: "int \<rightharpoonup> ActorID"
  wd_system :: "Agent option system option"

definition NewWatchdog :: Watchdog where
  "NewWatchdog = \<lparr>wd_gate = None, wd_agents = Map.empty, wd_system = None\<rparr>"

datatype WatchdogError = AgentFailed SystemError | StartFailed SystemError | WatchdogRefused string

definition handle_json :: "Handle option \<Rightarrow> json" where
  "handle_json h =
     (case h of
        None \<Rightarrow> JNull
      | Some hdl \<Rightarrow> JObj [(''ID'', JInt (uint (h_ID hdl))), (''ActorID'', JInt (uint (h_ActorID hdl))), (''Name'', JStr (h_Name hdl)),
                       (''Node'', JInt (uint (h_Node hdl))), (''IsLocal'', JBool (h_IsLocal hdl))])"

definition start_json :: "Handle option \<Rightarrow> int \<Rightarrow> json" where
  "start_json gate fd =
     command_json ''start'' (Some [JObj [(''client'', JInt fd), (''gate'', handle_json gate), (''watchdog'', JStr ''self'')]])"

definition kick_json :: "int \<Rightarrow> json" where
  "kick_json fd = JObj [(''command'', JStr ''kick''), (''fd'', JInt fd)]"

definition disconnect_json :: json where
  "disconnect_json = command_json ''disconnect'' None"

text \<open>\<open>Panic\<close> is the panic of a call on a system that was not created.\<close>

definition handleSocketOpen ::
  "bool \<Rightarrow> Time \<Rightarrow> int \<Rightarrow> string \<Rightarrow> Watchdog \<Rightarrow> (WatchdogError, unit) outcome \<times> Watchdog" where
  "handleSocketOpen pick now fd addr w =
     (case wd_system w of
        None \<Rightarrow> (Panic, w)
      | Some sys \<Rightarrow>
          (case sys_NewActor (Some NewAgent) DefaultActorOptions now sys of
             (Panic, sys1) \<Rightarrow> (Panic, w\<lparr>wd_system := Some sys1\<rparr>)
           | (Err e, sys1) \<Rightarrow> (Err (AgentFailed e), w\<lparr>wd_system := Some sys1\<rparr>)
           | (Ok agent, sys1) \<Rightarrow>
               (case sys_Send pick agent agent MessageTypeRequest (Marshal (start_json (wd_gate w) fd)) now sys1 of
                  (r, sys2) \<Rightarrow>
                    ((case r of Ok u \<Rightarrow> Ok () | Err e \<Rightarrow> Err (StartFailed e) | Panic \<Rightarrow> Panic),
                     w\<lparr>wd_agents := (wd_agents w)(fd \<mapsto> agent), wd_system := Some sys2\<rparr>))))"

definition closeAgent :: "bool \<Rightarrow> Time \<Rightarrow> int \<Rightarrow> Watchdog \<Rightarrow> (WatchdogError, unit) outcome \<times> Watchdog" where
  "closeAgent pick now fd w =
     (case wd_agents w fd of
        None \<Rightarrow> (Ok (), w)
      | Some agent \<Rightarrow>
          let w1 = w\<lparr>wd_agents := (wd_agents w)(fd := None)\<rparr>
          in case wd_system w of
               None \<Rightarrow> (Panic, w1)
             | Some sys \<Rightarrow>
                 let (r1, sys1) = (case wd_gate w of
                        None \<Rightarrow> (Ok (), sys)
                      | Some h \<Rightarrow> sys_Send pick (h_ActorID h) (h_ActorID h) MessageTypeRequest (Marshal (kick_json fd)) now sys)
                 in if r1 = Panic then (Panic, w1\<lparr>wd_system := Some sys1\<rparr>)
                    else (case sys_Send pick agent agent MessageTypeText (Marshal disconnect_json) now sys1 of
                            (r2, sys2) \<Rightarrow> (if r2 = Panic then Panic else Ok (), w1\<lparr>wd_system := Some sys2\<rparr>)))"

definition handleSocketClose :: "bool \<Rightarrow> Time \<Rightarrow> int \<Rightarrow> Watchdog \<Rightarrow> (WatchdogError, unit) outcome \<times> Watchdog" where
  "handleSocketClose pick now fd w = closeAgent pick now fd w"

definition handleSocketError :: "bool \<Rightarrow> Time \<Rightarrow> int \<Rightarrow> string \<Rightarrow> Watchdog \<Rightarrow> (WatchdogError, unit) outcome \<times> Watchdog" where
  "handleSocketError pick now fd errorMsg w = closeAgent pick now fd w"

definition handleSocketWarning :: "int \<Rightarrow> int \<Rightarrow> Watchdog \<Rightarrow> (WatchdogError, unit) outcome \<times> Watchdog" where
  "handleSocketWarning fd sz w = (Ok (), w)"

definition handleSocketData :: "int \<Rightarrow> string \<Rightarrow> Watchdog \<Rightarrow> (WatchdogError, unit) outcome \<times> Watchdog" where
  "handleSocketData fd data w = (Ok (), w)"

definition startGate :: "(string \<times> json) list \<Rightarrow> Watchdog \<Rightarrow> (WatchdogError, unit) outcome \<times> Watchdog" where
  "startGate config w = (Ok (), w)"

definition wd_handleCommand ::
  "(bytes \<Rightarrow> string) \<Rightarrow> bool \<Rightarrow> Time \<Rightarrow> bytes \<Rightarrow> Watchdog \<Rightarrow> (WatchdogError, unit) outcome \<times> Watchdog" where
  "wd_handleCommand jerr pick now data w =
     (case Unmarshal_command data of
        None \<Rightarrow> (Err (WatchdogRefused (''failed to parse command: '' @ jerr data)), w)
      | Some (command, args) \<Rightarrow>
          if command = ''start'' then
            (case args of JObj config # _ \<Rightarrow> startGate config w | _ \<Rightarrow> (Err (WatchdogRefused ''start command requires configuration''), w))
          else if command = ''close'' then
            (case args of JNum fd # _ \<Rightarrow> closeAgent pick now (float_int fd) w | _ \<Rightarrow> (Err (WatchdogRefused ''close command requires fd''), w))
          else (Err (WatchdogRefused (''unknown command: '' @ command)), w))"

definition handleSocketEvent ::
  "(bytes \<Rightarrow> string) \<Rightarrow> bool \<Rightarrow> Time \<Rightarrow> bytes \<Rightarrow> Watchdog \<Rightarrow> (WatchdogError, unit) outcome \<times> Watchdog" where
  "handleSocketEvent jerr pick now data w =
     (case Unmarshal_event data of
        None \<Rightarrow> (Err (WatchdogRefused (''failed to parse socket event: '' @ jerr data)), w)
      | Some e \<Rightarrow>
          if se_Type e = ''open'' then handleSocketOpen pick now (se_FD e) (se_Address e) w
          else if se_Type e = ''close'' then handleSocketClose pick now (se_FD e) w
          else if se_Type e = ''error'' then handleSocketError pick now (se_FD e) (se_Message e) w
          else if se_Type e = ''warning'' then handleSocketWarning (se_FD e) (se_Size e) w
          else if se_Type e = ''data'' then handleSocketData (se_FD e) (se_Message e) w
          else (Err (WatchdogRefused (''unknown socket event type: '' @ se_Type e)), w))"

definition wd_HandleMessage ::
  "(bytes \<Rightarrow> string) \<Rightarrow> bool \<Rightarrow> Time \<Rightarrow> Message \<Rightarrow> Watchdog \<Rightarrow> (WatchdogError, unit) outcome \<times> Watchdog" where
  "wd_HandleMessage jerr pick now msg w =
     (if m_Type msg = MessageTypeRequest then wd_handleCommand jerr pick now (m_Data msg) w
      else if m_Type msg = MessageTypeText then handleSocketEvent jerr pick now (m_Data msg) w
      else (Err (WatchdogRefused (''unsupported message type: '' @ decimal (unat (m_Type msg)))), w))"

section \<open>The service\<close>

record WatchdogService =
  ws_watchdog :: Watchdog
  ws_handle :: "Handle option"

definition NewWatchdogService :: WatchdogService where
  "NewWatchdogService = \<lparr>ws_watchdog = NewWatchdog, ws_handle = None\<rparr>"

definition ws_Name :: "WatchdogService \<Rightarrow> string" where
  "ws_Name s = ''watchdog''"

definition ws_Start :: "Time \<Rightarrow> WatchdogService \<Rightarrow> (SystemError, unit) outcome \<times> WatchdogService" where
  "ws_Start now s =
     (case sys_NewService ''WATCHDOG'' None DefaultActorOptions now NewActorSystem of
        (r, sys) \<Rightarrow>
          let s1 = s\<lparr>ws_watchdog := (ws_watchdog s)\<lparr>wd_system := Some sys\<rparr>\<rparr>
          in case r of Ok h \<Rightarrow> (Ok (), s1\<lparr>ws_handle := h\<rparr>) | Err e \<Rightarrow> (Err e, s1) | Panic \<Rightarrow> (Panic, s1))"

definition ws_Stop :: "bool \<Rightarrow> Time \<Rightarrow> int list \<Rightarrow> WatchdogService \<Rightarrow> WatchdogService" where
  "ws_Stop pick now fds s =
     (if ws_handle s \<noteq> None \<and> wd_system (ws_watchdog s) \<noteq> None
      then s\<lparr>ws_watchdog := foldl (\<lambda>w fd. snd (closeAgent pick now fd w)) (ws_watchdog s) fds\<rparr> else s)"

definition ws_Health :: "WatchdogService \<Rightarrow> HealthStatus" where
  "ws_Health s =
     (if ws_handle s = None
      then \<lparr>hs_State = HealthStopped, hs_Message = ''Watchdog not running'', hs_LastCheck = 0, hs_Data = Map.empty\<rparr>
      else \<lparr>hs_State = HealthHealthy, hs_Message = ''Watchdog operational'', hs_LastCheck = 0, hs_Data = Map.empty\<rparr>)"

definition ws_GetHandle :: "WatchdogService \<Rightarrow> Handle option" where
  "ws_GetHandle s = ws_handle s"

section \<open>Sending and creating actors\<close>

text \<open>A send touches no actor but for its mailbox, and does not panic while no actor has stopped.\<close>

lemma sys_Send_keeps:
  assumes "sys_inv node n s" "sys_Send pick src to t d now s = (r, s')"
  shows "r \<noteq> Panic" "sys_inv node n s'"
    "actor_of s i = Some a \<Longrightarrow> \<exists>c. actor_of s' i = Some (a\<lparr>ac_mailbox := c\<rparr>)"
proof -
  define m where "m = \<lparr>m_ID = 0, m_Type = t, m_Source = src, m_Target = to, m_Session = 0, m_Data = d, m_Timestamp = now\<rparr>"
  obtain res rt where rt: "router_Route pick (Some m) (ar_router (sy_router s)) = (res, rt)" by force
  then have s': "r = lift_route res" "s' = s\<lparr>sy_router := (sy_router s)\<lparr>ar_router := rt\<rparr>\<rparr>"
    using assms(2) by (simp_all add: sys_Send_def flip: m_def)
  have mailbox: "\<exists>c. b' = b\<lparr>ac_mailbox := c\<rparr>" if "actor_Send pick (Some m) b = (x, b')" for b b' x
  proof (cases "x = Ok ()")
    case True
    then show ?thesis using that by (auto simp: actor_Send_def send_select_def split: if_splits send_outcome.splits)
  next
    case False
    then have "b' = b" using actor_Send_not_Ok [OF that] by simp
    then show ?thesis by (intro exI [of _ "ac_mailbox b"]) simp
  qed
  show "r \<noteq> Panic" "sys_inv node n s'" using sys_inv_route [OF assms(1) rt] s' by (cases res; simp)+
  show "\<exists>c. actor_of s' i = Some (a\<lparr>ac_mailbox := c\<rparr>)" if a: "actor_of s i = Some a"
    using router_Route_effect [OF rt]
  proof (elim disjE exE conjE)
    assume "rt = ar_router (sy_router s)"
    then show ?thesis using a s' by (intro exI [of _ "ac_mailbox a"]) simp
  next
    fix b x b'
    assume b: "rt_actors (ar_router (sy_router s)) (m_Target m) = Some b" "actor_Send pick (Some m) b = (x, b')"
      "rt = (ar_router (sy_router s))\<lparr>rt_actors := (rt_actors (ar_router (sy_router s)))(m_Target m \<mapsto> b')\<rparr>"
    show ?thesis
    proof (cases "m_Target m = i")
      case True
      then show ?thesis using a b s' mailbox [OF b(2)] by auto
    next
      case False
      then show ?thesis using a b s' by (intro exI [of _ "ac_mailbox a"]) simp
    qed
  qed
qed

lemma sys_NewActor_ok:
  assumes "sys_inv node n s" "\<not> sy_ctxDone s" "i = rt_idCounter (ar_router (sy_router s)) + 1" "actor_of s i = None"
  obtains a s' where "sys_NewActor h DefaultActorOptions now s = (Ok i, s')" "NewActor i h DefaultActorOptions now = Some a"
    "actor_of s' = (actor_of s)(i \<mapsto> a)" "sy_starting s' = sy_starting s @ [i]"
proof -
  obtain s1 where n1: "sys_NextID s = (i, s1)" using assms(3) by (simp add: sys_NextID_simps)
  note i1 = sys_inv_NextID [OF assms(1) n1]
  obtain a where a: "NewActor i h DefaultActorOptions now = Some a" by (simp add: NewActor_def DefaultActorOptions_def)
  note new = NewActor_Some [OF a]
  have none: "rt_actors (ar_router (sy_router s1)) (ac_id a) = None" using assms(4) i1 new(1) by simp
  then have "hm_actorToHandle (ar_handleManager (sy_router s1)) (ac_id a) = None"
    using i1 by (force simp: sys_inv_def ar_ok_def)
  then obtain ar where "ar_Register (Some a) (sy_router s1) = (Inr (), ar)"
    "rt_actors (ar_router ar) = (actor_of s)(i \<mapsto> a)"
    using none i1 new(1) by (auto simp: ar_Register_def router_Register_def AllocateHandle_def Let_def)
  then have "sys_NewActor h DefaultActorOptions now s = (Ok i, s1\<lparr>sy_router := ar, sy_starting := sy_starting s1 @ [i]\<rparr>)"
    "rt_actors (ar_router ar) = (actor_of s)(i \<mapsto> a)"
    using a n1 assms(2) by (simp_all add: sys_NewActor_def DefaultActorOptions_def)
  then show ?thesis using that a i1 by simp
qed

section \<open>Messages\<close>

lemma Atoi_int_text [simp]: "- (2 ^ 63) \<le> i \<Longrightarrow> i < 2 ^ 63 \<Longrightarrow> Atoi (int_text i) = Some i"
proof (cases "0 \<le> i")
  case True
  then show "i < 2 ^ 63 \<Longrightarrow> ?thesis" using Atoi_decimal [of "nat i"] by (simp add: int_text_def)
next
  case False
  assume "- (2 ^ 63) \<le> i"
  with False show ?thesis
    using decimal_digits [of _ "nat (- i)"] decimal_hd [of "nat (- i)"]
    by (auto simp: int_text_def Atoi_def list_all_iff)
qed

lemma fold_name_event [simp]: "fold_name ''type'' = ''type''" "fold_name ''fd'' = ''fd''" "fold_name ''address'' = ''address''"
  "fold_name ''message'' = ''message''" "fold_name ''size'' = ''size''"
  by (simp_all add: ToLower_def)

text \<open>The watchdog reads the event the gate wrote.\<close>

lemma Unmarshal_event_json:
  assumes "ascii eventType" "ascii data" "- (2 ^ 63) \<le> fd" "fd < 2 ^ 63"
  shows "Unmarshal_event (Marshal (event_json eventType fd data)) =
     Some \<lparr>se_Type = eventType, se_FD = fd, se_Address = (if eventType = ''open'' then data else []),
       se_Message = (if eventType = ''error'' \<or> eventType = ''data'' then data else []), se_Size = 0\<rparr>"
proof -
  let ?ms = "(if eventType = ''open'' then [(''address'', JStr data)] else []) @ [(''fd'', JInt fd)] @
           (if eventType = ''error'' \<or> eventType = ''data'' then [(''message'', JStr data)] else []) @ [(''type'', JStr eventType)]"
  have "plain (JObj ?ms)" "depth (JObj ?ms) \<le> max_depth" using assms(1,2) by auto
  from into_struct_object [OF this, of event_member] show ?thesis
    unfolding Unmarshal_event_def event_json_def using assms(3,4)
    by (simp add: string_field_def int_field_def del: fold_name.simps)
qed

text \<open>The agent reads the start command the watchdog wrote.\<close>

lemma plain_handle: "pred_option (\<lambda>g. ascii (h_Name g)) gate \<Longrightarrow> plain (handle_json gate)"
  by (auto simp: handle_json_def split: option.splits)

lemma depth_handle: "depth (handle_json gate) \<le> 1"
  by (simp add: handle_json_def split: option.splits)

lemma any_ok_handle: "any_ok (handle_json gate)"
proof -
  have "float_fits (int_text (uint (x :: 32 word)))" for x
    using uint_lt2p [of x] by (intro float_exact) simp
  then show ?thesis by (simp add: handle_json_def split: option.splits)
qed

lemma agent_started:
  assumes "pred_option (\<lambda>g. ascii (h_Name g)) gate" "\<bar>fd\<bar> < 2 ^ 53"
  shows "agent_handleCommand jerr (Marshal (start_json gate fd)) ag = (ag\<lparr>ag_client := fd\<rparr>, None)"
proof -
  let ?config = "[(''client'', JInt fd), (''gate'', handle_json gate), (''watchdog'', JStr ''self'')]"
  have "plain (command_json ''start'' (Some [JObj ?config]))" using plain_handle [OF assms(1)] by (auto simp: command_json_def)
  moreover have "depth (command_json ''start'' (Some [JObj ?config])) \<le> max_depth"
    using depth_handle [of gate] by (simp add: command_json_def)
  ultimately have "Unmarshal_command (Marshal (start_json gate fd)) = Some (''start'', [JObj ?config])"
    using Unmarshal_command_json [of "''start''" "Some [JObj ?config]"] any_ok_handle float_exact(2) [OF assms(2)]
    by (simp add: start_json_def)
  then show ?thesis
    using float_exact(1) [OF assms(2)] by (simp add: agent_handleCommand_def agent_start_def json_get_def)
qed

lemma agent_disconnected: "agent_handleMessage jerr (Marshal disconnect_json) ag = (ag, None)"
proof -
  have "Unmarshal_command (Marshal disconnect_json) = Some (''disconnect'', [])"
    unfolding disconnect_json_def by (subst Unmarshal_command_json) (simp_all add: command_json_def)
  then show ?thesis by (simp add: agent_handleMessage_def agent_handleCommand_def agent_disconnect_def)
qed

text \<open>A watchdog that was started, and the same with an agent for the client on descriptor 7.\<close>

definition demo_watchdog :: Watchdog where
  "demo_watchdog = ws_watchdog (snd (ws_Start 5 NewWatchdogService))"

definition demo_agents :: "Agent option system" where
  "demo_agents = snd (sys_NewActor (Some NewAgent) DefaultActorOptions 6 (the (wd_system demo_watchdog)))"

lemma demo_watchdog_facts:
  "wd_system demo_watchdog = Some (the (wd_system demo_watchdog))"
  "sys_reach (system_handler jerr) 1 (Suc 0) (the (wd_system demo_watchdog))"
  "sys_reach (system_handler jerr) 1 (Suc (Suc 0)) demo_agents"
  "\<not> sy_ctxDone (the (wd_system demo_watchdog))" "wd_gate demo_watchdog = None"
  "rt_idCounter (ar_router (sy_router (the (wd_system demo_watchdog)))) = 1"
  "sys_GetActor 2 (the (wd_system demo_watchdog)) = None" "\<exists>a. sys_GetActor 2 demo_agents = Some a"
proof -
  have s: "wd_system demo_watchdog = Some (snd (sys_NewService ''WATCHDOG'' None DefaultActorOptions 5 NewActorSystem))"
    by (simp add: demo_watchdog_def ws_Start_def Let_def split: prod.split outcome.split)
  then show "wd_system demo_watchdog = Some (the (wd_system demo_watchdog))"
    "sys_reach (system_handler jerr) 1 (Suc 0) (the (wd_system demo_watchdog))"
    using sys_reach.new_service [OF sys_reach.new] by (simp_all add: NewActorSystem_def)
  then show "sys_reach (system_handler jerr) 1 (Suc (Suc 0)) demo_agents"
    unfolding demo_agents_def by (intro sys_reach.new_actor)
  show "\<not> sy_ctxDone (the (wd_system demo_watchdog))" "wd_gate demo_watchdog = None"
    "rt_idCounter (ar_router (sy_router (the (wd_system demo_watchdog)))) = 1"
    "sys_GetActor 2 (the (wd_system demo_watchdog)) = None" "\<exists>a. sys_GetActor 2 demo_agents = Some a"
    by (simp_all add: demo_agents_def s demo_watchdog_def ws_Start_def NewWatchdogService_def NewWatchdog_def NewActorSystem_def
        sys_NewService_def sys_NewActor_def NewActorSystemWithNodeID_def sys_NextID_simps NewAdvancedRouter_def NewRouter_def
        NewActor_def service_options_def DefaultActorOptions_def ar_RegisterService_def ar_Register_def router_Register_def
        AllocateHandle_def NewHandleManager_def Let_def sd_RegisterService_def NewServiceDiscovery_def NewServiceRegistry_def
        new_info_def registry_Register_def sys_GetActor_def router_Lookup_def)
qed

section \<open>Properties\<close>

text \<open>
  Property C32. The gate's report of a new client gives it an agent: the watchdog creates an actor
  of the next id, files it under the client's descriptor and sends it a start command, and when
  that actor has started and taken its message, the agent it runs knows the descriptor of its
  client. It does not know the gate or the watchdog: what JSON carries of them is no handle.
\<close>

theorem open_creates_agent:
  assumes "wd_system w = Some sys" "sys_reach (system_handler jerr) node n sys" "n < 2 ^ 32" "\<not> sy_ctxDone sys"
    and "i = rt_idCounter (ar_router (sy_router sys)) + 1" "sys_GetActor i sys = None"
    and "ascii addr" "\<bar>fd\<bar> < 2 ^ 53" "pred_option (\<lambda>g. ascii (h_Name g)) (wd_gate w)"
  shows "\<exists>sys' a. handleSocketEvent jerr pick now (Marshal (event_json ''open'' fd addr)) w =
       (Ok (), w\<lparr>wd_agents := (wd_agents w)(fd \<mapsto> i), wd_system := Some sys'\<rparr>) \<and>
     sys_GetActor i (run_message (system_handler jerr) t i (run_start i sys')) = Some a \<and>
     ac_handler a = Some \<lparr>ag_gate = None, ag_client = fd, ag_watchdog = None\<rparr> \<and> ch_buf (ac_mailbox a) = [] \<and>
     ac_loops a = [Selecting]"
proof -
  have inv: "sys_inv node n sys" using sys_reach_inv [OF assms(2)] assms(3) by simp
  obtain a s1 where s1: "sys_NewActor (Some NewAgent) DefaultActorOptions now sys = (Ok i, s1)"
    "NewActor i (Some NewAgent) DefaultActorOptions now = Some a" "actor_of s1 = (actor_of sys)(i \<mapsto> a)"
    using assms(6) by (auto simp: sys_GetActor_def router_Lookup_def intro: sys_NewActor_ok [OF inv assms(4,5)])
  have fd: "- (2 ^ 63) \<le> fd" "fd < 2 ^ 63" using assms(8) by auto
  let ?d = "Marshal (start_json (wd_gate w) fd)"
  obtain sys' where sys': "sys_Send pick i i MessageTypeRequest ?d now s1 = (Ok (), sys')"
    "actor_of sys' i = Some (a\<lparr>ac_mailbox := (ac_mailbox a)\<lparr>ch_buf := [Some \<lparr>m_ID = 0, m_Type = MessageTypeRequest,
       m_Source = i, m_Target = i, m_Session = 0, m_Data = ?d, m_Timestamp = now\<rparr>]\<rparr>\<rparr>)"
    using s1(2,3) by (auto simp: sys_Send_def Let_def router_Route_def actor_Send_def send_select_def try_send_def NewActor_def
        DefaultActorOptions_def)
  have "handleSocketEvent jerr pick now (Marshal (event_json ''open'' fd addr)) w =
      (Ok (), w\<lparr>wd_agents := (wd_agents w)(fd \<mapsto> i), wd_system := Some sys'\<rparr>)"
    using Unmarshal_event_json [OF _ assms(7) fd, of "''open''"] assms(1) s1(1) sys'(1)
    by (simp add: handleSocketEvent_def handleSocketOpen_def)
  moreover have "\<exists>a'. sys_GetActor i (run_message (system_handler jerr) t i (run_start i sys')) = Some a' \<and>
     ac_handler a' = Some \<lparr>ag_gate = None, ag_client = fd, ag_watchdog = None\<rparr> \<and> ch_buf (ac_mailbox a') = [] \<and>
     ac_loops a' = [Selecting]"
    using s1(2) sys'(2) agent_started [OF assms(9,8)]
    by (auto simp: run_start_def run_message_def Let_def NewActor_def DefaultActorOptions_def actor_Start_def start_spawn_def
        sys_GetActor_def router_Lookup_def processMessage_def process_begin_def process_end_def system_handler_def
        agent_HandleMessage_def NewAgent_def)
  ultimately show ?thesis by blast
qed

theorem open_creates_agent_witness:
  "\<exists>w'. handleSocketEvent (\<lambda>d. []) False 6 (Marshal (event_json ''open'' 7 ''10.0.0.1:4000'')) demo_watchdog = (Ok (), w') \<and>
     wd_agents w' 7 = Some 2"
proof -
  have "\<exists>sys' a. handleSocketEvent (\<lambda>d. []) False 6 (Marshal (event_json ''open'' 7 ''10.0.0.1:4000'')) demo_watchdog =
      (Ok (), demo_watchdog\<lparr>wd_agents := (wd_agents demo_watchdog)(7 \<mapsto> 2), wd_system := Some sys'\<rparr>)"
    using open_creates_agent [where jerr = "\<lambda>d. []" and i = 2 and addr = "''10.0.0.1:4000''" and fd = 7 and pick = False and now = 6,
          OF demo_watchdog_facts(1,2) _ demo_watchdog_facts(4)]
      demo_watchdog_facts(5-7) by auto
  then show ?thesis by auto
qed

text \<open>
  Property C33. Closing a client never fails and makes the watchdog forget its agent, whether the
  gate is reachable or not; but the agent is only told to disconnect, which it acknowledges
  without a change of its own: it stays in the actor system, as alive as before, and nothing
  refers to it any more.
\<close>

theorem close_forgets_agent:
  assumes "wd_system w = Some sys" "sys_reach (system_handler jerr) node n sys" "n < 2 ^ 32"
    and "wd_agents w fd = Some i" "sys_GetActor i sys = Some a" "- (2 ^ 63) \<le> fd" "fd < 2 ^ 63"
  shows "\<exists>sys' c. handleSocketEvent jerr pick now (Marshal (event_json ''close'' fd [])) w =
       (Ok (), w\<lparr>wd_agents := (wd_agents w)(fd := None), wd_system := Some sys'\<rparr>) \<and>
     sys_GetActor i sys' = Some (a\<lparr>ac_mailbox := c\<rparr>) \<and>
     agent_handleMessage jerr (Marshal disconnect_json) ag = (ag, None)"
proof -
  have inv: "sys_inv node n sys" using sys_reach_inv [OF assms(2)] assms(3) by simp
  have a: "actor_of sys i = Some a" using assms(5) by (simp add: sys_GetActor_def router_Lookup_def)
  obtain r1 s1 where r1: "(case wd_gate w of None \<Rightarrow> (Ok (), sys)
      | Some h \<Rightarrow> sys_Send pick (h_ActorID h) (h_ActorID h) MessageTypeRequest (Marshal (kick_json fd)) now sys) = (r1, s1)"
    by force
  have "r1 \<noteq> Panic \<and> sys_inv node n s1 \<and> (\<exists>c. actor_of s1 i = Some (a\<lparr>ac_mailbox := c\<rparr>))"
  proof (cases "wd_gate w")
    case None
    then show ?thesis using r1 inv a by (auto intro: exI [of _ "ac_mailbox a"])
  next
    case (Some h)
    then have "sys_Send pick (h_ActorID h) (h_ActorID h) MessageTypeRequest (Marshal (kick_json fd)) now sys = (r1, s1)"
      using r1 by simp
    from sys_Send_keeps [OF inv this] a show ?thesis by simp
  qed
  then obtain c where s1: "r1 \<noteq> Panic" "sys_inv node n s1" "actor_of s1 i = Some (a\<lparr>ac_mailbox := c\<rparr>)" by blast
  obtain r2 s2 where r2: "sys_Send pick i i MessageTypeText (Marshal disconnect_json) now s1 = (r2, s2)" by force
  obtain c' where "r2 \<noteq> Panic" "actor_of s2 i = Some (a\<lparr>ac_mailbox := c'\<rparr>)"
    using sys_Send_keeps(1,3) [OF s1(2) r2] s1(3) by fastforce
  moreover have "handleSocketEvent jerr pick now (Marshal (event_json ''close'' fd [])) w = closeAgent pick now fd w"
    using Unmarshal_event_json [OF _ _ assms(6,7), of "''close''" "[]"] by (simp add: handleSocketEvent_def handleSocketClose_def)
  ultimately show ?thesis
    using assms(1,4) r1 s1(1) r2 agent_disconnected
    by (auto simp: closeAgent_def Let_def sys_GetActor_def router_Lookup_def)
qed

theorem close_forgets_agent_witness:
  "\<exists>sys' a. handleSocketEvent (\<lambda>d. []) False 7 (Marshal (event_json ''close'' 7 []))
       (NewWatchdog\<lparr>wd_system := Some demo_agents, wd_agents := [7 \<mapsto> 2]\<rparr>) = (Ok (), NewWatchdog\<lparr>wd_system := Some sys'\<rparr>) \<and>
     sys_GetActor 2 sys' = Some a"
proof -
  obtain a where a: "sys_GetActor 2 demo_agents = Some a" using demo_watchdog_facts(8) by blast
  let ?w = "NewWatchdog\<lparr>wd_system := Some demo_agents, wd_agents := [7 \<mapsto> 2]\<rparr>"
  have "wd_system ?w = Some demo_agents" "wd_agents ?w 7 = Some 2" by simp_all
  from close_forgets_agent [where jerr = "\<lambda>d. []" and pick = False and now = 7 and ag = NewAgent, OF this(1) demo_watchdog_facts(3) _ this(2) a] show ?thesis
    by (auto simp: NewWatchdog_def)
qed

text \<open>
  The gate does not understand the watchdog's kick: the watchdog writes the descriptor
  as a member of its own, the gate looks for it among the arguments and refuses the command,
  leaving the connection as it is; the same command with the descriptor as argument closes the
  connection and removes it from the table.
\<close>

theorem kick_refused:
  assumes "\<bar>fd\<bar> < 2 ^ 53" "gt_connections g fd = Some a"
  shows "gate_handleCommand jerr listen (Marshal (kick_json fd)) g = (Err (CommandRefused ''kick command requires fd''), g) \<and>
     (\<exists>g'. gate_handleCommand jerr listen (Marshal (command_json ''kick'' (Some [JInt fd]))) g = (Ok (), g') \<and>
        gt_connections g' = (gt_connections g)(fd := None) \<and>
        gt_heap g' a = map_option (\<lambda>c. c\<lparr>gc_closed := True\<rparr>) (gt_heap g a))"
proof -
  have "plain (kick_json fd)" "depth (kick_json fd) \<le> max_depth" by (auto simp: kick_json_def)
  then have "Unmarshal_command (Marshal (kick_json fd)) = Some (''kick'', [])"
    unfolding Unmarshal_command_def kick_json_def
    by (subst into_struct_object) (simp_all add: string_field_def del: fold_name.simps)
  moreover have "Unmarshal_command (Marshal (command_json ''kick'' (Some [JInt fd]))) = Some (''kick'', [JInt fd])"
    using float_exact(2) [OF assms(1)] by (subst Unmarshal_command_json) (auto simp: command_json_def)
  ultimately show ?thesis
    using assms float_exact(1) [OF assms(1)] by (simp add: gate_handleCommand_def gate_kick_def close_conn_heap)
qed

theorem kick_refused_witness:
  "gate_handleCommand (\<lambda>d. []) (\<lambda>addr. True) (Marshal (kick_json 1)) demo_gate =
     (Err (CommandRefused ''kick command requires fd''), demo_gate)"
  using kick_refused [OF _ demo_gate_reach(2), of "\<lambda>d. []" "\<lambda>addr. True"] by simp

end
