(* ===== verification/Container.thy ===== *)
theory Container
  imports Sngo_Prelude
begin

text \<open>
  The dependency injection containers of \<^verbatim>\<open>bootstrap/container.go\<close>. A factory is user code
  that may use the container it is given, so it is an interaction: it creates an instance,
  fails, or first calls one of the container's methods and goes on with the answer. Its
  argument is the number of factory calls made before it, which lets it return a different
  instance each time. The container's mutex is not reentrant: a method that is called while
  the calling goroutine holds it never returns, which is the result \<open>Deadlock\<close>.
\<close>

section \<open>Data\<close>

text \<open>What a factory does next; \<open>Resolving\<close> stands for any call of a container method.\<close>

datatype 'v factory_run =
    Created 'v
  | Failed string
  | Resolving string "'v option \<Rightarrow> 'v factory_run"

type_synonym 'v ServiceFactory = "nat \<Rightarrow> 'v factory_run"

record 'v DefaultContainer =
  ct_services :: "string \<rightharpoonup> 'v ServiceFactory"
  ct_instances :: "string \<rightharpoonup> 'v"
  ct_calls :: nat

datatype ContainerError =
    EmptyName
  | NilFactory
  | NilInstance
  | FactoryAlreadyRegistered string
  | InstanceAlreadyRegistered string
  | NotRegistered string
  | CreateFailed string string
  | FactoryFailed string
  | TargetNotPointer
  | NotAssignable string
  | UnknownScope int

datatype 'v resolution = Resolved 'v | Unresolved ContainerError | Deadlock

section \<open>The default container\<close>

definition NewContainer :: "'v DefaultContainer" where
  "NewContainer = \<lparr>ct_services = Map.empty, ct_instances = Map.empty, ct_calls = 0\<rparr>"

definition container_Register ::
  "string \<Rightarrow> 'v ServiceFactory option \<Rightarrow> 'v DefaultContainer \<Rightarrow> (ContainerError + unit) \<times> 'v DefaultContainer" where
  "container_Register name factory c =
     (if name = [] then (Inl EmptyName, c)
      else case factory of
        None \<Rightarrow> (Inl NilFactory, c)
      | Some f \<Rightarrow>
          if ct_services c name \<noteq> None then (Inl (FactoryAlreadyRegistered name), c)
          else (Inr (), c\<lparr>ct_services := (ct_services c)(name \<mapsto> f)\<rparr>))"

definition container_RegisterInstance ::
  "string \<Rightarrow> 'v option \<Rightarrow> 'v DefaultContainer \<Rightarrow> (ContainerError + unit) \<times> 'v DefaultContainer" where
  "container_RegisterInstance name inst c =
     (if name = [] then (Inl EmptyName, c)
      else case inst of
        None \<Rightarrow> (Inl NilInstance, c)
      | Some v \<Rightarrow>
          if ct_instances c name \<noteq> None then (Inl (InstanceAlreadyRegistered name), c)
          else (Inr (), c\<lparr>ct_instances := (ct_instances c)(name \<mapsto> v)\<rparr>))"

text \<open>Running a factory while the mutex is held.\<close>

fun run_locked :: "'v factory_run \<Rightarrow> 'v resolution" where
  "run_locked (Created v) = Resolved v"
| "run_locked (Failed e) = Unresolved (FactoryFailed e)"
| "run_locked (Resolving n k) = Deadlock"

definition create_and_cache ::
  "string \<Rightarrow> 'v ServiceFactory \<Rightarrow> 'v DefaultContainer \<Rightarrow> 'v resolution \<times> 'v DefaultContainer" where
  "create_and_cache name f c =
     (let c1 = c\<lparr>ct_calls := Suc (ct_calls c)\<rparr>
      in case run_locked (f (ct_calls c)) of
           Resolved v \<Rightarrow> (Resolved v, c1\<lparr>ct_instances := (ct_instances c1)(name \<mapsto> v)\<rparr>)
         | Unresolved (FactoryFailed e) \<Rightarrow> (Unresolved (CreateFailed name e), c1)
         | Unresolved e \<Rightarrow> (Unresolved e, c1)
         | Deadlock \<Rightarrow> (Deadlock, c1))"

definition container_Resolve :: "string \<Rightarrow> 'v DefaultContainer \<Rightarrow> 'v resolution \<times> 'v DefaultContainer" where
  "container_Resolve name c =
     (case ct_instances c name of
        Some v \<Rightarrow> (Resolved v, c)
      | None \<Rightarrow>
          (case ct_services c name of
             None \<Rightarrow> (Unresolved (NotRegistered name), c)
           | Some f \<Rightarrow> create_and_cache name f c))"

text \<open>
  \<open>is_ptr\<close> says whether the target is a pointer, \<open>assignable\<close> whether the instance's type
  can be assigned to its element type; the target's new contents are returned.
\<close>

definition container_ResolveAs ::
  "bool \<Rightarrow> ('v \<Rightarrow> bool) \<Rightarrow> string \<Rightarrow> 'v DefaultContainer \<Rightarrow> 'v resolution \<times> 'v DefaultContainer" where
  "container_ResolveAs is_ptr assignable name c =
     (case container_Resolve name c of
        (Resolved v, c') \<Rightarrow>
          if \<not> is_ptr then (Unresolved TargetNotPointer, c')
          else if \<not> assignable v then (Unresolved (NotAssignable name), c')
          else (Resolved v, c')
      | r \<Rightarrow> r)"

definition container_Has :: "string \<Rightarrow> 'v DefaultContainer \<Rightarrow> bool" where
  "container_Has name c \<longleftrightarrow> ct_services c name \<noteq> None \<or> ct_instances c name \<noteq> None"

text \<open>\<open>ks\<close> is the order in which the set of names is ranged over.\<close>

definition container_Names :: "string list \<Rightarrow> 'v DefaultContainer \<Rightarrow> string list" where
  "container_Names ks c = filter (\<lambda>n. container_Has n c) ks"

definition container_Clear :: "'v DefaultContainer \<Rightarrow> 'v DefaultContainer" where
  "container_Clear c = c\<lparr>ct_services := Map.empty, ct_instances := Map.empty\<rparr>"

definition container_GetInstance :: "string \<Rightarrow> 'v DefaultContainer \<Rightarrow> 'v option" where
  "container_GetInstance name c = ct_instances c name"

definition container_RemoveInstance :: "string \<Rightarrow> 'v DefaultContainer \<Rightarrow> 'v DefaultContainer" where
  "container_RemoveInstance name c = c\<lparr>ct_instances := (ct_instances c)(name := None)\<rparr>"

text \<open>The builder drops the errors of the registrations it makes.\<close>

definition WithService :: "string \<Rightarrow> 'v ServiceFactory option \<Rightarrow> 'v DefaultContainer \<Rightarrow> 'v DefaultContainer" where
  "WithService name factory c = snd (container_Register name factory c)"

definition WithInstance :: "string \<Rightarrow> 'v option \<Rightarrow> 'v DefaultContainer \<Rightarrow> 'v DefaultContainer" where
  "WithInstance name inst c = snd (container_RegisterInstance name inst c)"

section \<open>The scoped container\<close>

type_synonym ServiceScope = int

definition ScopeSingleton :: ServiceScope where "ScopeSingleton = 0"
definition ScopeTransient :: ServiceScope where "ScopeTransient = 1"
definition ScopeScoped :: ServiceScope where "ScopeScoped = 2"

record 'v ScopedContainer =
  sc_container :: "'v DefaultContainer"
  sc_scopes :: "string \<rightharpoonup> ServiceScope"

definition NewScopedContainer :: "'v ScopedContainer" where
  "NewScopedContainer = \<lparr>sc_container = NewContainer, sc_scopes = Map.empty\<rparr>"

definition RegisterScoped ::
  "string \<Rightarrow> 'v ServiceFactory option \<Rightarrow> ServiceScope \<Rightarrow> 'v ScopedContainer \<Rightarrow>
     (ContainerError + unit) \<times> 'v ScopedContainer" where
  "RegisterScoped name factory scope s =
     (case container_Register name factory (sc_container s) of
        (Inl e, _) \<Rightarrow> (Inl e, s)
      | (Inr _, c) \<Rightarrow> (Inr (), s\<lparr>sc_container := c, sc_scopes := (sc_scopes s)(name \<mapsto> scope)\<rparr>))"

text \<open>
  \<^verbatim>\<open>Resolve\<close> holds the mutex of the embedded container for its whole body. In the two
  branches that call another \<^verbatim>\<open>Resolve\<close>, that call waits for the mutex for ever.
\<close>

definition scoped_Resolve :: "string \<Rightarrow> 'v ScopedContainer \<Rightarrow> 'v resolution \<times> 'v ScopedContainer" where
  "scoped_Resolve name s =
     (let c = sc_container s
      in case sc_scopes s name of
           None \<Rightarrow> (Deadlock, s)
         | Some scope \<Rightarrow>
             if scope = ScopeSingleton then
               (case ct_instances c name of
                  Some v \<Rightarrow> (Resolved v, s)
                | None \<Rightarrow>
                    (case ct_services c name of
                       None \<Rightarrow> (Unresolved (NotRegistered name), s)
                     | Some f \<Rightarrow> (case create_and_cache name f c of
                                     (r, c') \<Rightarrow> (r, s\<lparr>sc_container := c'\<rparr>))))
             else if scope = ScopeTransient then
               (case ct_services c name of
                  None \<Rightarrow> (Unresolved (NotRegistered name), s)
                | Some f \<Rightarrow> (run_locked (f (ct_calls c)),
                             s\<lparr>sc_container := c\<lparr>ct_calls := Suc (ct_calls c)\<rparr>\<rparr>))
             else if scope = ScopeScoped then (Deadlock, s)
             else (Unresolved (UnknownScope scope), s))"

section \<open>The instances are a table with unique keys\<close>

definition inst_add :: "string \<Rightarrow> 'v \<Rightarrow> 'v DefaultContainer \<Rightarrow> 'v DefaultContainer option" where
  "inst_add n v c = (case container_RegisterInstance n (Some v) c of (Inr _, c') \<Rightarrow> Some c' | (Inl _, _) \<Rightarrow> None)"

definition inst_del :: "string \<Rightarrow> 'v DefaultContainer \<Rightarrow> 'v DefaultContainer option" where
  "inst_del n c = (if container_GetInstance n c = None then None else Some (container_RemoveInstance n c))"

interpretation ci: unique_table "\<lambda>c n. container_GetInstance n c" inst_add inst_del "\<lambda>c. True" "\<lambda>n v. n \<noteq> []"
  by unfold_locales
     (auto simp: inst_add_def inst_del_def container_RegisterInstance_def container_GetInstance_def
       container_RemoveInstance_def fun_eq_iff)

section \<open>Histories\<close>

datatype 'v container_op = Do_resolve string | Do_register string "'v ServiceFactory option"
  | Do_instance string "'v option" | Do_remove string

fun container_do :: "'v container_op \<Rightarrow> 'v DefaultContainer \<Rightarrow> 'v DefaultContainer" where
  "container_do (Do_resolve n) c = snd (container_Resolve n c)"
| "container_do (Do_register n f) c = snd (container_Register n f c)"
| "container_do (Do_instance n v) c = snd (container_RegisterInstance n v c)"
| "container_do (Do_remove n) c = container_RemoveInstance n c"

lemma create_and_cache_other:
  "n \<noteq> m \<Longrightarrow> ct_instances (snd (create_and_cache m f c)) n = ct_instances c n"
  by (auto simp: create_and_cache_def Let_def split: resolution.split ContainerError.split)

lemma container_do_keeps:
  assumes "ct_instances c n = Some v" "op \<noteq> Do_remove n"
  shows "ct_instances (container_do op c) n = Some v"
proof (cases op)
  case (Do_resolve m)
  then show ?thesis
    using assms
    by (cases "n = m") (auto simp: container_Resolve_def create_and_cache_other split: option.split)
next
  case (Do_instance m w)
  then show ?thesis using assms by (auto simp: container_RegisterInstance_def split: option.split)
qed (use assms in \<open>auto simp: container_Register_def container_RemoveInstance_def split: option.split\<close>)

lemma container_history_keeps:
  assumes "ct_instances c n = Some v" "Do_remove n \<notin> set ops"
  shows "ct_instances (fold container_do ops c) n = Some v"
  using assms by (induction ops arbitrary: c) (auto simp: container_do_keeps)

lemma container_Resolve_cached:
  "container_Resolve n c = (Resolved v, c') \<Longrightarrow> ct_instances c' n = Some v"
  by (auto simp: container_Resolve_def create_and_cache_def Let_def
      split: option.splits resolution.splits ContainerError.splits)

section \<open>Properties\<close>

text \<open>
  The default container creates a service at most once: after a successful
  resolution every later one, whatever is resolved or registered in between, returns the same
  instance and leaves the container as it is, so that no factory runs again, until the
  instance is removed.
\<close>

theorem container_singleton:
  assumes "container_Resolve n c = (Resolved v, c1)" and "Do_remove n \<notin> set ops"
  shows "container_Resolve n (fold container_do ops c1) = (Resolved v, fold container_do ops c1)"
  using container_history_keeps [OF container_Resolve_cached [OF assms(1)] assms(2)]
  by (simp add: container_Resolve_def)

theorem container_singleton_witness:
  "container_Resolve ''a'' (fold container_do [Do_resolve ''b'']
      (snd (container_Resolve ''a'' (WithService ''a'' (Some (\<lambda>k. Created (k + 1))) NewContainer)))) =
   (Resolved 1, snd (container_Resolve ''a'' (WithService ''a'' (Some (\<lambda>k. Created (k + 1))) NewContainer)))"
  (is "container_Resolve _ (fold _ _ ?c1) = _")
proof -
  have "container_Resolve ''a'' (WithService ''a'' (Some (\<lambda>k. Created (k + 1))) NewContainer) = (Resolved 1, ?c1)"
    by (simp add: WithService_def NewContainer_def container_Register_def container_Resolve_def create_and_cache_def)
  from container_singleton [OF this, of "[Do_resolve ''b'']"]
  show ?thesis
    by (simp add: WithService_def NewContainer_def container_Register_def container_Resolve_def create_and_cache_def)
qed

text \<open>
  A factory that uses the container it is given never returns: the first call of
  a container method waits for the mutex that \<^verbatim>\<open>Resolve\<close> holds, even when the service it
  asks for is already instantiated. \<^verbatim>\<open>ResolveAs\<close> inherits this.
\<close>

theorem factory_dependency_deadlocks:
  assumes "ct_instances c n = None" and "ct_services c n = Some f" and "f (ct_calls c) = Resolving d k"
  shows "fst (container_Resolve n c) = Deadlock \<and>
     fst (container_ResolveAs is_ptr assignable n c) = Deadlock"
  using assms by (simp add: container_Resolve_def create_and_cache_def container_ResolveAs_def)

theorem factory_dependency_deadlocks_witness:
  "fst (container_Resolve ''db'' (WithInstance ''config'' (Some (7 :: nat))
     (WithService ''db'' (Some (\<lambda>_. Resolving ''config'' (\<lambda>x. Created (the x + 1)))) NewContainer))) = Deadlock"
  using factory_dependency_deadlocks [of "WithInstance ''config'' (Some (7 :: nat))
     (WithService ''db'' (Some (\<lambda>_. Resolving ''config'' (\<lambda>x. Created (the x + 1)))) NewContainer)" "''db''"
     "\<lambda>_. Resolving ''config'' (\<lambda>x. Created (the x + 1))" "''config''" "\<lambda>x. Created (the x + 1)" True "\<lambda>_. True"]
  by (simp add: WithInstance_def WithService_def NewContainer_def container_Register_def container_RegisterInstance_def)

text \<open>
  The scoped container honours two of its scopes: a singleton factory that needs
  no container runs once and its instance is then returned, a transient one runs at every
  resolution. A service registered without a scope, and one registered with the scope
  \<^verbatim>\<open>ScopeScoped\<close>, can never be resolved: \<^verbatim>\<open>Resolve\<close> deadlocks on its own mutex, even
  when an instance exists.
\<close>

theorem scoped_resolution:
  assumes "ct_services (sc_container s) n = Some f" and "\<And>i. f i = Created (g i)"
  shows "(sc_scopes s n = Some ScopeSingleton \<longrightarrow> ct_instances (sc_container s) n = None \<longrightarrow>
            (\<exists>s1. scoped_Resolve n s = (Resolved (g (ct_calls (sc_container s))), s1) \<and>
               scoped_Resolve n s1 = (Resolved (g (ct_calls (sc_container s))), s1))) \<and>
         (sc_scopes s n = Some ScopeTransient \<longrightarrow>
            (\<exists>s1. scoped_Resolve n s = (Resolved (g (ct_calls (sc_container s))), s1) \<and>
               fst (scoped_Resolve n s1) = Resolved (g (Suc (ct_calls (sc_container s)))))) \<and>
         (sc_scopes s n \<in> {None, Some ScopeScoped} \<longrightarrow> fst (scoped_Resolve n s) = Deadlock)"
  using assms by (auto simp: scoped_Resolve_def Let_def create_and_cache_def ScopeSingleton_def
      ScopeTransient_def ScopeScoped_def)

theorem scoped_resolution_witness:
  "fst (scoped_Resolve ''a'' (snd (RegisterScoped ''a'' (Some (\<lambda>k. Created k)) ScopeScoped NewScopedContainer))) = Deadlock"
  using scoped_resolution [of "snd (RegisterScoped ''a'' (Some (\<lambda>k. Created k)) ScopeScoped NewScopedContainer)"
    "''a''" "\<lambda>k. Created k" "\<lambda>k. k"]
  by (simp add: RegisterScoped_def NewScopedContainer_def NewContainer_def container_Register_def)

end
