(* ===== verification/Network_Message.thy ===== *)
theory Network_Message
  imports Byte_Codec
begin

unbundle bit_operations_syntax

text \<open>
  The network message and its binary codec, \<^verbatim>\<open>network/message.go\<close>. The payload is an option:
  \<open>None\<close> is Go's nil slice. The codec writes the fields into a buffer at consecutive offsets,
  which is their concatenation; \<open>UserData\<close>, which the code only copies, has a type of its own.
\<close>

section \<open>Messages\<close>

type_synonym NetMessageType = u32

definition NetMessageTypeHeartbeat :: NetMessageType where "NetMessageTypeHeartbeat = 1"
definition NetMessageTypeAck :: NetMessageType where "NetMessageTypeAck = 2"
definition NetMessageTypeError :: NetMessageType where "NetMessageTypeError = 3"
definition NetMessageTypeClose :: NetMessageType where "NetMessageTypeClose = 4"
definition NetMessageTypeUserStart :: NetMessageType where "NetMessageTypeUserStart = 100"
definition NetMessageTypeRPC :: NetMessageType where "NetMessageTypeRPC = 101"
definition NetMessageTypeData :: NetMessageType where "NetMessageTypeData = 102"
definition NetMessageTypeBroadcast :: NetMessageType where "NetMessageTypeBroadcast = 103"

lemmas NetMessageType_defs = NetMessageTypeHeartbeat_def NetMessageTypeAck_def NetMessageTypeError_def
  NetMessageTypeClose_def NetMessageTypeUserStart_def NetMessageTypeRPC_def NetMessageTypeData_def
  NetMessageTypeBroadcast_def

definition NetMessageType_String :: "NetMessageType \<Rightarrow> string" where
  "NetMessageType_String mt =
     (if mt = NetMessageTypeHeartbeat then ''heartbeat''
      else if mt = NetMessageTypeAck then ''ack''
      else if mt = NetMessageTypeError then ''error''
      else if mt = NetMessageTypeClose then ''close''
      else if mt = NetMessageTypeRPC then ''rpc''
      else if mt = NetMessageTypeData then ''data''
      else if mt = NetMessageTypeBroadcast then ''broadcast''
      else ''unknown('' @ decimal (unat mt) @ '')'')"

type_synonym MessageFlag = u32

definition MessageFlagNone :: MessageFlag where "MessageFlagNone = 0"
definition MessageFlagCompressed :: MessageFlag where "MessageFlagCompressed = push_bit 0 1"
definition MessageFlagEncrypted :: MessageFlag where "MessageFlagEncrypted = push_bit 1 1"
definition MessageFlagPriority :: MessageFlag where "MessageFlagPriority = push_bit 2 1"
definition MessageFlagReliable :: MessageFlag where "MessageFlagReliable = push_bit 3 1"
definition MessageFlagOrderedA :: MessageFlag where "MessageFlagOrderedA = push_bit 4 1"

record 'd NetMessage =
  nm_Type :: NetMessageType
  nm_Flags :: MessageFlag
  nm_Sequence :: u32
  nm_SessionID :: u64
  nm_Source :: string
  nm_Destination :: string
  nm_Timestamp :: Time
  nm_TTL :: u32
  nm_Data :: "bytes option"
  nm_ConnectionID :: string
  nm_UserData :: "'d option"

definition data_bytes :: "bytes option \<Rightarrow> bytes" where
  "data_bytes d = (case d of None \<Rightarrow> [] | Some b \<Rightarrow> b)"

definition NewMessage :: "NetMessageType \<Rightarrow> bytes option \<Rightarrow> Time \<Rightarrow> 'd NetMessage" where
  "NewMessage msgType data now =
     \<lparr>nm_Type = msgType, nm_Flags = MessageFlagNone, nm_Sequence = 0, nm_SessionID = 0, nm_Source = [],
      nm_Destination = [], nm_Timestamp = now, nm_TTL = 0, nm_Data = data, nm_ConnectionID = [],
      nm_UserData = None\<rparr>"

definition NewHeartbeatMessage :: "Time \<Rightarrow> 'd NetMessage" where
  "NewHeartbeatMessage now = NewMessage NetMessageTypeHeartbeat None now"

definition NewAckMessage :: "u32 \<Rightarrow> Time \<Rightarrow> 'd NetMessage" where
  "NewAckMessage sequence now = (NewMessage NetMessageTypeAck None now)\<lparr>nm_Sequence := sequence\<rparr>"

definition NewErrorMessage :: "string \<Rightarrow> Time \<Rightarrow> 'd NetMessage" where
  "NewErrorMessage errorMsg now = NewMessage NetMessageTypeError (Some (bytes_of_string errorMsg)) now"

definition NewRPCMessage :: "string \<Rightarrow> string \<Rightarrow> bytes option \<Rightarrow> Time \<Rightarrow> 'd NetMessage" where
  "NewRPCMessage source destination data now =
     (NewMessage NetMessageTypeRPC data now)\<lparr>nm_Source := source, nm_Destination := destination\<rparr>"

definition SetFlag :: "MessageFlag \<Rightarrow> 'd NetMessage \<Rightarrow> 'd NetMessage" where
  "SetFlag flag m = m\<lparr>nm_Flags := nm_Flags m OR flag\<rparr>"

definition ClearFlag :: "MessageFlag \<Rightarrow> 'd NetMessage \<Rightarrow> 'd NetMessage" where
  "ClearFlag flag m = m\<lparr>nm_Flags := nm_Flags m AND NOT flag\<rparr>"

definition HasFlag :: "MessageFlag \<Rightarrow> 'd NetMessage \<Rightarrow> bool" where
  "HasFlag flag m \<longleftrightarrow> nm_Flags m AND flag \<noteq> 0"

definition MessageHeaderSize :: nat where "MessageHeaderSize = 32"
definition MaxMessageSize :: nat where "MaxMessageSize = 64 * 1024 * 1024"
definition MaxDataSize :: nat where "MaxDataSize = MaxMessageSize - MessageHeaderSize"

lemmas size_defs = MessageHeaderSize_def MaxMessageSize_def MaxDataSize_def

definition Message_Size :: "'d NetMessage \<Rightarrow> nat" where
  "Message_Size m = MessageHeaderSize + length (data_bytes (nm_Data m))"

definition IsExpired :: "Time \<Rightarrow> 'd NetMessage \<Rightarrow> bool" where
  "IsExpired now m =
     (if nm_TTL m = 0 then False else now - nm_Timestamp m > int (unat (nm_TTL m)) * Second)"

definition Message_Clone :: "'d NetMessage \<Rightarrow> 'd NetMessage" where
  "Message_Clone m =
     \<lparr>nm_Type = nm_Type m, nm_Flags = nm_Flags m, nm_Sequence = nm_Sequence m,
      nm_SessionID = nm_SessionID m, nm_Source = nm_Source m, nm_Destination = nm_Destination m,
      nm_Timestamp = nm_Timestamp m, nm_TTL = nm_TTL m,
      nm_Data = (case nm_Data m of None \<Rightarrow> None | Some b \<Rightarrow> Some (take (length b) b)),
      nm_ConnectionID = nm_ConnectionID m, nm_UserData = nm_UserData m\<rparr>"

section \<open>The codec\<close>

datatype CodecError = NilMessage | DataTooLarge nat | TooShortForHeader nat | TooShortForData nat nat

definition header_bytes :: "'d NetMessage \<Rightarrow> bytes" where
  "header_bytes msg =
     PutUint32 (nm_Type msg) @ PutUint32 (nm_Flags msg) @ PutUint32 (nm_Sequence msg) @
     PutUint64 (nm_SessionID msg) @ PutUint64 (of_int (time_Unix (nm_Timestamp msg))) @
     PutUint32 (of_nat (length (data_bytes (nm_Data msg))))"

definition codec_Encode :: "'d NetMessage option \<Rightarrow> CodecError + bytes" where
  "codec_Encode msg =
     (case msg of
        None \<Rightarrow> Inl NilMessage
      | Some m \<Rightarrow>
          let dataLen = length (data_bytes (nm_Data m))
          in if dataLen > MaxDataSize then Inl (DataTooLarge dataLen)
             else Inr (header_bytes m @ data_bytes (nm_Data m)))"

definition codec_EncodeHeader :: "'d NetMessage option \<Rightarrow> CodecError + bytes" where
  "codec_EncodeHeader msg = (case msg of None \<Rightarrow> Inl NilMessage | Some m \<Rightarrow> Inr (header_bytes m))"

definition header_message :: "bytes \<Rightarrow> 'd NetMessage" where
  "header_message data =
     \<lparr>nm_Type = Uint32 (slice 0 4 data), nm_Flags = Uint32 (slice 4 8 data),
      nm_Sequence = Uint32 (slice 8 12 data), nm_SessionID = Uint64 (slice 12 20 data),
      nm_Source = [], nm_Destination = [],
      nm_Timestamp = time_of_Unix (sint (Uint64 (slice 20 28 data))), nm_TTL = 0, nm_Data = None,
      nm_ConnectionID = [], nm_UserData = None\<rparr>"

definition codec_Decode :: "bytes \<Rightarrow> CodecError + 'd NetMessage" where
  "codec_Decode data =
     (if length data < MessageHeaderSize then Inl (TooShortForHeader (length data))
      else
        let msg = header_message data; dataLen = unat (Uint32 (slice 28 32 data))
        in if dataLen > MaxDataSize then Inl (DataTooLarge dataLen)
           else if length data < MessageHeaderSize + dataLen
           then Inl (TooShortForData (MessageHeaderSize + dataLen) (length data))
           else Inr (if dataLen > 0
                     then msg\<lparr>nm_Data := Some (slice MessageHeaderSize (MessageHeaderSize + dataLen) data)\<rparr>
                     else msg))"

text \<open>\<^verbatim>\<open>DecodeHeader\<close> leaves an empty payload with reserved capacity.\<close>

definition codec_DecodeHeader :: "bytes \<Rightarrow> CodecError + 'd NetMessage" where
  "codec_DecodeHeader data =
     (if length data < MessageHeaderSize then Inl (TooShortForHeader (length data))
      else
        let msg = header_message data; dataLen = unat (Uint32 (slice 28 32 data))
        in if dataLen > MaxDataSize then Inl (DataTooLarge dataLen)
           else Inr (if dataLen > 0 then msg\<lparr>nm_Data := Some []\<rparr> else msg))"

section \<open>Reading the header back\<close>

lemma length_header_bytes [simp]: "length (header_bytes m) = 32"
  by (simp add: header_bytes_def)

lemma header_slices:
  "slice 0 4 (header_bytes m @ rest) = PutUint32 (nm_Type m)"
  "slice 4 8 (header_bytes m @ rest) = PutUint32 (nm_Flags m)"
  "slice 8 12 (header_bytes m @ rest) = PutUint32 (nm_Sequence m)"
  "slice 12 20 (header_bytes m @ rest) = PutUint64 (nm_SessionID m)"
  "slice 20 28 (header_bytes m @ rest) = PutUint64 (of_int (time_Unix (nm_Timestamp m)))"
  "slice 28 32 (header_bytes m @ rest) = PutUint32 (of_nat (length (data_bytes (nm_Data m))))"
  by (simp_all add: header_bytes_def slice_skip slice_front)

lemma sint_of_int_64: "- (2 ^ 63) \<le> k \<Longrightarrow> k < 2 ^ 63 \<Longrightarrow> sint (of_int k :: u64) = k"
  by (simp add: sint_sbintrunc' signed_take_bit_int_eq_self)

text \<open>What survives the wire: everything but the routing fields, the time to live and the
  fraction of the second.\<close>

definition on_the_wire :: "'d NetMessage \<Rightarrow> 'd NetMessage" where
  "on_the_wire m =
     m\<lparr>nm_Source := [], nm_Destination := [], nm_TTL := 0, nm_ConnectionID := [], nm_UserData := None,
       nm_Timestamp := nm_Timestamp m - nm_Timestamp m mod Second,
       nm_Data := (if data_bytes (nm_Data m) = [] then None else nm_Data m)\<rparr>"

definition timestamp_ok :: "'d NetMessage \<Rightarrow> bool" where
  "timestamp_ok m \<longleftrightarrow> - (2 ^ 63) \<le> time_Unix (nm_Timestamp m) \<and> time_Unix (nm_Timestamp m) < 2 ^ 63"

lemma header_message_bytes:
  "timestamp_ok m \<Longrightarrow> header_message (header_bytes m @ rest) = (on_the_wire m)\<lparr>nm_Data := None\<rparr>"
  by (simp add: header_message_def header_slices timestamp_ok_def sint_of_int_64 time_of_Unix_Unix
      on_the_wire_def)

lemma length_field:
  "length (data_bytes (nm_Data m)) \<le> MaxDataSize \<Longrightarrow>
   unat (Uint32 (slice 28 32 (header_bytes m @ rest))) = length (data_bytes (nm_Data m))"
  by (simp add: header_slices unat_of_nat size_defs)

lemma bytes_header_message:
  assumes "length d \<ge> 32"
  shows "header_bytes ((header_message d)\<lparr>nm_Data := x\<rparr>) =
         take 28 d @ PutUint32 (of_nat (length (data_bytes x)))"
proof -
  have "header_bytes ((header_message d)\<lparr>nm_Data := x\<rparr>) =
          slice 0 4 d @ slice 4 8 d @ slice 8 12 d @ slice 12 20 d @ slice 20 28 d @
          PutUint32 (of_nat (length (data_bytes x)))"
    using assms by (simp add: header_bytes_def header_message_def Put_Uint length_slice)
  also have "\<dots> = take 28 d @ PutUint32 (of_nat (length (data_bytes x)))"
    by (simp add: slice_join_more flip: slice_0)
  finally show ?thesis .
qed

section \<open>Properties\<close>

text \<open>
  Property C17. The codec's round trip: what Encode writes has the announced size and starts with
  what EncodeHeader writes, and Decode and DecodeHeader read it back, whatever follows it in the
  buffer, up to the fields that are not on the wire: source, destination, time to live,
  connection, user data and the fraction of the second.
\<close>

theorem message_codec_roundtrip:
  assumes enc: "codec_Encode (Some m) = Inr buf" and ts: "timestamp_ok m"
  shows "length buf = Message_Size m \<and>
         codec_EncodeHeader (Some m) = Inr (take MessageHeaderSize buf) \<and>
         codec_Decode (buf @ rest) = Inr (on_the_wire m) \<and>
         codec_DecodeHeader (buf @ rest) =
           Inr ((on_the_wire m)\<lparr>nm_Data := map_option (\<lambda>_. []) (nm_Data (on_the_wire m))\<rparr>)"
proof -
  let ?d = "data_bytes (nm_Data m)"
  from enc have small: "length ?d \<le> MaxDataSize" and buf: "buf = header_bytes m @ ?d"
    by (simp_all add: codec_Encode_def Let_def split: if_splits)
  have size: "length buf = 32 + length ?d" by (simp add: buf)
  have len: "unat (Uint32 (slice 28 32 (buf @ rest))) = length ?d"
    using length_field [OF small] by (simp add: buf)
  have hm: "header_message (buf @ rest) = (on_the_wire m)\<lparr>nm_Data := None\<rparr>"
    using header_message_bytes [OF ts] by (simp add: buf)
  have body: "slice 32 (32 + length ?d) (buf @ rest) = ?d"
    by (simp add: buf slice_skip slice_front)
  have "codec_EncodeHeader (Some m) = Inr (take MessageHeaderSize buf)"
    by (simp add: buf codec_EncodeHeader_def MessageHeaderSize_def)
  moreover have "codec_Decode (buf @ rest) = Inr (on_the_wire m)"
    using small body by (cases "nm_Data m")
      (simp_all add: codec_Decode_def Let_def len hm size MessageHeaderSize_def on_the_wire_def data_bytes_def)
  moreover have "codec_DecodeHeader (buf @ rest) =
      Inr ((on_the_wire m)\<lparr>nm_Data := map_option (\<lambda>_. []) (nm_Data (on_the_wire m))\<rparr>)"
    using small by (cases "nm_Data m")
      (simp_all add: codec_DecodeHeader_def Let_def len hm size MessageHeaderSize_def on_the_wire_def data_bytes_def)
  ultimately show ?thesis by (simp add: size Message_Size_def MessageHeaderSize_def)
qed

theorem message_codec_roundtrip_witness:
  "codec_Decode (header_bytes (NewAckMessage 7 0 :: unit NetMessage) @ [1, 2]) =
   Inr (NewAckMessage 7 0 :: unit NetMessage)"
  using message_codec_roundtrip [of "NewAckMessage 7 0 :: unit NetMessage"
      "header_bytes (NewAckMessage 7 0 :: unit NetMessage)" "[1, 2]"]
  by (simp add: codec_Encode_def NewAckMessage_def NewMessage_def data_bytes_def timestamp_ok_def
      time_Unix_def unix_epoch_seconds_def on_the_wire_def size_defs)

text \<open>
  Decoding is exact: the message Decode accepts is one Encode accepts, and encoding
  it again yields exactly the bytes that were read, so no two byte sequences of the same length
  decode to one message. Input that is refused is too short or announces too much.
\<close>

theorem message_decode_encode:
  "case (codec_Decode data :: CodecError + 'd NetMessage) of
     Inr m \<Rightarrow> codec_Encode (Some m) = Inr (take (Message_Size m) data) \<and> Message_Size m \<le> length data \<and>
             Message_Size m \<le> MaxMessageSize
   | Inl e \<Rightarrow> length data < MessageHeaderSize \<or>
             unat (Uint32 (slice 28 32 data)) > MaxDataSize \<or>
             length data < MessageHeaderSize + unat (Uint32 (slice 28 32 data))"
proof (cases "codec_Decode data :: CodecError + 'd NetMessage")
  case (Inl e)
  then show ?thesis by (auto simp: codec_Decode_def Let_def split: if_splits)
next
  case (Inr m)
  define n where "n = unat (Uint32 (slice 28 32 data))"
  from Inr have len: "length data \<ge> 32 + n" and small: "n \<le> MaxDataSize"
    and m: "m = (header_message data)\<lparr>nm_Data := (if n > 0 then Some (slice 32 (32 + n) data) else None)\<rparr>"
    by (auto simp: codec_Decode_def Let_def n_def MessageHeaderSize_def header_message_def split: if_splits)
  have d: "data_bytes (nm_Data m) = slice 32 (32 + n) data"
    by (simp add: m data_bytes_def slice_def)
  have ld: "length (slice 32 (32 + n) data) = n" using len by (simp add: length_slice)
  have "PutUint32 (of_nat n) = slice 28 32 data"
    using len by (simp add: n_def Put_Uint length_slice)
  with len have "header_bytes m = take 28 data @ slice 28 32 data"
    using bytes_header_message [of data "nm_Data m"] d ld by (simp add: m)
  then have "header_bytes m @ slice 32 (32 + n) data = take (32 + n) data"
    by (simp add: slice_join_more slice_join flip: slice_0)
  with Inr d ld len small show ?thesis
    by (simp add: codec_Encode_def Message_Size_def size_defs)
qed

end
