(* ===== verification/Tcp_Connection.thy ===== *)
theory Tcp_Connection
  imports Network_Message Wire
begin

text \<open>
  \<^verbatim>\<open>network/tcp_connection.go\<close>, with the connection states of \<^verbatim>\<open>network/interfaces.go\<close>. The socket
  is that of \<open>Wire\<close>: segments to be read and bytes written. A connection has a socket, so the
  checks for a missing one are left out. The send loop is a goroutine: one turn of it is a step.
\<close>

section \<open>State\<close>

datatype ConnectionState =
    ConnectionStateConnected | ConnectionStateDisconnected | ConnectionStateReconnecting | ConnectionStateClosed

fun ConnectionState_String :: "ConnectionState \<Rightarrow> string" where
  "ConnectionState_String ConnectionStateConnected = ''connected''"
| "ConnectionState_String ConnectionStateDisconnected = ''disconnected''"
| "ConnectionState_String ConnectionStateReconnecting = ''reconnecting''"
| "ConnectionState_String ConnectionStateClosed = ''closed''"

record 'd tcpConnection =
  tcp_id :: string
  tcp_conn :: net_conn
  tcp_state :: ConnectionState
  tcp_userData :: "'d option"
  tcp_readTimeout :: Duration
  tcp_writeTimeout :: Duration
  tcp_lastActivity :: int
  tcp_closed :: bool
  tcp_sendChan :: "bytes chan"
  tcp_bytesRead :: u64
  tcp_bytesWritten :: u64
  tcp_messagesRead :: u64
  tcp_messagesSent :: u64

record ConnectionStatistics =
  cst_ConnectionID :: string
  cst_State :: ConnectionState
  cst_BytesRead :: u64
  cst_BytesWritten :: u64
  cst_MessagesRead :: u64
  cst_MessagesSent :: u64
  cst_LastActivity :: Time

datatype NetError =
    Conn_closed string | Write_failed | Deadline_failed | Nil_message | Encode_failed CodecError
  | Header_read_failed | Header_invalid CodecError | Data_read_failed

text \<open>\<open>counter\<close> is the package's \<^verbatim>\<open>connectionIDCounter\<close>.\<close>

definition NewTCPConnection :: "u64 \<Rightarrow> net_conn \<Rightarrow> Time \<Rightarrow> u64 \<times> 'd tcpConnection" where
  "NewTCPConnection counter conn now =
     (let counter = counter + 1
      in (counter,
          \<lparr>tcp_id = ''tcp-'' @ int_text (sint counter), tcp_conn = conn, tcp_state = ConnectionStateConnected,
           tcp_userData = None, tcp_readTimeout = 30 * Second, tcp_writeTimeout = 30 * Second,
           tcp_lastActivity = time_Unix now, tcp_closed = False, tcp_sendChan = make_chan 256,
           tcp_bytesRead = 0, tcp_bytesWritten = 0, tcp_messagesRead = 0, tcp_messagesSent = 0\<rparr>))"

section \<open>Sending\<close>

definition updateActivity :: "Time \<Rightarrow> 'd tcpConnection \<Rightarrow> 'd tcpConnection" where
  "updateActivity now tc = tc\<lparr>tcp_lastActivity := time_Unix now\<rparr>"

definition isClosed :: "'d tcpConnection \<Rightarrow> bool" where
  "isClosed tc = tcp_closed tc"

text \<open>Setting a deadline fails on a closed socket.\<close>

definition sendDirect :: "Time \<Rightarrow> bytes \<Rightarrow> 'd tcpConnection \<Rightarrow> (NetError + unit) \<times> 'd tcpConnection" where
  "sendDirect now data tc =
     (if tcp_writeTimeout tc > 0 \<and> con_closed (tcp_conn tc) then (Inl Deadline_failed, tc)
      else case conn_Write data (tcp_conn tc) of
             (False, c) \<Rightarrow> (Inl Write_failed, tc\<lparr>tcp_conn := c\<rparr>)
           | (True, c) \<Rightarrow>
               (Inr (), updateActivity now
                  (tc\<lparr>tcp_conn := c, tcp_bytesWritten := tcp_bytesWritten tc + of_nat (length data)\<rparr>)))"

text \<open>
  The select of \<^verbatim>\<open>Send\<close>, which follows the check for a closed connection: the connection may be
  closed in between.
\<close>

definition send_select :: "Time \<Rightarrow> bytes \<Rightarrow> 'd tcpConnection \<Rightarrow> (NetError, unit) outcome \<times> 'd tcpConnection" where
  "send_select now data tc =
     (case try_send data (tcp_sendChan tc) of
        Send_panic \<Rightarrow> (Panic, tc)
      | Sent ch \<Rightarrow> (Ok (), tc\<lparr>tcp_sendChan := ch\<rparr>)
      | Send_full \<Rightarrow> (case sendDirect now data tc of (Inl e, tc') \<Rightarrow> (Err e, tc') | (Inr _, tc') \<Rightarrow> (Ok (), tc')))"

definition tcp_Send :: "Time \<Rightarrow> bytes \<Rightarrow> 'd tcpConnection \<Rightarrow> (NetError, unit) outcome \<times> 'd tcpConnection" where
  "tcp_Send now data tc =
     (if isClosed tc then (Err (Conn_closed (tcp_id tc)), tc)
      else if data = [] then (Ok (), tc)
      else send_select now data tc)"

text \<open>The message is shared with the caller, who sees its connection set.\<close>

definition tcp_SendMessage ::
  "Time \<Rightarrow> 'd NetMessage option \<Rightarrow> 'd tcpConnection \<Rightarrow>
     (NetError, unit) outcome \<times> 'd NetMessage option \<times> 'd tcpConnection" where
  "tcp_SendMessage now msg tc =
     (if isClosed tc then (Err (Conn_closed (tcp_id tc)), msg, tc)
      else case msg of
             None \<Rightarrow> (Err Nil_message, msg, tc)
           | Some m \<Rightarrow>
               let m' = m\<lparr>nm_ConnectionID := tcp_id tc\<rparr>
               in (case codec_Encode (Some m') of
                     Inl e \<Rightarrow> (Err (Encode_failed e), Some m', tc)
                   | Inr data \<Rightarrow>
                       (case tcp_Send now data tc of
                          (Ok _, tc') \<Rightarrow> (Ok (), Some m', tc'\<lparr>tcp_messagesSent := tcp_messagesSent tc' + 1\<rparr>)
                        | (r, tc') \<Rightarrow> (r, Some m', tc'))))"

text \<open>A channel that is closed already would panic; the flag is swapped first and only once.\<close>

definition tcp_Close :: "'d tcpConnection \<Rightarrow> 'd tcpConnection option" where
  "tcp_Close tc =
     (if tcp_closed tc then Some tc
      else case close_chan (tcp_sendChan tc) of
             None \<Rightarrow> None
           | Some ch \<Rightarrow> Some (tc\<lparr>tcp_closed := True, tcp_state := ConnectionStateClosed, tcp_sendChan := ch,
                                  tcp_conn := conn_Close (tcp_conn tc)\<rparr>))"

text \<open>A turn of the send loop: \<open>False\<close> when it ends. A panic in it is recovered.\<close>

definition sendLoop_turn :: "Time \<Rightarrow> 'd tcpConnection \<Rightarrow> bool \<times> 'd tcpConnection" where
  "sendLoop_turn now tc =
     (case try_recv (tcp_sendChan tc) of
        Recv_empty \<Rightarrow> (True, tc)
      | Recv_closed \<Rightarrow> (False, tc)
      | Received data ch \<Rightarrow>
          let tc1 = tc\<lparr>tcp_sendChan := ch\<rparr>
          in if isClosed tc1 then (False, tc1)
             else case sendDirect now data tc1 of
                    (Inr _, tc2) \<Rightarrow> (True, tc2)
                  | (Inl e, tc2) \<Rightarrow> (False, case tcp_Close tc2 of None \<Rightarrow> tc2 | Some tc3 \<Rightarrow> tc3))"

section \<open>Receiving\<close>

text \<open>The loop of \<^verbatim>\<open>readFull\<close>: the bytes read and whether all \<open>n\<close> arrived.\<close>

function read_loop :: "nat \<Rightarrow> bytes \<Rightarrow> 'd tcpConnection \<Rightarrow> bool \<times> bytes \<times> 'd tcpConnection" where
  "read_loop n buf tc =
     (if length buf < n
      then case conn_Read (n - length buf) (tcp_conn tc) of
             (None, c) \<Rightarrow> (False, buf, tc\<lparr>tcp_conn := c\<rparr>)
           | (Some b, c) \<Rightarrow>
               read_loop n (buf @ b) (tc\<lparr>tcp_conn := c, tcp_bytesRead := tcp_bytesRead tc + of_nat (length b)\<rparr>)
      else (True, buf, tc))"
  by pat_completeness auto
termination
  by (relation "measure (\<lambda>(n, buf, tc). pending (tcp_conn tc))") (auto dest!: conn_Read_pending(2) [OF sym])

declare read_loop.simps [simp del]

definition readFull :: "nat \<Rightarrow> 'd tcpConnection \<Rightarrow> bool \<times> bytes \<times> 'd tcpConnection" where
  "readFull n tc = read_loop n [] tc"

text \<open>The capacity that \<^verbatim>\<open>DecodeHeader\<close> reserves: the length field of the header.\<close>

definition reserved :: "bytes \<Rightarrow> nat" where
  "reserved headerBuf = unat (Uint32 (slice 28 32 headerBuf))"

definition tcp_ReadMessage :: "Time \<Rightarrow> 'd tcpConnection \<Rightarrow> (NetError + 'd NetMessage) \<times> 'd tcpConnection" where
  "tcp_ReadMessage now tc =
     (if isClosed tc then (Inl (Conn_closed (tcp_id tc)), tc)
      else if tcp_readTimeout tc > 0 \<and> con_closed (tcp_conn tc) then (Inl Deadline_failed, tc)
      else case readFull MessageHeaderSize tc of
             (False, _, tc1) \<Rightarrow> (Inl Header_read_failed, tc1)
           | (True, headerBuf, tc1) \<Rightarrow>
               (case codec_DecodeHeader headerBuf of
                  Inl e \<Rightarrow> (Inl (Header_invalid e), tc1)
                | Inr header \<Rightarrow>
                    (case (if reserved headerBuf > 0
                           then case readFull (reserved headerBuf) tc1 of
                                  (False, _, tc2) \<Rightarrow> (None, tc2)
                                | (True, dataBuf, tc2) \<Rightarrow> (Some (header\<lparr>nm_Data := Some dataBuf\<rparr>), tc2)
                           else (Some header, tc1)) of
                       (None, tc2) \<Rightarrow> (Inl Data_read_failed, tc2)
                     | (Some m, tc2) \<Rightarrow>
                         (Inr (m\<lparr>nm_ConnectionID := tcp_id tc2\<rparr>),
                          updateActivity now (tc2\<lparr>tcp_messagesRead := tcp_messagesRead tc2 + 1\<rparr>)))))"

section \<open>Accessors\<close>

definition SetReadTimeout :: "Duration \<Rightarrow> 'd tcpConnection \<Rightarrow> 'd tcpConnection" where
  "SetReadTimeout timeout tc = tc\<lparr>tcp_readTimeout := timeout\<rparr>"

definition SetWriteTimeout :: "Duration \<Rightarrow> 'd tcpConnection \<Rightarrow> 'd tcpConnection" where
  "SetWriteTimeout timeout tc = tc\<lparr>tcp_writeTimeout := timeout\<rparr>"

definition GetLastActivity :: "'d tcpConnection \<Rightarrow> Time" where
  "GetLastActivity tc = time_of_Unix (tcp_lastActivity tc)"

definition GetUserData :: "'d tcpConnection \<Rightarrow> 'd option" where
  "GetUserData tc = tcp_userData tc"

definition SetUserData :: "'d option \<Rightarrow> 'd tcpConnection \<Rightarrow> 'd tcpConnection" where
  "SetUserData data tc = tc\<lparr>tcp_userData := data\<rparr>"

definition tcp_GetStatistics :: "'d tcpConnection \<Rightarrow> ConnectionStatistics" where
  "tcp_GetStatistics tc =
     \<lparr>cst_ConnectionID = tcp_id tc, cst_State = tcp_state tc, cst_BytesRead = tcp_bytesRead tc,
      cst_BytesWritten = tcp_bytesWritten tc, cst_MessagesRead = tcp_messagesRead tc,
      cst_MessagesSent = tcp_messagesSent tc, cst_LastActivity = GetLastActivity tc\<rparr>"

section \<open>Reading a stream\<close>

text \<open>The bytes that will still arrive, however they are cut into segments.\<close>

abbreviation incoming :: "'d tcpConnection \<Rightarrow> bytes" where
  "incoming tc \<equiv> concat (con_in (tcp_conn tc))"

definition readable :: "'d tcpConnection \<Rightarrow> bool" where
  "readable tc \<longleftrightarrow> \<not> tcp_closed tc \<and> \<not> con_closed (tcp_conn tc) \<and> [] \<notin> set (con_in (tcp_conn tc))"

lemma conn_Read_stream:
  assumes "[] \<notin> set (con_in c)" "\<not> con_closed c" "concat (con_in c) \<noteq> []" "0 < n"
  obtains b c' where "conn_Read n c = (Some b, c')" "b \<noteq> []" "length b \<le> n" "concat (con_in c) = b @ concat (con_in c')"
    "[] \<notin> set (con_in c')" "\<not> con_closed c'" "con_out c' = con_out c"
proof -
  from assms(3) obtain seg segs where c: "con_in c = seg # segs" by (cases "con_in c") auto
  with assms show thesis
    by (intro that [of "take n seg" "c\<lparr>con_in := (if length seg \<le> n then segs else drop n seg # segs)\<rparr>"])
      (auto simp: conn_Read_def)
qed

text \<open>What reading changes: the segments, the counter of bytes and nothing else.\<close>

definition same_but_read :: "'d tcpConnection \<Rightarrow> 'd tcpConnection \<Rightarrow> bool" where
  "same_but_read tc tc' \<longleftrightarrow>
     tcp_id tc' = tcp_id tc \<and> tcp_readTimeout tc' = tcp_readTimeout tc \<and> con_out (tcp_conn tc') = con_out (tcp_conn tc) \<and>
     tcp_sendChan tc' = tcp_sendChan tc \<and> tcp_messagesRead tc' = tcp_messagesRead tc"

lemma read_loop_stream:
  assumes "readable tc" "n \<le> length buf + length (incoming tc)"
  shows "\<exists>tc'. read_loop n buf tc = (True, buf @ take (n - length buf) (incoming tc), tc') \<and>
     incoming tc' = drop (n - length buf) (incoming tc) \<and> readable tc' \<and> same_but_read tc tc'"
  using assms
proof (induction n buf tc rule: read_loop.induct)
  case (1 n buf tc)
  show ?case
  proof (cases "length buf < n")
    case False
    then show ?thesis using "1.prems" by (subst read_loop.simps) (simp add: same_but_read_def)
  next
    case True
    then have "0 < length (incoming tc)" using "1.prems"(2) by linarith
    then have "incoming tc \<noteq> []" by (metis length_greater_0_conv)
    with "1.prems"(1) True obtain b c' where b: "conn_Read (n - length buf) (tcp_conn tc) = (Some b, c')" "b \<noteq> []"
      "length b \<le> n - length buf" "incoming tc = b @ concat (con_in c')" "[] \<notin> set (con_in c')" "\<not> con_closed c'"
      "con_out c' = con_out (tcp_conn tc)"
      using conn_Read_stream [of "tcp_conn tc" "n - length buf"] by (metis readable_def zero_less_diff)
    define tc1 where "tc1 = tc\<lparr>tcp_conn := c', tcp_bytesRead := tcp_bytesRead tc + of_nat (length b)\<rparr>"
    have r1: "readable tc1" using b "1.prems"(1) by (simp add: readable_def tc1_def)
    have in1: "incoming tc1 = concat (con_in c')" by (simp add: tc1_def)
    have step: "read_loop n buf tc = read_loop n (buf @ b) tc1"
      using True b(1) by (subst read_loop.simps) (simp add: tc1_def)
    have "n \<le> length (buf @ b) + length (incoming tc1)" using "1.prems"(2) b(4) in1 by simp
    from "1.IH" [OF True b(1) [symmetric] refl, folded tc1_def, OF r1 this] obtain tc' where
      tc': "read_loop n (buf @ b) tc1 = (True, (buf @ b) @ take (n - length (buf @ b)) (incoming tc1), tc')"
      "incoming tc' = drop (n - length (buf @ b)) (incoming tc1)" "readable tc'" "same_but_read tc1 tc'"
      by blast
    have "same_but_read tc tc'" using tc'(4) b(7) by (simp add: same_but_read_def tc1_def)
    then show ?thesis
      using tc' step b(3,4) in1 by (intro exI [of _ tc']) (simp add: take_append drop_append)
  qed
qed

lemma readFull_stream:
  assumes "readable tc" "incoming tc = b @ rest"
  obtains tc' where "readFull (length b) tc = (True, b, tc')" "incoming tc' = rest" "readable tc'" "same_but_read tc tc'"
  using read_loop_stream [OF assms(1), of "length b" "[]"] assms(2) by (auto simp: readFull_def)

lemma ReadMessage_stream:
  assumes "readable tc" "codec_Encode (Some m) = Inr buf" "timestamp_ok m" "incoming tc = buf @ rest"
  obtains tc' where "tcp_ReadMessage now tc = (Inr ((on_the_wire m)\<lparr>nm_ConnectionID := tcp_id tc\<rparr>), tc')"
    "incoming tc' = rest" "readable tc'" "tcp_id tc' = tcp_id tc" "tcp_messagesRead tc' = tcp_messagesRead tc + 1"
proof -
  let ?d = "data_bytes (nm_Data m)"
  have small: "length ?d \<le> MaxDataSize" and buf: "buf = header_bytes m @ ?d"
    using assms(2) by (simp_all add: codec_Encode_def Let_def split: if_splits)
  obtain tc1 where h: "readFull 32 tc = (True, header_bytes m, tc1)" "incoming tc1 = ?d @ rest" "readable tc1" "same_but_read tc tc1"
    using readFull_stream [OF assms(1), of "header_bytes m" "?d @ rest"] assms(4) buf by auto
  have len: "reserved (header_bytes m) = length ?d"
    using length_field [OF small, of "[]"] by (simp add: reserved_def)
  have hm: "(header_message (header_bytes m) :: 'a NetMessage) = (on_the_wire m)\<lparr>nm_Data := None\<rparr>"
    using header_message_bytes [OF assms(3), of "[]"] by simp
  have dec: "codec_DecodeHeader (header_bytes m) =
      Inr ((on_the_wire m)\<lparr>nm_Data := (if ?d = [] then None else Some [])\<rparr>)"
    using small len by (simp add: codec_DecodeHeader_def Let_def hm MessageHeaderSize_def reserved_def)
  obtain tc2 where d: "readFull (length ?d) tc1 = (True, ?d, tc2)" "incoming tc2 = rest" "readable tc2" "same_but_read tc1 tc2"
    using readFull_stream [OF h(3), of ?d rest] h(2) by auto
  have open_: "\<not> isClosed tc" "\<not> con_closed (tcp_conn tc)" using assms(1) by (simp_all add: readable_def isClosed_def)
  have f1: "tcp_id tc1 = tcp_id tc" "tcp_messagesRead tc1 = tcp_messagesRead tc"
    and f2: "tcp_id tc2 = tcp_id tc1" "tcp_messagesRead tc2 = tcp_messagesRead tc1"
    using h(4) d(4) by (simp_all add: same_but_read_def)
  note read = tcp_ReadMessage_def [of now tc] MessageHeaderSize_def h(1) dec len open_
  show thesis
  proof (cases "?d = []")
    case True
    then have w: "(on_the_wire m)\<lparr>nm_Data := None\<rparr> = on_the_wire m" by (simp add: on_the_wire_def)
    have "tcp_ReadMessage now tc = (Inr ((on_the_wire m)\<lparr>nm_ConnectionID := tcp_id tc1\<rparr>),
        updateActivity now (tc1\<lparr>tcp_messagesRead := tcp_messagesRead tc1 + 1\<rparr>))"
      using True by (simp add: read w)
    then show thesis
      using h(2,3) f1 True
      by (intro that [of "updateActivity now (tc1\<lparr>tcp_messagesRead := tcp_messagesRead tc1 + 1\<rparr>)"]) (simp_all add: updateActivity_def readable_def)
  next
    case False
    then have w: "(on_the_wire m)\<lparr>nm_Data := Some ?d\<rparr> = on_the_wire m"
      by (cases "nm_Data m") (simp_all add: on_the_wire_def data_bytes_def)
    have "tcp_ReadMessage now tc = (Inr ((on_the_wire m)\<lparr>nm_ConnectionID := tcp_id tc2\<rparr>),
        updateActivity now (tc2\<lparr>tcp_messagesRead := tcp_messagesRead tc2 + 1\<rparr>))"
      using False by (simp add: read d(1) w)
    then show thesis
      using d(2,3) f1 f2
      by (intro that [of "updateActivity now (tc2\<lparr>tcp_messagesRead := tcp_messagesRead tc2 + 1\<rparr>)"]) (simp_all add: updateActivity_def readable_def)
  qed
qed

text \<open>The messages of a sequence of reads, up to the first error.\<close>

fun read_messages :: "Time list \<Rightarrow> 'd tcpConnection \<Rightarrow> 'd NetMessage list \<times> 'd tcpConnection" where
  "read_messages [] tc = ([], tc)"
| "read_messages (now # nows) tc =
     (case tcp_ReadMessage now tc of
        (Inl e, tc') \<Rightarrow> ([], tc')
      | (Inr m, tc') \<Rightarrow> (let (ms, tc'') = read_messages nows tc' in (m # ms, tc'')))"

definition encoded :: "'d NetMessage \<Rightarrow> bytes" where
  "encoded m = header_bytes m @ data_bytes (nm_Data m)"

definition sendable :: "'d NetMessage \<Rightarrow> bool" where
  "sendable m \<longleftrightarrow> length (data_bytes (nm_Data m)) \<le> MaxDataSize \<and> timestamp_ok m"

lemma sendable_Encode: "sendable m \<Longrightarrow> codec_Encode (Some m) = Inr (encoded m)"
  by (simp add: sendable_def codec_Encode_def encoded_def)

lemma read_messages_stream:
  assumes "readable tc" "\<forall>m\<in>set ms. sendable m" "incoming tc = concat (map encoded ms) @ rest" "length nows = length ms"
  shows "\<exists>tc'. read_messages nows tc = (map (\<lambda>m. (on_the_wire m)\<lparr>nm_ConnectionID := tcp_id tc\<rparr>) ms, tc') \<and>
     incoming tc' = rest \<and> readable tc'"
  using assms
proof (induction ms arbitrary: tc nows)
  case (Cons m ms)
  then obtain now nows' where nows: "nows = now # nows'" by (cases nows) auto
  have "incoming tc = encoded m @ (concat (map encoded ms) @ rest)" using Cons.prems(3) by simp
  moreover have "codec_Encode (Some m) = Inr (encoded m)" "timestamp_ok m"
    using Cons.prems(2) sendable_Encode by (auto simp: sendable_def)
  ultimately obtain tc1 where tc1: "tcp_ReadMessage now tc = (Inr ((on_the_wire m)\<lparr>nm_ConnectionID := tcp_id tc\<rparr>), tc1)"
    "incoming tc1 = concat (map encoded ms) @ rest" "readable tc1" "tcp_id tc1 = tcp_id tc"
    using ReadMessage_stream [OF Cons.prems(1)] by metis
  from Cons.IH [OF tc1(3) _ tc1(2), of nows'] Cons.prems(2,4) nows obtain tc' where
    "read_messages nows' tc1 = (map (\<lambda>m. (on_the_wire m)\<lparr>nm_ConnectionID := tcp_id tc1\<rparr>) ms, tc')"
    "incoming tc' = rest" "readable tc'"
    by auto
  then show ?case using nows tc1 by simp
qed simp

section \<open>Sending a stream\<close>

text \<open>
  A run of a sender: messages handed to \<^verbatim>\<open>SendMessage\<close> while the queue has room, and turns of the
  send loop, in any order. \<open>ms\<close> are the messages accepted.
\<close>

definition writable :: "'d tcpConnection \<Rightarrow> bool" where
  "writable tc \<longleftrightarrow> \<not> tcp_closed tc \<and> \<not> con_closed (tcp_conn tc) \<and> \<not> ch_closed (tcp_sendChan tc)"

inductive sends :: "'d tcpConnection \<Rightarrow> 'd NetMessage list \<Rightarrow> 'd tcpConnection \<Rightarrow> bool" where
  idle: "sends tc [] tc"
| message: "\<lbrakk>sends tc ms tc1; length (ch_buf (tcp_sendChan tc1)) < ch_cap (tcp_sendChan tc1);
     tcp_SendMessage now (Some m) tc1 = (Ok (), m', tc2)\<rbrakk> \<Longrightarrow> sends tc (ms @ [m]) tc2"
| turn: "\<lbrakk>sends tc ms tc1; sendLoop_turn now tc1 = (go, tc2)\<rbrakk> \<Longrightarrow> sends tc ms tc2"

text \<open>Everything accepted, written or queued.\<close>

abbreviation outgoing :: "'d tcpConnection \<Rightarrow> bytes" where
  "outgoing tc \<equiv> con_out (tcp_conn tc) @ concat (ch_buf (tcp_sendChan tc))"

lemma encoded_connection [simp]: "encoded (m\<lparr>nm_ConnectionID := c\<rparr>) = encoded m" "encoded m \<noteq> []"
proof -
  show "encoded (m\<lparr>nm_ConnectionID := c\<rparr>) = encoded m" by (simp add: encoded_def header_bytes_def)
  have "length (header_bytes m) = 32" by simp
  then show "encoded m \<noteq> []" unfolding encoded_def by (cases "header_bytes m") simp_all
qed

lemma SendMessage_open:
  assumes "writable tc" "sendable m"
  shows "tcp_SendMessage now (Some m) tc =
    (let m' = Some (m\<lparr>nm_ConnectionID := tcp_id tc\<rparr>)
     in if length (ch_buf (tcp_sendChan tc)) < ch_cap (tcp_sendChan tc)
        then (Ok (), m', tc\<lparr>tcp_sendChan := (tcp_sendChan tc)\<lparr>ch_buf := ch_buf (tcp_sendChan tc) @ [encoded m]\<rparr>,
                           tcp_messagesSent := tcp_messagesSent tc + 1\<rparr>)
        else (Ok (), m', tc\<lparr>tcp_conn := (tcp_conn tc)\<lparr>con_out := con_out (tcp_conn tc) @ encoded m\<rparr>,
                           tcp_bytesWritten := tcp_bytesWritten tc + of_nat (length (encoded m)),
                           tcp_lastActivity := time_Unix now, tcp_messagesSent := tcp_messagesSent tc + 1\<rparr>))"
proof -
  have "codec_Encode (Some (m\<lparr>nm_ConnectionID := tcp_id tc\<rparr>)) = Inr (encoded m)"
    using assms(2) sendable_Encode [of "m\<lparr>nm_ConnectionID := tcp_id tc\<rparr>"] by (simp add: sendable_def timestamp_ok_def)
  then show ?thesis
    using assms(1)
    by (simp add: tcp_SendMessage_def tcp_Send_def send_select_def sendDirect_def conn_Write_def writable_def isClosed_def
        try_send_def updateActivity_def Let_def)
qed

lemma sendLoop_open:
  assumes "writable tc"
  shows "sendLoop_turn now tc =
    (case ch_buf (tcp_sendChan tc) of
       [] \<Rightarrow> (True, tc)
     | data # rest \<Rightarrow>
         (True, tc\<lparr>tcp_sendChan := (tcp_sendChan tc)\<lparr>ch_buf := rest\<rparr>,
                   tcp_conn := (tcp_conn tc)\<lparr>con_out := con_out (tcp_conn tc) @ data\<rparr>,
                   tcp_bytesWritten := tcp_bytesWritten tc + of_nat (length data), tcp_lastActivity := time_Unix now\<rparr>))"
  using assms
  by (auto simp: sendLoop_turn_def try_recv_def writable_def isClosed_def sendDirect_def conn_Write_def updateActivity_def
      Let_def split: list.split)

lemma sends_inv:
  assumes "sends tc ms tc'" "writable tc" "\<forall>m\<in>set ms. sendable m"
  shows "writable tc' \<and> outgoing tc' = outgoing tc @ concat (map encoded ms)"
  using assms
proof (induction rule: sends.induct)
  case (message tc ms tc1 now m m' tc2)
  then have w: "writable tc1" "outgoing tc1 = outgoing tc @ concat (map encoded ms)" and m: "sendable m" by auto
  from message.hyps(3) message.hyps(2) show ?case
    unfolding SendMessage_open [OF w(1) m] using w by (auto simp: Let_def writable_def)
next
  case (turn tc ms tc1 now go tc2)
  then have w: "writable tc1" "outgoing tc1 = outgoing tc @ concat (map encoded ms)" by auto
  from turn.hyps(2) show ?case
    unfolding sendLoop_open [OF w(1)] using w by (auto simp: writable_def split: list.splits)
qed simp

definition turns :: "Time list \<Rightarrow> 'd tcpConnection \<Rightarrow> 'd tcpConnection" where
  "turns ts tc = foldl (\<lambda>tc now. snd (sendLoop_turn now tc)) tc ts"

lemma turns_flush:
  assumes "writable tc" "length ts = length (ch_buf (tcp_sendChan tc))"
  shows "ch_buf (tcp_sendChan (turns ts tc)) = [] \<and> con_out (tcp_conn (turns ts tc)) = outgoing tc"
  using assms
proof (induction ts arbitrary: tc)
  case (Cons t ts)
  then obtain data rest where q: "ch_buf (tcp_sendChan tc) = data # rest" by (cases "ch_buf (tcp_sendChan tc)") auto
  define tc1 where "tc1 = snd (sendLoop_turn t tc)"
  have "writable tc1" "ch_buf (tcp_sendChan tc1) = rest" "outgoing tc1 = outgoing tc"
    using Cons.prems(1) q by (auto simp: tc1_def sendLoop_open [OF Cons.prems(1)] writable_def)
  with Cons.IH [of tc1] Cons.prems(2) q show ?case by (simp add: turns_def tc1_def)
qed (simp add: turns_def)

text \<open>
  Messages sent over a connection arrive: whatever the interleaving of senders and
  the send loop, as long as the queue has room, the loop needs as many turns as there are
  queued messages to write all of them, and a peer that receives these bytes, cut into segments
  in any way, reads exactly these messages, in order, as they are on the wire, and nothing more.
\<close>

theorem tcp_end_to_end:
  assumes "sends s ms s'" "writable s" "outgoing s = []" "\<forall>m\<in>set ms. sendable m"
    and "length ts = length (ch_buf (tcp_sendChan s'))"
    and "readable r" "incoming r = con_out (tcp_conn (turns ts s'))" "length nows = length ms"
  shows "\<exists>r'. read_messages nows r = (map (\<lambda>m. (on_the_wire m)\<lparr>nm_ConnectionID := tcp_id r\<rparr>) ms, r') \<and>
     incoming r' = []"
proof -
  have inv: "writable s'" "outgoing s' = concat (map encoded ms)"
    using sends_inv [OF assms(1,2,4)] assms(3) by simp_all
  have "incoming r = concat (map encoded ms) @ []"
    using turns_flush [OF inv(1) assms(5)] inv(2) assms(7) by simp
  from read_messages_stream [OF assms(6,4) this assms(8)] show ?thesis by blast
qed

text \<open>A sender with two messages queued, and a receiver that gets the bytes one by one.\<close>

definition demo_conn :: "bytes list \<Rightarrow> unit tcpConnection" where
  "demo_conn segs = snd (NewTCPConnection 0 \<lparr>con_in = segs, con_out = [], con_closed = False\<rparr> 0)"

lemma demo_conn_open: "writable (demo_conn segs)" "outgoing (demo_conn segs) = []"
  "con_in (tcp_conn (demo_conn segs)) = segs" "\<not> tcp_closed (demo_conn segs)" "\<not> con_closed (tcp_conn (demo_conn segs))"
  "ch_cap (tcp_sendChan (demo_conn segs)) = 256" "ch_buf (tcp_sendChan (demo_conn segs)) = []"
  by (simp_all add: demo_conn_def NewTCPConnection_def writable_def Let_def)

lemma sendable_ack: "sendable (NewAckMessage k 0)"
  by (simp add: sendable_def NewAckMessage_def NewMessage_def data_bytes_def timestamp_ok_def time_Unix_def
      unix_epoch_seconds_def)

theorem tcp_end_to_end_witness:
  "\<exists>s r'. sends (demo_conn []) [NewAckMessage 7 0, NewAckMessage 8 0] s \<and>
     map nm_Sequence (fst (read_messages [5, 6] (demo_conn (map (\<lambda>b. [b]) (con_out (tcp_conn (turns [1, 2] s))))))) = [7, 8]"
proof -
  let ?a = "NewAckMessage 7 0 :: unit NetMessage" and ?b = "NewAckMessage 8 0 :: unit NetMessage"
  define s1 where "s1 = snd (snd (tcp_SendMessage 1 (Some ?a) (demo_conn [])))"
  have a: "tcp_SendMessage 1 (Some ?a) (demo_conn []) = (Ok (), Some (?a\<lparr>nm_ConnectionID := tcp_id (demo_conn [])\<rparr>), s1)"
    using SendMessage_open [OF demo_conn_open(1) [of "[]"] sendable_ack [of 7], of 1] demo_conn_open(6,7) [of "[]"]
    by (simp add: s1_def Let_def)
  have s1: "sends (demo_conn []) [?a] s1" using sends.message [OF sends.idle _ a] demo_conn_open(6,7) by simp
  have q1: "writable s1" "ch_buf (tcp_sendChan s1) = [encoded ?a]" "ch_cap (tcp_sendChan s1) = 256"
    using SendMessage_open [OF demo_conn_open(1) [of "[]"] sendable_ack [of 7], of 1] demo_conn_open [of "[]"]
    by (simp_all add: s1_def Let_def writable_def)
  define s2 where "s2 = snd (snd (tcp_SendMessage 2 (Some ?b) s1))"
  have b: "tcp_SendMessage 2 (Some ?b) s1 = (Ok (), Some (?b\<lparr>nm_ConnectionID := tcp_id s1\<rparr>), s2)"
    using SendMessage_open [OF q1(1) sendable_ack [of 8], of 2] q1(2,3) by (simp add: s2_def Let_def)
  have s2: "sends (demo_conn []) [?a, ?b] s2" using sends.message [OF s1 _ b] q1(2,3) by simp
  have q2: "length (ch_buf (tcp_sendChan s2)) = 2"
    using SendMessage_open [OF q1(1) sendable_ack [of 8], of 2] q1(2,3) by (simp add: s2_def Let_def)
  let ?r = "demo_conn (map (\<lambda>b. [b]) (con_out (tcp_conn (turns [1, 2] s2))))"
  have "readable ?r" using demo_conn_open by (auto simp: readable_def)
  moreover have "incoming ?r = con_out (tcp_conn (turns [1, 2] s2))"
    by (simp add: demo_conn_open concat_map_singleton)
  ultimately obtain r' where "read_messages [5, 6] ?r =
      (map (\<lambda>m. (on_the_wire m)\<lparr>nm_ConnectionID := tcp_id ?r\<rparr>) [?a, ?b], r')"
    using tcp_end_to_end [OF s2 demo_conn_open(1,2), of "[1, 2]" ?r "[5, 6]"] sendable_ack q2 by auto
  with s2 show ?thesis by (auto simp: on_the_wire_def NewAckMessage_def intro!: exI [of _ s2])
qed

text \<open>
  Order is lost when the queue is full: the next message is written at once, before
  everything that is queued, and once the loop has caught up the peer sees it first.
\<close>

theorem full_queue_reorders:
  assumes "writable tc" "sendable m" "ch_cap (tcp_sendChan tc) \<le> length (ch_buf (tcp_sendChan tc))"
    and "length ts = length (ch_buf (tcp_sendChan tc))"
  shows "\<exists>m' tc'. tcp_SendMessage now (Some m) tc = (Ok (), m', tc') \<and>
     con_out (tcp_conn tc') = con_out (tcp_conn tc) @ encoded m \<and> tcp_sendChan tc' = tcp_sendChan tc \<and>
     con_out (tcp_conn (turns ts tc')) = con_out (tcp_conn tc) @ encoded m @ concat (ch_buf (tcp_sendChan tc))"
proof -
  define tc' where "tc' = snd (snd (tcp_SendMessage now (Some m) tc))"
  have s: "tcp_SendMessage now (Some m) tc = (Ok (), Some (m\<lparr>nm_ConnectionID := tcp_id tc\<rparr>), tc')"
    and t: "writable tc'" "tcp_sendChan tc' = tcp_sendChan tc" "con_out (tcp_conn tc') = con_out (tcp_conn tc) @ encoded m"
    using assms(1,3) by (auto simp: tc'_def SendMessage_open [OF assms(1,2)] Let_def writable_def)
  show ?thesis
    using s t turns_flush [OF t(1), of ts] assms(4) by simp
qed

definition full_conn :: "unit tcpConnection" where
  "full_conn = (demo_conn [])\<lparr>tcp_sendChan := \<lparr>ch_buf = replicate 256 [1], ch_cap = 256, ch_closed = False\<rparr>\<rparr>"

theorem full_queue_reorders_witness:
  "\<exists>m' tc'. tcp_SendMessage 1 (Some (NewAckMessage 7 0)) full_conn = (Ok (), m', tc') \<and>
     con_out (tcp_conn tc') = encoded (NewAckMessage 7 0 :: unit NetMessage)"
proof -
  have f: "writable full_conn" "ch_cap (tcp_sendChan full_conn) = 256" "length (ch_buf (tcp_sendChan full_conn)) = 256"
    "con_out (tcp_conn full_conn) = []"
    using demo_conn_open [of "[]"] by (simp_all add: full_conn_def writable_def)
  from full_queue_reorders [OF f(1) sendable_ack, of "replicate 256 0" 1 7] f show ?thesis by auto
qed

text \<open>
  Closing a connection loses what is queued, and a sender that has passed the check for a
  closed connection before it was closed panics.
\<close>

theorem close_drops_and_panics:
  assumes "writable tc" "data \<noteq> []"
  shows "\<exists>tc'. tcp_Close tc = Some tc' \<and> tcp_Close tc' = Some tc' \<and>
     con_out (tcp_conn (turns ts tc')) = con_out (tcp_conn tc) \<and>
     tcp_Send now data tc' = (Err (Conn_closed (tcp_id tc)), tc') \<and> send_select now data tc' = (Panic, tc')"
proof -
  define tc' where "tc' = the (tcp_Close tc)"
  have c: "tcp_Close tc = Some tc'" "tcp_closed tc'" "ch_closed (tcp_sendChan tc')"
    "con_out (tcp_conn tc') = con_out (tcp_conn tc)" "tcp_id tc' = tcp_id tc"
    using assms(1) by (simp_all add: tc'_def tcp_Close_def close_chan_def writable_def conn_Close_def)
  have "con_out (tcp_conn (turns ts x)) = con_out (tcp_conn x)" if "tcp_closed x" for x :: "'a tcpConnection"
    using that
  proof (induction ts arbitrary: x)
    case (Cons t ts)
    have "tcp_closed (snd (sendLoop_turn t x))" "con_out (tcp_conn (snd (sendLoop_turn t x))) = con_out (tcp_conn x)"
      using Cons.prems by (auto simp: sendLoop_turn_def isClosed_def Let_def split: recv_outcome.split)
    with Cons.IH show ?case by (simp add: turns_def)
  qed (simp add: turns_def)
  with c show ?thesis
    by (auto simp: tcp_Close_def tcp_Send_def isClosed_def send_select_def try_send_def)
qed

end
