(* ===== verification/Tcp_Server.thy ===== *)
theory Tcp_Server
  imports Tcp_Connection
begin

text \<open>
  \<^verbatim>\<open>network/tcp_server.go\<close> and the network configuration of \<^verbatim>\<open>network/interfaces.go\<close>. Connections
  are shared pointers and live in a heap. The goroutines of the server are steps: an iteration
  of the accept loop (in two halves, up to the moment the connection is handed on), a turn of the
  loop that calls the connection handler, a turn of a connection's reader and its end. The
  goroutines that run are part of the state, because \<^verbatim>\<open>Stop\<close> waits for them. The calls of the
  handlers are recorded. \<open>srv_counter\<close> is the counter of connection ids of the whole process.
\<close>

section \<open>Configuration\<close>

type_synonym Protocol = string

definition ProtocolTCP :: Protocol where "ProtocolTCP = ''tcp''"
definition ProtocolUDP :: Protocol where "ProtocolUDP = ''udp''"

record NetworkConfig =
  nc_Protocol :: Protocol
  nc_Address :: string
  nc_Port :: int
  nc_ReadTimeout :: Duration
  nc_WriteTimeout :: Duration
  nc_KeepAlive :: bool
  nc_KeepAliveInterval :: Duration
  nc_MaxConnections :: int
  nc_BufferSize :: int
  nc_HeartbeatInterval :: Duration
  nc_ReconnectInterval :: Duration
  nc_MaxReconnectAttempts :: int

definition DefaultNetworkConfig :: NetworkConfig where
  "DefaultNetworkConfig =
     \<lparr>nc_Protocol = ProtocolTCP, nc_Address = ''0.0.0.0'', nc_Port = 8080, nc_ReadTimeout = 30 * Second,
      nc_WriteTimeout = 30 * Second, nc_KeepAlive = True, nc_KeepAliveInterval = 60 * Second, nc_MaxConnections = 1000,
      nc_BufferSize = 4096, nc_HeartbeatInterval = 30 * Second, nc_ReconnectInterval = 5 * Second,
      nc_MaxReconnectAttempts = 3\<rparr>"

section \<open>State\<close>

datatype 'd server_call =
    OnConnect nat | OnDisconnect nat | OnError nat NetError | OnMessage nat "'d NetMessage"

text \<open>\<open>srv_delivering\<close> is the connection the accept loop has added and not yet handed on.\<close>

record 'd tcpServer =
  srv_config :: NetworkConfig
  srv_listener :: "bool option"
  srv_running :: bool
  srv_connHandler :: bool
  srv_msgHandler :: bool
  srv_connections :: "string \<rightharpoonup> nat"
  srv_heap :: "nat \<rightharpoonup> 'd tcpConnection"
  srv_alloc :: nat
  srv_connectionChan :: "nat chan"
  srv_cancelled :: bool
  srv_accepting :: nat
  srv_delivering :: "nat option"
  srv_handling :: nat
  srv_readers :: "nat set"
  srv_totalConnections :: u64
  srv_currentConnections :: u64
  srv_totalMessages :: u64
  srv_startTime :: Time
  srv_counter :: u64
  srv_calls :: "'d server_call list"

record ServerStatistics =
  sst_Protocol :: string
  sst_Running :: bool
  sst_StartTime :: Time
  sst_Uptime :: Duration
  sst_TotalConnections :: u64
  sst_CurrentConnections :: u64
  sst_TotalMessages :: u64

datatype ServerError =
    Invalid_protocol string | Already_running | Listen_failed | Shutting_down | Accept_cancelled
  | Broadcast_nil | Broadcast_failed nat

definition NewTCPServer :: "u64 \<Rightarrow> Time \<Rightarrow> NetworkConfig option \<Rightarrow> ServerError + 'd tcpServer" where
  "NewTCPServer counter now config =
     (let config = (case config of None \<Rightarrow> DefaultNetworkConfig | Some c \<Rightarrow> c)
      in if nc_Protocol config \<noteq> ProtocolTCP then Inl (Invalid_protocol (nc_Protocol config))
         else Inr \<lparr>srv_config = config, srv_listener = None, srv_running = False, srv_connHandler = False,
                   srv_msgHandler = False, srv_connections = Map.empty, srv_heap = Map.empty, srv_alloc = 0,
                   srv_connectionChan = make_chan 100, srv_cancelled = False, srv_accepting = 0, srv_delivering = None,
                   srv_handling = 0, srv_readers = {}, srv_totalConnections = 0, srv_currentConnections = 0,
                   srv_totalMessages = 0, srv_startTime = now, srv_counter = counter, srv_calls = []\<rparr>)"

section \<open>Starting and stopping\<close>

definition srv_Start :: "bool \<Rightarrow> 'd tcpServer \<Rightarrow> (ServerError + unit) \<times> 'd tcpServer" where
  "srv_Start listening ts =
     (if srv_running ts then (Inl Already_running, ts)
      else if \<not> listening then (Inl Listen_failed, ts)
      else (Inr (), ts\<lparr>srv_running := True, srv_listener := Some True, srv_accepting := Suc (srv_accepting ts),
                       srv_handling := (if srv_connHandler ts then Suc (srv_handling ts) else srv_handling ts)\<rparr>))"

text \<open>\<^verbatim>\<open>Stop\<close> up to its wait; \<open>False\<close> when the server was not running.\<close>

definition srv_Stop_begin :: "'d tcpServer \<Rightarrow> bool \<times> 'd tcpServer" where
  "srv_Stop_begin ts =
     (if \<not> srv_running ts then (False, ts)
      else (True, ts\<lparr>srv_running := False, srv_cancelled := True, srv_listener := map_option (\<lambda>_. False) (srv_listener ts)\<rparr>))"

definition srv_idle :: "'d tcpServer \<Rightarrow> bool" where
  "srv_idle ts \<longleftrightarrow> srv_accepting ts = 0 \<and> srv_handling ts = 0 \<and> srv_readers ts = {}"

fun close_conns :: "nat list \<Rightarrow> (nat \<rightharpoonup> 'd tcpConnection) \<Rightarrow> (nat \<rightharpoonup> 'd tcpConnection) option" where
  "close_conns [] heap = Some heap"
| "close_conns (a # as) heap =
     (case Option.bind (heap a) tcp_Close of None \<Rightarrow> None | Some c \<Rightarrow> close_conns as (heap(a \<mapsto> c)))"

text \<open>The rest of \<^verbatim>\<open>Stop\<close>, once the goroutines are gone; closing a closed channel panics.\<close>

definition srv_Stop_end :: "string list \<Rightarrow> 'd tcpServer \<Rightarrow> 'd tcpServer option" where
  "srv_Stop_end ks ts =
     (case close_chan (srv_connectionChan ts) of
        None \<Rightarrow> None
      | Some ch \<Rightarrow>
          (case close_conns (range_values (srv_connections ts) ks) (srv_heap ts) of
             None \<Rightarrow> None
           | Some heap \<Rightarrow> Some (ts\<lparr>srv_connectionChan := ch, srv_heap := heap\<rparr>)))"

section \<open>Connections\<close>

definition addConnection :: "nat \<Rightarrow> 'd tcpConnection \<Rightarrow> 'd tcpServer \<Rightarrow> 'd tcpServer" where
  "addConnection a c ts =
     ts\<lparr>srv_connections := (srv_connections ts)(tcp_id c \<mapsto> a), srv_currentConnections := srv_currentConnections ts + 1\<rparr>"

definition srv_removeConnection :: "string \<Rightarrow> 'd tcpServer \<Rightarrow> 'd tcpServer" where
  "srv_removeConnection connID ts =
     (if srv_connections ts connID \<noteq> None
      then ts\<lparr>srv_connections := (srv_connections ts)(connID := None), srv_currentConnections := srv_currentConnections ts - 1\<rparr>
      else ts)"

definition limit_reached :: "'d tcpServer \<Rightarrow> bool" where
  "limit_reached ts \<longleftrightarrow>
     nc_MaxConnections (srv_config ts) > 0 \<and> sint (srv_currentConnections ts) \<ge> nc_MaxConnections (srv_config ts)"

text \<open>An iteration of the accept loop: \<open>accepted\<close> is the result of \<^verbatim>\<open>Accept\<close>.\<close>

definition accept_begin :: "net_conn option \<Rightarrow> Time \<Rightarrow> 'd tcpServer \<Rightarrow> 'd tcpServer" where
  "accept_begin accepted now ts =
     (if srv_cancelled ts then ts\<lparr>srv_accepting := srv_accepting ts - 1\<rparr>
      else case accepted of
             None \<Rightarrow> ts
           | Some conn \<Rightarrow>
               if limit_reached ts then ts
               else let (counter, c0) = NewTCPConnection (srv_counter ts) conn now;
                        c = SetWriteTimeout (nc_WriteTimeout (srv_config ts)) (SetReadTimeout (nc_ReadTimeout (srv_config ts)) c0);
                        a = srv_alloc ts;
                        ts1 = addConnection a c (ts\<lparr>srv_counter := counter, srv_heap := (srv_heap ts)(a \<mapsto> c), srv_alloc := Suc a\<rparr>)
                    in ts1\<lparr>srv_readers := (if srv_msgHandler ts1 then insert a (srv_readers ts1) else srv_readers ts1),
                           srv_delivering := Some a\<rparr>)"

text \<open>
  The second half. A cancelled server closes the connection and leaves the loop; \<open>quit\<close> says
  that the context ends just before the second select.
\<close>

definition accept_end :: "bool \<Rightarrow> 'd tcpServer \<Rightarrow> 'd tcpServer option" where
  "accept_end quit ts =
     (case srv_delivering ts of
        None \<Rightarrow> None
      | Some a \<Rightarrow>
          let ts0 = ts\<lparr>srv_delivering := None\<rparr>;
              next_ts = (\<lambda>ts. ts\<lparr>srv_totalConnections := srv_totalConnections ts + 1\<rparr>)
          in if srv_cancelled ts \<or> quit
             then (case Option.bind (srv_heap ts a) tcp_Close of
                     None \<Rightarrow> None
                   | Some c \<Rightarrow> Some (ts0\<lparr>srv_heap := (srv_heap ts)(a \<mapsto> c), srv_accepting := srv_accepting ts - 1\<rparr>))
             else (case try_send a (srv_connectionChan ts) of
                     Sent ch \<Rightarrow> Some (next_ts (ts0\<lparr>srv_connectionChan := ch\<rparr>))
                   | Send_panic \<Rightarrow> None
                   | Send_full \<Rightarrow>
                       Some (next_ts (if srv_connHandler ts then ts0\<lparr>srv_calls := srv_calls ts @ [OnConnect a]\<rparr> else ts0))))"

definition handler_turn :: "bool \<Rightarrow> 'd tcpServer \<Rightarrow> 'd tcpServer" where
  "handler_turn quit ts =
     (case try_recv (srv_connectionChan ts) of
        Recv_empty \<Rightarrow> if srv_cancelled ts then ts\<lparr>srv_handling := srv_handling ts - 1\<rparr> else ts
      | Recv_closed \<Rightarrow> ts\<lparr>srv_handling := srv_handling ts - 1\<rparr>
      | Received a ch \<Rightarrow>
          if srv_cancelled ts \<and> quit then ts\<lparr>srv_handling := srv_handling ts - 1\<rparr>
          else if srv_connHandler ts then ts\<lparr>srv_connectionChan := ch, srv_calls := srv_calls ts @ [OnConnect a]\<rparr>
          else ts\<lparr>srv_connectionChan := ch\<rparr>)"

text \<open>
  The end of a reader: the deferred calls, last one first. \<open>informed\<close> says whether there was a
  connection handler when the reader began.
\<close>

definition reader_end :: "bool \<Rightarrow> nat \<Rightarrow> 'd tcpServer \<Rightarrow> 'd tcpServer" where
  "reader_end informed a ts =
     (let ts1 = (if informed then ts\<lparr>srv_calls := srv_calls ts @ [OnDisconnect a]\<rparr> else ts);
          ts2 = (case srv_heap ts1 a of None \<Rightarrow> ts1 | Some c \<Rightarrow> srv_removeConnection (tcp_id c) ts1)
      in ts2\<lparr>srv_readers := srv_readers ts2 - {a}\<rparr>)"

definition reader_turn :: "bool \<Rightarrow> Time \<Rightarrow> nat \<Rightarrow> 'd tcpServer \<Rightarrow> 'd tcpServer" where
  "reader_turn informed now a ts =
     (case srv_heap ts a of
        None \<Rightarrow> ts
      | Some c \<Rightarrow>
          if srv_cancelled ts then reader_end informed a ts
          else (case tcp_ReadMessage now c of
                  (Inl e, c') \<Rightarrow>
                    let ts1 = ts\<lparr>srv_heap := (srv_heap ts)(a \<mapsto> c')\<rparr>
                    in reader_end informed a
                         (if srv_connHandler ts1 then ts1\<lparr>srv_calls := srv_calls ts1 @ [OnError a e]\<rparr> else ts1)
                | (Inr m, c') \<Rightarrow>
                    let ts1 = ts\<lparr>srv_heap := (srv_heap ts)(a \<mapsto> c'), srv_totalMessages := srv_totalMessages ts + 1\<rparr>
                    in if srv_msgHandler ts1 then ts1\<lparr>srv_calls := srv_calls ts1 @ [OnMessage a m]\<rparr> else ts1))"

section \<open>The interface\<close>

datatype accept_branch = From_channel | From_context | From_server

text \<open>One branch of the select; \<open>None\<close> when it is not ready.\<close>

definition AcceptConnection :: "accept_branch \<Rightarrow> 'd tcpServer \<Rightarrow> ((ServerError + nat) \<times> 'd tcpServer) option" where
  "AcceptConnection br ts =
     (case br of
        From_channel \<Rightarrow>
          (case try_recv (srv_connectionChan ts) of
             Received a ch \<Rightarrow> Some (Inr a, ts\<lparr>srv_connectionChan := ch\<rparr>)
           | Recv_closed \<Rightarrow> Some (Inl Shutting_down, ts)
           | Recv_empty \<Rightarrow> None)
      | From_context \<Rightarrow> Some (Inl Accept_cancelled, ts)
      | From_server \<Rightarrow> if srv_cancelled ts then Some (Inl Shutting_down, ts) else None)"

definition SetConnectionHandler :: "bool \<Rightarrow> 'd tcpServer \<Rightarrow> 'd tcpServer" where
  "SetConnectionHandler handler ts =
     ts\<lparr>srv_connHandler := handler,
        srv_handling := (if srv_running ts \<and> handler then Suc (srv_handling ts) else srv_handling ts)\<rparr>"

definition srv_SetMessageHandler :: "bool \<Rightarrow> 'd tcpServer \<Rightarrow> 'd tcpServer" where
  "srv_SetMessageHandler handler ts = ts\<lparr>srv_msgHandler := handler\<rparr>"

definition GetActiveConnections :: "string list \<Rightarrow> 'd tcpServer \<Rightarrow> nat list" where
  "GetActiveConnections ks ts = range_values (srv_connections ts) ks"

definition GetConnectionCount :: "'d tcpServer \<Rightarrow> int" where
  "GetConnectionCount ts = sint (srv_currentConnections ts)"

text \<open>Without a listener there is no address to print: a panic.\<close>

definition srv_GetStatistics :: "Time \<Rightarrow> 'd tcpServer \<Rightarrow> ServerStatistics option" where
  "srv_GetStatistics now ts =
     (case srv_listener ts of
        None \<Rightarrow> None
      | Some _ \<Rightarrow>
          Some \<lparr>sst_Protocol = nc_Protocol (srv_config ts), sst_Running = srv_running ts, sst_StartTime = srv_startTime ts,
                sst_Uptime = now - srv_startTime ts, sst_TotalConnections = srv_totalConnections ts,
                sst_CurrentConnections = srv_currentConnections ts, sst_TotalMessages = srv_totalMessages ts\<rparr>)"

text \<open>
  Every connection gets the message from a goroutine of its own, each touching only its own
  connection: the order \<open>as\<close> makes no difference. The message carries the id of the last one.
\<close>

fun broadcast_to ::
  "Time \<Rightarrow> 'd NetMessage \<Rightarrow> nat list \<Rightarrow> nat \<Rightarrow> (nat \<rightharpoonup> 'd tcpConnection) \<Rightarrow> (nat \<times> (nat \<rightharpoonup> 'd tcpConnection)) option" where
  "broadcast_to now m [] failed heap = Some (failed, heap)"
| "broadcast_to now m (a # as) failed heap =
     (case heap a of
        None \<Rightarrow> broadcast_to now m as failed heap
      | Some c \<Rightarrow>
          (case tcp_SendMessage now (Some m) c of
             (Panic, _, _) \<Rightarrow> None
           | (Ok _, _, c') \<Rightarrow> broadcast_to now m as failed (heap(a \<mapsto> c'))
           | (Err _, _, c') \<Rightarrow> broadcast_to now m as (Suc failed) (heap(a \<mapsto> c'))))"

definition srv_BroadcastMessage ::
  "Time \<Rightarrow> string list \<Rightarrow> 'd NetMessage option \<Rightarrow> 'd tcpServer \<Rightarrow> ((ServerError + unit) \<times> 'd tcpServer) option" where
  "srv_BroadcastMessage now ks msg ts =
     (case msg of
        None \<Rightarrow> Some (Inl Broadcast_nil, ts)
      | Some m \<Rightarrow>
          (case broadcast_to now m (GetActiveConnections ks ts) 0 (srv_heap ts) of
             None \<Rightarrow> None
           | Some (failed, heap) \<Rightarrow>
               Some (if failed > 0 then Inl (Broadcast_failed failed) else Inr (), ts\<lparr>srv_heap := heap\<rparr>)))"

section \<open>Steps\<close>

text \<open>
  What a connection keeps whatever its users, its send loop and its reader do: its id, and that
  the channel is closed exactly when the connection is.
\<close>

definition conn_ok :: "'d tcpConnection \<Rightarrow> bool" where
  "conn_ok c \<longleftrightarrow> (ch_closed (tcp_sendChan c) \<longleftrightarrow> tcp_closed c)"

definition conn_next :: "'d tcpConnection \<Rightarrow> 'd tcpConnection \<Rightarrow> bool" where
  "conn_next c c' \<longleftrightarrow> tcp_id c' = tcp_id c \<and> (conn_ok c \<longrightarrow> conn_ok c')"

lemma conn_next_refl [simp]: "conn_next c c"
  by (simp add: conn_next_def)

lemma conn_next_trans: "\<lbrakk>conn_next a b; conn_next b c\<rbrakk> \<Longrightarrow> conn_next a c"
  by (simp add: conn_next_def)

lemma conn_next_frame [simp]:
  "conn_next c (c\<lparr>tcp_conn := x\<rparr>)" "conn_next c (c\<lparr>tcp_conn := x, tcp_bytesWritten := y\<rparr>)"
  "conn_next c (c\<lparr>tcp_conn := x, tcp_bytesRead := y\<rparr>)" "conn_next c (updateActivity now c)"
  "conn_next c (c\<lparr>tcp_messagesRead := y\<rparr>)" "conn_next c (c\<lparr>tcp_messagesSent := y\<rparr>)"
  by (simp_all add: conn_next_def conn_ok_def updateActivity_def)

lemma sendDirect_next: "conn_next c (snd (sendDirect now data c))"
proof -
  have "conn_next c (updateActivity now (c\<lparr>tcp_conn := x, tcp_bytesWritten := y\<rparr>))" for x y
    by (rule conn_next_trans [OF conn_next_frame(2) conn_next_frame(4)])
  then show ?thesis by (auto simp: sendDirect_def split: prod.split bool.split)
qed

lemma chan_next:
  "try_send data (tcp_sendChan c) = Sent ch \<Longrightarrow> conn_next c (c\<lparr>tcp_sendChan := ch\<rparr>)"
  "try_recv (tcp_sendChan c) = Received d ch \<Longrightarrow> conn_next c (c\<lparr>tcp_sendChan := ch\<rparr>)"
  by (auto simp: conn_next_def conn_ok_def try_send_Sent_iff try_recv_def split: list.splits if_splits)

lemma Close_next:
  assumes "conn_ok c"
  shows "\<exists>c'. tcp_Close c = Some c' \<and> conn_next c c' \<and> tcp_closed c'"
  using assms by (auto simp: tcp_Close_def close_chan_def conn_ok_def conn_next_def)

lemma send_select_next: "conn_next c (snd (send_select now data c))"
  using sendDirect_next [of c now data] chan_next(1) [of data c]
  by (auto simp: send_select_def split: send_outcome.split prod.split sum.split)

lemma Send_next: "conn_next c (snd (tcp_Send now data c))"
  using send_select_next [of c now data] by (simp add: tcp_Send_def)

lemma SendMessage_next: "conn_next c (snd (snd (tcp_SendMessage now msg c)))"
proof -
  have "conn_next c (c'\<lparr>tcp_messagesSent := n\<rparr>)" if "tcp_Send now data c = (r, c')" for data r c' n
    using conn_next_trans [OF Send_next [of c now data] conn_next_frame(6)] that by simp
  moreover have "conn_next c c'" if "tcp_Send now data c = (r, c')" for data r c'
    using Send_next [of c now data] that by simp
  ultimately show ?thesis
    by (auto simp: tcp_SendMessage_def Let_def split: option.split sum.split prod.split outcome.split)
qed

lemma sendLoop_next: "conn_next c (snd (sendLoop_turn now c))"
proof (cases "try_recv (tcp_sendChan c)")
  case (Received d ch)
  define c1 where "c1 = c\<lparr>tcp_sendChan := ch\<rparr>"
  define c2 where "c2 = snd (sendDirect now d c1)"
  have n: "conn_next c c1" "conn_next c c2"
    using chan_next(2) [OF Received] conn_next_trans [OF _ sendDirect_next [of c1 now d], of c] by (simp_all add: c1_def c2_def)
  have "conn_next c2 c3" if "tcp_Close c2 = Some c3" for c3
    using that by (auto simp: tcp_Close_def close_chan_def conn_next_def conn_ok_def split: if_splits)
  then show ?thesis
    using Received n conn_next_trans [OF n(2)]
    by (auto simp: sendLoop_turn_def c1_def [symmetric] c2_def split: prod.split sum.split option.split)
qed (simp_all add: sendLoop_turn_def)

lemma read_loop_next: "conn_next c (snd (snd (read_loop n buf c)))"
proof (induction n buf c rule: read_loop.induct)
  case (1 n buf tc)
  show ?case
  proof (cases "length buf < n \<and> fst (conn_Read (n - length buf) (tcp_conn tc)) \<noteq> None")
    case True
    then obtain b c where r: "conn_Read (n - length buf) (tcp_conn tc) = (Some b, c)" by (cases "conn_Read (n - length buf) (tcp_conn tc)") auto
    from "1.IH" [OF _ r [symmetric] refl] True conn_next_trans [OF conn_next_frame(3)] r show ?thesis
      by (subst read_loop.simps) auto
  next
    case False
    then show ?thesis by (subst read_loop.simps) (auto split: prod.split option.split)
  qed
qed

lemma ReadMessage_next: "conn_next c (snd (tcp_ReadMessage now c))"
proof -
  have r: "conn_next x y" if "readFull n x = (b, buf, y)" for n x b buf and y :: "'a tcpConnection"
    using read_loop_next [of x n "[]"] that by (simp add: readFull_def)
  have u: "conn_next c (updateActivity now (x\<lparr>tcp_messagesRead := n\<rparr>))" if "conn_next c x" for x n
    by (rule conn_next_trans [OF that conn_next_trans [OF conn_next_frame(5) conn_next_frame(4)]])
  show ?thesis
    by (auto simp: tcp_ReadMessage_def split: prod.split sum.split option.split bool.split if_splits
        intro: r u conn_next_trans)
qed

text \<open>
  \<open>w\<close> counts the calls of \<^verbatim>\<open>Stop\<close> that wait. A connection can be used at any time by the code that
  got it (\<open>use\<close>), other parts of the process draw ids from the counter (\<open>other\<close>), and fewer than
  \<open>2 ^ 63\<close> ids are ever drawn.
\<close>

inductive srv_step :: "'d tcpServer \<times> nat \<Rightarrow> 'd tcpServer \<times> nat \<Rightarrow> bool" where
  start: "srv_step (ts, w) (snd (srv_Start listening ts), w)"
| stop: "srv_Stop_begin ts = (True, ts') \<Longrightarrow> srv_step (ts, w) (ts', Suc w)"
| stopped: "\<lbrakk>srv_idle ts; range_order (srv_connections ts) ks; srv_Stop_end ks ts = Some ts'\<rbrakk> \<Longrightarrow>
    srv_step (ts, Suc w) (ts', w)"
| accept: "\<lbrakk>srv_accepting ts > 0; srv_delivering ts = None; unat (srv_counter ts) < 2 ^ 63 - 1\<rbrakk> \<Longrightarrow>
    srv_step (ts, w) (accept_begin accepted now ts, w)"
| accepted: "accept_end quit ts = Some ts' \<Longrightarrow> srv_step (ts, w) (ts', w)"
| handler: "srv_handling ts > 0 \<Longrightarrow> srv_step (ts, w) (handler_turn quit ts, w)"
| reader: "a \<in> srv_readers ts \<Longrightarrow> srv_step (ts, w) (reader_turn informed now a ts, w)"
| take: "AcceptConnection br ts = Some (r, ts') \<Longrightarrow> srv_step (ts, w) (ts', w)"
| set_connection: "srv_step (ts, w) (SetConnectionHandler b ts, w)"
| set_message: "srv_step (ts, w) (srv_SetMessageHandler b ts, w)"
| broadcast: "\<lbrakk>range_order (srv_connections ts) ks; srv_BroadcastMessage now ks msg ts = Some (r, ts')\<rbrakk> \<Longrightarrow>
    srv_step (ts, w) (ts', w)"
| use: "\<lbrakk>srv_heap ts a = Some c; conn_next c c'\<rbrakk> \<Longrightarrow> srv_step (ts, w) (ts\<lparr>srv_heap := (srv_heap ts)(a \<mapsto> c')\<rparr>, w)"
| other: "unat (srv_counter ts) < 2 ^ 63 - 1 \<Longrightarrow> srv_step (ts, w) (ts\<lparr>srv_counter := srv_counter ts + 1\<rparr>, w)"

text \<open>Ids, and the connections of a heap with the ids drawn so far.\<close>

definition conn_id :: "nat \<Rightarrow> string" where
  "conn_id k = ''tcp-'' @ int_text (sint (of_nat k :: u64))"

lemma conn_id_inject: "\<lbrakk>j < 2 ^ 63; k < 2 ^ 63\<rbrakk> \<Longrightarrow> conn_id j = conn_id k \<longleftrightarrow> j = k"
  using sint_of_int_64 [of "int j"] sint_of_int_64 [of "int k"] by (simp add: conn_id_def)

lemma NewTCPConnection_id:
  "tcp_id (snd (NewTCPConnection counter conn now)) = conn_id (unat counter + 1)"
  "fst (NewTCPConnection counter conn now) = counter + 1"
  by (simp_all add: NewTCPConnection_def conn_id_def Let_def add.commute)

definition srv_heap_ok :: "'d tcpServer \<Rightarrow> bool" where
  "srv_heap_ok ts \<longleftrightarrow> (\<forall>a c. srv_heap ts a = Some c \<longrightarrow> a < srv_alloc ts \<and> conn_ok c)"

definition srv_table_ok :: "'d tcpServer \<Rightarrow> bool" where
  "srv_table_ok ts \<longleftrightarrow>
     (\<forall>i a. srv_connections ts i = Some a \<longrightarrow> (\<exists>c. srv_heap ts a = Some c \<and> tcp_id c = i)) \<and>
     dom (srv_connections ts) \<subseteq> conn_id ` {1..unat (srv_counter ts)}"

definition srv_count_ok :: "'d tcpServer \<Rightarrow> bool" where
  "srv_count_ok ts \<longleftrightarrow>
     unat (srv_currentConnections ts) = card (dom (srv_connections ts)) \<and>
     (nc_MaxConnections (srv_config ts) > 0 \<longrightarrow> int (card (dom (srv_connections ts))) \<le> nc_MaxConnections (srv_config ts))"

definition srv_inv :: "'d tcpServer \<Rightarrow> bool" where
  "srv_inv ts \<longleftrightarrow> unat (srv_counter ts) < 2 ^ 63 \<and> srv_heap_ok ts \<and> srv_table_ok ts \<and> srv_count_ok ts"

lemma srv_inv_frame:
  assumes "srv_inv ts" "srv_counter ts' = srv_counter ts" "srv_heap ts' = srv_heap ts" "srv_alloc ts' = srv_alloc ts"
    "srv_connections ts' = srv_connections ts" "srv_currentConnections ts' = srv_currentConnections ts"
    "srv_config ts' = srv_config ts"
  shows "srv_inv ts'"
  using assms by (simp add: srv_inv_def srv_heap_ok_def srv_table_ok_def srv_count_ok_def)

lemma srv_tableD: "\<lbrakk>srv_table_ok ts; srv_connections ts i = Some a\<rbrakk> \<Longrightarrow> \<exists>c. srv_heap ts a = Some c \<and> tcp_id c = i"
  by (simp add: srv_table_ok_def)

lemma srv_heapD: "\<lbrakk>srv_heap_ok ts; srv_heap ts a = Some c\<rbrakk> \<Longrightarrow> a < srv_alloc ts \<and> conn_ok c"
  by (simp add: srv_heap_ok_def)

text \<open>What happens to all connections together.\<close>

definition heap_next :: "(nat \<rightharpoonup> 'd tcpConnection) \<Rightarrow> (nat \<rightharpoonup> 'd tcpConnection) \<Rightarrow> bool" where
  "heap_next h h' \<longleftrightarrow> (\<forall>a. h' a = None \<longleftrightarrow> h a = None) \<and> (\<forall>a c c'. h a = Some c \<longrightarrow> h' a = Some c' \<longrightarrow> conn_next c c')"

lemma heap_next_refl [simp]: "heap_next h h"
  by (simp add: heap_next_def)

lemma heap_nextE:
  assumes "heap_next h h'" "h a = Some c"
  obtains c' where "h' a = Some c'" "conn_next c c'"
proof (cases "h' a")
  case None
  then show thesis using assms by (simp add: heap_next_def)
next
  case (Some c')
  then show thesis using assms that by (simp add: heap_next_def)
qed

lemma heap_next_trans:
  assumes "heap_next h1 h2" "heap_next h2 h3"
  shows "heap_next h1 h3"
proof -
  have "conn_next c c'" if "h1 a = Some c" "h3 a = Some c'" for a c c'
    using heap_nextE [OF assms(1) that(1)] heap_nextE [OF assms(2)] that(2) conn_next_trans by (metis option.inject)
  then show ?thesis using assms by (simp add: heap_next_def)
qed

lemma heap_next_upd: "\<lbrakk>h a = Some c; conn_next c c'\<rbrakk> \<Longrightarrow> heap_next h (h(a \<mapsto> c'))"
  by (simp add: heap_next_def)

lemma srv_inv_heap_next:
  assumes inv: "srv_inv ts" and n: "heap_next (srv_heap ts) h"
  shows "srv_inv (ts\<lparr>srv_heap := h\<rparr>)"
proof -
  have t: "srv_table_ok ts" and k: "srv_heap_ok ts" using inv by (simp_all add: srv_inv_def)
  have "\<exists>c. h a = Some c \<and> tcp_id c = i" if e: "srv_connections ts i = Some a" for i a
  proof -
    obtain c where c: "srv_heap ts a = Some c" "tcp_id c = i" using srv_tableD [OF t e] by blast
    from heap_nextE [OF n c(1)] show ?thesis using c(2) by (metis conn_next_def)
  qed
  then have "srv_table_ok (ts\<lparr>srv_heap := h\<rparr>)" using t by (simp add: srv_table_ok_def)
  moreover have "a < srv_alloc ts \<and> conn_ok c'" if e: "h a = Some c'" for a c'
  proof -
    obtain c where c: "srv_heap ts a = Some c" using n e by (metis heap_next_def option.exhaust option.distinct(1))
    have "conn_next c c'" using n c e by (simp add: heap_next_def)
    then show ?thesis using srv_heapD [OF k c] by (simp add: conn_next_def)
  qed
  ultimately show ?thesis using inv by (simp add: srv_inv_def srv_heap_ok_def srv_count_ok_def)
qed

lemma srv_inv_heap:
  "\<lbrakk>srv_inv ts; srv_heap ts a = Some c; conn_next c c'\<rbrakk> \<Longrightarrow> srv_inv (ts\<lparr>srv_heap := (srv_heap ts)(a \<mapsto> c')\<rparr>)"
  by (rule srv_inv_heap_next [OF _ heap_next_upd])

lemma broadcast_to_next: "broadcast_to now m as failed heap = Some (n, heap') \<Longrightarrow> heap_next heap heap'"
proof (induction as arbitrary: failed heap)
  case (Cons a as)
  show ?case
  proof (cases "heap a")
    case None
    then show ?thesis using Cons by simp
  next
    case (Some c)
    obtain r m' c' where s: "tcp_SendMessage now (Some m) c = (r, m', c')" by (metis prod_cases3)
    have "heap_next heap (heap(a \<mapsto> c'))"
      using SendMessage_next [of c now "Some m"] s by (intro heap_next_upd [where c = c]) (simp_all add: Some)
    moreover have "heap_next (heap(a \<mapsto> c')) heap'"
      using Cons Some s by (auto split: outcome.splits)
    ultimately show ?thesis by (rule heap_next_trans)
  qed
qed simp

lemma close_conns_next:
  "\<forall>a\<in>set as. \<exists>c. heap a = Some c \<and> conn_ok c \<Longrightarrow> \<exists>heap'. close_conns as heap = Some heap' \<and> heap_next heap heap'"
proof (induction as arbitrary: heap)
  case (Cons a as)
  then obtain c where "heap a = Some c" "conn_ok c" by auto
  with Close_next [of c] obtain c' where c: "heap a = Some c" "tcp_Close c = Some c'" "conn_next c c'" "conn_ok c" by blast
  have "\<forall>b\<in>set as. \<exists>d. (heap(a \<mapsto> c')) b = Some d \<and> conn_ok d"
    using Cons.prems c by (auto simp: conn_next_def)
  from Cons.IH [OF this] obtain heap' where "close_conns as (heap(a \<mapsto> c')) = Some heap'" "heap_next (heap(a \<mapsto> c')) heap'" by blast
  then show ?case using c heap_next_trans [OF heap_next_upd [where h = heap, OF c(1,3)]] by simp
qed simp

lemma table_finite: "srv_table_ok ts \<Longrightarrow> finite (dom (srv_connections ts))"
  unfolding srv_table_ok_def by (meson finite_atLeastAtMost finite_imageI finite_subset)

lemma table_card: "srv_table_ok ts \<Longrightarrow> card (dom (srv_connections ts)) \<le> unat (srv_counter ts)"
  unfolding srv_table_ok_def
  using card_mono [of "conn_id ` {1..unat (srv_counter ts)}" "dom (srv_connections ts)"] card_image_le [of "{1..unat (srv_counter ts)}" conn_id]
  by fastforce

lemma srv_inv_remove: "srv_inv ts \<Longrightarrow> srv_inv (srv_removeConnection i ts)"
proof (cases "srv_connections ts i")
  case (Some a)
  assume inv: "srv_inv ts"
  then have fin: "finite (dom (srv_connections ts))" and i: "i \<in> dom (srv_connections ts)"
    using table_finite Some by (auto simp: srv_inv_def)
  then have c: "card (dom (srv_connections ts) - {i}) = card (dom (srv_connections ts)) - 1" "card (dom (srv_connections ts)) > 0"
    by (auto simp: card_gt_0_iff)
  moreover have "unat (srv_currentConnections ts - 1) = unat (srv_currentConnections ts) - 1"
    using inv c(2) by (intro unat_minus_one) (auto simp: srv_inv_def srv_count_ok_def)
  ultimately show ?thesis
    using inv Some by (auto simp: srv_removeConnection_def srv_inv_def srv_heap_ok_def srv_table_ok_def srv_count_ok_def)
qed (simp add: srv_removeConnection_def)

lemma unat_Suc_64: "unat (w :: u64) < 2 ^ 63 \<Longrightarrow> unat (w + 1) = unat w + 1"
  by (simp add: unat_word_ariths)

lemma sint_small_64: "unat (w :: u64) < 2 ^ 63 \<Longrightarrow> sint w = int (unat w)"
proof -
  assume "unat w < 2 ^ 63"
  then have "int (unat w) < 2 ^ 63" by (metis of_nat_less_iff of_nat_numeral of_nat_power)
  moreover have "- (2 ^ 63) \<le> int (unat w)" by (rule order_trans [of _ 0]) simp_all
  moreover have "of_int (int (unat w)) = w" by simp
  ultimately show ?thesis using sint_of_int_64 [of "int (unat w)"] by metis
qed

lemma below_limit:
  assumes "srv_inv ts" "\<not> limit_reached ts" "nc_MaxConnections (srv_config ts) > 0"
  shows "int (card (dom (srv_connections ts))) < nc_MaxConnections (srv_config ts)"
proof -
  have c: "unat (srv_currentConnections ts) = card (dom (srv_connections ts))" and "card (dom (srv_connections ts)) < 2 ^ 63"
    using assms(1) table_card [of ts] by (auto simp: srv_inv_def srv_count_ok_def)
  then have "sint (srv_currentConnections ts) = int (card (dom (srv_connections ts)))"
    using sint_small_64 [of "srv_currentConnections ts"] by simp
  then show ?thesis using assms(2,3) by (simp add: limit_reached_def)
qed

lemma srv_inv_add:
  assumes inv: "srv_inv ts" and room: "unat (srv_counter ts) < 2 ^ 63 - 1" and limit: "\<not> limit_reached ts"
    and c: "tcp_id c = conn_id (unat (srv_counter ts) + 1)" "conn_ok c"
  shows "srv_inv (addConnection (srv_alloc ts) c
    (ts\<lparr>srv_counter := srv_counter ts + 1, srv_heap := (srv_heap ts)(srv_alloc ts \<mapsto> c), srv_alloc := Suc (srv_alloc ts)\<rparr>))"
    (is "srv_inv ?ts")
proof -
  let ?n = "unat (srv_counter ts)" and ?D = "dom (srv_connections ts)"
  have t: "srv_table_ok ts" and h: "srv_heap_ok ts" and k: "srv_count_ok ts" using inv by (simp_all add: srv_inv_def)
  have n: "unat (srv_counter ts + 1) = ?n + 1"
    using room by (intro unat_Suc_64) simp
  have "conn_id (?n + 1) \<noteq> conn_id j" if "j \<in> {1..?n}" for j
    using conn_id_inject [of "?n + 1" j] that room by simp
  then have "conn_id (?n + 1) \<notin> conn_id ` {1..?n}" by blast
  then have fresh: "conn_id (?n + 1) \<notin> ?D" using t unfolding srv_table_ok_def by blast
  have fin: "finite ?D" using table_finite [OF t] .
  have cur: "unat (srv_currentConnections ts + 1) = card ?D + 1"
  proof -
    have "unat (srv_currentConnections ts) = card ?D" "card ?D \<le> ?n" using k table_card [OF t] by (simp_all add: srv_count_ok_def)
    then show ?thesis using room unat_Suc_64 [of "srv_currentConnections ts"] by simp
  qed
  have "srv_heap ts (srv_alloc ts) = None" using srv_heapD [OF h, of "srv_alloc ts"] by (cases "srv_heap ts (srv_alloc ts)") auto
  then have "srv_table_ok ?ts"
    using t c n unfolding srv_table_ok_def addConnection_def by (auto simp: atLeastAtMostSuc_conv) (metis option.distinct(1))
  moreover have "srv_heap_ok ?ts" using h c(2) by (auto simp: srv_heap_ok_def addConnection_def less_Suc_eq)
  moreover have "srv_count_ok ?ts"
    using cur fin fresh below_limit [OF inv limit] c(1) by (auto simp: srv_count_ok_def addConnection_def)
  ultimately show ?thesis using n room by (simp add: srv_inv_def addConnection_def)
qed

lemma srv_inv_accept:
  assumes inv: "srv_inv ts" and room: "unat (srv_counter ts) < 2 ^ 63 - 1"
  shows "srv_inv (accept_begin accepted now ts)"
proof (cases "srv_cancelled ts \<or> accepted = None \<or> limit_reached ts")
  case True
  then show ?thesis using srv_inv_frame [OF inv] inv by (auto simp: accept_begin_def split: option.split)
next
  case False
  then obtain conn where a: "accepted = Some conn" "\<not> srv_cancelled ts" "\<not> limit_reached ts" by auto
  define c where "c = SetWriteTimeout (nc_WriteTimeout (srv_config ts)) (SetReadTimeout (nc_ReadTimeout (srv_config ts))
      (snd (NewTCPConnection (srv_counter ts) conn now) :: 'a tcpConnection))"
  have "tcp_id c = conn_id (unat (srv_counter ts) + 1)"
    by (simp add: c_def SetWriteTimeout_def SetReadTimeout_def NewTCPConnection_id)
  moreover have "conn_ok c"
    by (simp add: c_def SetWriteTimeout_def SetReadTimeout_def NewTCPConnection_def conn_ok_def Let_def)
  ultimately have i: "srv_inv (addConnection (srv_alloc ts) c (ts\<lparr>srv_counter := srv_counter ts + 1,
      srv_heap := (srv_heap ts)(srv_alloc ts \<mapsto> c), srv_alloc := Suc (srv_alloc ts)\<rparr>))"
    by (rule srv_inv_add [OF inv room a(3)])
  obtain c0 :: "'a tcpConnection" where nc: "NewTCPConnection (srv_counter ts) conn now = (srv_counter ts + 1, c0)"
    by (simp add: NewTCPConnection_def Let_def)
  show ?thesis
    by (rule srv_inv_frame [OF i]) (use a nc in \<open>simp_all add: accept_begin_def c_def Let_def\<close>)
qed

lemma srv_inv_reader_end: "srv_inv ts \<Longrightarrow> srv_inv (reader_end informed a ts)"
proof -
  assume inv: "srv_inv ts"
  define ts1 where "ts1 = (if informed then ts\<lparr>srv_calls := srv_calls ts @ [OnDisconnect a]\<rparr> else ts)"
  have i1: "srv_inv ts1" using srv_inv_frame [OF inv, of ts1] by (simp add: ts1_def)
  have i2: "srv_inv (case srv_heap ts1 a of None \<Rightarrow> ts1 | Some c \<Rightarrow> srv_removeConnection (tcp_id c) ts1)"
    using i1 srv_inv_remove by (auto split: option.split)
  show ?thesis unfolding reader_end_def Let_def ts1_def [symmetric]
    by (rule srv_inv_frame [OF i2]) simp_all
qed

lemma srv_inv_reader: "srv_inv ts \<Longrightarrow> srv_inv (reader_turn informed now a ts)"
proof -
  assume inv: "srv_inv ts"
  show ?thesis
  proof (cases "srv_heap ts a")
    case (Some c)
    obtain r c' where r: "tcp_ReadMessage now c = (r, c')" by force
    have i: "srv_inv (ts\<lparr>srv_heap := (srv_heap ts)(a \<mapsto> c')\<rparr>)"
      using srv_inv_heap [OF inv Some] ReadMessage_next [of c now] r by simp
    then have j: "srv_inv (ts\<lparr>srv_heap := (srv_heap ts)(a \<mapsto> c'), srv_calls := x\<rparr>)"
      "srv_inv (ts\<lparr>srv_heap := (srv_heap ts)(a \<mapsto> c'), srv_totalMessages := n\<rparr>)"
      "srv_inv (ts\<lparr>srv_heap := (srv_heap ts)(a \<mapsto> c'), srv_totalMessages := n, srv_calls := x\<rparr>)" for x n
      by (auto intro: srv_inv_frame)
    show ?thesis
      using Some r i j inv by (cases r) (auto simp: reader_turn_def Let_def intro!: srv_inv_reader_end)
  qed (use inv in \<open>simp add: reader_turn_def\<close>)
qed

lemma srv_Stop_end_ok:
  assumes "srv_inv ts" "range_order (srv_connections ts) ks" "\<not> ch_closed (srv_connectionChan ts)"
  shows "\<exists>ts'. srv_Stop_end ks ts = Some ts' \<and> srv_inv ts' \<and> ch_closed (srv_connectionChan ts') \<and>
    srv_cancelled ts' = srv_cancelled ts \<and> srv_running ts' = srv_running ts"
proof -
  have "\<forall>a\<in>set (range_values (srv_connections ts) ks). \<exists>c. srv_heap ts a = Some c \<and> conn_ok c"
    using assms(1) srv_tableD srv_heapD unfolding set_range_values [OF assms(2)] srv_inv_def ran_def by blast
  from close_conns_next [OF this] obtain heap where
    h: "close_conns (range_values (srv_connections ts) ks) (srv_heap ts) = Some heap" "heap_next (srv_heap ts) heap" by blast
  then show ?thesis
    using srv_inv_frame [OF srv_inv_heap_next [OF assms(1) h(2)]] assms(3)
    by (simp add: srv_Stop_end_def close_chan_def)
qed

lemma srv_Stop_end_inv: "\<lbrakk>srv_inv ts; range_order (srv_connections ts) ks; srv_Stop_end ks ts = Some ts'\<rbrakk> \<Longrightarrow> srv_inv ts'"
  using srv_Stop_end_ok [of ts ks] by (fastforce simp: srv_Stop_end_def close_chan_def split: if_splits)

lemma srv_inv_step: "\<lbrakk>srv_step p p'; srv_inv (fst p)\<rbrakk> \<Longrightarrow> srv_inv (fst p')"
proof (induction rule: srv_step.induct)
  case (accepted quit ts ts' w)
  then have inv: "srv_inv ts" by simp
  obtain a where a: "srv_delivering ts = Some a" using accepted(1) by (auto simp: accept_end_def split: option.splits)
  show ?case
  proof (cases "srv_cancelled ts \<or> quit")
    case True
    then obtain c c' where c: "srv_heap ts a = Some c" "tcp_Close c = Some c'" and ts': "ts' = (ts\<lparr>srv_delivering := None\<rparr>)
        \<lparr>srv_heap := (srv_heap ts)(a \<mapsto> c'), srv_accepting := srv_accepting ts - 1\<rparr>"
      using accepted(1) a by (auto simp: accept_end_def Let_def Option.bind_eq_Some_conv split: option.splits)
    have "conn_next c c'" using Close_next [of c] srv_heapD [of ts a c] inv c by (auto simp: srv_inv_def)
    from srv_inv_frame [OF srv_inv_heap [OF inv c(1) this], of ts'] show ?thesis by (simp add: ts')
  next
    case False
    then show ?thesis
      using accepted(1) a srv_inv_frame [OF inv, of ts'] by (auto simp: accept_end_def Let_def split: send_outcome.splits if_splits)
  qed
next
  case (broadcast ts ks now msg r ts' w)
  then obtain h where h: "ts' = ts \<or> ts' = ts\<lparr>srv_heap := h\<rparr> \<and> heap_next (srv_heap ts) h"
    by (auto simp: srv_BroadcastMessage_def split: option.splits dest: broadcast_to_next)
  then show ?case using broadcast(3) srv_inv_heap_next [of ts h] by auto
next
  case (other ts w)
  have "unat (srv_counter ts + 1) = unat (srv_counter ts) + 1" using other(1) by (intro unat_Suc_64) simp
  then show ?case
    using other by (auto simp: srv_inv_def srv_heap_ok_def srv_table_ok_def srv_count_ok_def atLeastAtMostSuc_conv)
qed (auto simp: srv_Start_def srv_Stop_begin_def handler_turn_def AcceptConnection_def SetConnectionHandler_def srv_SetMessageHandler_def
    split: recv_outcome.splits accept_branch.splits if_splits
    intro: srv_inv_frame srv_Stop_end_inv srv_inv_accept srv_inv_reader srv_inv_heap)

lemma srv_inv_reach:
  assumes "NewTCPServer counter now config = Inr ts0" "unat counter < 2 ^ 63" "srv_step\<^sup>*\<^sup>* (ts0, 0) p"
  shows "srv_inv (fst p)"
  using assms(3)
proof (induction rule: rtranclp_induct)
  case base
  show ?case
    using assms(1,2)
    by (auto simp: NewTCPServer_def srv_inv_def srv_heap_ok_def srv_table_ok_def srv_count_ok_def Let_def split: if_splits option.splits)
next
  case (step p p')
  then show ?case by (blast intro: srv_inv_step)
qed

section \<open>Properties\<close>

text \<open>
  Property C13. Under every interleaving of arrivals, readers, handlers, users of connections,
  starts and stops, the counter of connections is the number of connections in the table, the
  configured maximum is never exceeded, and an id in the table leads to the connection that
  has it.
\<close>

theorem server_connection_limit:
  assumes "NewTCPServer counter now config = Inr ts0" "unat counter < 2 ^ 63" "srv_step\<^sup>*\<^sup>* (ts0, 0) (ts, w)"
  shows "GetConnectionCount ts = int (card (dom (srv_connections ts))) \<and> finite (dom (srv_connections ts)) \<and>
     (nc_MaxConnections (srv_config ts) > 0 \<longrightarrow> GetConnectionCount ts \<le> nc_MaxConnections (srv_config ts)) \<and>
     (\<forall>i a. srv_connections ts i = Some a \<longrightarrow> (\<exists>c. srv_heap ts a = Some c \<and> tcp_id c = i))"
proof -
  have inv: "srv_inv ts" using srv_inv_reach [OF assms] by simp
  then have t: "srv_table_ok ts" by (simp add: srv_inv_def)
  have "unat (srv_currentConnections ts) = card (dom (srv_connections ts))" "card (dom (srv_connections ts)) < 2 ^ 63"
    using inv table_card [OF t] by (auto simp: srv_inv_def srv_count_ok_def)
  then have "GetConnectionCount ts = int (card (dom (srv_connections ts)))"
    using sint_small_64 [of "srv_currentConnections ts"] by (simp add: GetConnectionCount_def)
  then show ?thesis
    using inv t table_finite [OF t] srv_tableD [OF t] by (auto simp: srv_inv_def srv_count_ok_def)
qed

text \<open>A server for one connection that has accepted one.\<close>

definition small_server :: "unit tcpServer" where
  "small_server = projr (NewTCPServer 0 0 (Some (DefaultNetworkConfig\<lparr>nc_MaxConnections := 1\<rparr>)))"

definition busy_server :: "unit tcpServer" where
  "busy_server = accept_begin (Some \<lparr>con_in = [], con_out = [], con_closed = False\<rparr>) 5 (snd (srv_Start True small_server))"

lemma small_server_new: "NewTCPServer 0 0 (Some (DefaultNetworkConfig\<lparr>nc_MaxConnections := 1\<rparr>)) = Inr small_server"
  by (simp add: small_server_def NewTCPServer_def DefaultNetworkConfig_def)

lemma busy_server_reach: "srv_step\<^sup>*\<^sup>* (small_server, 0) (busy_server, 0)"
proof -
  have "srv_step (small_server, 0) (snd (srv_Start True small_server), 0)" by (rule srv_step.start)
  moreover have "srv_step (snd (srv_Start True small_server), 0) (busy_server, 0)"
    unfolding busy_server_def
    by (rule srv_step.accept) (simp_all add: small_server_def NewTCPServer_def DefaultNetworkConfig_def srv_Start_def)
  ultimately show ?thesis by (blast intro: rtranclp.rtrancl_into_rtrancl)
qed

theorem server_connection_limit_witness:
  "GetConnectionCount busy_server = int (card (dom (srv_connections busy_server))) \<and> GetConnectionCount busy_server \<le> 1"
proof -
  have "nc_MaxConnections (srv_config busy_server) = 1"
    by (simp add: busy_server_def small_server_def NewTCPServer_def DefaultNetworkConfig_def srv_Start_def accept_begin_def
        limit_reached_def NewTCPConnection_def addConnection_def Let_def)
  with server_connection_limit [OF small_server_new _ busy_server_reach] show ?thesis by simp
qed

text \<open>
  A server that has been stopped starts again without an error, but it is dead: its
  context stays cancelled, so the new accept loop ends at once whatever arrives, no connection
  is added, and stopping it a second time panics.
\<close>

theorem server_restart_dead:
  assumes "NewTCPServer counter now config = Inr ts0" "unat counter < 2 ^ 63" "srv_step\<^sup>*\<^sup>* (ts0, 0) (ts, w)"
    and "srv_Stop_begin ts = (True, ts1)" "range_order (srv_connections ts1) ks" "srv_Stop_end ks ts1 = Some ts2"
  shows "\<exists>ts3. srv_Start True ts2 = (Inr (), ts3) \<and> srv_running ts3 \<and>
     accept_begin accepted t ts3 = ts3\<lparr>srv_accepting := srv_accepting ts3 - 1\<rparr> \<and>
     (\<forall>ts4. srv_Stop_begin (accept_begin accepted t ts3) = (True, ts4) \<longrightarrow> srv_Stop_end ks' ts4 = None)"
proof -
  have f: "srv_cancelled ts1" "\<not> srv_running ts1"
    using assms(4) by (auto simp: srv_Stop_begin_def split: if_splits)
  have "ch_closed (srv_connectionChan ts2)" "srv_cancelled ts2" "\<not> srv_running ts2"
    using assms(6) f by (auto simp: srv_Stop_end_def close_chan_def split: option.splits if_splits)
  then show ?thesis
    by (auto simp: srv_Start_def accept_begin_def srv_Stop_begin_def srv_Stop_end_def close_chan_def)
qed

lemma small_server_stop:
  "\<exists>ts1 ts2. srv_Stop_begin (snd (srv_Start True small_server)) = (True, ts1) \<and> srv_connections ts1 = Map.empty \<and>
     srv_Stop_end [] ts1 = Some ts2"
  by (simp add: small_server_def NewTCPServer_def DefaultNetworkConfig_def srv_Start_def srv_Stop_begin_def srv_Stop_end_def
      close_chan_def)

theorem server_restart_dead_witness:
  "\<exists>ts1 ts2 ts3. srv_Stop_begin (snd (srv_Start True small_server)) = (True, ts1) \<and> srv_Stop_end [] ts1 = Some ts2 \<and>
     srv_Start True ts2 = (Inr (), ts3) \<and> srv_running ts3"
proof -
  obtain ts1 ts2 where t: "srv_Stop_begin (snd (srv_Start True small_server)) = (True, ts1)" "srv_connections ts1 = Map.empty"
    "srv_Stop_end [] ts1 = Some ts2"
    using small_server_stop by blast
  have "srv_step\<^sup>*\<^sup>* (small_server, 0) (snd (srv_Start True small_server), 0)"
    by (rule r_into_rtranclp [where r = srv_step, OF srv_step.start])
  then have "\<exists>ts3. srv_Start True ts2 = (Inr (), ts3) \<and> srv_running ts3"
    using server_restart_dead [OF small_server_new _ _ t(1) _ t(3), of 0 None 0 "[]"] t(2) by (auto simp: range_order_def)
  with t show ?thesis by blast
qed

text \<open>The turns of one reader.\<close>

definition reader_turns :: "bool \<Rightarrow> Time list \<Rightarrow> nat \<Rightarrow> 'd tcpServer \<Rightarrow> 'd tcpServer" where
  "reader_turns informed nows a ts = foldl (\<lambda>ts now. reader_turn informed now a ts) ts nows"

text \<open>
  A server hands the messages of a peer to its message handler: the turns of the
  reader over bytes that encode \<open>ms\<close>, cut into segments in any way, call the handler once for
  each message, in order, with what is on the wire and the id of the connection, count
  them, and leave the connection in the table, ready to read on.
\<close>

lemma server_delivers_messages:
  assumes "srv_heap ts a = Some c" "readable c" "incoming c = concat (map encoded ms) @ rest" "\<forall>m\<in>set ms. sendable m"
    and "\<not> srv_cancelled ts" "srv_msgHandler ts" "length nows = length ms"
  shows "\<exists>c'. srv_heap (reader_turns informed nows a ts) a = Some c' \<and> readable c' \<and> incoming c' = rest \<and>
     srv_calls (reader_turns informed nows a ts) =
       srv_calls ts @ map (\<lambda>m. OnMessage a ((on_the_wire m)\<lparr>nm_ConnectionID := tcp_id c\<rparr>)) ms \<and>
     srv_totalMessages (reader_turns informed nows a ts) = srv_totalMessages ts + of_nat (length ms) \<and>
     srv_connections (reader_turns informed nows a ts) = srv_connections ts"
  using assms
proof (induction ms arbitrary: nows ts c)
  case Nil
  then show ?case by (simp add: reader_turns_def)
next
  case (Cons m ms)
  then obtain now nows' where nows: "nows = now # nows'" by (cases nows) auto
  have "incoming c = encoded m @ (concat (map encoded ms) @ rest)" using Cons.prems(3) by simp
  moreover have "codec_Encode (Some m) = Inr (encoded m)" "timestamp_ok m"
    using Cons.prems(4) sendable_Encode by (auto simp: sendable_def)
  ultimately obtain c1 where c1: "tcp_ReadMessage now c = (Inr ((on_the_wire m)\<lparr>nm_ConnectionID := tcp_id c\<rparr>), c1)"
    "incoming c1 = concat (map encoded ms) @ rest" "readable c1" "tcp_id c1 = tcp_id c"
    using ReadMessage_stream [OF Cons.prems(2)] by metis
  define ts1 where "ts1 = reader_turn informed now a ts"
  have ts1: "ts1 = ts\<lparr>srv_heap := (srv_heap ts)(a \<mapsto> c1), srv_totalMessages := srv_totalMessages ts + 1,
      srv_calls := srv_calls ts @ [OnMessage a ((on_the_wire m)\<lparr>nm_ConnectionID := tcp_id c\<rparr>)]\<rparr>"
    using Cons.prems(1,5,6) c1(1) by (simp add: ts1_def reader_turn_def Let_def)
  have "srv_heap ts1 a = Some c1" "\<not> srv_cancelled ts1" "srv_msgHandler ts1" using Cons.prems(5,6) by (simp_all add: ts1)
  from Cons.IH [OF this(1) c1(3,2) _ this(2,3), of nows'] Cons.prems(4,7) nows c1(4)
  show ?case by (auto simp: reader_turns_def ts1_def [symmetric]) (auto simp: ts1)
qed

end
