(* ===== verification/Application.thy ===== *)
theory Application
  imports Actor_System Lifecycle Container Tcp_Server Go_Strings
begin

text \<open>
  \<^verbatim>\<open>DefaultApplication\<close> of \<^verbatim>\<open>bootstrap/application.go\<close>, which puts the actor system and the network
  server under the lifecycle manager. The two core services keep nothing but a field of the
  application: the field is the state of the service. What the container holds are tags for the
  two objects. Users' services, the handlers of actors, the visiting orders of maps and the clock
  are arguments, collected in \<open>env\<close>; \<open>env_wait\<close> is what the goroutines of the server do until they
  are gone, while \<^verbatim>\<open>Stop\<close> waits for them.
\<close>

section \<open>State\<close>

datatype ('h, 'd, 'x) app_service =
    ActorSystemService "'h system option" | NetworkServerService "'d tcpServer option" | UserService 'x

datatype app_instance = Inst_actor_system | Inst_network_server | Inst_user nat

text \<open>Values of an untyped configuration.\<close>

datatype cfg_value = Cfg_string string | Cfg_bool bool | Cfg_map "(string \<times> cfg_value) list"

record ('h, 'd, 'x) DefaultApplication =
  app_config :: "cfg_value option"
  app_container :: "app_instance DefaultContainer"
  app_lifecycleManager :: "('h, 'd, 'x) app_service DefaultLifecycleManager"
  app_running :: bool

record ('h, 'd, 'x) env =
  env_handle :: "'h handler_fun"
  env_now :: Time
  env_counter :: u64
  env_ns :: "ActorID \<Rightarrow> nat"
  env_actors :: "'h system \<Rightarrow> ActorID list"
  env_pick :: bool
  env_expired :: bool
  env_listening :: bool
  env_wait :: "'d tcpServer \<Rightarrow> 'd tcpServer"
  env_conns :: "'d tcpServer \<Rightarrow> string list"
  env_user :: "'x service_ops"

datatype AppError = App_running | App_server ServerError | App_start LifecycleError | App_stop LifecycleError

section \<open>The core services\<close>

definition actor_system_name :: string where "actor_system_name = ''actor-system''"
definition network_server_name :: string where "network_server_name = ''network-server''"

definition ActorSystemService_Start :: "'h system option \<Rightarrow> 'h system option" where
  "ActorSystemService_Start s = (case s of None \<Rightarrow> Some NewActorSystem | Some s \<Rightarrow> Some s)"

text \<open>A panic would end the process; \<open>sys_Shutdown\<close> has none for the systems that can arise.\<close>

definition ActorSystemService_Stop :: "('h, 'd, 'x) env \<Rightarrow> 'h system option \<Rightarrow> 'h system option \<times> string option" where
  "ActorSystemService_Stop env s =
     (case s of
        None \<Rightarrow> (None, None)
      | Some s \<Rightarrow>
          (case sys_Shutdown (env_handle env) (env_now env) (env_ns env) (env_actors env s) (env_pick env) (env_expired env) s of
             (Ok _, s') \<Rightarrow> (Some s', None)
           | (Err e, s') \<Rightarrow> (Some s', Some ''context done'')
           | (Panic, s') \<Rightarrow> (Some s', Some ''panic'')))"

definition ActorSystemService_Health :: "'h system option \<Rightarrow> HealthStatus" where
  "ActorSystemService_Health s =
     (if s = None then \<lparr>hs_State = HealthUnhealthy, hs_Message = ''Actor system not initialized'', hs_LastCheck = 0, hs_Data = Map.empty\<rparr>
      else \<lparr>hs_State = HealthHealthy, hs_Message = ''Actor system running'', hs_LastCheck = 0, hs_Data = Map.empty\<rparr>)"

definition NetworkServerService_Start :: "('h, 'd, 'x) env \<Rightarrow> 'd tcpServer option \<Rightarrow> 'd tcpServer option \<times> string option" where
  "NetworkServerService_Start env s =
     (case s of
        None \<Rightarrow> (None, None)
      | Some ts \<Rightarrow>
          (case srv_Start (env_listening env) ts of
             (Inr _, ts') \<Rightarrow> (Some ts', None)
           | (Inl e, ts') \<Rightarrow> (Some ts', Some (if e = Already_running then ''server is already running'' else ''failed to listen''))))"

text \<open>The whole \<^verbatim>\<open>Stop\<close> of the server; \<open>None\<close> is a panic.\<close>

definition srv_Stop :: "('d tcpServer \<Rightarrow> 'd tcpServer) \<Rightarrow> ('d tcpServer \<Rightarrow> string list) \<Rightarrow> 'd tcpServer \<Rightarrow> 'd tcpServer option" where
  "srv_Stop wait conns ts =
     (case srv_Stop_begin ts of
        (False, ts1) \<Rightarrow> Some ts1
      | (True, ts1) \<Rightarrow> srv_Stop_end (conns (wait ts1)) (wait ts1))"

definition NetworkServerService_Stop :: "('h, 'd, 'x) env \<Rightarrow> 'd tcpServer option \<Rightarrow> 'd tcpServer option \<times> string option" where
  "NetworkServerService_Stop env s =
     (case s of
        None \<Rightarrow> (None, None)
      | Some ts \<Rightarrow>
          (case srv_Stop (env_wait env) (env_conns env) ts of
             None \<Rightarrow> (Some ts, Some ''panic'')
           | Some ts' \<Rightarrow> (Some ts', None)))"

definition NetworkServerService_Health :: "'d tcpServer option \<Rightarrow> HealthStatus" where
  "NetworkServerService_Health s =
     (case s of
        None \<Rightarrow> \<lparr>hs_State = HealthUnknown, hs_Message = ''Network server not configured'', hs_LastCheck = 0, hs_Data = Map.empty\<rparr>
      | Some ts \<Rightarrow> \<lparr>hs_State = HealthHealthy, hs_Message = ''Network server running'', hs_LastCheck = 0,
                    hs_Data = [''connections'' \<mapsto> GetConnectionCount ts]\<rparr>)"

definition app_ops :: "('h, 'd, 'x) env \<Rightarrow> ('h, 'd, 'x) app_service service_ops" where
  "app_ops env =
     \<lparr>so_Start = (\<lambda>u. case u of
          ActorSystemService s \<Rightarrow> (ActorSystemService (ActorSystemService_Start s), None)
        | NetworkServerService s \<Rightarrow> (case NetworkServerService_Start env s of (s', e) \<Rightarrow> (NetworkServerService s', e))
        | UserService x \<Rightarrow> (case so_Start (env_user env) x of (x', e) \<Rightarrow> (UserService x', e))),
      so_Stop = (\<lambda>u. case u of
          ActorSystemService s \<Rightarrow> (case ActorSystemService_Stop env s of (s', e) \<Rightarrow> (ActorSystemService s', e))
        | NetworkServerService s \<Rightarrow> (case NetworkServerService_Stop env s of (s', e) \<Rightarrow> (NetworkServerService s', e))
        | UserService x \<Rightarrow> (case so_Stop (env_user env) x of (x', e) \<Rightarrow> (UserService x', e))),
      so_Health = (\<lambda>u. case u of
          ActorSystemService s \<Rightarrow> Inr (ActorSystemService_Health s)
        | NetworkServerService s \<Rightarrow> Inr (NetworkServerService_Health s)
        | UserService x \<Rightarrow> so_Health (env_user env) x)\<rparr>"

section \<open>Building an application\<close>

definition registerCoreServices ::
  "Time \<Rightarrow> ('h, 'd, 'x) app_service DefaultLifecycleManager \<Rightarrow> ('h, 'd, 'x) app_service DefaultLifecycleManager" where
  "registerCoreServices now lm =
     snd (lm_Register now network_server_name (Some (NetworkServerService None)) [actor_system_name]
       (snd (lm_Register now actor_system_name (Some (ActorSystemService None)) [] lm)))"

definition NewApplication :: "Time \<Rightarrow> ('h, 'd, 'x) DefaultApplication" where
  "NewApplication now =
     \<lparr>app_config = None, app_container = NewContainer, app_lifecycleManager = registerCoreServices now NewLifecycleManager,
      app_running = False\<rparr>"

text \<open>Assigning a field of the application, where its service finds it.\<close>

definition set_service :: "string \<Rightarrow> ('h, 'd, 'x) app_service \<Rightarrow> ('h, 'd, 'x) DefaultApplication \<Rightarrow> ('h, 'd, 'x) DefaultApplication" where
  "set_service n u app =
     (let lm = app_lifecycleManager app
      in if lm_services lm n = None then app
         else app\<lparr>app_lifecycleManager := lm\<lparr>lm_services := (lm_services lm)(n \<mapsto> u)\<rparr>\<rparr>)"

definition register_instance :: "string \<Rightarrow> app_instance \<Rightarrow> ('h, 'd, 'x) DefaultApplication \<Rightarrow> ('h, 'd, 'x) DefaultApplication" where
  "register_instance n i app = app\<lparr>app_container := snd (container_RegisterInstance n (Some i) (app_container app))\<rparr>"

definition parse_address :: "string \<Rightarrow> NetworkConfig \<Rightarrow> NetworkConfig" where
  "parse_address addr config =
     (case Split CHR '':'' addr of
        [host, port] \<Rightarrow> config\<lparr>nc_Address := host, nc_Port := (case Atoi port of None \<Rightarrow> nc_Port config | Some p \<Rightarrow> p)\<rparr>
      | _ \<Rightarrow> config\<lparr>nc_Address := addr\<rparr>)"

text \<open>Fields that a composite literal does not name are zero.\<close>

definition app_network_config :: NetworkConfig where
  "app_network_config =
     \<lparr>nc_Protocol = ProtocolTCP, nc_Address = ''localhost'', nc_Port = 8080, nc_ReadTimeout = 0, nc_WriteTimeout = 0,
      nc_KeepAlive = False, nc_KeepAliveInterval = 0, nc_MaxConnections = 0, nc_BufferSize = 0, nc_HeartbeatInterval = 0,
      nc_ReconnectInterval = 0, nc_MaxReconnectAttempts = 0\<rparr>"

definition cfg_get :: "string \<Rightarrow> cfg_value option \<Rightarrow> cfg_value option" where
  "cfg_get k v = (case v of Some (Cfg_map kvs) \<Rightarrow> map_of kvs k | _ \<Rightarrow> None)"

definition configureCoreServices ::
  "u64 \<Rightarrow> Time \<Rightarrow> cfg_value \<Rightarrow> ('h, 'd, 'x) DefaultApplication \<Rightarrow> (AppError + unit) \<times> ('h, 'd, 'x) DefaultApplication" where
  "configureCoreServices counter now cfg app =
     (let app1 = register_instance actor_system_name Inst_actor_system
                   (set_service actor_system_name (ActorSystemService (Some NewActorSystem)) app)
      in case cfg_get ''network'' (Some cfg) of
           Some (Cfg_map netCfg) \<Rightarrow>
             let config = (case map_of netCfg ''address'' of
                  Some (Cfg_string addr) \<Rightarrow> parse_address addr app_network_config | _ \<Rightarrow> app_network_config)
             in (case NewTCPServer counter now (Some config) of
                   Inl e \<Rightarrow> (Inl (App_server e), app1)
                 | Inr server \<Rightarrow>
                     (Inr (), register_instance network_server_name Inst_network_server
                        (set_service network_server_name (NetworkServerService (Some server)) app1)))
         | _ \<Rightarrow> (Inr (), app1))"

definition Configure ::
  "u64 \<Rightarrow> Time \<Rightarrow> cfg_value \<Rightarrow> ('h, 'd, 'x) DefaultApplication \<Rightarrow> (AppError + unit) \<times> ('h, 'd, 'x) DefaultApplication" where
  "Configure counter now cfg app =
     (if app_running app then (Inl App_running, app)
      else configureCoreServices counter now cfg (app\<lparr>app_config := Some cfg\<rparr>))"

section \<open>Running\<close>

text \<open>
  \<^verbatim>\<open>Run\<close> until it waits for the signal. Starting an actor system service that has none registers
  the new system in the container.
\<close>

definition app_Run ::
  "('h, 'd, 'x) env \<Rightarrow> string list \<Rightarrow> string list \<Rightarrow> string list \<Rightarrow> ('h, 'd, 'x) DefaultApplication \<Rightarrow>
     (AppError + unit) \<times> ('h, 'd, 'x) DefaultApplication" where
  "app_Run env ks ds qs app =
     (if app_running app then (Inl App_running, app)
      else case lm_Start (app_ops env) (env_now env) ks ds qs (app_lifecycleManager app) of
             (r, lm') \<Rightarrow>
               let fresh = (lm_services (app_lifecycleManager app) actor_system_name = Some (ActorSystemService None) \<and>
                            lm_services lm' actor_system_name \<noteq> Some (ActorSystemService None));
                   app1 = app\<lparr>app_lifecycleManager := lm'\<rparr>;
                   app2 = (if fresh then register_instance actor_system_name Inst_actor_system app1 else app1)
               in (case r of
                     Inl e \<Rightarrow> (Inl (App_start e), app2)
                   | Inr _ \<Rightarrow> (Inr (), app2\<lparr>app_running := True\<rparr>)))"

definition app_Shutdown :: "('h, 'd, 'x) env \<Rightarrow> ('h, 'd, 'x) DefaultApplication \<Rightarrow> (AppError + unit) \<times> ('h, 'd, 'x) DefaultApplication" where
  "app_Shutdown env app =
     (if \<not> app_running app then (Inr (), app)
      else case lm_Stop (app_ops env) (env_now env) (app_lifecycleManager app) of
             (r, lm') \<Rightarrow>
               ((case r of Inl e \<Rightarrow> Inl (App_stop e) | Inr _ \<Rightarrow> Inr ()),
                app\<lparr>app_running := False, app_lifecycleManager := lm'\<rparr>))"

section \<open>The builder\<close>

record ('h, 'd, 'x) ApplicationBuilder =
  ab_app :: "('h, 'd, 'x) DefaultApplication"
  ab_config :: "(string \<times> cfg_value) list"

definition NewApplicationBuilder :: "Time \<Rightarrow> ('h, 'd, 'x) ApplicationBuilder" where
  "NewApplicationBuilder now = \<lparr>ab_app = NewApplication now, ab_config = []\<rparr>"

definition ab_WithConfig :: "cfg_value \<Rightarrow> ('h, 'd, 'x) ApplicationBuilder \<Rightarrow> ('h, 'd, 'x) ApplicationBuilder" where
  "ab_WithConfig cfg b =
     (case cfg of Cfg_map kvs \<Rightarrow> b\<lparr>ab_config := foldl (\<lambda>al (k, v). AList.update k v al) (ab_config b) kvs\<rparr> | _ \<Rightarrow> b)"

definition ab_WithService :: "Time \<Rightarrow> string \<Rightarrow> 'x \<Rightarrow> string list \<Rightarrow> ('h, 'd, 'x) ApplicationBuilder \<Rightarrow> ('h, 'd, 'x) ApplicationBuilder" where
  "ab_WithService now name service deps b =
     (let app = ab_app b
      in b\<lparr>ab_app := app\<lparr>app_lifecycleManager :=
           snd (lm_Register now name (Some (UserService service)) deps (app_lifecycleManager app))\<rparr>\<rparr>)"

definition ab_WithServiceFactory :: "string \<Rightarrow> app_instance ServiceFactory \<Rightarrow> ('h, 'd, 'x) ApplicationBuilder \<Rightarrow> ('h, 'd, 'x) ApplicationBuilder" where
  "ab_WithServiceFactory name factory b =
     (let app = ab_app b
      in b\<lparr>ab_app := app\<lparr>app_container := snd (container_Register name (Some factory) (app_container app))\<rparr>\<rparr>)"

definition ab_WithActorSystemConfig :: "('h, 'd, 'x) ApplicationBuilder \<Rightarrow> ('h, 'd, 'x) ApplicationBuilder" where
  "ab_WithActorSystemConfig b = b\<lparr>ab_config := AList.update ''actor_system'' (Cfg_map [(''enabled'', Cfg_bool True)]) (ab_config b)\<rparr>"

definition ab_WithNetworkConfig :: "string \<Rightarrow> ('h, 'd, 'x) ApplicationBuilder \<Rightarrow> ('h, 'd, 'x) ApplicationBuilder" where
  "ab_WithNetworkConfig address b = b\<lparr>ab_config := AList.update ''network'' (Cfg_map [(''address'', Cfg_string address)]) (ab_config b)\<rparr>"

definition ab_Build :: "u64 \<Rightarrow> Time \<Rightarrow> ('h, 'd, 'x) ApplicationBuilder \<Rightarrow> AppError + ('h, 'd, 'x) DefaultApplication" where
  "ab_Build counter now b =
     (if ab_config b = [] then Inr (ab_app b)
      else case Configure counter now (Cfg_map (ab_config b)) (ab_app b) of
             (Inl e, _) \<Rightarrow> Inl e
           | (Inr _, app) \<Rightarrow> Inr app)"

section \<open>Starting and shutting down\<close>

text \<open>The two core services, and nothing else.\<close>

definition core_lifecycle ::
  "'h system option \<Rightarrow> 'd tcpServer option \<Rightarrow> ('h, 'd, 'x) app_service DefaultLifecycleManager \<Rightarrow> bool" where
  "core_lifecycle s ts lm \<longleftrightarrow>
     lm_services lm = [actor_system_name \<mapsto> ActorSystemService s, network_server_name \<mapsto> NetworkServerService ts] \<and>
     lm_dependencies lm = [actor_system_name \<mapsto> [], network_server_name \<mapsto> [actor_system_name]]"

abbreviation core_order :: "string list \<Rightarrow> bool" where
  "core_order ks \<equiv> distinct ks \<and> set ks = {actor_system_name, network_server_name}"

lemma names_differ [simp]: "actor_system_name \<noteq> network_server_name" "network_server_name \<noteq> actor_system_name"
  by (simp_all add: actor_system_name_def network_server_name_def)

lemma core_start_order:
  assumes "core_lifecycle s ts lm" "core_order ks" "core_order ds" "core_order qs"
  shows "calculateStartOrder ks ds qs lm = Inr [actor_system_name, network_server_name]"
proof -
  let ?D = "deps_of lm" and ?S = "{actor_system_name, network_server_name}"
  have lm: "lm_ok lm" "dom (lm_services lm) = ?S" "dom (lm_dependencies lm) = ?S"
    and D: "?D actor_system_name = []" "?D network_server_name = [actor_system_name]"
    using assms(1) by (auto simp: core_lifecycle_def lm_ok_def)
  have ro: "range_order (lm_services lm) ks" "range_order (lm_dependencies lm) ds" "range_order (lm_services lm) qs"
    using assms(2-4) lm(2,3) by (simp_all add: range_order_def)
  have "valid_order ?S ?D [actor_system_name, network_server_name]"
    using D by (auto simp: valid_order_def less_Suc_eq)
  with start_order_spec [OF lm(1) ro] obtain xs where xs: "calculateStartOrder ks ds qs lm = Inr xs" "valid_order ?S ?D xs"
    unfolding lm(2) by blast
  have "length xs = 2" using xs(2) distinct_card [of xs] by (simp add: valid_order_def)
  then obtain x y where xy: "xs = [x, y]" by (auto simp: numeral_2_eq_2 length_Suc_conv)
  have "{x, y} = ?S" "x \<noteq> y" "set (?D x) \<subseteq> {}" using xs(2) xy by (auto simp: valid_order_def less_Suc_eq)
  then have "x = actor_system_name" "y = network_server_name" using D(2) by (auto simp: doubleton_eq_iff)
  then show ?thesis using xs(1) xy by simp
qed

lemma new_core: "core_lifecycle None None (app_lifecycleManager (NewApplication t))"
  by (simp add: core_lifecycle_def NewApplication_def registerCoreServices_def lm_Register_def NewLifecycleManager_def
      broadcastEvent_def actor_system_name_def network_server_name_def)

lemma set_core:
  assumes "core_lifecycle s ts (app_lifecycleManager app)"
  shows "core_lifecycle (Some s') ts (app_lifecycleManager (set_service actor_system_name (ActorSystemService (Some s')) app))"
    "core_lifecycle s (Some ts') (app_lifecycleManager (set_service network_server_name (NetworkServerService (Some ts')) app))"
  using assms by (auto simp: core_lifecycle_def set_service_def Let_def fun_upd_twist)

lemma register_instance_frame [simp]:
  "app_lifecycleManager (register_instance n i app) = app_lifecycleManager app"
  "app_running (register_instance n i app) = app_running app"
  by (simp_all add: register_instance_def)

lemma set_service_frame [simp]:
  "app_container (set_service n u app) = app_container app" "app_running (set_service n u app) = app_running app"
  "lm_startOrder (app_lifecycleManager (set_service n u app)) = lm_startOrder (app_lifecycleManager app)"
  "lm_started (app_lifecycleManager (set_service n u app)) = lm_started (app_lifecycleManager app)"
  by (simp_all add: set_service_def Let_def)

lemma parse_host_port:
  assumes "CHR '':'' \<notin> set host" "port < 2 ^ 63"
  shows "parse_address (host @ CHR '':'' # decimal port) config = config\<lparr>nc_Address := host, nc_Port := int port\<rparr>"
proof -
  have "CHR '':'' \<notin> set (decimal port)" using decimal_digits [of "CHR '':''" port] by (auto simp: is_digit_def)
  then show ?thesis using assms by (simp add: parse_address_def)
qed

lemma core_starts:
  assumes "core_lifecycle (Some s) (Some ts) lm" "core_order ks" "core_order ds" "core_order qs"
    and "\<not> lm_started lm" "lm_startOrder lm = []" "env_listening env" "\<not> srv_running ts"
  shows "\<exists>lm'. lm_Start (app_ops env) now ks ds qs lm = (Inr (), lm') \<and> lm_started lm' \<and>
     lm_startOrder lm' = [actor_system_name, network_server_name] \<and>
     core_lifecycle (Some s) (Some (snd (srv_Start True ts))) lm'"
proof -
  define ts1 where "ts1 = snd (srv_Start True ts)"
  have "srv_Start True ts = (Inr (), ts1)" using assms(8) by (simp add: srv_Start_def ts1_def)
  then have st: "so_Start (app_ops env) (ActorSystemService (Some s)) = (ActorSystemService (Some s), None)"
    "so_Start (app_ops env) (NetworkServerService (Some ts)) = (NetworkServerService (Some ts1), None)"
    using assms(7) by (simp_all add: app_ops_def ActorSystemService_Start_def NetworkServerService_Start_def)
  have l: "lm_services lm = [actor_system_name \<mapsto> ActorSystemService (Some s), network_server_name \<mapsto> NetworkServerService (Some ts)]"
    "lm_dependencies lm = [actor_system_name \<mapsto> [], network_server_name \<mapsto> [actor_system_name]]"
    using assms(1) by (simp_all add: core_lifecycle_def)
  show ?thesis
    unfolding ts1_def [symmetric] using assms(5,6)
    by (simp add: lm_Start_def core_start_order [OF assms(1-4)] l st core_lifecycle_def Let_def fun_upd_twist)
qed

text \<open>
  Property C7. An application built for an address \<open>host:port\<close> comes up in the right order, for
  every order in which the maps are visited: the actor system first, then the network server,
  which listens under that host and port, and both are found in the container.
\<close>

theorem application_boots:
  assumes "CHR '':'' \<notin> set host" "port < 2 ^ 63" "core_order ks" "core_order ds" "core_order qs" "env_listening env"
  shows "\<exists>app app' ts. ab_Build counter now (ab_WithNetworkConfig (host @ CHR '':'' # decimal port) (NewApplicationBuilder t)) = Inr app \<and>
     app_Run env ks ds qs app = (Inr (), app') \<and> app_running app' \<and>
     lm_startOrder (app_lifecycleManager app') = [actor_system_name, network_server_name] \<and>
     core_lifecycle (Some NewActorSystem) (Some ts) (app_lifecycleManager app') \<and> srv_running ts \<and>
     nc_Address (srv_config ts) = host \<and> nc_Port (srv_config ts) = int port \<and>
     ct_instances (app_container app') = [actor_system_name \<mapsto> Inst_actor_system, network_server_name \<mapsto> Inst_network_server]"
proof -
  let ?cfg = "Cfg_map [(''network'', Cfg_map [(''address'', Cfg_string (host @ CHR '':'' # decimal port))])]"
  define config where "config = app_network_config\<lparr>nc_Address := host, nc_Port := int port\<rparr>"
  obtain ts0 :: "'b tcpServer" where ts0: "NewTCPServer counter now (Some config) = Inr ts0" "srv_config ts0 = config" "\<not> srv_running ts0"
    by (simp add: NewTCPServer_def config_def app_network_config_def)
  define app1 where "app1 = (NewApplication t :: ('a, 'b, 'c) DefaultApplication)\<lparr>app_config := Some ?cfg\<rparr>"
  define app where "app = register_instance network_server_name Inst_network_server (set_service network_server_name (NetworkServerService (Some ts0))
    (register_instance actor_system_name Inst_actor_system (set_service actor_system_name (ActorSystemService (Some NewActorSystem)) app1)))"
  have "core_lifecycle None None (app_lifecycleManager app1)" using new_core [of t] by (simp add: app1_def)
  from set_core(1) [OF this, where s' = NewActorSystem]
  have "core_lifecycle (Some NewActorSystem) None (app_lifecycleManager (register_instance actor_system_name Inst_actor_system
    (set_service actor_system_name (ActorSystemService (Some NewActorSystem)) app1)))" by simp
  from set_core(2) [OF this, where ts' = ts0] have core: "core_lifecycle (Some NewActorSystem) (Some ts0) (app_lifecycleManager app)" by (simp add: app_def)
  have st: "\<not> lm_started (app_lifecycleManager app)" "lm_startOrder (app_lifecycleManager app) = []" "\<not> app_running app"
    by (simp_all add: app_def app1_def NewApplication_def registerCoreServices_def lm_Register_def NewLifecycleManager_def
        broadcastEvent_def actor_system_name_def network_server_name_def)
  have ct: "ct_instances (app_container app) = [actor_system_name \<mapsto> Inst_actor_system, network_server_name \<mapsto> Inst_network_server]"
    by (simp add: app_def app1_def register_instance_def container_RegisterInstance_def NewApplication_def NewContainer_def
        actor_system_name_def network_server_name_def)
  have build: "ab_Build counter now (ab_WithNetworkConfig (host @ CHR '':'' # decimal port) (NewApplicationBuilder t)) = Inr app"
    using ts0(1) parse_host_port [OF assms(1,2)]
    by (simp add: ab_Build_def ab_WithNetworkConfig_def NewApplicationBuilder_def Configure_def configureCoreServices_def cfg_get_def
        config_def app_def app1_def NewApplication_def Let_def)
  from core_starts [OF core assms(3-5) st(1,2) assms(6) ts0(3), of "env_now env"] obtain lm' where
    lm': "lm_Start (app_ops env) (env_now env) ks ds qs (app_lifecycleManager app) = (Inr (), lm')"
    "lm_startOrder lm' = [actor_system_name, network_server_name]"
    "core_lifecycle (Some NewActorSystem) (Some (snd (srv_Start True ts0))) lm'" by blast
  have run: "app_Run env ks ds qs app = (Inr (), app\<lparr>app_lifecycleManager := lm', app_running := True\<rparr>)"
    using st(3) lm'(1) core by (simp add: app_Run_def core_lifecycle_def Let_def)
  show ?thesis
    using build run lm'(2,3) ct ts0(2,3)
    by (intro exI [of _ app] exI [of _ "app\<lparr>app_lifecycleManager := lm', app_running := True\<rparr>"] exI [of _ "snd (srv_Start True ts0)"])
      (simp add: srv_Start_def config_def)
qed

text \<open>A visiting order, and an environment without users' services.\<close>

definition demo_env :: "(unit, unit, unit) env" where
  "demo_env = \<lparr>env_handle = (\<lambda>h m. (h, None)), env_now = 5, env_counter = 0, env_ns = (\<lambda>_. 0), env_actors = (\<lambda>s. []), env_pick = False,
     env_expired = False, env_listening = True, env_wait = (\<lambda>ts. ts\<lparr>srv_accepting := 0\<rparr>), env_conns = (\<lambda>ts. []),
     env_user = \<lparr>so_Start = (\<lambda>x. (x, None)), so_Stop = (\<lambda>x. (x, None)), so_Health = (\<lambda>x. Inl [])\<rparr>\<rparr>"

theorem application_boots_witness:
  "\<exists>app app'. ab_Build 0 0 (ab_WithNetworkConfig (''localhost'' @ CHR '':'' # decimal 9000) (NewApplicationBuilder 0)) = Inr app \<and>
     app_Run demo_env [network_server_name, actor_system_name] [network_server_name, actor_system_name]
       [network_server_name, actor_system_name] app = (Inr (), app') \<and> app_running app'"
proof -
  have "CHR '':'' \<notin> set ''localhost''" "(9000 :: nat) < 2 ^ 63" "core_order [network_server_name, actor_system_name]" "env_listening demo_env"
    by (auto simp: demo_env_def)
  from application_boots [OF this(1-3) this(3) this(3) this(4), of 0 0 0] show ?thesis by blast
qed

text \<open>What the goroutines of a server and the users of its connections do while \<^verbatim>\<open>Stop\<close> waits.\<close>

inductive srv_turn :: "'d tcpServer \<Rightarrow> 'd tcpServer \<Rightarrow> bool" where
  accept: "\<lbrakk>srv_accepting ts > 0; srv_delivering ts = None; unat (srv_counter ts) < 2 ^ 63 - 1\<rbrakk> \<Longrightarrow> srv_turn ts (accept_begin accepted now ts)"
| accepted: "accept_end quit ts = Some ts' \<Longrightarrow> srv_turn ts ts'"
| handler: "srv_handling ts > 0 \<Longrightarrow> srv_turn ts (handler_turn quit ts)"
| reader: "a \<in> srv_readers ts \<Longrightarrow> srv_turn ts (reader_turn informed now a ts)"
| use: "\<lbrakk>srv_heap ts a = Some c; conn_next c c'\<rbrakk> \<Longrightarrow> srv_turn ts (ts\<lparr>srv_heap := (srv_heap ts)(a \<mapsto> c')\<rparr>)"

lemma srv_turn_step: "srv_turn ts ts' \<Longrightarrow> srv_step (ts, w) (ts', w)"
  by (induction rule: srv_turn.induct) (auto intro: srv_step.intros)

lemma reader_end_frame [simp]:
  "srv_running (reader_end informed a ts) = srv_running ts" "srv_connectionChan (reader_end informed a ts) = srv_connectionChan ts"
  by (auto simp: reader_end_def srv_removeConnection_def Let_def split: option.split)

lemma srv_turn_frame:
  "srv_turn ts ts' \<Longrightarrow> srv_running ts' = srv_running ts \<and> ch_closed (srv_connectionChan ts') = ch_closed (srv_connectionChan ts)"
proof (induction rule: srv_turn.induct)
  case (accept ts accepted now)
  then show ?case by (auto simp: accept_begin_def addConnection_def Let_def split: option.split prod.split)
next
  case (accepted quit ts ts')
  then show ?case
    by (auto simp: accept_end_def Let_def try_send_Sent_iff split: option.splits send_outcome.splits if_splits)
next
  case (handler ts quit)
  then show ?case by (auto simp: handler_turn_def try_recv_def split: list.split)
next
  case (reader a ts informed now)
  then show ?case by (auto simp: reader_turn_def Let_def split: option.split prod.split sum.split)
qed simp

lemma srv_turns_frame:
  assumes "srv_turn\<^sup>*\<^sup>* ts ts'"
  shows "srv_running ts' = srv_running ts" "ch_closed (srv_connectionChan ts') = ch_closed (srv_connectionChan ts)"
    "srv_step\<^sup>*\<^sup>* (ts, w) (ts', w)"
  using assms
proof (induction rule: rtranclp_induct)
  case (step y z)
  show "srv_running z = srv_running ts" "ch_closed (srv_connectionChan z) = ch_closed (srv_connectionChan ts)"
    using step srv_turn_frame [OF step.hyps(2)] by auto
  show "srv_step\<^sup>*\<^sup>* (ts, w) (z, w)" using step srv_turn_step [OF step.hyps(2), of w] by (auto intro: rtranclp.rtrancl_into_rtrancl)
qed simp_all

lemma close_conns_closed:
  assumes "close_conns as h = Some h'"
  shows "(\<forall>a c. h a = Some c \<and> tcp_closed c \<longrightarrow> (\<exists>c'. h' a = Some c' \<and> tcp_closed c')) \<and>
     (\<forall>a\<in>set as. \<exists>c'. h' a = Some c' \<and> tcp_closed c')"
  using assms
proof (induction as arbitrary: h)
  case (Cons a as)
  then obtain c c1 where c: "h a = Some c" "tcp_Close c = Some c1" "close_conns as (h(a \<mapsto> c1)) = Some h'"
    by (auto split: option.splits bind_splits)
  have "tcp_closed c1" using c(2) by (auto simp: tcp_Close_def split: if_splits option.splits)
  with Cons.IH [OF c(3)] show ?case by (auto split: if_splits)
qed simp

lemma server_stops:
  assumes "NewTCPServer counter t config = Inr ts0" "unat counter < 2 ^ 63" "srv_step\<^sup>*\<^sup>* (ts0, 0) (ts, 0)"
    and "srv_running ts" "\<not> ch_closed (srv_connectionChan ts)"
    and "srv_turn\<^sup>*\<^sup>* (snd (srv_Stop_begin ts)) (wait (snd (srv_Stop_begin ts)))"
    and "range_order (srv_connections (wait (snd (srv_Stop_begin ts)))) (conns (wait (snd (srv_Stop_begin ts))))"
  shows "\<exists>ts'. srv_Stop wait conns ts = Some ts' \<and> \<not> srv_running ts' \<and>
     (\<forall>i a c. srv_connections ts' i = Some a \<longrightarrow> srv_heap ts' a = Some c \<longrightarrow> tcp_closed c)"
proof -
  define ts1 where "ts1 = snd (srv_Stop_begin ts)"
  have b: "srv_Stop_begin ts = (True, ts1)" "\<not> srv_running ts1" "\<not> ch_closed (srv_connectionChan ts1)"
    using assms(4,5) by (simp_all add: ts1_def srv_Stop_begin_def)
  define w where "w = wait ts1"
  have tw: "srv_turn\<^sup>*\<^sup>* ts1 w" using assms(6) by (simp add: w_def ts1_def)
  note fr = srv_turns_frame [OF tw]
  have "srv_step\<^sup>*\<^sup>* (ts0, 0) (ts1, Suc 0)" using assms(3) srv_step.stop [OF b(1)] by (rule rtranclp.rtrancl_into_rtrancl)
  then have "srv_step\<^sup>*\<^sup>* (ts0, 0) (w, Suc 0)" using fr(3) by (rule rtranclp_trans)
  from srv_inv_reach [OF assms(1,2) this] have inv: "srv_heap_ok w" "srv_table_ok w" by (simp_all add: srv_inv_def)
  let ?as = "range_values (srv_connections w) (conns w)"
  have as: "set ?as = ran (srv_connections w)" using set_range_values assms(7) by (simp add: w_def ts1_def)
  have "\<forall>a\<in>set ?as. \<exists>c. srv_heap w a = Some c \<and> conn_ok c"
    unfolding as ran_def using srv_tableD [OF inv(2)] srv_heapD [OF inv(1)] by blast
  from close_conns_next [OF this] obtain h where h: "close_conns ?as (srv_heap w) = Some h" by blast
  have "close_chan (srv_connectionChan w) = Some ((srv_connectionChan w)\<lparr>ch_closed := True\<rparr>)"
    using fr(2) b(3) by (simp add: close_chan_def)
  then have run: "srv_Stop wait conns ts = Some (w\<lparr>srv_connectionChan := (srv_connectionChan w)\<lparr>ch_closed := True\<rparr>, srv_heap := h\<rparr>)"
    using b(1) h by (simp add: srv_Stop_def srv_Stop_end_def w_def [symmetric])
  have "tcp_closed c" if "srv_connections w i = Some a" "h a = Some c" for i a c
    using close_conns_closed [OF h] that as by (force simp: ran_def)
  then show ?thesis using run fr(1) b(2) by auto
qed


text \<open>The application of the previous witness, running, with a server that only its accept loop keeps busy.\<close>

definition demo_app :: "(unit, unit, unit) DefaultApplication" where
  "demo_app =
     (let app = set_service network_server_name (NetworkServerService (Some small_server))
                  (set_service actor_system_name (ActorSystemService (Some (NewActorSystemWithNodeID 1))) (NewApplication 0));
          order = [actor_system_name, network_server_name]
      in app\<lparr>app_lifecycleManager := snd (lm_Start (app_ops demo_env) 5 order order order (app_lifecycleManager app)), app_running := True\<rparr>)"

lemma demo_app_running:
  "core_lifecycle (Some (NewActorSystemWithNodeID 1)) (Some (snd (srv_Start True small_server))) (app_lifecycleManager demo_app)"
  "lm_started (app_lifecycleManager demo_app)" "\<not> lm_stopping (app_lifecycleManager demo_app)"
  "lm_startOrder (app_lifecycleManager demo_app) = [actor_system_name, network_server_name]" "app_running demo_app"
proof -
  let ?order = "[actor_system_name, network_server_name]" and ?s = "NewActorSystemWithNodeID 1 :: unit system"
  define app :: "(unit, unit, unit) DefaultApplication" where "app = set_service network_server_name (NetworkServerService (Some small_server))
    (set_service actor_system_name (ActorSystemService (Some ?s)) (NewApplication 0))"
  have core: "core_lifecycle (Some ?s) (Some small_server) (app_lifecycleManager app)"
    unfolding app_def by (rule set_core(2) [OF set_core(1) [OF new_core]])
  have st: "\<not> lm_started (app_lifecycleManager app)" "lm_startOrder (app_lifecycleManager app) = []" "\<not> lm_stopping (app_lifecycleManager app)"
    by (simp_all add: app_def set_service_def NewApplication_def registerCoreServices_def lm_Register_def NewLifecycleManager_def
        broadcastEvent_def actor_system_name_def network_server_name_def)
  have small: "\<not> srv_running small_server" by (simp add: small_server_def NewTCPServer_def DefaultNetworkConfig_def)
  have listening: "env_listening demo_env" by (simp add: demo_env_def)
  have ord: "core_order ?order" by simp
  from core_starts [OF core ord ord ord st(1,2) listening small, of 5] obtain lm' where
    lm': "lm_Start (app_ops demo_env) 5 ?order ?order ?order (app_lifecycleManager app) = (Inr (), lm')" "lm_started lm'"
    "lm_startOrder lm' = ?order" "core_lifecycle (Some ?s) (Some (snd (srv_Start True small_server))) lm'" by blast
  have "lm_inv (app_lifecycleManager app)" using core st by (auto simp: lm_inv_def lm_ok_def core_lifecycle_def)
  from lm_inv_Start [OF this, of ?order ?order ?order "app_ops demo_env" 5] core lm'(1)
  have ns: "\<not> lm_stopping lm'" by (auto simp: lm_inv_def core_lifecycle_def range_order_def)
  have d: "demo_app = app\<lparr>app_lifecycleManager := lm', app_running := True\<rparr>"
    using lm'(1) by (simp add: demo_app_def app_def [symmetric] Let_def)
  show "core_lifecycle (Some ?s) (Some (snd (srv_Start True small_server))) (app_lifecycleManager demo_app)"
    "lm_started (app_lifecycleManager demo_app)" "\<not> lm_stopping (app_lifecycleManager demo_app)"
    "lm_startOrder (app_lifecycleManager demo_app) = ?order" "app_running demo_app"
    unfolding d using lm'(2-4) ns by simp_all
qed


end
