(* ===== verification/Cluster_Integration.thy ===== *)
theory Cluster_Integration
  imports Cluster Application
begin

text \<open>
  \<^verbatim>\<open>cluster/integration.go\<close>: the cluster manager as a service of an application. What the manager
  takes from outside (resolving the bind address, random bytes, the transport's success) are
  arguments as in \<open>Cluster\<close>; \<open>None\<close> is a panic.
\<close>

section \<open>The service\<close>

record 'f ClusterService =
  cs_manager :: "'f clusterManager option"
  cs_config :: ClusterConfig
  cs_started :: bool

datatype ClusterServiceError = Cs_already_started | Cs_start_failed ClusterError | Cs_join_failed ClusterError | Cs_stop_failed ClusterError

definition NewClusterService :: "ClusterConfig option \<Rightarrow> 'f ClusterService" where
  "NewClusterService cfg =
     \<lparr>cs_manager = None, cs_config = (case cfg of None \<Rightarrow> DefaultClusterConfig | Some c \<Rightarrow> c), cs_started = False\<rparr>"

definition cs_Start ::
  "(string \<Rightarrow> int \<Rightarrow> (string \<times> int) option) \<Rightarrow> bytes \<Rightarrow> 'f \<Rightarrow> bool \<Rightarrow> Time \<Rightarrow> 'f ClusterService \<Rightarrow>
     ((ClusterServiceError + unit) \<times> 'f ClusterService) option" where
  "cs_Start resolve random zero listening now cs =
     (if cs_started cs then Some (Inl Cs_already_started, cs)
      else case NewClusterManager resolve random zero now (Some (cs_config cs)) of
             None \<Rightarrow> None
           | Some cm0 \<Rightarrow>
               (case cm_Start listening now cm0 of
                  None \<Rightarrow> None
                | Some (Inl e, cm1) \<Rightarrow> Some (Inl (Cs_start_failed e), cs\<lparr>cs_manager := Some cm1\<rparr>)
                | Some (Inr _, cm1) \<Rightarrow>
                    if clc_SeedNodes (cs_config cs) = [] then Some (Inr (), cs\<lparr>cs_manager := Some cm1, cs_started := True\<rparr>)
                    else (case cm_Join (clc_SeedNodes (cs_config cs)) now cm1 of
                            None \<Rightarrow> None
                          | Some (Inl e, cm2) \<Rightarrow> Some (Inl (Cs_join_failed e), cs\<lparr>cs_manager := Some cm2\<rparr>)
                          | Some (Inr _, cm2) \<Rightarrow> Some (Inr (), cs\<lparr>cs_manager := Some cm2, cs_started := True\<rparr>))))"

definition cs_Stop :: "bool \<Rightarrow> Time \<Rightarrow> 'f ClusterService \<Rightarrow> ((ClusterServiceError + unit) \<times> 'f ClusterService) option" where
  "cs_Stop stopped now cs =
     (case (cs_started cs, cs_manager cs) of
        (True, Some cm) \<Rightarrow>
          (case cm_Stop stopped now cm of
             None \<Rightarrow> None
           | Some (r, cm') \<Rightarrow>
               Some (case r of Inl e \<Rightarrow> Inl (Cs_stop_failed e) | Inr _ \<Rightarrow> Inr (), cs\<lparr>cs_manager := Some cm', cs_started := False\<rparr>))
      | _ \<Rightarrow> Some (Inr (), cs))"

definition nodes_text :: "string \<Rightarrow> ClusterHealth \<Rightarrow> string" where
  "nodes_text verdict h = verdict @ decimal (ch_ActiveNodes h) @ ''/'' @ decimal (ch_TotalNodes h) @ '' nodes active''"

definition health_data :: "ClusterHealth \<Rightarrow> string \<rightharpoonup> int" where
  "health_data h =
     [''total_nodes'' \<mapsto> int (ch_TotalNodes h), ''active_nodes'' \<mapsto> int (ch_ActiveNodes h),
      ''suspected_nodes'' \<mapsto> int (ch_SuspectedNodes h), ''failed_nodes'' \<mapsto> int (ch_FailedNodes h),
      ''has_leader'' \<mapsto> (if ch_HasLeader h then 1 else 0), ''partition_count'' \<mapsto> int (ch_PartitionCount h)]"

definition cs_Health :: "NodeID list \<Rightarrow> Time \<Rightarrow> 'f ClusterService \<Rightarrow> HealthStatus" where
  "cs_Health ks now cs =
     (case (cs_started cs, cs_manager cs) of
        (True, Some cm) \<Rightarrow>
          (let h = GetClusterHealth ks now cm
           in \<lparr>hs_State = (if \<not> ch_HasLeader h then HealthCritical else if \<not> ch_IsHealthy h then HealthUnhealthy else HealthHealthy),
               hs_Message = (if \<not> ch_HasLeader h then ''no cluster leader''
                             else if \<not> ch_IsHealthy h then nodes_text ''cluster unhealthy: '' h
                             else nodes_text ''cluster healthy: '' h),
               hs_LastCheck = now, hs_Data = health_data h\<rparr>)
      | _ \<Rightarrow> \<lparr>hs_State = HealthStopped, hs_Message = ''cluster service not running'', hs_LastCheck = 0, hs_Data = Map.empty\<rparr>)"

definition GetManager :: "'f ClusterService \<Rightarrow> 'f clusterManager option" where
  "GetManager cs = cs_manager cs"

section \<open>A cluster application\<close>

text \<open>The cluster service as a user's service of an application.\<close>

definition cluster_service_ops ::
  "(string \<Rightarrow> int \<Rightarrow> (string \<times> int) option) \<Rightarrow> bytes \<Rightarrow> 'f \<Rightarrow> bool \<Rightarrow> bool \<Rightarrow> NodeID list \<Rightarrow> Time \<Rightarrow> 'f ClusterService service_ops" where
  "cluster_service_ops resolve random zero listening stopped ks now =
     \<lparr>so_Start = (\<lambda>cs. case cs_Start resolve random zero listening now cs of
          None \<Rightarrow> (cs, Some ''panic'')
        | Some (Inl _, cs') \<Rightarrow> (cs', Some ''failed to start'')
        | Some (Inr _, cs') \<Rightarrow> (cs', None)),
      so_Stop = (\<lambda>cs. case cs_Stop stopped now cs of
          None \<Rightarrow> (cs, Some ''panic'')
        | Some (Inl _, cs') \<Rightarrow> (cs', Some ''failed to stop'')
        | Some (Inr _, cs') \<Rightarrow> (cs', None)),
      so_Health = (\<lambda>cs. Inr (cs_Health ks now cs))\<rparr>"

definition NewClusterApp :: "Time \<Rightarrow> (LifecycleError + ContainerError) + ('h, 'd, 'f ClusterService) DefaultApplication" where
  "NewClusterApp now =
     (let app = NewApplication now
      in case lm_Register now ''cluster'' (Some (UserService (NewClusterService (Some DefaultClusterConfig)))) [] (app_lifecycleManager app) of
           (Inl e, _) \<Rightarrow> Inl (Inl e)
         | (Inr _, lm') \<Rightarrow>
             (case container_RegisterInstance ''cluster_service'' (Some (Inst_user 0)) (app_container app) of
                (Inl e, _) \<Rightarrow> Inl (Inr e)
              | (Inr _, ct') \<Rightarrow> Inr (app\<lparr>app_lifecycleManager := lm', app_container := ct'\<rparr>)))"

section \<open>Properties\<close>

lemma started_manager:
  assumes "NewClusterManager resolve random zero now (Some config) = Some cm0"
  shows "\<exists>cm1 n. cm_Start True t cm0 = Some (Inr (), cm1) \<and> cm_started cm1 \<and> cm_heap cm1 0 = Some (Local n) \<and> cm_localNode cm1 = 0 \<and>
     ni_State (loc_info n) = NodeStateActive \<and> cm_nodes cm1 = [local_ID cm0 \<mapsto> 0] \<and> local_ID cm1 = local_ID cm0 \<and> loc_managed n \<and>
     cm_config cm1 = config \<and> cm_leader cm1 = (if clc_SeedNodes config = [] then local_ID cm0 else []) \<and> local_ID cm0 \<noteq> [] \<and>
     \<not> ch_closed (cm_events cm1)"
proof -
  obtain n where cm0: "cm0 = \<lparr>cm_config = config, cm_localNode = 0, cm_nodes = Map.empty, cm_heap = [0 \<mapsto> Local n],
      cm_events = make_chan 100, cm_listeners = [], cm_notified = [], cm_leader = [], cm_started = False\<rparr>"
    and n: "ni_State (loc_info n) = NodeStateJoining" "loc_id n \<noteq> []"
    using assms by (auto simp: NewClusterManager_def Let_def split: option.splits)
  show ?thesis
    using n by (cases "clc_SeedNodes config") (simp_all add: cm0 cluster_ops chan_defs state_event_def)
qed

text \<open>
  A cluster service with seed nodes cannot start, and cannot be stopped either: the
  manager is started, joining fails, the error is returned and the service counts as not started,
  so that \<^verbatim>\<open>Stop\<close> does nothing and the manager, whose node is active, keeps running without a leader.
\<close>

theorem seeded_service_leaks:
  assumes "NewClusterManager resolve random zero now (Some (cs_config cs)) = Some cm0"
    and "\<not> cs_started cs" "clc_SeedNodes (cs_config cs) \<noteq> []"
  shows "\<exists>cs' cm n. cs_Start resolve random zero True now cs = Some (Inl (Cs_join_failed JoinFailed), cs') \<and>
     cs_manager cs' = Some cm \<and> cm_started cm \<and> cm_heap cm (cm_localNode cm) = Some (Local n) \<and> ni_State (loc_info n) = NodeStateActive \<and>
     \<not> IsLeader cm \<and> cs_Stop stopped t cs' = Some (Inr (), cs') \<and> hs_State (cs_Health ks t cs') = HealthStopped"
proof -
  from started_manager [OF assms(1), of now] obtain cm1 n where cm1: "cm_Start True now cm0 = Some (Inr (), cm1)" "cm_started cm1"
    "cm_heap cm1 0 = Some (Local n)" "cm_localNode cm1 = 0" "ni_State (loc_info n) = NodeStateActive" "local_ID cm1 = local_ID cm0"
    "cm_leader cm1 = []" "local_ID cm0 \<noteq> []" using assms(3) by auto
  have "cm_Join (clc_SeedNodes (cs_config cs)) now cm1 = Some (Inl JoinFailed, cm1)"
    using assms(3) by (simp add: cm_Join_def joinViaSeed_def list_ex_iff)
  then have "cs_Start resolve random zero True now cs = Some (Inl (Cs_join_failed JoinFailed), cs\<lparr>cs_manager := Some cm1\<rparr>)"
    using assms cm1(1) by (simp add: cs_Start_def)
  then show ?thesis using cm1 assms(2) by (simp add: cs_Stop_def cs_Health_def IsLeader_def)
qed

definition seeded_service :: "nat ClusterService" where
  "seeded_service = NewClusterService (Some (DefaultClusterConfig\<lparr>clc_NodeID := ''n1'', clc_SeedNodes := [''10.0.0.1:7946'']\<rparr>))"

theorem seeded_service_leaks_witness:
  "\<exists>cs'. cs_Start (\<lambda>a p. Some (a, p)) [] 0 True 1 seeded_service = Some (Inl (Cs_join_failed JoinFailed), cs') \<and>
     cs_Stop True 2 cs' = Some (Inr (), cs')"
proof -
  have s: "\<not> cs_started seeded_service" "clc_SeedNodes (cs_config seeded_service) \<noteq> []"
    by (simp_all add: seeded_service_def NewClusterService_def)
  obtain cm0 where "NewClusterManager (\<lambda>a p. Some (a, p)) [] (0 :: nat) 1 (Some (cs_config seeded_service)) = Some cm0"
    by (simp add: NewClusterManager_def Let_def)
  from seeded_service_leaks [OF this s, of True 2] show ?thesis by blast
qed

text \<open>
  A cluster service without seeds starts, reports a healthy cluster of one, stops, reports that it
  is stopped, and starts again, with a new manager.
\<close>

theorem service_cycle:
  assumes "\<forall>now. NewClusterManager resolve random zero now (Some (cs_config cs)) \<noteq> None"
    and "\<not> cs_started cs" "clc_SeedNodes (cs_config cs) = []"
  shows "\<exists>cs1 cs2 cs3 cm1. cs_Start resolve random zero True t1 cs = Some (Inr (), cs1) \<and> cs_manager cs1 = Some cm1 \<and>
     hs_State (cs_Health [local_ID cm1] t cs1) = HealthHealthy \<and>
     cs_Stop True t2 cs1 = Some (Inr (), cs2) \<and> hs_State (cs_Health ks t cs2) = HealthStopped \<and>
     cs_Start resolve random zero True t3 cs2 = Some (Inr (), cs3) \<and> cs_started cs3"
proof -
  have start: "\<exists>cm. cs_Start resolve random zero True now c = Some (Inr (), c\<lparr>cs_manager := Some cm, cs_started := True\<rparr>) \<and>
      cm_started cm \<and> (\<exists>n. cm_heap cm 0 = Some (Local n) \<and> ni_State (loc_info n) = NodeStateActive \<and> loc_managed n) \<and> cm_localNode cm = 0 \<and>
      cm_nodes cm = [local_ID cm \<mapsto> 0] \<and> cm_leader cm = local_ID cm \<and> local_ID cm \<noteq> [] \<and> \<not> ch_closed (cm_events cm)"
    if c: "cs_config c = cs_config cs" "\<not> cs_started c" for c now
  proof -
    obtain cm0 where cm0: "NewClusterManager resolve random zero now (Some (cs_config cs)) = Some cm0" using assms(1) by auto
    from started_manager [OF this, of now] show ?thesis using assms(3) c cm0 by (auto simp: cs_Start_def)
  qed
  from start [of cs t1] assms(2) obtain cm n where cm: "cs_Start resolve random zero True t1 cs = Some (Inr (), cs\<lparr>cs_manager := Some cm, cs_started := True\<rparr>)"
    "cm_started cm" "cm_heap cm 0 = Some (Local n)" "ni_State (loc_info n) = NodeStateActive" "loc_managed n" "cm_localNode cm = 0"
    "cm_nodes cm = [local_ID cm \<mapsto> 0]" "cm_leader cm = local_ID cm" "local_ID cm \<noteq> []" "\<not> ch_closed (cm_events cm)" by auto
  have stop: "\<exists>cm'. cm_Stop True t2 cm = Some (Inr (), cm')"
    using cm by (simp add: cm_Stop_def Node_UpdateState_def localNode_UpdateState_def publishEvent_eq close_chan_def Let_def)
  then obtain cm' where cm': "cm_Stop True t2 cm = Some (Inr (), cm')" by blast
  have health: "hs_State (cs_Health [local_ID cm] t (cs\<lparr>cs_manager := Some cm, cs_started := True\<rparr>)) = HealthHealthy"
    using cm by (simp add: cs_Health_def GetClusterHealth_def GetLeader_def GetAllNodes_def GetNode_def List.map_filter_def count_state_def Let_def)
  from start [of "cs\<lparr>cs_manager := Some cm', cs_started := False\<rparr>" t3] obtain cm3 where
    "cs_Start resolve random zero True t3 (cs\<lparr>cs_manager := Some cm', cs_started := False\<rparr>) = Some (Inr (), cs\<lparr>cs_manager := Some cm3, cs_started := True\<rparr>)"
    by auto
  then show ?thesis using cm(1) cm' health by (simp add: cs_Stop_def) (simp add: cs_Health_def)
qed

end
