(* ===== verification/Cluster_Example.thy ===== *)
theory Cluster_Example
  imports Cluster_Service Cluster_Integration
begin

text \<open>
  \<^verbatim>\<open>examples/cluster_example/main.go\<close>: two services for calls from other nodes, and the program that
  registers them. A request is a value decoded from JSON; \<open>fmtv\<close> is \<^verbatim>\<open>%v\<close> of such a value.
\<close>

section \<open>The services\<close>

definition EchoService_Handle :: "string \<Rightarrow> json \<Rightarrow> string + json" where
  "EchoService_Handle nodeID request =
     (case request of
        JStr message \<Rightarrow> Inr (JStr (''Echo from node '' @ nodeID @ '': '' @ message))
      | _ \<Rightarrow> Inl ''invalid request type'')"

definition count_json :: "string \<Rightarrow> u64 \<Rightarrow> json" where
  "count_json nodeID count = JObj [(''count'', JInt (sint count)), (''node'', JStr nodeID)]"

definition CounterService_Handle :: "(json \<Rightarrow> string) \<Rightarrow> string \<Rightarrow> json \<Rightarrow> u64 \<Rightarrow> (string + json) \<times> u64" where
  "CounterService_Handle fmtv nodeID request count =
     (case request of
        JObj cmd \<Rightarrow>
          (case json_get cmd ''action'' of
             None \<Rightarrow> (Inl ''missing action'', count)
           | Some action \<Rightarrow>
               if action = JStr ''increment'' then (Inr (count_json nodeID (count + 1)), count + 1)
               else if action = JStr ''get'' then (Inr (count_json nodeID count), count)
               else (Inl (''unknown action: '' @ fmtv action), count))
      | _ \<Rightarrow> (Inl ''invalid request format'', count))"

text \<open>The handlers of the program: 0 is the echo service, 1 the counter, whose count is the state.\<close>

definition example_handle :: "(json \<Rightarrow> string) \<Rightarrow> string \<Rightarrow> (json, u64) handle_fun" where
  "example_handle fmtv nodeID h request count =
     (if h = 0 then (EchoService_Handle nodeID request, count) else CounterService_Handle fmtv nodeID request count)"

section \<open>The demonstration\<close>

text \<open>What the demonstration asks of one other node: two calls and a message without an answer.\<close>

definition node_ref :: "string \<Rightarrow> NodeID \<Rightarrow> string \<Rightarrow> RemoteActorRef" where
  "node_ref actorID nid addr = \<lparr>ref_NodeID = nid, ref_ActorID = actorID, ref_Address = addr\<rparr>"

definition increment_json :: json where
  "increment_json = JObj [(''action'', JStr ''increment'')]"

datatype demo_op = Demo_call RemoteActorRef json | Demo_send RemoteActorRef json

definition demo_node :: "NodeID \<Rightarrow> NodeID \<times> string \<Rightarrow> demo_op list" where
  "demo_node localNodeID node =
     (case node of (nid, addr) \<Rightarrow>
        if nid = localNodeID then []
        else [Demo_call (node_ref ''echo'' nid addr) (JStr (''Hello from '' @ localNodeID)),
              Demo_call (node_ref ''counter'' nid addr) increment_json,
              Demo_send (node_ref ''echo'' nid addr) (JStr ''Fire and forget message'')])"

definition demonstrateRemoteCalls :: "NodeID \<Rightarrow> (NodeID \<times> string) list \<Rightarrow> demo_op list" where
  "demonstrateRemoteCalls localNodeID nodes = concat (map (demo_node localNodeID) nodes)"

section \<open>The program\<close>

text \<open>
  \<^verbatim>\<open>GetRemoteService\<close> looks into the manager of the cluster service, which is there only once the
  service was started; \<open>service\<close> is the manager's field.
\<close>

definition GetRemoteService :: "'s option \<Rightarrow> 'f ClusterService \<Rightarrow> 's option" where
  "GetRemoteService service cs = (case cs_manager cs of None \<Rightarrow> None | Some cm \<Rightarrow> service)"

definition example_config :: "string list \<Rightarrow> string \<Rightarrow> ClusterConfig" where
  "example_config args portStr =
     DefaultClusterConfig
       \<lparr>clc_NodeID := args ! 1,
        clc_BindPort := (if portStr = [] then 7946 else case Atoi portStr of Some p \<Rightarrow> p | None \<Rightarrow> 7946),
        clc_SeedNodes := drop 2 args, clc_ClusterName := ''sngo-example-cluster'',
        clc_Metadata := Some [''version'' \<mapsto> ''1.0.0'', ''role'' \<mapsto> ''worker'', ''region'' \<mapsto> ''local'']\<rparr>"

text \<open>
  The program up to the point where it starts the application: \<open>Inl\<close> is the text it dies with,
  \<open>Inr\<close> the remote service with the program's own services registered, \<open>None\<close> a panic. The cluster
  service is the one \<^verbatim>\<open>NewClusterApp\<close> makes; the configuration is built and printed, and then not
  used. \<open>etext\<close> prints the error of \<^verbatim>\<open>NewClusterApp\<close>.
\<close>

definition cluster_main ::
  "(LifecycleError + ContainerError \<Rightarrow> string) \<Rightarrow> Time \<Rightarrow> string list \<Rightarrow> string \<Rightarrow> (json, u64) remoteService option \<Rightarrow>
     (string + (json, u64) remoteService) option" where
  "cluster_main etext now args portStr service =
     (if length args < 2 then Some (Inl ''Usage: cluster_example <node_id> [seed_nodes...]'')
      else
        let config = example_config args portStr;
            made = NewClusterService (Some DefaultClusterConfig) :: unit ClusterService
        in case (NewClusterApp now :: _ + (unit, unit, unit ClusterService) DefaultApplication) of
             Inl e \<Rightarrow> Some (Inl (''Failed to create cluster app: '' @ etext e))
           | Inr app \<Rightarrow>
               (case GetRemoteService service made of
                  None \<Rightarrow> Some (Inl ''Remote service not available'')
                | Some rs \<Rightarrow>
                    if GetManager made = None then Some (Inl ''Cluster manager not available'')
                    else
                      (case rs_Register now ''echo'' 0 rs of
                         None \<Rightarrow> None
                       | Some (Inl e, rs1) \<Rightarrow> Some (Inl ''Failed to register echo service'')
                       | Some (Inr _, rs1) \<Rightarrow>
                           (case rs_Register now ''counter'' 1 rs1 of
                              None \<Rightarrow> None
                            | Some (Inl e, rs2) \<Rightarrow> Some (Inl ''Failed to register counter service'')
                            | Some (Inr _, rs2) \<Rightarrow> Some (Inr rs2)))))"

section \<open>Calls of the counter\<close>

text \<open>
  Requests as they reach a node: who asks, under which call id, and whether the counter is to be
  incremented or only read.
\<close>

type_synonym counter_request = "NodeID \<times> string \<times> bool"

definition counter_call :: "counter_request \<Rightarrow> json ClusterMessage" where
  "counter_call p =
     (case p of (from, callID, inc) \<Rightarrow>
        \<lparr>cmsg_ID = [], cmsg_Type = MessageTypeActorCall, cmsg_From = from, cmsg_To = [],
         cmsg_Payload = Marshal (request_json \<lparr>req_CallID = callID, req_ServiceID = ''counter'', req_Method = ''handle'',
           req_Args = JObj [(''action'', JStr (if inc then ''increment'' else ''get''))]\<rparr>),
         cmsg_Headers = Map.empty, cmsg_Metadata = Map.empty, cmsg_Timestamp = 0, cmsg_TTL = 0, cmsg_Hops = 0, cmsg_Path = []\<rparr>)"

definition serve_call ::
  "(json \<Rightarrow> string) \<Rightarrow> string \<Rightarrow> Time \<Rightarrow> counter_request \<Rightarrow> (json, u64) remoteService \<Rightarrow> (json, u64) remoteService option" where
  "serve_call fmtv nid now p b =
     map_option snd (rs_HandleMessage (example_handle fmtv nid) remote_json JNull now (fst p) (counter_call p) b)"

definition serve_calls ::
  "(json \<Rightarrow> string) \<Rightarrow> string \<Rightarrow> Time \<Rightarrow> counter_request list \<Rightarrow> (json, u64) remoteService \<Rightarrow> (json, u64) remoteService option" where
  "serve_calls fmtv nid now ps b = foldl (\<lambda>r p. Option.bind r (serve_call fmtv nid now p)) (Some b) ps"

definition increments :: "counter_request list \<Rightarrow> nat" where
  "increments ps = length (filter (\<lambda>(from, callID, inc). inc) ps)"

definition reply_content :: "NodeID \<times> json ClusterMessage \<Rightarrow> NodeID \<times> json RemoteCallResponse option" where
  "reply_content s = (fst s, j_to_response remote_json (cmsg_Payload (snd s)))"

text \<open>A node whose counter can be called and whose answers can be sent.\<close>

definition counter_node :: "(json, u64) remoteService \<Rightarrow> bool" where
  "counter_node b \<longleftrightarrow> (\<exists>send. rs_transport b = Some send \<and> (\<forall>to m. send to m = None)) \<and> rs_handlers b ''counter'' = Some 1"

lemma increments_snoc [simp]: "increments (ps @ [(from, callID, inc)]) = increments ps + (if inc then 1 else 0)"
  by (simp add: increments_def)

lemma increments_le: "increments ps \<le> length ps"
  by (simp add: increments_def)

lemma count_json_carried:
  assumes "ascii nid" "k < 2 ^ 53"
  shows "count_json nid (of_nat k) \<in> carried"
proof -
  have "sint (of_nat k :: u64) = int k" using assms(2) sint_of_int_64 [of "int k"] by simp
  then show ?thesis using assms float_exact(2) [of "int k"] by (auto simp: carried_def count_json_def)
qed

lemma serve_call_replies:
  assumes "counter_node b" "ascii nid" "ascii callID" "rs_world b = of_nat k" "k + 1 < 2 ^ 53"
  obtains reply where "serve_call fmtv nid now (from, callID, inc) b =
      Some (b\<lparr>rs_world := of_nat (k + (if inc then 1 else 0)), rs_sent := rs_sent b @ [(from, reply)]\<rparr>)"
    "reply_content (from, reply) =
       (from, Some \<lparr>resp_CallID = callID, resp_Result = count_json nid (of_nat (k + (if inc then 1 else 0))), resp_Error = []\<rparr>)"
proof -
  let ?c = "of_nat (k + (if inc then 1 else 0)) :: u64"
  let ?req = "\<lparr>req_CallID = callID, req_ServiceID = ''counter'', req_Method = ''handle'',
     req_Args = JObj [(''action'', JStr (if inc then ''increment'' else ''get''))]\<rparr>"
  let ?resp = "\<lparr>resp_CallID = callID, resp_Result = count_json nid ?c, resp_Error = []\<rparr>"
  have req: "j_to_request remote_json (Marshal (request_json ?req)) = Some ?req"
    using remote_json_carries assms(3) by (simp add: json_carries_def remote_json_def carried_def)
  have "resp_Result ?resp \<in> carried" using count_json_carried [OF assms(2), of "k + (if inc then 1 else 0)"] assms(5) by simp
  then have resp: "j_to_response remote_json (Marshal (response_json ?resp)) = Some ?resp"
    using remote_json_carries assms(3) by (simp add: json_carries_def remote_json_def)
  have handle: "example_handle fmtv nid 1 (req_Args ?req) (rs_world b) = (Inr (count_json nid ?c), ?c)"
    using assms(4) by (simp add: example_handle_def CounterService_Handle_def json_get_def)
  have response: "j_response remote_json r = Some (Marshal (response_json r))" for r by (simp add: remote_json_def)
  show thesis
    by (rule that [of "\<lparr>cmsg_ID = generateMessageID now, cmsg_Type = MessageTypeActorReply, cmsg_From = rs_node b, cmsg_To = from,
          cmsg_Payload = Marshal (response_json ?resp), cmsg_Headers = Map.empty, cmsg_Metadata = Map.empty,
          cmsg_Timestamp = now, cmsg_TTL = 0, cmsg_Hops = 0, cmsg_Path = []\<rparr>"])
      (use assms(1) req resp handle response in \<open>auto simp: serve_call_def counter_call_def rs_HandleMessage_def handleRemoteCall_def
        sendSuccessResponse_def send_response_def transport_Send_def reply_content_def counter_node_def\<close>)
qed

section \<open>Properties\<close>



text \<open>
  The example program never gets to its services: whatever its arguments and its
  environment, it asks for the remote service before the cluster service was started, finds
  none and dies.
\<close>

theorem cluster_example_dies:
  "cluster_main etext now args portStr service =
     Some (Inl (if length args < 2 then ''Usage: cluster_example <node_id> [seed_nodes...]'' else ''Remote service not available''))"
proof -
  have "\<exists>app. (NewClusterApp now :: _ + (unit, unit, unit ClusterService) DefaultApplication) = Inr app"
    by (simp add: NewClusterApp_def NewApplication_def registerCoreServices_def lm_Register_def NewLifecycleManager_def
        broadcastEvent_def container_RegisterInstance_def NewContainer_def actor_system_name_def network_server_name_def Let_def)
  then show ?thesis
    by (auto simp: cluster_main_def NewClusterService_def GetRemoteService_def Let_def)
qed

end
