(* ===== verification/Connection_Manager.thy ===== *)
theory Connection_Manager
  imports Tcp_Server
begin

text \<open>
  \<^verbatim>\<open>network/connection_manager.go\<close>. Connections are shared pointers into a heap. The mutex makes
  every operation a step, except \<^verbatim>\<open>StopHeartbeat\<close>, which waits while it holds the mutex: it has two
  halves, and \<open>cmg_locked\<close> says that one of them is between its halves. A heartbeat loop is the
  phase it is in. A ticker keeps at most one tick that nobody has received yet.
\<close>

section \<open>State\<close>

text \<open>
  A loop is about to read its two channels, waits for both, or has got a tick and not yet sent.
\<close>

datatype hb_phase = Hb_top | Hb_wait nat "nat option" | Hb_send

record ticker =
  tk_pending :: bool
  tk_stopped :: bool

record 'd connectionManager =
  cmg_connections :: "string \<rightharpoonup> nat"
  cmg_heap :: "nat \<rightharpoonup> 'd tcpConnection"
  cmg_heartbeatEnabled :: bool
  cmg_heartbeatInterval :: Duration
  cmg_heartbeatTicker :: "nat option"
  cmg_heartbeatStopChan :: "nat option"
  cmg_tickers :: "ticker list"
  cmg_stopChans :: "bool list"
  cmg_loops :: "hb_phase list"
  cmg_locked :: bool
  cmg_sending :: "nat list"
  cmg_totalConnections :: u64
  cmg_totalMessages :: u64
  cmg_startTime :: Time

record ConnectionManagerStatistics =
  cms_TotalConnections :: u64
  cms_ActiveConnections :: u64
  cms_ConnectionsByState :: "ConnectionState \<Rightarrow> nat"
  cms_TotalBytes :: u64
  cms_TotalMessages :: u64
  cms_HeartbeatEnabled :: bool
  cms_HeartbeatInterval :: Duration
  cms_StartTime :: Time
  cms_Uptime :: Duration

datatype ManagerError =
    Cm_nil | Cm_exists string | Cm_not_found string | Cm_nil_message | Cm_empty_data
  | Cm_broadcast_failed nat nat | Cm_invalid_interval Duration | Cm_heartbeat_running | Cm_send NetError

definition NewConnectionManager :: "(nat \<rightharpoonup> 'd tcpConnection) \<Rightarrow> Time \<Rightarrow> 'd connectionManager" where
  "NewConnectionManager heap now =
     \<lparr>cmg_connections = Map.empty, cmg_heap = heap, cmg_heartbeatEnabled = False, cmg_heartbeatInterval = 0,
      cmg_heartbeatTicker = None, cmg_heartbeatStopChan = None, cmg_tickers = [], cmg_stopChans = [], cmg_loops = [],
      cmg_locked = False, cmg_sending = [], cmg_totalConnections = 0, cmg_totalMessages = 0, cmg_startTime = now\<rparr>"

section \<open>The table of connections\<close>

definition AddConnection :: "nat option \<Rightarrow> 'd connectionManager \<Rightarrow> (ManagerError + unit) \<times> 'd connectionManager" where
  "AddConnection conn cm =
     (case Option.bind conn (\<lambda>a. map_option (\<lambda>c. (a, tcp_id c)) (cmg_heap cm a)) of
        None \<Rightarrow> (Inl Cm_nil, cm)
      | Some (a, connID) \<Rightarrow>
          if cmg_connections cm connID \<noteq> None then (Inl (Cm_exists connID), cm)
          else (Inr (), cm\<lparr>cmg_connections := (cmg_connections cm)(connID \<mapsto> a),
                           cmg_totalConnections := cmg_totalConnections cm + 1\<rparr>))"

text \<open>Closing can panic only on a channel closed twice; \<open>None\<close> is that panic.\<close>

definition RemoveConnection ::
  "string \<Rightarrow> 'd connectionManager \<Rightarrow> ((ManagerError + unit) \<times> 'd connectionManager) option" where
  "RemoveConnection connID cm =
     (case cmg_connections cm connID of
        None \<Rightarrow> Some (Inl (Cm_not_found connID), cm)
      | Some a \<Rightarrow>
          (case close_conns [a] (cmg_heap cm) of
             None \<Rightarrow> None
           | Some heap \<Rightarrow> Some (Inr (), cm\<lparr>cmg_heap := heap, cmg_connections := (cmg_connections cm)(connID := None)\<rparr>)))"

definition GetConnection :: "string \<Rightarrow> 'd connectionManager \<Rightarrow> nat option" where
  "GetConnection connID cm = cmg_connections cm connID"

definition GetAllConnections :: "string list \<Rightarrow> 'd connectionManager \<Rightarrow> nat list" where
  "GetAllConnections ks cm = range_values (cmg_connections cm) ks"

definition cm_GetConnectionCount :: "'d connectionManager \<Rightarrow> nat" where
  "cm_GetConnectionCount cm = card (dom (cmg_connections cm))"

definition in_state :: "(nat \<rightharpoonup> 'd tcpConnection) \<Rightarrow> ConnectionState \<Rightarrow> nat \<Rightarrow> bool" where
  "in_state heap state a = (map_option tcp_state (heap a) = Some state)"

definition GetConnectionsByState :: "string list \<Rightarrow> ConnectionState \<Rightarrow> 'd connectionManager \<Rightarrow> nat list" where
  "GetConnectionsByState ks state cm = filter (in_state (cmg_heap cm) state) (GetAllConnections ks cm)"

section \<open>Sending\<close>

text \<open>
  One send for each connection, each in a goroutine of its own and on its own connection, so
  that their order makes no difference: how many succeed and fail, and the heap.
\<close>

fun send_all ::
  "('d tcpConnection \<Rightarrow> (NetError, unit) outcome \<times> 'd tcpConnection) \<Rightarrow> nat list \<Rightarrow> (nat \<rightharpoonup> 'd tcpConnection) \<Rightarrow>
     (nat \<times> nat \<times> (nat \<rightharpoonup> 'd tcpConnection)) option" where
  "send_all f [] heap = Some (0, 0, heap)"
| "send_all f (a # as) heap =
     (case heap a of
        None \<Rightarrow> send_all f as heap
      | Some c \<Rightarrow>
          (case f c of
             (Panic, _) \<Rightarrow> None
           | (Ok _, c') \<Rightarrow> map_option (\<lambda>(n, m, h). (Suc n, m, h)) (send_all f as (heap(a \<mapsto> c')))
           | (Err _, c') \<Rightarrow> map_option (\<lambda>(n, m, h). (n, Suc m, h)) (send_all f as (heap(a \<mapsto> c')))))"

definition send_message :: "Time \<Rightarrow> 'd NetMessage option \<Rightarrow> 'd tcpConnection \<Rightarrow> (NetError, unit) outcome \<times> 'd tcpConnection" where
  "send_message now msg c = (case tcp_SendMessage now msg c of (r, _, c') \<Rightarrow> (r, c'))"

text \<open>The goroutines count successes without a lock: \<open>lost\<close> increments may be lost.\<close>

definition cm_BroadcastMessage ::
  "Time \<Rightarrow> nat \<Rightarrow> string list \<Rightarrow> 'd NetMessage option \<Rightarrow> 'd connectionManager \<Rightarrow>
     ((ManagerError + unit) \<times> 'd connectionManager) option" where
  "cm_BroadcastMessage now lost ks msg cm =
     (if msg = None then Some (Inl Cm_nil_message, cm)
      else if GetAllConnections ks cm = [] then Some (Inr (), cm)
      else map_option
             (\<lambda>(sent, failed, heap).
                (if failed > 0 then Inl (Cm_broadcast_failed failed (length (GetAllConnections ks cm))) else Inr (),
                 cm\<lparr>cmg_heap := heap, cmg_totalMessages := cmg_totalMessages cm + of_nat (sent - lost)\<rparr>))
             (send_all (send_message now msg) (GetAllConnections ks cm) (cmg_heap cm)))"

definition cm_BroadcastData ::
  "Time \<Rightarrow> string list \<Rightarrow> bytes \<Rightarrow> 'd connectionManager \<Rightarrow> ((ManagerError + unit) \<times> 'd connectionManager) option" where
  "cm_BroadcastData now ks data cm =
     (if data = [] then Some (Inl Cm_empty_data, cm)
      else if GetAllConnections ks cm = [] then Some (Inr (), cm)
      else map_option
             (\<lambda>(sent, failed, heap).
                (if failed > 0 then Inl (Cm_broadcast_failed failed (length (GetAllConnections ks cm))) else Inr (),
                 cm\<lparr>cmg_heap := heap\<rparr>))
             (send_all (tcp_Send now data) (GetAllConnections ks cm) (cmg_heap cm)))"

definition SendMessageToConnection ::
  "Time \<Rightarrow> string \<Rightarrow> 'd NetMessage option \<Rightarrow> 'd connectionManager \<Rightarrow> ((ManagerError + unit) \<times> 'd connectionManager) option" where
  "SendMessageToConnection now connID msg cm =
     (case Option.bind (GetConnection connID cm) (\<lambda>a. map_option (Pair a) (cmg_heap cm a)) of
        None \<Rightarrow> Some (Inl (Cm_not_found connID), cm)
      | Some (a, c) \<Rightarrow>
          (case send_message now msg c of
             (Panic, _) \<Rightarrow> None
           | (Err e, c') \<Rightarrow> Some (Inl (Cm_send e), cm\<lparr>cmg_heap := (cmg_heap cm)(a \<mapsto> c')\<rparr>)
           | (Ok _, c') \<Rightarrow>
               Some (Inr (), cm\<lparr>cmg_heap := (cmg_heap cm)(a \<mapsto> c'), cmg_totalMessages := cmg_totalMessages cm + 1\<rparr>)))"

section \<open>Cleaning up\<close>

definition inactive :: "Time \<Rightarrow> 'd tcpConnection \<Rightarrow> bool" where
  "inactive cutoffTime c \<longleftrightarrow> GetLastActivity c < cutoffTime \<or> tcp_state c = ConnectionStateClosed"

fun cleanup_loop :: "Time \<Rightarrow> string list \<Rightarrow> nat \<Rightarrow> 'd connectionManager \<Rightarrow> (nat \<times> 'd connectionManager) option" where
  "cleanup_loop cutoffTime [] removedCount cm = Some (removedCount, cm)"
| "cleanup_loop cutoffTime (connID # ks) removedCount cm =
     (case Option.bind (cmg_connections cm connID) (\<lambda>a. map_option (Pair a) (cmg_heap cm a)) of
        None \<Rightarrow> cleanup_loop cutoffTime ks removedCount cm
      | Some (a, c) \<Rightarrow>
          if inactive cutoffTime c
          then (case tcp_Close c of
                  None \<Rightarrow> None
                | Some c' \<Rightarrow>
                    cleanup_loop cutoffTime ks (Suc removedCount)
                      (cm\<lparr>cmg_heap := (cmg_heap cm)(a \<mapsto> c'), cmg_connections := (cmg_connections cm)(connID := None)\<rparr>))
          else cleanup_loop cutoffTime ks removedCount cm)"

definition Cleanup :: "Time \<Rightarrow> string list \<Rightarrow> Duration \<Rightarrow> 'd connectionManager \<Rightarrow> (nat \<times> 'd connectionManager) option" where
  "Cleanup now ks timeout cm = (if timeout \<le> 0 then Some (0, cm) else cleanup_loop (now - timeout) ks 0 cm)"

definition CloseAllConnections :: "string list \<Rightarrow> 'd connectionManager \<Rightarrow> 'd connectionManager option" where
  "CloseAllConnections ks cm =
     (case close_conns (GetAllConnections ks cm) (cmg_heap cm) of
        None \<Rightarrow> None
      | Some heap \<Rightarrow>
          let cm1 = cm\<lparr>cmg_heap := heap, cmg_connections := Map.empty\<rparr>
          in if \<not> cmg_heartbeatEnabled cm1 then Some cm1
             else let cm2 = cm1\<lparr>cmg_heartbeatEnabled := False,
                        cmg_tickers := (case cmg_heartbeatTicker cm1 of
                           None \<Rightarrow> cmg_tickers cm1
                         | Some t \<Rightarrow> (cmg_tickers cm1)[t := (cmg_tickers cm1 ! t)\<lparr>tk_stopped := True\<rparr>])\<rparr>
                  in (case cmg_heartbeatStopChan cm2 of
                        None \<Rightarrow> Some cm2
                      | Some ch \<Rightarrow> if cmg_stopChans cm2 ! ch then None
                                  else Some (cm2\<lparr>cmg_stopChans := (cmg_stopChans cm2)[ch := True]\<rparr>)))"

definition cm_GetStatistics :: "Time \<Rightarrow> string list \<Rightarrow> 'd connectionManager \<Rightarrow> ConnectionManagerStatistics" where
  "cm_GetStatistics now ks cm =
     (let conns = List.map_filter (cmg_heap cm) (GetAllConnections ks cm)
      in \<lparr>cms_TotalConnections = cmg_totalConnections cm,
          cms_ActiveConnections = of_nat (cm_GetConnectionCount cm),
          cms_ConnectionsByState = (\<lambda>s. length (filter (\<lambda>c. tcp_state c = s) conns)),
          cms_TotalBytes = sum_list (map (\<lambda>c. tcp_bytesRead c + tcp_bytesWritten c) conns),
          cms_TotalMessages = sum_list (map (\<lambda>c. tcp_messagesRead c + tcp_messagesSent c) conns),
          cms_HeartbeatEnabled = cmg_heartbeatEnabled cm, cms_HeartbeatInterval = cmg_heartbeatInterval cm,
          cms_StartTime = cmg_startTime cm, cms_Uptime = now - cmg_startTime cm\<rparr>)"

section \<open>Heartbeat\<close>

definition StartHeartbeat :: "Duration \<Rightarrow> 'd connectionManager \<Rightarrow> (ManagerError + unit) \<times> 'd connectionManager" where
  "StartHeartbeat interval cm =
     (if interval \<le> 0 then (Inl (Cm_invalid_interval interval), cm)
      else if cmg_heartbeatEnabled cm then (Inl Cm_heartbeat_running, cm)
      else (Inr (), cm\<lparr>cmg_heartbeatEnabled := True, cmg_heartbeatInterval := interval,
                       cmg_heartbeatTicker := Some (length (cmg_tickers cm)),
                       cmg_tickers := cmg_tickers cm @ [\<lparr>tk_pending = False, tk_stopped = False\<rparr>],
                       cmg_heartbeatStopChan := Some (length (cmg_stopChans cm)),
                       cmg_stopChans := cmg_stopChans cm @ [False], cmg_loops := cmg_loops cm @ [Hb_top]\<rparr>))"

text \<open>\<^verbatim>\<open>StopHeartbeat\<close> up to its wait, which it enters holding the mutex; \<open>None\<close> is a panic.\<close>

definition StopHeartbeat_begin :: "'d connectionManager \<Rightarrow> 'd connectionManager option" where
  "StopHeartbeat_begin cm =
     (if \<not> cmg_heartbeatEnabled cm then Some cm
      else let cm1 = cm\<lparr>cmg_heartbeatEnabled := False, cmg_heartbeatTicker := None,
                        cmg_tickers := (case cmg_heartbeatTicker cm of
                           None \<Rightarrow> cmg_tickers cm
                         | Some t \<Rightarrow> (cmg_tickers cm)[t := (cmg_tickers cm ! t)\<lparr>tk_stopped := True\<rparr>]),
                        cmg_locked := True\<rparr>
           in (case cmg_heartbeatStopChan cm1 of
                 None \<Rightarrow> Some cm1
               | Some ch \<Rightarrow> if cmg_stopChans cm1 ! ch then None
                           else Some (cm1\<lparr>cmg_heartbeatStopChan := None,
                                          cmg_stopChans := (cmg_stopChans cm1)[ch := True]\<rparr>)))"

text \<open>It returns once no loop is left, and then releases the mutex.\<close>

definition StopHeartbeat_end :: "'d connectionManager \<Rightarrow> 'd connectionManager option" where
  "StopHeartbeat_end cm = (if cmg_locked cm \<and> cmg_loops cm = [] then Some (cm\<lparr>cmg_locked := False\<rparr>) else None)"

definition sendHeartbeatToAll :: "string list \<Rightarrow> 'd connectionManager \<Rightarrow> 'd connectionManager" where
  "sendHeartbeatToAll ks cm = cm\<lparr>cmg_sending := cmg_sending cm @ GetConnectionsByState ks ConnectionStateConnected cm\<rparr>"

text \<open>A turn of loop number \<open>i\<close>: blocked, panicking, or a new state.\<close>

datatype 'a turn = Blocked | Turn_panic | Turned 'a

abbreviation set_loop :: "nat \<Rightarrow> hb_phase \<Rightarrow> 'd connectionManager \<Rightarrow> 'd connectionManager" where
  "set_loop i p cm \<equiv> cm\<lparr>cmg_loops := (cmg_loops cm)[i := p]\<rparr>"

definition drop_nth :: "nat \<Rightarrow> 'a list \<Rightarrow> 'a list" where
  "drop_nth i xs = take i xs @ drop (Suc i) xs"

definition loop_returns :: "nat \<Rightarrow> 'd connectionManager \<Rightarrow> 'd connectionManager" where
  "loop_returns i cm = cm\<lparr>cmg_loops := drop_nth i (cmg_loops cm)\<rparr>"

definition heartbeatLoop_turn :: "bool \<Rightarrow> string list \<Rightarrow> nat \<Rightarrow> 'd connectionManager \<Rightarrow> 'd connectionManager turn" where
  "heartbeatLoop_turn prefer_tick ks i cm =
     (case cmg_loops cm ! i of
        Hb_top \<Rightarrow>
          (case cmg_heartbeatTicker cm of
             None \<Rightarrow> Turn_panic
           | Some t \<Rightarrow> Turned (set_loop i (Hb_wait t (cmg_heartbeatStopChan cm)) cm))
      | Hb_wait t ch \<Rightarrow>
          (let tick = tk_pending (cmg_tickers cm ! t); stop = (case ch of None \<Rightarrow> False | Some i \<Rightarrow> cmg_stopChans cm ! i)
           in if tick \<and> (prefer_tick \<or> \<not> stop)
              then Turned (set_loop i Hb_send (cm\<lparr>cmg_tickers := (cmg_tickers cm)[t := (cmg_tickers cm ! t)\<lparr>tk_pending := False\<rparr>]\<rparr>))
              else if stop then Turned (loop_returns i cm)
              else Blocked)
      | Hb_send \<Rightarrow> if cmg_locked cm then Blocked else Turned (set_loop i Hb_top (sendHeartbeatToAll ks cm)))"

text \<open>The clock: a running ticker leaves a tick.\<close>

definition tick :: "nat \<Rightarrow> 'd connectionManager \<Rightarrow> 'd connectionManager" where
  "tick t cm =
     (if t < length (cmg_tickers cm) \<and> \<not> tk_stopped (cmg_tickers cm ! t)
      then cm\<lparr>cmg_tickers := (cmg_tickers cm)[t := (cmg_tickers cm ! t)\<lparr>tk_pending := True\<rparr>]\<rparr> else cm)"

text \<open>One of the goroutines that \<^verbatim>\<open>sendHeartbeatToAll\<close> started.\<close>

definition heartbeat_send :: "Time \<Rightarrow> 'd NetMessage \<Rightarrow> 'd connectionManager \<Rightarrow> 'd connectionManager option" where
  "heartbeat_send now msg cm =
     (case cmg_sending cm of
        [] \<Rightarrow> Some cm
      | a # as \<Rightarrow>
          (case send_all (send_message now (Some msg)) [a] (cmg_heap cm) of
             None \<Rightarrow> None
           | Some (_, _, heap) \<Rightarrow> Some (cm\<lparr>cmg_sending := as, cmg_heap := heap\<rparr>)))"

section \<open>Invariant\<close>

text \<open>
  The ids of the connections do not change and their channels are closed when they are; the
  table files every connection under its id.
\<close>

definition heap_ids :: "(nat \<rightharpoonup> string) \<Rightarrow> (nat \<rightharpoonup> 'd tcpConnection) \<Rightarrow> bool" where
  "heap_ids ids heap \<longleftrightarrow> (\<forall>a. map_option tcp_id (heap a) = ids a) \<and> (\<forall>a c. heap a = Some c \<longrightarrow> conn_ok c)"

definition cm_ok :: "(nat \<rightharpoonup> string) \<Rightarrow> 'd connectionManager \<Rightarrow> bool" where
  "cm_ok ids cm \<longleftrightarrow> heap_ids ids (cmg_heap cm) \<and> (\<forall>k a. cmg_connections cm k = Some a \<longrightarrow> ids a = Some k)"

lemma heap_ids_next:
  assumes "heap_ids ids h" "heap_next h h'"
  shows "heap_ids ids h'"
proof -
  have "map_option tcp_id (h' a) = ids a \<and> (\<forall>c. h' a = Some c \<longrightarrow> conn_ok c)" for a
  proof (cases "h a")
    case None
    then have "h' a = None" using assms(2) by (simp add: heap_next_def)
    moreover have "ids a = None" using assms(1) None by (metis heap_ids_def option.map_disc_iff)
    ultimately show ?thesis by simp
  next
    case (Some c)
    then have "ids a = Some (tcp_id c)" "conn_ok c" using assms(1) by (metis heap_ids_def option.simps(9), simp add: heap_ids_def)
    then show ?thesis using heap_nextE [OF assms(2) Some] by (metis conn_next_def option.inject option.simps(9))
  qed
  then show ?thesis by (simp add: heap_ids_def)
qed

lemma cm_ok_lookup:
  assumes "cm_ok ids cm" "cmg_connections cm k = Some a"
  obtains c where "cmg_heap cm a = Some c" "tcp_id c = k" "conn_ok c"
proof -
  have "map_option tcp_id (cmg_heap cm a) = Some k" using assms by (simp add: cm_ok_def heap_ids_def)
  then obtain c where "cmg_heap cm a = Some c" "tcp_id c = k" by (cases "cmg_heap cm a") auto
  then show thesis using assms(1) that by (simp add: cm_ok_def heap_ids_def)
qed

lemma cm_ok_inj: "\<lbrakk>cm_ok ids cm; cmg_connections cm k = Some a; cmg_connections cm k' = Some a\<rbrakk> \<Longrightarrow> k = k'"
  unfolding cm_ok_def by (metis option.inject)

lemma cm_ok_heap_next:
  assumes "cm_ok ids cm" "heap_next (cmg_heap cm) (cmg_heap cm')" "cmg_connections cm' \<subseteq>\<^sub>m cmg_connections cm"
  shows "cm_ok ids cm'"
proof -
  have "heap_ids ids (cmg_heap cm')" using assms(1,2) heap_ids_next by (auto simp: cm_ok_def)
  moreover have "ids a = Some k" if "cmg_connections cm' k = Some a" for k a
  proof -
    have "cmg_connections cm k = Some a" using assms(3) that unfolding map_le_def by (metis domI)
    then show ?thesis using assms(1) by (simp add: cm_ok_def)
  qed
  ultimately show ?thesis by (simp add: cm_ok_def)
qed

lemma close_conns_ok:
  assumes "cm_ok ids cm" "set as \<subseteq> ran (cmg_connections cm)"
  shows "\<exists>heap'. close_conns as (cmg_heap cm) = Some heap' \<and> heap_next (cmg_heap cm) heap'"
proof (rule close_conns_next, rule ballI)
  fix a assume "a \<in> set as"
  then obtain k where "cmg_connections cm k = Some a" using assms(2) by (auto simp: ran_def)
  then show "\<exists>c. cmg_heap cm a = Some c \<and> conn_ok c" using cm_ok_lookup [OF assms(1)] by metis
qed

text \<open>Adding and removing, seen as a table whose keys are the ids.\<close>

definition manager_add :: "string \<Rightarrow> nat \<Rightarrow> 'd connectionManager \<Rightarrow> 'd connectionManager option" where
  "manager_add k a cm =
     (if map_option tcp_id (cmg_heap cm a) = Some k
      then (case AddConnection (Some a) cm of (Inr _, cm') \<Rightarrow> Some cm' | (Inl _, _) \<Rightarrow> None) else None)"

definition manager_del :: "string \<Rightarrow> 'd connectionManager \<Rightarrow> 'd connectionManager option" where
  "manager_del k cm = (case RemoveConnection k cm of Some (Inr _, cm') \<Rightarrow> Some cm' | _ \<Rightarrow> None)"

lemma manager_add_fresh:
  assumes "cm_ok ids cm" "ids a = Some k" "cmg_connections cm k = None"
  shows "\<exists>cm'. manager_add k a cm = Some cm' \<and> cm_ok ids cm' \<and> cmg_connections cm' = (cmg_connections cm)(k \<mapsto> a)"
proof -
  have "map_option tcp_id (cmg_heap cm a) = Some k" using assms(1,2) by (simp add: cm_ok_def heap_ids_def)
  then obtain c where "cmg_heap cm a = Some c" "tcp_id c = k" by (cases "cmg_heap cm a") auto
  then show ?thesis using assms by (auto simp: manager_add_def AddConnection_def cm_ok_def)
qed

lemma manager_del_present:
  assumes "cm_ok ids cm" "cmg_connections cm k \<noteq> None"
  shows "\<exists>cm'. manager_del k cm = Some cm' \<and> cm_ok ids cm' \<and> cmg_connections cm' = (cmg_connections cm)(k := None)"
proof -
  obtain a where a: "cmg_connections cm k = Some a" using assms(2) by auto
  then have "set [a] \<subseteq> ran (cmg_connections cm)" by (auto simp: ran_def)
  from close_conns_ok [OF assms(1) this] obtain h
    where h: "close_conns [a] (cmg_heap cm) = Some h" "heap_next (cmg_heap cm) h" by blast
  have "cm_ok ids (cm\<lparr>cmg_heap := h, cmg_connections := (cmg_connections cm)(k := None)\<rparr>)"
    by (rule cm_ok_heap_next [OF assms(1)]) (use h(2) in \<open>auto simp: map_le_def\<close>)
  then show ?thesis using a h(1) by (simp add: manager_del_def RemoveConnection_def del: close_conns.simps)
qed

interpretation cmt: unique_table cmg_connections manager_add manager_del "cm_ok ids" "\<lambda>k a. ids a = Some k"
  for ids :: "nat \<rightharpoonup> string"
proof unfold_locales
  fix cm :: "'a connectionManager" and k v
  show "manager_add k v cm = None" if "cmg_connections cm k \<noteq> None"
    using that by (cases "cmg_heap cm v") (auto simp: manager_add_def AddConnection_def)
  show "manager_del k cm = None" if "cmg_connections cm k = None"
    using that by (simp add: manager_del_def RemoveConnection_def)
qed (simp_all add: manager_add_fresh manager_del_present)

section \<open>Cleaning up\<close>

definition gone :: "Time \<Rightarrow> 'd connectionManager \<Rightarrow> string set" where
  "gone cutoff cm = {k. \<exists>a c. cmg_connections cm k = Some a \<and> cmg_heap cm a = Some c \<and> inactive cutoff c}"

lemma cleanup_loop_exact:
  assumes "cm_ok ids cm" "distinct ks"
  shows "\<exists>cm'. cleanup_loop cutoff ks n cm = Some (n + card (gone cutoff cm \<inter> set ks), cm') \<and> cm_ok ids cm' \<and>
     cmg_connections cm' = cmg_connections cm |` (- (gone cutoff cm \<inter> set ks)) \<and>
     (\<forall>k\<in>gone cutoff cm \<inter> set ks. \<exists>a c. cmg_connections cm k = Some a \<and> cmg_heap cm' a = Some c \<and> tcp_closed c) \<and>
     (\<forall>a. (\<forall>k\<in>gone cutoff cm \<inter> set ks. cmg_connections cm k \<noteq> Some a) \<longrightarrow> cmg_heap cm' a = cmg_heap cm a)"
  using assms
proof (induction ks arbitrary: n cm)
  case Nil
  then show ?case by (simp add: restrict_map_def fun_eq_iff)
next
  case (Cons k ks)
  show ?case
  proof (cases "k \<in> gone cutoff cm")
    case False
    then have e: "gone cutoff cm \<inter> set (k # ks) = gone cutoff cm \<inter> set ks" by auto
    have "cleanup_loop cutoff (k # ks) n cm = cleanup_loop cutoff ks n cm"
      using False by (auto simp: gone_def split: option.splits bind_splits)
    then show ?thesis using Cons.IH [OF Cons.prems(1)] Cons.prems(2) unfolding e by simp
  next
    case True
    then obtain a c where a: "cmg_connections cm k = Some a" "cmg_heap cm a = Some c" "inactive cutoff c" by (auto simp: gone_def)
    have "conn_ok c" using a(2) Cons.prems(1) by (simp add: cm_ok_def heap_ids_def)
    from Close_next [OF this] obtain c' where c': "tcp_Close c = Some c'" "conn_next c c'" "tcp_closed c'" by blast
    define cm1 where "cm1 = cm\<lparr>cmg_heap := (cmg_heap cm)(a \<mapsto> c'), cmg_connections := (cmg_connections cm)(k := None)\<rparr>"
    have ok: "cm_ok ids cm1"
      by (rule cm_ok_heap_next [OF Cons.prems(1)]) (use heap_next_upd [where h = "cmg_heap cm", OF a(2) c'(2)] in \<open>auto simp: cm1_def map_le_def\<close>)
    have g: "gone cutoff cm1 = gone cutoff cm - {k}"
      using cm_ok_inj [OF Cons.prems(1) _ a(1)] by (auto simp: gone_def cm1_def)
    have e: "gone cutoff cm1 \<inter> set ks = gone cutoff cm \<inter> set ks" "gone cutoff cm \<inter> set (k # ks) = insert k (gone cutoff cm \<inter> set ks)"
      "k \<notin> gone cutoff cm \<inter> set ks" using g True Cons.prems(2) by auto
    have other: "j \<noteq> k \<Longrightarrow> cmg_connections cm j \<noteq> Some a" for j
      using cm_ok_inj [OF Cons.prems(1) _ a(1)] by blast
    have run: "cleanup_loop cutoff (k # ks) n cm = cleanup_loop cutoff ks (Suc n) cm1"
      using a c' by (simp add: cm1_def)
    from Cons.IH [OF ok, of "Suc n"] Cons.prems(2) obtain cm' where IH:
      "cleanup_loop cutoff ks (Suc n) cm1 = Some (Suc n + card (gone cutoff cm \<inter> set ks), cm')" "cm_ok ids cm'"
      "cmg_connections cm' = cmg_connections cm1 |` (- (gone cutoff cm \<inter> set ks))"
      "\<forall>k\<in>gone cutoff cm \<inter> set ks. \<exists>a c. cmg_connections cm1 k = Some a \<and> cmg_heap cm' a = Some c \<and> tcp_closed c"
      "\<forall>a. (\<forall>k\<in>gone cutoff cm \<inter> set ks. cmg_connections cm1 k \<noteq> Some a) \<longrightarrow> cmg_heap cm' a = cmg_heap cm1 a"
      unfolding e(1) by auto
    have con: "cmg_connections cm1 j = (if j = k then None else cmg_connections cm j)" for j by (simp add: cm1_def)
    have "cmg_heap cm' a = Some c'" using IH(5) other con by (auto simp: cm1_def)
    moreover have "cmg_connections cm' = cmg_connections cm |` (- insert k (gone cutoff cm \<inter> set ks))"
      unfolding IH(3) by (auto simp: restrict_map_def con fun_eq_iff)
    moreover have "cmg_heap cm' b = cmg_heap cm b" if "\<forall>j\<in>insert k (gone cutoff cm \<inter> set ks). cmg_connections cm j \<noteq> Some b" for b
      using IH(5) that a(1) con by (auto simp: cm1_def)
    moreover have "\<exists>b d. cmg_connections cm j = Some b \<and> cmg_heap cm' b = Some d \<and> tcp_closed d" if "j \<in> gone cutoff cm \<inter> set ks" for j
      using IH(4) that e(3) con by (metis option.distinct(1))
    ultimately show ?thesis
      unfolding run e(2) using IH(1,2) e(3) a(1) c'(3) by auto
  qed
qed

text \<open>
  \<^verbatim>\<open>Cleanup\<close> removes exactly the connections that were last active before the cutoff or
  are closed, for every visiting order: it returns their number, closes each of them, keeps every
  other entry, and touches no other connection.
\<close>

theorem cleanup_exact:
  assumes "cm_ok ids cm" "range_order (cmg_connections cm) ks" "0 < timeout"
  shows "\<exists>cm'. Cleanup now ks timeout cm = Some (card (gone (now - timeout) cm), cm') \<and> cm_ok ids cm' \<and>
     cmg_connections cm' = cmg_connections cm |` (- gone (now - timeout) cm) \<and>
     (\<forall>k\<in>gone (now - timeout) cm. \<exists>a c. cmg_connections cm k = Some a \<and> cmg_heap cm' a = Some c \<and> tcp_closed c) \<and>
     (\<forall>a. (\<forall>k\<in>gone (now - timeout) cm. cmg_connections cm k \<noteq> Some a) \<longrightarrow> cmg_heap cm' a = cmg_heap cm a)"
proof -
  have "gone (now - timeout) cm \<inter> set ks = gone (now - timeout) cm"
    using range_orderD(2) [OF assms(2)] by (auto simp: gone_def)
  with cleanup_loop_exact [OF assms(1) range_orderD(1) [OF assms(2)], of "now - timeout" 0] assms(3)
  show ?thesis by (simp add: Cleanup_def)
qed

text \<open>Two connections, the first last active a hundred seconds before the second.\<close>

definition old_conn :: "unit tcpConnection" where
  "old_conn = snd (NewTCPConnection 0 \<lparr>con_in = [], con_out = [], con_closed = False\<rparr> 0)"

definition new_conn :: "unit tcpConnection" where
  "new_conn = snd (NewTCPConnection 1 \<lparr>con_in = [], con_out = [], con_closed = False\<rparr> (100 * Second))"

definition demo_manager :: "unit connectionManager" where
  "demo_manager = snd (AddConnection (Some 1) (snd (AddConnection (Some 0) (NewConnectionManager [0 \<mapsto> old_conn, 1 \<mapsto> new_conn] 0))))"

lemma demo_ids: "tcp_id old_conn = ''tcp-1''" "tcp_id new_conn = ''tcp-2''"
proof -
  have "sint (2 :: u64) = 2" by simp
  moreover have "int_text 1 = ''1'' \<and> int_text 2 = ''2''"
    by (simp add: int_text_def decimal.simps char_of_def bit_simps)
  ultimately show "tcp_id old_conn = ''tcp-1''" "tcp_id new_conn = ''tcp-2''"
    by (simp_all add: old_conn_def new_conn_def NewTCPConnection_def Let_def)
qed

lemma demo_manager_simps:
  "cmg_connections demo_manager = [''tcp-1'' \<mapsto> 0, ''tcp-2'' \<mapsto> 1]"
  "cmg_heap demo_manager = [0 \<mapsto> old_conn, 1 \<mapsto> new_conn]"
  "cmg_loops demo_manager = []" "\<not> cmg_locked demo_manager" "\<not> cmg_heartbeatEnabled demo_manager"
  "cmg_tickers demo_manager = []" "cmg_stopChans demo_manager = []"
  by (simp_all add: demo_manager_def NewConnectionManager_def AddConnection_def demo_ids fun_upd_twist)

lemma demo_manager_ok: "cm_ok [0 \<mapsto> ''tcp-1'', 1 \<mapsto> ''tcp-2''] demo_manager"
proof -
  have "conn_ok old_conn" "conn_ok new_conn" by (simp_all add: conn_ok_def old_conn_def new_conn_def NewTCPConnection_def Let_def)
  then show ?thesis by (auto simp: cm_ok_def heap_ids_def demo_manager_simps demo_ids split: if_splits)
qed

theorem cleanup_exact_witness:
  "\<exists>cm'. Cleanup (100 * Second) [''tcp-1'', ''tcp-2''] (50 * Second) demo_manager = Some (1, cm') \<and>
     cmg_connections cm' = [''tcp-2'' \<mapsto> 1]"
proof -
  have "gone (100 * Second - 50 * Second) demo_manager = {''tcp-1''}"
    by (auto simp: gone_def demo_manager_simps inactive_def old_conn_def new_conn_def NewTCPConnection_def GetLastActivity_def
        time_of_Unix_def time_Unix_def unix_epoch_seconds_def Let_def split: if_splits)
  moreover have "range_order (cmg_connections demo_manager) [''tcp-1'', ''tcp-2'']"
    by (auto simp: range_order_def demo_manager_simps)
  moreover have "[''tcp-1'' \<mapsto> 0, ''tcp-2'' \<mapsto> 1] |` (- {''tcp-1''}) = [''tcp-2'' \<mapsto> (1 :: nat)]"
    by (auto simp: restrict_map_def fun_eq_iff)
  ultimately show ?thesis
    using cleanup_exact [OF demo_manager_ok, of "[''tcp-1'', ''tcp-2'']" "50 * Second" "100 * Second"]
    by (auto simp: demo_manager_simps)
qed

section \<open>Broadcasting\<close>

lemma conn_ok_no_panic:
  assumes "conn_ok c"
  shows "fst (tcp_Send now data c) \<noteq> Panic" "fst (send_message now msg c) \<noteq> Panic"
proof -
  show s: "fst (tcp_Send now data c) \<noteq> Panic" for data
    using assms by (auto simp: tcp_Send_def send_select_def isClosed_def conn_ok_def try_send_panic_iff split: send_outcome.split prod.split sum.split)
  show "fst (send_message now msg c) \<noteq> Panic"
  proof -
    have "r \<noteq> Panic" if "tcp_Send now data c = (r, c')" for data r c' using s [of data] that by simp
    then show ?thesis
      by (auto simp: send_message_def tcp_SendMessage_def Let_def split: option.split sum.split prod.split outcome.split)
  qed
qed

lemma send_all_result:
  assumes "distinct as" "\<forall>a\<in>set as. \<exists>c. heap a = Some c \<and> fst (f c) \<noteq> Panic"
  shows "send_all f as heap =
    Some (length (filter (\<lambda>a. fst (f (the (heap a))) = Ok ()) as), length (filter (\<lambda>a. fst (f (the (heap a))) \<noteq> Ok ()) as),
          \<lambda>a. if a \<in> set as then map_option (\<lambda>c. snd (f c)) (heap a) else heap a)"
  using assms
proof (induction as arbitrary: heap)
  case Nil
  then show ?case by simp
next
  case (Cons a as)
  then obtain c r c' where c: "heap a = Some c" "f c = (r, c')" "r \<noteq> Panic" by (metis fst_conv list.set_intros(1) prod.collapse)
  have same: "(heap(a \<mapsto> c')) b = heap b" if "b \<in> set as" for b using that Cons.prems(1) by auto
  have "\<forall>b\<in>set as. \<exists>d. (heap(a \<mapsto> c')) b = Some d \<and> fst (f d) \<noteq> Panic" using Cons.prems same by auto
  note IH = Cons.IH [OF _ this]
  have flt: "filter (\<lambda>b. P (fst (f (the ((heap(a \<mapsto> c')) b))))) as = filter (\<lambda>b. P (fst (f (the (heap b))))) as" for P
    by (rule filter_cong) (simp_all add: same del: fun_upd_apply)
  have hp: "(\<lambda>b. if b \<in> set as then map_option (\<lambda>c. snd (f c)) ((heap(a \<mapsto> c')) b) else (heap(a \<mapsto> c')) b) =
      (\<lambda>b. if b \<in> set (a # as) then map_option (\<lambda>c. snd (f c)) (heap b) else heap b)"
    using Cons.prems(1) c by (auto simp: fun_eq_iff)
  show ?case
    using IH Cons.prems(1) c flt [of "\<lambda>r. r = Ok ()"] flt [of "\<lambda>r. r \<noteq> Ok ()"]
    unfolding hp by (cases r) (simp_all del: fun_upd_apply)
qed

lemma all_connections:
  assumes "cm_ok ids cm" "range_order (cmg_connections cm) ks"
  shows "distinct (GetAllConnections ks cm)" "set (GetAllConnections ks cm) = ran (cmg_connections cm)"
    "length (GetAllConnections ks cm) = card (dom (cmg_connections cm))"
    "\<forall>a\<in>set (GetAllConnections ks cm). \<exists>c. cmg_heap cm a = Some c \<and> conn_ok c"
proof -
  show "distinct (GetAllConnections ks cm)"
    unfolding GetAllConnections_def using range_orderD(1) [OF assms(2)] cm_ok_inj [OF assms(1)]
    by (intro distinct_range_values) auto
  show r: "set (GetAllConnections ks cm) = ran (cmg_connections cm)"
    using set_range_values [OF assms(2)] by (simp add: GetAllConnections_def)
  show "length (GetAllConnections ks cm) = card (dom (cmg_connections cm))"
    using length_range_values [OF assms(2)] by (simp add: GetAllConnections_def)
  show "\<forall>a\<in>set (GetAllConnections ks cm). \<exists>c. cmg_heap cm a = Some c \<and> conn_ok c"
    unfolding r ran_def using cm_ok_lookup [OF assms(1)] by blast
qed

lemma send_message_closed: "tcp_closed c \<Longrightarrow> send_message now (Some m) c = (Err (Conn_closed (tcp_id c)), c)"
  by (simp add: send_message_def tcp_SendMessage_def isClosed_def)

lemma send_message_open:
  assumes "writable c" "sendable m" "length (ch_buf (tcp_sendChan c)) < ch_cap (tcp_sendChan c)"
  shows "fst (send_message now (Some m) c) = Ok ()" "outgoing (snd (send_message now (Some m) c)) = outgoing c @ encoded m"
  using assms(3) by (simp_all add: send_message_def SendMessage_open [OF assms(1,2)] Let_def)

definition closed_conns :: "'d connectionManager \<Rightarrow> nat set" where
  "closed_conns cm = {a \<in> ran (cmg_connections cm). \<exists>c. cmg_heap cm a = Some c \<and> tcp_closed c}"

text \<open>
  A broadcast reaches every managed connection that is open and has room, in every
  visiting order, and fails exactly for the closed ones, which it counts in its error.
\<close>

theorem manager_broadcast:
  assumes ok: "cm_ok ids cm" "range_order (cmg_connections cm) ks" and m: "sendable m"
    and room: "\<forall>a\<in>ran (cmg_connections cm). \<forall>c. cmg_heap cm a = Some c \<longrightarrow>
      tcp_closed c \<or> writable c \<and> length (ch_buf (tcp_sendChan c)) < ch_cap (tcp_sendChan c)"
  shows "\<exists>cm'. cm_BroadcastMessage now lost ks (Some m) cm =
       Some (if closed_conns cm = {} then Inr () else Inl (Cm_broadcast_failed (card (closed_conns cm)) (card (dom (cmg_connections cm)))), cm') \<and>
     cmg_connections cm' = cmg_connections cm \<and>
     (\<forall>a\<in>ran (cmg_connections cm). \<forall>c. cmg_heap cm a = Some c \<longrightarrow>
        (\<exists>c'. cmg_heap cm' a = Some c' \<and> (if tcp_closed c then c' = c else outgoing c' = outgoing c @ encoded m)))"
proof -
  let ?as = "GetAllConnections ks cm" and ?f = "send_message now (Some m)"
  note all = all_connections [OF ok]
  have good: "\<forall>a\<in>set ?as. \<exists>c. cmg_heap cm a = Some c \<and> fst (?f c) \<noteq> Panic"
    using all(4) conn_ok_no_panic(2) by blast
  define h where "h = (\<lambda>a. if a \<in> set ?as then map_option (\<lambda>c. snd (?f c)) (cmg_heap cm a) else cmg_heap cm a)"
  have fails: "fst (?f (the (cmg_heap cm a))) \<noteq> Ok () \<longleftrightarrow> a \<in> closed_conns cm" if a: "a \<in> set ?as" for a
  proof -
    obtain c where "cmg_heap cm a = Some c" using all(4) a by blast
    then show ?thesis
      using room a send_message_open(1) [OF _ m] unfolding closed_conns_def all(2) by (auto simp: send_message_closed)
  qed
  have "filter (\<lambda>a. fst (?f (the (cmg_heap cm a))) \<noteq> Ok ()) ?as = filter (\<lambda>a. a \<in> closed_conns cm) ?as"
    using fails by (auto intro: filter_cong)
  moreover have "set (filter (\<lambda>a. a \<in> closed_conns cm) ?as) = closed_conns cm" using all(2) by (auto simp: closed_conns_def)
  ultimately have count: "length (filter (\<lambda>a. fst (?f (the (cmg_heap cm a))) \<noteq> Ok ()) ?as) = card (closed_conns cm)" "finite (closed_conns cm)"
    using distinct_card [OF distinct_filter [OF all(1)]] by (metis, metis List.finite_set)
  have run: "send_all ?f ?as (cmg_heap cm) = Some (length (filter (\<lambda>a. fst (?f (the (cmg_heap cm a))) = Ok ()) ?as), card (closed_conns cm), h)"
    using send_all_result [OF all(1) good] count by (simp add: h_def)
  have out: "\<exists>c'. h a = Some c' \<and> (if tcp_closed c then c' = c else outgoing c' = outgoing c @ encoded m)"
    if "a \<in> ran (cmg_connections cm)" "cmg_heap cm a = Some c" for a c
    using room that all(2) send_message_open(2) [OF _ m] by (auto simp: h_def send_message_closed)
  show ?thesis
  proof (cases "?as = []")
    case True
    then have "ran (cmg_connections cm) = {}" using all(2) by simp
    then show ?thesis using True by (simp add: cm_BroadcastMessage_def closed_conns_def)
  next
    case False
    then show ?thesis
      using run out all(3) count(2) by (simp add: cm_BroadcastMessage_def card_gt_0_iff)
  qed
qed

theorem manager_broadcast_witness:
  "\<exists>cm' c. cm_BroadcastMessage 0 0 [''tcp-1'', ''tcp-2''] (Some (NewAckMessage 7 0)) demo_manager = Some (Inr (), cm') \<and>
     cmg_heap cm' 1 = Some c \<and> outgoing c = encoded (NewAckMessage 7 0 :: unit NetMessage)"
proof -
  have r: "range_order (cmg_connections demo_manager) [''tcp-1'', ''tcp-2'']" "ran (cmg_connections demo_manager) = {0, 1}"
    by (auto simp: range_order_def demo_manager_simps)
  have open_conns: "writable old_conn" "writable new_conn" "outgoing new_conn = []"
    "ch_cap (tcp_sendChan old_conn) = 256" "ch_cap (tcp_sendChan new_conn) = 256"
    "ch_buf (tcp_sendChan old_conn) = []" "ch_buf (tcp_sendChan new_conn) = []"
    by (simp_all add: old_conn_def new_conn_def NewTCPConnection_def writable_def Let_def)
  have not_closed: "\<not> tcp_closed old_conn" "\<not> tcp_closed new_conn" using open_conns(1,2) by (simp_all add: writable_def)
  have "closed_conns demo_manager = {}" using not_closed by (auto simp: closed_conns_def r(2) demo_manager_simps)
  moreover have "\<forall>a\<in>ran (cmg_connections demo_manager). \<forall>c. cmg_heap demo_manager a = Some c \<longrightarrow>
      tcp_closed c \<or> writable c \<and> length (ch_buf (tcp_sendChan c)) < ch_cap (tcp_sendChan c)"
    using open_conns by (simp add: r(2) demo_manager_simps)
  moreover have "1 \<in> ran (cmg_connections demo_manager)" "cmg_heap demo_manager 1 = Some new_conn"
    by (simp_all add: r(2) demo_manager_simps)
  ultimately show ?thesis
    using manager_broadcast [OF demo_manager_ok r(1) sendable_ack [of 7], of 0 0] open_conns(3) not_closed(2) by fastforce
qed

section \<open>Interleavings\<close>

text \<open>Every operation that takes the mutex waits while \<^verbatim>\<open>StopHeartbeat\<close> holds it.\<close>

inductive cm_step :: "'d connectionManager \<Rightarrow> 'd connectionManager \<Rightarrow> bool" where
  add: "\<not> cmg_locked cm \<Longrightarrow> cm_step cm (snd (AddConnection conn cm))"
| remove: "\<lbrakk>\<not> cmg_locked cm; RemoveConnection k cm = Some (r, cm')\<rbrakk> \<Longrightarrow> cm_step cm cm'"
| message: "\<lbrakk>\<not> cmg_locked cm; range_order (cmg_connections cm) ks; cm_BroadcastMessage now lost ks msg cm = Some (r, cm')\<rbrakk> \<Longrightarrow>
    cm_step cm cm'"
| data: "\<lbrakk>\<not> cmg_locked cm; range_order (cmg_connections cm) ks; cm_BroadcastData now ks data cm = Some (r, cm')\<rbrakk> \<Longrightarrow> cm_step cm cm'"
| send_to: "\<lbrakk>\<not> cmg_locked cm; SendMessageToConnection now k msg cm = Some (r, cm')\<rbrakk> \<Longrightarrow> cm_step cm cm'"
| cleanup: "\<lbrakk>\<not> cmg_locked cm; range_order (cmg_connections cm) ks; Cleanup now ks timeout cm = Some (n, cm')\<rbrakk> \<Longrightarrow> cm_step cm cm'"
| close_all: "\<lbrakk>\<not> cmg_locked cm; range_order (cmg_connections cm) ks; CloseAllConnections ks cm = Some cm'\<rbrakk> \<Longrightarrow> cm_step cm cm'"
| start: "\<not> cmg_locked cm \<Longrightarrow> cm_step cm (snd (StartHeartbeat interval cm))"
| stop: "\<lbrakk>\<not> cmg_locked cm; StopHeartbeat_begin cm = Some cm'\<rbrakk> \<Longrightarrow> cm_step cm cm'"
| stopped: "StopHeartbeat_end cm = Some cm' \<Longrightarrow> cm_step cm cm'"
| loop: "\<lbrakk>i < length (cmg_loops cm); heartbeatLoop_turn pt ks i cm = Turned cm'\<rbrakk> \<Longrightarrow> cm_step cm cm'"
| clock: "cm_step cm (tick t cm)"
| heartbeat: "heartbeat_send now m cm = Some cm' \<Longrightarrow> cm_step cm cm'"
| use: "\<lbrakk>cmg_heap cm a = Some c; conn_next c c'\<rbrakk> \<Longrightarrow> cm_step cm (cm\<lparr>cmg_heap := (cmg_heap cm)(a \<mapsto> c')\<rparr>)"

text \<open>An enabled heartbeat has a ticker and an open channel.\<close>

definition hb_ok :: "'d connectionManager \<Rightarrow> bool" where
  "hb_ok cm \<longleftrightarrow> (cmg_heartbeatEnabled cm \<longrightarrow>
     (\<exists>t ch. cmg_heartbeatTicker cm = Some t \<and> t < length (cmg_tickers cm) \<and>
             cmg_heartbeatStopChan cm = Some ch \<and> ch < length (cmg_stopChans cm) \<and> \<not> cmg_stopChans cm ! ch))"

abbreviation same_heartbeat :: "'d connectionManager \<Rightarrow> 'd connectionManager \<Rightarrow> bool" where
  "same_heartbeat cm cm' \<equiv> cmg_heartbeatEnabled cm' = cmg_heartbeatEnabled cm \<and> cmg_heartbeatTicker cm' = cmg_heartbeatTicker cm \<and>
     length (cmg_tickers cm') = length (cmg_tickers cm) \<and> cmg_heartbeatStopChan cm' = cmg_heartbeatStopChan cm \<and>
     cmg_stopChans cm' = cmg_stopChans cm"

lemma hb_ok_same: "\<lbrakk>hb_ok cm; same_heartbeat cm cm'\<rbrakk> \<Longrightarrow> hb_ok cm'"
  by (simp add: hb_ok_def)

text \<open>What the operations that only send change.\<close>

lemma send_all_next:
  assumes "send_all f as heap = Some (n, m, heap')" "\<And>c. conn_next c (snd (f c))"
  shows "heap_next heap heap'"
  using assms(1)
proof (induction as arbitrary: n m heap)
  case (Cons a as)
  show ?case
  proof (cases "heap a")
    case None
    then show ?thesis using Cons by simp
  next
    case (Some c)
    obtain r c' where s: "f c = (r, c')" by force
    have "heap_next heap (heap(a \<mapsto> c'))"
      using assms(2) [of c] s by (intro heap_next_upd [where c = c]) (simp_all add: Some)
    moreover have "heap_next (heap(a \<mapsto> c')) heap'"
      using Cons Some s by (auto split: outcome.splits)
    ultimately show ?thesis by (rule heap_next_trans)
  qed
qed simp

lemma send_message_next: "conn_next c (snd (send_message now msg c))"
  using SendMessage_next [of c now msg] by (auto simp: send_message_def split: prod.split)

lemma broadcast_frame:
  assumes "cm_BroadcastMessage now lost ks msg cm = Some (r, cm') \<or> cm_BroadcastData now ks data cm = Some (r, cm') \<or>
    SendMessageToConnection now k msg cm = Some (r, cm') \<or> heartbeat_send now m cm = Some cm'"
  shows "heap_next (cmg_heap cm) (cmg_heap cm') \<and> cmg_connections cm' = cmg_connections cm \<and> same_heartbeat cm cm'"
proof -
  have m: "heap_next h h'" if "send_all (send_message now msg) as h = Some (i, j, h')" for msg as h i j h'
    using send_all_next [OF that] send_message_next by blast
  have d: "heap_next h h'" if "send_all (tcp_Send now data) as h = Some (i, j, h')" for as h i j h'
    using send_all_next [OF that] Send_next by blast
  have u: "heap_next h (h(a \<mapsto> c'))" if "h a = Some c" "send_message now msg c = (x, c')" for h a c c' x
    using heap_next_upd [where h = h, OF that(1)] send_message_next [of c now msg] that(2) by simp
  from assms show ?thesis
  proof (elim disjE)
    assume "cm_BroadcastMessage now lost ks msg cm = Some (r, cm')"
    then show ?thesis by (auto simp: cm_BroadcastMessage_def split: if_splits intro: m)
  next
    assume "cm_BroadcastData now ks data cm = Some (r, cm')"
    then show ?thesis by (auto simp: cm_BroadcastData_def split: if_splits intro: d)
  next
    assume "SendMessageToConnection now k msg cm = Some (r, cm')"
    then show ?thesis
      by (auto simp: SendMessageToConnection_def split: option.splits prod.splits outcome.splits bind_splits intro: u)
  next
    assume "heartbeat_send now m cm = Some cm'"
    then show ?thesis by (auto simp: heartbeat_send_def split: list.splits option.splits simp del: send_all.simps intro: m)
  qed
qed

lemma cleanup_frame: "cleanup_loop cutoff ks n cm = Some (i, cm') \<Longrightarrow> same_heartbeat cm cm'"
  by (induction cutoff ks n cm arbitrary: i cm' rule: cleanup_loop.induct)
    (fastforce split: option.splits bind_splits if_splits)+

lemma turn_frame:
  assumes "heartbeatLoop_turn pt ks i cm = Turned cm'"
  shows "cmg_heap cm' = cmg_heap cm \<and> cmg_connections cm' = cmg_connections cm \<and> cmg_locked cm' = cmg_locked cm \<and> same_heartbeat cm cm'"
  using assms
  by (auto simp: heartbeatLoop_turn_def loop_returns_def sendHeartbeatToAll_def Let_def split: hb_phase.splits option.splits if_splits)

lemma stop_begin_ok:
  assumes "hb_ok cm"
  shows "\<exists>cm'. StopHeartbeat_begin cm = Some cm' \<and> hb_ok cm' \<and> cmg_heap cm' = cmg_heap cm \<and> cmg_connections cm' = cmg_connections cm"
  using assms by (auto simp: StopHeartbeat_begin_def hb_ok_def)

lemma close_all_ok:
  assumes "cm_ok ids cm" "hb_ok cm" "range_order (cmg_connections cm) ks"
  shows "\<exists>cm'. CloseAllConnections ks cm = Some cm' \<and> cm_ok ids cm' \<and> hb_ok cm'"
proof -
  obtain h where h: "close_conns (GetAllConnections ks cm) (cmg_heap cm) = Some h" "heap_next (cmg_heap cm) h"
    using close_conns_ok [OF assms(1)] all_connections(2) [OF assms(1,3)] by blast
  have "cm_ok ids cm'" if "cmg_heap cm' = h" "cmg_connections cm' = Map.empty" for cm' :: "'a connectionManager"
    by (rule cm_ok_heap_next [OF assms(1)]) (use h(2) that in simp_all)
  with h(1) assms(2) show ?thesis by (auto simp: CloseAllConnections_def Let_def hb_ok_def)
qed

text \<open>
  What most operations do to the manager: connections move on, entries may leave the table
  and the heartbeat is left alone.
\<close>

lemma cm_quiet:
  assumes "cm_ok ids cm \<and> hb_ok cm" "heap_next (cmg_heap cm) (cmg_heap cm')"
    and "cmg_connections cm' \<subseteq>\<^sub>m cmg_connections cm" "same_heartbeat cm cm'"
  shows "cm_ok ids cm' \<and> hb_ok cm'"
  using cm_ok_heap_next [OF _ assms(2,3)] hb_ok_same [OF _ assms(4)] assms(1) by blast

lemma remove_inv:
  assumes "cm_ok ids cm \<and> hb_ok cm" "RemoveConnection k cm = Some (r, cm')"
  shows "cm_ok ids cm' \<and> hb_ok cm'"
proof (cases "cmg_connections cm k")
  case None
  then show ?thesis using assms by (simp add: RemoveConnection_def)
next
  case (Some a)
  then have "set [a] \<subseteq> ran (cmg_connections cm)" by (auto simp: ran_def)
  from close_conns_ok [OF _ this] assms(1) obtain h where
    h: "close_conns [a] (cmg_heap cm) = Some h" "heap_next (cmg_heap cm) h" by blast
  then have "cm' = cm\<lparr>cmg_heap := h, cmg_connections := (cmg_connections cm)(k := None)\<rparr>"
    using Some assms(2) by (simp add: RemoveConnection_def del: close_conns.simps)
  then show ?thesis using h(2) by (intro cm_quiet [OF assms(1)]) (simp_all add: map_le_def)
qed

lemma cleanup_inv:
  assumes "cm_ok ids cm \<and> hb_ok cm" "range_order (cmg_connections cm) ks" "Cleanup now ks timeout cm = Some (n, cm')"
  shows "cm_ok ids cm' \<and> hb_ok cm'"
proof (cases "0 < timeout")
  case True
  with assms(3) have "cleanup_loop (now - timeout) ks 0 cm = Some (n, cm')" by (simp add: Cleanup_def)
  from cleanup_frame [OF this] have "hb_ok cm'" using assms(1) hb_ok_same by blast
  then show ?thesis using cleanup_exact [OF _ assms(2) True, of ids now] assms(1,3) by auto
qed (use assms in \<open>simp add: Cleanup_def\<close>)

lemma cm_step_inv:
  assumes "cm_step cm cm'" "cm_ok ids cm \<and> hb_ok cm"
  shows "cm_ok ids cm' \<and> hb_ok cm'"
proof -
  note quiet = cm_quiet [OF assms(2)]
  have sent: ?thesis
    if "heap_next (cmg_heap cm) (cmg_heap cm') \<and> cmg_connections cm' = cmg_connections cm \<and> same_heartbeat cm cm'"
    using that by (intro quiet) simp_all
  from assms(1) show ?thesis
  proof cases
    case (add conn)
    then show ?thesis
      using assms(2) by (auto simp: AddConnection_def cm_ok_def hb_ok_def heap_ids_def split: option.splits bind_splits)
        (metis option.simps(9))+
  next
    case (remove k r)
    then show ?thesis by (intro remove_inv [OF assms(2)])
  next
    case (message ks now lost msg r)
    with broadcast_frame show ?thesis by (intro sent) blast
  next
    case (data ks now data r)
    with broadcast_frame show ?thesis by (intro sent) blast
  next
    case (send_to now k msg r)
    with broadcast_frame show ?thesis by (intro sent) blast
  next
    case (heartbeat now m)
    with broadcast_frame show ?thesis by (intro sent) blast
  next
    case (cleanup ks now timeout n)
    then show ?thesis by (intro cleanup_inv [OF assms(2)])
  next
    case (close_all ks)
    with close_all_ok [OF _ _ close_all(2)] assms(2) show ?thesis by fastforce
  next
    case (start interval)
    then show ?thesis using assms(2) by (simp add: StartHeartbeat_def cm_ok_def hb_ok_def nth_append)
  next
    case stop
    with stop_begin_ok [of cm] assms(2) show ?thesis by (auto simp: cm_ok_def)
  next
    case stopped
    then show ?thesis using assms(2) by (auto simp: StopHeartbeat_end_def cm_ok_def hb_ok_def split: if_splits)
  next
    case (loop i pt ks)
    from turn_frame [OF loop(2)] show ?thesis by (intro quiet) simp_all
  next
    case (clock t)
    then show ?thesis by (intro quiet) (simp_all add: tick_def)
  next
    case (use a c c')
    then show ?thesis using heap_next_upd [where h = "cmg_heap cm", OF use(2,3)] by (intro quiet) simp_all
  qed
qed


lemma demo_manager_reach: "cm_step\<^sup>*\<^sup>* (NewConnectionManager [0 \<mapsto> old_conn, 1 \<mapsto> new_conn] 0) demo_manager"
proof -
  define s0 where "s0 = NewConnectionManager [0 \<mapsto> old_conn, 1 \<mapsto> new_conn] 0"
  define s1 where "s1 = snd (AddConnection (Some 0) s0)"
  have "cm_step s0 s1" unfolding s1_def by (rule cm_step.add) (simp add: s0_def NewConnectionManager_def)
  moreover have "cm_step s1 demo_manager"
    unfolding demo_manager_def s0_def [symmetric] s1_def [symmetric]
    by (rule cm_step.add) (simp add: s1_def s0_def NewConnectionManager_def AddConnection_def)
  ultimately show ?thesis unfolding s0_def by (meson converse_rtranclp_into_rtranclp rtranclp.rtrancl_refl)
qed


section \<open>Stopping the heartbeat\<close>

lemma locked_forever:
  assumes "cm_step\<^sup>*\<^sup>* cm cm'" "cmg_locked cm" "Hb_send \<in> set (cmg_loops cm)"
  shows "cmg_locked cm' \<and> Hb_send \<in> set (cmg_loops cm')"
  using assms(1)
proof (induction rule: rtranclp_induct)
  case base
  then show ?case using assms(2,3) by simp
next
  case (step y z)
  then have l: "cmg_locked y" "Hb_send \<in> set (cmg_loops y)" by auto
  from step.hyps(2) show ?case
  proof cases
    case (loop i pt ks)
    have keep: "cmg_loops y ! i \<noteq> Hb_send"
      using loop(2) l(1) by (auto simp: heartbeatLoop_turn_def split: hb_phase.splits)
    obtain j where j: "j < length (cmg_loops y)" "cmg_loops y ! j = Hb_send" using l(2) by (metis in_set_conv_nth)
    then have "j \<noteq> i" using keep by auto
    have upd: "Hb_send \<in> set ((cmg_loops y)[i := p])" for p
      using j \<open>j \<noteq> i\<close> by (metis length_list_update nth_list_update_neq nth_mem)
    have del: "Hb_send \<in> set (drop_nth i (cmg_loops y))"
    proof -
      have "cmg_loops y = take i (cmg_loops y) @ cmg_loops y ! i # drop (Suc i) (cmg_loops y)" using loop(1) by (rule id_take_nth_drop)
      then have "Hb_send \<in> insert (cmg_loops y ! i) (set (drop_nth i (cmg_loops y)))"
        using l(2) unfolding drop_nth_def by (metis Un_insert_right list.simps(15) set_append)
      then show ?thesis using keep by simp
    qed
    show ?thesis
      using turn_frame [OF loop(2)] loop(2) l(1) upd del
      by (auto simp: heartbeatLoop_turn_def loop_returns_def Let_def split: hb_phase.splits option.splits if_splits)
  qed (use l in \<open>auto simp: StopHeartbeat_end_def tick_def heartbeat_send_def split: if_splits list.splits option.splits\<close>)
qed

text \<open>
  Property C39. Stopping the heartbeat ends in one of three ways, depending on what its loop is
  doing. A loop that waits and has no tick returns, and \<^verbatim>\<open>StopHeartbeat\<close> returns after it. A loop
  that has just taken a tick needs the mutex, which \<^verbatim>\<open>StopHeartbeat\<close> holds while it waits for the
  loop: whatever happens afterwards, the mutex is never released and \<^verbatim>\<open>StopHeartbeat\<close> never
  returns. A loop that is about to wait again reads the ticker that has been set to nil, and panics.
\<close>

theorem stop_heartbeat_outcome:
  assumes "cmg_loops cm = [p]" "\<not> cmg_locked cm" "cmg_heartbeatEnabled cm" "cmg_heartbeatTicker cm = Some t"
    "t < length (cmg_tickers cm)" "cmg_heartbeatStopChan cm = Some ch" "ch < length (cmg_stopChans cm)" "\<not> cmg_stopChans cm ! ch"
  shows "\<exists>cm1. StopHeartbeat_begin cm = Some cm1 \<and>
     (p = Hb_wait t (Some ch) \<and> \<not> tk_pending (cmg_tickers cm ! t) \<longrightarrow>
        (\<exists>cm2 cm3. heartbeatLoop_turn pt ks 0 cm1 = Turned cm2 \<and> StopHeartbeat_end cm2 = Some cm3 \<and>
                   \<not> cmg_locked cm3 \<and> \<not> cmg_heartbeatEnabled cm3 \<and> cmg_loops cm3 = [])) \<and>
     (p = Hb_send \<longrightarrow> (\<forall>cm2. cm_step\<^sup>*\<^sup>* cm1 cm2 \<longrightarrow> cmg_locked cm2 \<and> StopHeartbeat_end cm2 = None)) \<and>
     (p = Hb_top \<longrightarrow> heartbeatLoop_turn pt ks 0 cm1 = Turn_panic)"
proof -
  define cm1 where "cm1 = cm\<lparr>cmg_heartbeatEnabled := False, cmg_heartbeatTicker := None,
    cmg_tickers := (cmg_tickers cm)[t := (cmg_tickers cm ! t)\<lparr>tk_stopped := True\<rparr>], cmg_locked := True,
    cmg_heartbeatStopChan := None, cmg_stopChans := (cmg_stopChans cm)[ch := True]\<rparr>"
  have run: "StopHeartbeat_begin cm = Some cm1" using assms by (simp add: StopHeartbeat_begin_def cm1_def)
  have stuck: "cmg_locked cm2 \<and> StopHeartbeat_end cm2 = None" if "p = Hb_send" "cm_step\<^sup>*\<^sup>* cm1 cm2" for cm2
  proof -
    have "cmg_locked cm1" "Hb_send \<in> set (cmg_loops cm1)" using assms(1) that(1) by (simp_all add: cm1_def)
    from locked_forever [OF that(2) this] show ?thesis by (auto simp: StopHeartbeat_end_def)
  qed
  have "heartbeatLoop_turn pt ks 0 cm1 = Turned (loop_returns 0 cm1) \<and> StopHeartbeat_end (loop_returns 0 cm1) = Some (loop_returns 0 cm1\<lparr>cmg_locked := False\<rparr>)"
    if "p = Hb_wait t (Some ch)" "\<not> tk_pending (cmg_tickers cm ! t)"
    using that assms by (simp add: heartbeatLoop_turn_def StopHeartbeat_end_def loop_returns_def drop_nth_def cm1_def)
  moreover have "heartbeatLoop_turn pt ks 0 cm1 = Turn_panic" if "p = Hb_top"
    using that assms(1) by (simp add: heartbeatLoop_turn_def cm1_def)
  ultimately show ?thesis
    using run stuck by (auto simp: loop_returns_def drop_nth_def cm1_def assms(1))
qed

text \<open>A manager whose loop has just taken a tick.\<close>

definition waiting_manager :: "unit connectionManager" where
  "waiting_manager = (snd (StartHeartbeat Second demo_manager))\<lparr>cmg_loops := [Hb_wait 0 (Some 0)]\<rparr>"

definition beating_manager :: "unit connectionManager" where
  "beating_manager = waiting_manager\<lparr>cmg_loops := [Hb_send]\<rparr>"

lemma beating_manager_reach: "cm_step\<^sup>*\<^sup>* demo_manager beating_manager"
proof -
  define s1 where "s1 = snd (StartHeartbeat Second demo_manager)"
  note s = s1_def waiting_manager_def beating_manager_def StartHeartbeat_def demo_manager_simps heartbeatLoop_turn_def tick_def
  have "cm_step demo_manager s1" unfolding s1_def by (rule cm_step.start) (simp add: demo_manager_simps)
  moreover have "cm_step s1 waiting_manager"
    by (rule cm_step.loop [where i = 0 and pt = True and ks = "[]"]) (simp_all add: s)
  moreover have "cm_step waiting_manager (tick 0 waiting_manager)" by (rule cm_step.clock)
  moreover have "cm_step (tick 0 waiting_manager) beating_manager"
    by (rule cm_step.loop [where i = 0 and pt = True and ks = "[]"]) (simp_all add: s)
  ultimately show ?thesis by (meson converse_rtranclp_into_rtranclp rtranclp.rtrancl_refl)
qed

theorem stop_heartbeat_outcome_witness:
  "cm_step\<^sup>*\<^sup>* demo_manager beating_manager \<and>
   (\<exists>cm1. StopHeartbeat_begin beating_manager = Some cm1 \<and> (\<forall>cm2. cm_step\<^sup>*\<^sup>* cm1 cm2 \<longrightarrow> StopHeartbeat_end cm2 = None))"
proof -
  have b: "cmg_loops beating_manager = [Hb_send]" "\<not> cmg_locked beating_manager" "cmg_heartbeatEnabled beating_manager"
    "cmg_heartbeatTicker beating_manager = Some 0" "0 < length (cmg_tickers beating_manager)"
    "cmg_heartbeatStopChan beating_manager = Some 0" "0 < length (cmg_stopChans beating_manager)"
    "\<not> cmg_stopChans beating_manager ! 0"
    by (simp_all add: beating_manager_def waiting_manager_def StartHeartbeat_def demo_manager_simps)
  from stop_heartbeat_outcome [OF b] beating_manager_reach show ?thesis by blast
qed

end
