(* ===== verification/Tcp_Client.thy ===== *)
theory Tcp_Client
  imports Connection_Manager
begin

text \<open>
  \<^verbatim>\<open>network/tcp_client.go\<close> and \<^verbatim>\<open>network/factory.go\<close>. A client keeps the connections it has made in a
  heap. Connecting has two halves, before and after the dialling; the goroutines are turns: a
  message loop that starts and takes the current connection, its turns, and the turns of the
  reconnect loops. The result of dialling is an argument.
\<close>

section \<open>State\<close>

datatype 'd client_call = Client_error nat NetError | Client_message nat "'d NetMessage"

text \<open>\<open>cl_starting\<close> counts the message loops that have not yet looked for their connection.\<close>

record 'd tcpClient =
  cl_config :: NetworkConfig
  cl_conn :: "nat option"
  cl_heap :: "nat \<rightharpoonup> 'd tcpConnection"
  cl_alloc :: nat
  cl_msgHandler :: bool
  cl_autoReconnect :: bool
  cl_reconnectInterval :: Duration
  cl_maxReconnectAttempts :: int
  cl_currentAttempt :: int
  cl_connecting :: bool
  cl_connected :: bool
  cl_reconnecting :: bool
  cl_cancelled :: bool
  cl_starting :: nat
  cl_readers :: "nat list"
  cl_reconnectLoops :: nat
  cl_targetAddress :: string
  cl_connectAttempts :: u64
  cl_successfulConnects :: u64
  cl_totalMessages :: u64
  cl_startTime :: Time
  cl_counter :: u64
  cl_calls :: "'d client_call list"

record ClientStatistics =
  cls_TargetAddress :: string
  cls_Protocol :: string
  cls_Connected :: bool
  cls_StartTime :: Time
  cls_Uptime :: Duration
  cls_ConnectAttempts :: u64
  cls_SuccessfulConnects :: u64
  cls_TotalMessages :: u64
  cls_AutoReconnect :: bool
  cls_ReconnectInterval :: Duration
  cls_ConnectionStats :: "ConnectionStatistics option"

datatype ClientError =
    Client_protocol string | In_progress | Dial_failed string | Not_connected | Client_send NetError

definition NewTCPClient :: "u64 \<Rightarrow> Time \<Rightarrow> NetworkConfig option \<Rightarrow> ClientError + 'd tcpClient" where
  "NewTCPClient counter now config =
     (let config = (case config of None \<Rightarrow> DefaultNetworkConfig | Some c \<Rightarrow> c)
      in if nc_Protocol config \<noteq> ProtocolTCP then Inl (Client_protocol (nc_Protocol config))
         else Inr \<lparr>cl_config = config, cl_conn = None, cl_heap = Map.empty, cl_alloc = 0, cl_msgHandler = False,
                   cl_autoReconnect = False, cl_reconnectInterval = nc_ReconnectInterval config,
                   cl_maxReconnectAttempts = nc_MaxReconnectAttempts config, cl_currentAttempt = 0, cl_connecting = False,
                   cl_connected = False, cl_reconnecting = False, cl_cancelled = False, cl_starting = 0, cl_readers = [],
                   cl_reconnectLoops = 0, cl_targetAddress = [], cl_connectAttempts = 0, cl_successfulConnects = 0,
                   cl_totalMessages = 0, cl_startTime = now, cl_counter = counter, cl_calls = []\<rparr>)"

section \<open>Connecting\<close>

definition connect_begin :: "string \<Rightarrow> 'd tcpClient \<Rightarrow> (ClientError + unit) \<times> 'd tcpClient" where
  "connect_begin address cl =
     (if cl_connecting cl then (Inl In_progress, cl)
      else (Inr (), cl\<lparr>cl_connecting := True, cl_targetAddress := address, cl_connectAttempts := cl_connectAttempts cl + 1\<rparr>))"

definition connect_end :: "net_conn option \<Rightarrow> Time \<Rightarrow> string \<Rightarrow> 'd tcpClient \<Rightarrow> (ClientError + nat) \<times> 'd tcpClient" where
  "connect_end dialled now address cl =
     (case dialled of
        None \<Rightarrow> (Inl (Dial_failed address), cl\<lparr>cl_connecting := False\<rparr>)
      | Some conn \<Rightarrow>
          let (counter, c0) = NewTCPConnection (cl_counter cl) conn now;
              c = SetWriteTimeout (nc_WriteTimeout (cl_config cl)) (SetReadTimeout (nc_ReadTimeout (cl_config cl)) c0);
              a = cl_alloc cl
          in (Inr a, cl\<lparr>cl_counter := counter, cl_heap := (cl_heap cl)(a \<mapsto> c), cl_alloc := Suc a, cl_conn := Some a,
                       cl_connected := True, cl_successfulConnects := cl_successfulConnects cl + 1,
                       cl_starting := (if cl_msgHandler cl then Suc (cl_starting cl) else cl_starting cl),
                       cl_reconnectLoops := (if cl_autoReconnect cl then Suc (cl_reconnectLoops cl) else cl_reconnectLoops cl),
                       cl_connecting := False\<rparr>))"

text \<open>Both halves with nothing in between; \<^verbatim>\<open>Connect\<close> differs in the timeout of the dialler only.\<close>

definition ConnectWithTimeout :: "net_conn option \<Rightarrow> Time \<Rightarrow> string \<Rightarrow> 'd tcpClient \<Rightarrow> (ClientError + nat) \<times> 'd tcpClient" where
  "ConnectWithTimeout dialled now address cl =
     (case connect_begin address cl of
        (Inl e, cl1) \<Rightarrow> (Inl e, cl1)
      | (Inr _, cl1) \<Rightarrow> connect_end dialled now address cl1)"

section \<open>Disconnecting\<close>

text \<open>\<^verbatim>\<open>Disconnect\<close> up to its wait; \<open>False\<close> when there is no connection, and nothing to wait for.\<close>

definition Disconnect_begin :: "'d tcpClient \<Rightarrow> (bool \<times> 'd tcpClient) option" where
  "Disconnect_begin cl =
     (let cl1 = cl\<lparr>cl_cancelled := True\<rparr>
      in case cl_conn cl1 of
           None \<Rightarrow> Some (False, cl1)
         | Some a \<Rightarrow>
             map_option (\<lambda>h. (True, cl1\<lparr>cl_heap := h, cl_connected := False, cl_conn := None\<rparr>)) (close_conns [a] (cl_heap cl1)))"

definition client_idle :: "'d tcpClient \<Rightarrow> bool" where
  "client_idle cl \<longleftrightarrow> cl_starting cl = 0 \<and> cl_readers cl = [] \<and> cl_reconnectLoops cl = 0"

section \<open>Accessors\<close>

definition cl_GetConnection :: "'d tcpClient \<Rightarrow> nat option" where
  "cl_GetConnection cl = cl_conn cl"

definition SetAutoReconnect :: "bool \<Rightarrow> Duration \<Rightarrow> 'd tcpClient \<Rightarrow> 'd tcpClient" where
  "SetAutoReconnect enabled interval cl =
     cl\<lparr>cl_autoReconnect := enabled,
        cl_reconnectInterval := (if interval > 0 then interval else cl_reconnectInterval cl)\<rparr>"

definition cl_SetMessageHandler :: "bool \<Rightarrow> 'd tcpClient \<Rightarrow> 'd tcpClient" where
  "cl_SetMessageHandler handler cl =
     cl\<lparr>cl_msgHandler := handler,
        cl_starting := (if cl_connected cl \<and> handler then Suc (cl_starting cl) else cl_starting cl)\<rparr>"

definition IsConnected :: "'d tcpClient \<Rightarrow> bool" where
  "IsConnected cl = cl_connected cl"

definition cl_GetStatistics :: "Time \<Rightarrow> 'd tcpClient \<Rightarrow> ClientStatistics" where
  "cl_GetStatistics now cl =
     \<lparr>cls_TargetAddress = cl_targetAddress cl, cls_Protocol = nc_Protocol (cl_config cl), cls_Connected = IsConnected cl,
      cls_StartTime = cl_startTime cl, cls_Uptime = now - cl_startTime cl, cls_ConnectAttempts = cl_connectAttempts cl,
      cls_SuccessfulConnects = cl_successfulConnects cl, cls_TotalMessages = cl_totalMessages cl,
      cls_AutoReconnect = cl_autoReconnect cl, cls_ReconnectInterval = cl_reconnectInterval cl,
      cls_ConnectionStats = map_option tcp_GetStatistics (Option.bind (cl_GetConnection cl) (cl_heap cl))\<rparr>"

definition cl_SendMessage :: "Time \<Rightarrow> 'd NetMessage option \<Rightarrow> 'd tcpClient \<Rightarrow> (ClientError, unit) outcome \<times> 'd tcpClient" where
  "cl_SendMessage now msg cl =
     (case Option.bind (cl_GetConnection cl) (\<lambda>a. map_option (Pair a) (cl_heap cl a)) of
        None \<Rightarrow> (Err Not_connected, cl)
      | Some (a, c) \<Rightarrow>
          (case send_message now msg c of
             (Panic, _) \<Rightarrow> (Panic, cl)
           | (Err e, c') \<Rightarrow> (Err (Client_send e), cl\<lparr>cl_heap := (cl_heap cl)(a \<mapsto> c')\<rparr>)
           | (Ok _, c') \<Rightarrow>
               (Ok (), cl\<lparr>cl_heap := (cl_heap cl)(a \<mapsto> c'), cl_totalMessages := cl_totalMessages cl + 1\<rparr>)))"

section \<open>Goroutines\<close>

definition messageLoop_start :: "'d tcpClient \<Rightarrow> 'd tcpClient" where
  "messageLoop_start cl =
     (let cl1 = cl\<lparr>cl_starting := cl_starting cl - 1\<rparr>
      in case cl_GetConnection cl1 of None \<Rightarrow> cl1 | Some a \<Rightarrow> cl1\<lparr>cl_readers := cl_readers cl1 @ [a]\<rparr>)"

text \<open>A turn of the message loop of connection \<open>a\<close>; the loop leaves the list when it returns.\<close>

definition messageLoop_turn :: "Time \<Rightarrow> nat \<Rightarrow> 'd tcpClient \<Rightarrow> 'd tcpClient" where
  "messageLoop_turn now a cl =
     (if cl_cancelled cl \<or> \<not> IsConnected cl then cl\<lparr>cl_readers := remove1 a (cl_readers cl)\<rparr>
      else case cl_heap cl a of
             None \<Rightarrow> cl
           | Some c \<Rightarrow>
               (case tcp_ReadMessage now c of
                  (Inl e, c') \<Rightarrow>
                    cl\<lparr>cl_heap := (cl_heap cl)(a \<mapsto> c'),
                       cl_calls := (if cl_msgHandler cl then cl_calls cl @ [Client_error a e] else cl_calls cl),
                       cl_connected := False, cl_readers := remove1 a (cl_readers cl)\<rparr>
                | (Inr m, c') \<Rightarrow>
                    cl\<lparr>cl_heap := (cl_heap cl)(a \<mapsto> c'),
                       cl_calls := (if cl_msgHandler cl then cl_calls cl @ [Client_message a m] else cl_calls cl),
                       cl_totalMessages := cl_totalMessages cl + 1\<rparr>))"

text \<open>\<^verbatim>\<open>attemptReconnect\<close> up to the dialling, \<open>False\<close> when it does not get there, and from there on.\<close>

definition reconnect_begin :: "'d tcpClient \<Rightarrow> bool \<times> 'd tcpClient" where
  "reconnect_begin cl =
     (if cl_reconnecting cl then (False, cl)
      else if cl_targetAddress cl = [] then (False, cl)
      else if cl_maxReconnectAttempts cl > 0 \<and> cl_currentAttempt cl \<ge> cl_maxReconnectAttempts cl then (False, cl)
      else case connect_begin (cl_targetAddress cl) (cl\<lparr>cl_reconnecting := True, cl_currentAttempt := cl_currentAttempt cl + 1\<rparr>) of
             (Inl _, cl') \<Rightarrow> (False, cl'\<lparr>cl_reconnecting := False\<rparr>)
           | (Inr _, cl') \<Rightarrow> (True, cl'))"

definition reconnect_end :: "net_conn option \<Rightarrow> Time \<Rightarrow> 'd tcpClient \<Rightarrow> 'd tcpClient" where
  "reconnect_end dialled now cl =
     (case connect_end dialled now (cl_targetAddress cl) cl of
        (Inl _, cl') \<Rightarrow> cl'\<lparr>cl_reconnecting := False\<rparr>
      | (Inr _, cl') \<Rightarrow> cl'\<lparr>cl_currentAttempt := 0, cl_reconnecting := False\<rparr>)"

definition attemptReconnect :: "net_conn option \<Rightarrow> Time \<Rightarrow> 'd tcpClient \<Rightarrow> 'd tcpClient" where
  "attemptReconnect dialled now cl =
     (case reconnect_begin cl of (False, cl') \<Rightarrow> cl' | (True, cl') \<Rightarrow> reconnect_end dialled now cl')"

text \<open>A turn of a reconnect loop: the context has ended, or the ticker ticks.\<close>

definition reconnectLoop_turn :: "net_conn option \<Rightarrow> Time \<Rightarrow> 'd tcpClient \<Rightarrow> 'd tcpClient" where
  "reconnectLoop_turn dialled now cl =
     (if cl_cancelled cl then cl\<lparr>cl_reconnectLoops := cl_reconnectLoops cl - 1\<rparr>
      else if \<not> IsConnected cl \<and> \<not> cl_reconnecting cl then attemptReconnect dialled now cl
      else cl)"

section \<open>Factory and builders\<close>

datatype FactoryError =
    Factory_nil_config | Udp_not_implemented | Unsupported_protocol string | Server_error ServerError | Client_error_of ClientError

definition CreateServer :: "u64 \<Rightarrow> Time \<Rightarrow> NetworkConfig option \<Rightarrow> FactoryError + 'd tcpServer" where
  "CreateServer counter now config =
     (case config of
        None \<Rightarrow> Inl Factory_nil_config
      | Some c \<Rightarrow>
          if nc_Protocol c = ProtocolTCP then (case NewTCPServer counter now (Some c) of Inl e \<Rightarrow> Inl (Server_error e) | Inr s \<Rightarrow> Inr s)
          else if nc_Protocol c = ProtocolUDP then Inl Udp_not_implemented
          else Inl (Unsupported_protocol (nc_Protocol c)))"

definition CreateClient :: "u64 \<Rightarrow> Time \<Rightarrow> NetworkConfig option \<Rightarrow> FactoryError + 'd tcpClient" where
  "CreateClient counter now config =
     (case config of
        None \<Rightarrow> Inl Factory_nil_config
      | Some c \<Rightarrow>
          if nc_Protocol c = ProtocolTCP then (case NewTCPClient counter now (Some c) of Inl e \<Rightarrow> Inl (Client_error_of e) | Inr s \<Rightarrow> Inr s)
          else if nc_Protocol c = ProtocolUDP then Inl Udp_not_implemented
          else Inl (Unsupported_protocol (nc_Protocol c)))"

definition CreateConnectionManager :: "(nat \<rightharpoonup> 'd tcpConnection) \<Rightarrow> Time \<Rightarrow> 'd connectionManager" where
  "CreateConnectionManager heap now = NewConnectionManager heap now"

definition CreateTCPServer :: "u64 \<Rightarrow> Time \<Rightarrow> NetworkConfig option \<Rightarrow> FactoryError + 'd tcpServer" where
  "CreateTCPServer counter now config =
     CreateServer counter now (Some ((case config of None \<Rightarrow> DefaultNetworkConfig | Some c \<Rightarrow> c)\<lparr>nc_Protocol := ProtocolTCP\<rparr>))"

definition CreateTCPClient :: "u64 \<Rightarrow> Time \<Rightarrow> NetworkConfig option \<Rightarrow> FactoryError + 'd tcpClient" where
  "CreateTCPClient counter now config =
     CreateClient counter now (Some ((case config of None \<Rightarrow> DefaultNetworkConfig | Some c \<Rightarrow> c)\<lparr>nc_Protocol := ProtocolTCP\<rparr>))"

definition CreateSimpleTCPServer :: "u64 \<Rightarrow> Time \<Rightarrow> int \<Rightarrow> FactoryError + 'd tcpServer" where
  "CreateSimpleTCPServer counter now port = CreateTCPServer counter now (Some (DefaultNetworkConfig\<lparr>nc_Port := port\<rparr>))"

definition CreateSimpleTCPClient :: "u64 \<Rightarrow> Time \<Rightarrow> FactoryError + 'd tcpClient" where
  "CreateSimpleTCPClient counter now = CreateTCPClient counter now None"

text \<open>The options of a server builder, and of a client builder.\<close>

datatype server_option =
    Srv_Protocol Protocol | Srv_Address string | Srv_Port int | Srv_MaxConnections int | Srv_BufferSize int | Srv_KeepAlive bool

fun server_build :: "server_option \<Rightarrow> NetworkConfig \<Rightarrow> NetworkConfig" where
  "server_build (Srv_Protocol p) config = config\<lparr>nc_Protocol := p\<rparr>"
| "server_build (Srv_Address a) config = config\<lparr>nc_Address := a\<rparr>"
| "server_build (Srv_Port p) config = config\<lparr>nc_Port := p\<rparr>"
| "server_build (Srv_MaxConnections n) config = config\<lparr>nc_MaxConnections := n\<rparr>"
| "server_build (Srv_BufferSize n) config = config\<lparr>nc_BufferSize := n\<rparr>"
| "server_build (Srv_KeepAlive b) config = config\<lparr>nc_KeepAlive := b\<rparr>"

datatype client_option =
    Cl_Protocol Protocol | Cl_AutoReconnect int | Cl_BufferSize int | Cl_KeepAlive bool

fun client_build :: "client_option \<Rightarrow> NetworkConfig \<Rightarrow> NetworkConfig" where
  "client_build (Cl_Protocol p) config = config\<lparr>nc_Protocol := p\<rparr>"
| "client_build (Cl_AutoReconnect n) config = config\<lparr>nc_MaxReconnectAttempts := n\<rparr>"
| "client_build (Cl_BufferSize n) config = config\<lparr>nc_BufferSize := n\<rparr>"
| "client_build (Cl_KeepAlive b) config = config\<lparr>nc_KeepAlive := b\<rparr>"

definition NewServerBuilder :: NetworkConfig where "NewServerBuilder = DefaultNetworkConfig"
definition NewClientBuilder :: NetworkConfig where "NewClientBuilder = DefaultNetworkConfig"

definition ServerBuilder_Build :: "u64 \<Rightarrow> Time \<Rightarrow> NetworkConfig \<Rightarrow> FactoryError + 'd tcpServer" where
  "ServerBuilder_Build counter now config = CreateServer counter now (Some config)"

definition ClientBuilder_Build :: "u64 \<Rightarrow> Time \<Rightarrow> NetworkConfig \<Rightarrow> FactoryError + 'd tcpClient" where
  "ClientBuilder_Build counter now config = CreateClient counter now (Some config)"

section \<open>Interleavings\<close>

text \<open>
  Any number of users, message loops and reconnect loops. A dialling under way is that of a
  reconnect loop exactly when \<open>cl_reconnecting\<close> is set.
\<close>

inductive cl_step :: "'d tcpClient \<Rightarrow> 'd tcpClient \<Rightarrow> bool" where
  connect: "cl_step cl (snd (connect_begin address cl))"
| dialled: "\<lbrakk>cl_connecting cl; \<not> cl_reconnecting cl\<rbrakk> \<Longrightarrow> cl_step cl (snd (connect_end conn now address cl))"
| disconnect: "Disconnect_begin cl = Some (b, cl') \<Longrightarrow> cl_step cl cl'"
| auto_reconnect: "cl_step cl (SetAutoReconnect enabled interval cl)"
| handler: "cl_step cl (cl_SetMessageHandler b cl)"
| send: "cl_SendMessage now msg cl = (r, cl') \<Longrightarrow> cl_step cl cl'"
| loop_start: "0 < cl_starting cl \<Longrightarrow> cl_step cl (messageLoop_start cl)"
| loop_turn: "a \<in> set (cl_readers cl) \<Longrightarrow> cl_step cl (messageLoop_turn now a cl)"
| reconnect: "\<lbrakk>0 < cl_reconnectLoops cl; \<not> cl_cancelled cl; \<not> IsConnected cl\<rbrakk> \<Longrightarrow> cl_step cl (snd (reconnect_begin cl))"
| reconnected: "cl_reconnecting cl \<Longrightarrow> cl_step cl (reconnect_end conn now cl)"
| loop_end: "\<lbrakk>0 < cl_reconnectLoops cl; cl_cancelled cl\<rbrakk> \<Longrightarrow> cl_step cl (cl\<lparr>cl_reconnectLoops := cl_reconnectLoops cl - 1\<rparr>)"
| use: "\<lbrakk>cl_heap cl a = Some c; conn_next c c'\<rbrakk> \<Longrightarrow> cl_step cl (cl\<lparr>cl_heap := (cl_heap cl)(a \<mapsto> c')\<rparr>)"

definition cl_ok :: "'d tcpClient \<Rightarrow> bool" where
  "cl_ok cl \<longleftrightarrow> (\<forall>a c. cl_heap cl a = Some c \<longrightarrow> conn_ok c) \<and> (\<forall>a. cl_conn cl = Some a \<longrightarrow> cl_heap cl a \<noteq> None) \<and>
     0 \<le> cl_currentAttempt cl \<and>
     (cl_maxReconnectAttempts cl > 0 \<longrightarrow> cl_currentAttempt cl \<le> cl_maxReconnectAttempts cl)"

lemma cl_ok_frame:
  assumes "cl_ok cl" "cl_heap cl' = cl_heap cl" "cl_conn cl' = cl_conn cl \<or> cl_conn cl' = None"
    "cl_currentAttempt cl' = cl_currentAttempt cl" "cl_maxReconnectAttempts cl' = cl_maxReconnectAttempts cl"
  shows "cl_ok cl'"
  using assms by (auto simp: cl_ok_def)

lemma cl_ok_heap:
  assumes "cl_ok cl" "cl_heap cl a = Some c" "conn_next c c'"
  shows "cl_ok (cl\<lparr>cl_heap := (cl_heap cl)(a \<mapsto> c')\<rparr>)"
  using assms by (auto simp: cl_ok_def conn_next_def)

lemma new_connection_ok: "conn_ok (SetWriteTimeout w (SetReadTimeout r (snd (NewTCPConnection counter conn now))))"
  by (simp add: conn_ok_def SetWriteTimeout_def SetReadTimeout_def NewTCPConnection_def Let_def)

lemma connect_end_ok: "cl_ok (cl :: 'a tcpClient) \<Longrightarrow> cl_ok (snd (connect_end conn now address cl))"
proof (cases conn)
  case (Some raw)
  assume ok: "cl_ok cl"
  obtain counter c0 where c0: "NewTCPConnection (cl_counter cl) raw now = (counter, c0 :: 'a tcpConnection)" by force
  then have "c0 = snd (NewTCPConnection (cl_counter cl) raw now)" by simp
  then have "conn_ok (SetWriteTimeout w (SetReadTimeout r c0))" for w r by (simp add: new_connection_ok)
  with ok show ?thesis using Some c0 by (auto simp: connect_end_def cl_ok_def Let_def)
qed (simp add: connect_end_def cl_ok_def)

lemma connect_end_attempt [simp]:
  "cl_currentAttempt (snd (connect_end conn now address cl)) = cl_currentAttempt cl"
  "cl_maxReconnectAttempts (snd (connect_end conn now address cl)) = cl_maxReconnectAttempts cl"
  by (auto simp: connect_end_def Let_def split: option.split prod.split)

lemma reconnect_begin_ok: "cl_ok cl \<Longrightarrow> cl_ok (snd (reconnect_begin cl))"
  by (auto simp: reconnect_begin_def connect_begin_def cl_ok_def)

lemma reconnect_end_ok: "cl_ok cl \<Longrightarrow> cl_ok (reconnect_end conn now cl)"
proof -
  assume ok: "cl_ok cl"
  obtain r cl' where e: "connect_end conn now (cl_targetAddress cl) cl = (r, cl')" by force
  have "cl_ok cl'" "cl_maxReconnectAttempts cl' = cl_maxReconnectAttempts cl"
    using connect_end_ok [OF ok, of conn now "cl_targetAddress cl"] connect_end_attempt(2) [of conn now "cl_targetAddress cl" cl] e
    by simp_all
  then show ?thesis using ok e by (auto simp: reconnect_end_def cl_ok_def split: sum.split)
qed

lemma disconnect_ok:
  assumes "cl_ok cl"
  shows "\<exists>b cl'. Disconnect_begin cl = Some (b, cl') \<and> cl_ok cl'"
proof (cases "cl_conn cl")
  case None
  then show ?thesis using assms by (auto simp: Disconnect_begin_def cl_ok_def)
next
  case (Some a)
  then obtain c where c: "cl_heap cl a = Some c" "conn_ok c" using assms by (auto simp: cl_ok_def)
  with Close_next obtain c' where "tcp_Close c = Some c'" "conn_next c c'" by blast
  then show ?thesis
    using Some c assms by (auto simp: Disconnect_begin_def cl_ok_def conn_next_def)
qed

lemma cl_SendMessage_ok:
  assumes "cl_SendMessage now msg cl = (r, cl')" "cl_ok cl"
  shows "cl_ok cl'"
proof -
  have next_ok: "cl_ok (cl\<lparr>cl_heap := (cl_heap cl)(a \<mapsto> c'), cl_totalMessages := n\<rparr>)" "cl_ok (cl\<lparr>cl_heap := (cl_heap cl)(a \<mapsto> c')\<rparr>)"
    if "cl_heap cl a = Some c" "send_message now msg c = (x, c')" for a c c' x n
  proof -
    show h: "cl_ok (cl\<lparr>cl_heap := (cl_heap cl)(a \<mapsto> c')\<rparr>)"
      using cl_ok_heap [where cl = cl, OF assms(2) that(1)] send_message_next [of c now msg] that(2) by simp
    show "cl_ok (cl\<lparr>cl_heap := (cl_heap cl)(a \<mapsto> c'), cl_totalMessages := n\<rparr>)" by (rule cl_ok_frame [OF h]) simp_all
  qed
  from assms show ?thesis
    by (auto simp: cl_SendMessage_def split: option.splits prod.splits outcome.splits bind_splits intro: next_ok)
qed

lemma messageLoop_turn_ok:
  assumes "cl_ok cl"
  shows "cl_ok (messageLoop_turn now a cl)"
proof (cases "cl_cancelled cl \<or> \<not> IsConnected cl \<or> cl_heap cl a = None")
  case True
  then show ?thesis using assms by (auto simp: messageLoop_turn_def intro: cl_ok_frame [OF assms])
next
  case False
  then obtain c where c: "cl_heap cl a = Some c" by auto
  obtain r c' where r: "tcp_ReadMessage now c = (r, c')" by force
  have h: "cl_ok (cl\<lparr>cl_heap := (cl_heap cl)(a \<mapsto> c')\<rparr>)"
    using cl_ok_heap [where cl = cl, OF assms c] ReadMessage_next [of c now] r by simp
  show ?thesis
    using False c r by (cases r) (simp_all add: messageLoop_turn_def cl_ok_frame [OF h] del: fun_upd_apply)
qed

lemma cl_step_ok: "\<lbrakk>cl_step cl cl'; cl_ok cl\<rbrakk> \<Longrightarrow> cl_ok cl'"
proof (induction rule: cl_step.induct)
  case (connect cl address)
  then show ?case by (auto simp: connect_begin_def intro: cl_ok_frame)
next
  case (dialled cl conn now address)
  then show ?case by (blast intro: connect_end_ok)
next
  case (disconnect cl b cl')
  then show ?case using disconnect_ok by fastforce
next
  case (auto_reconnect cl enabled interval)
  then show ?case by (auto simp: SetAutoReconnect_def intro: cl_ok_frame)
next
  case (handler cl b)
  then show ?case by (auto simp: cl_SetMessageHandler_def intro: cl_ok_frame)
next
  case (send now msg cl r cl')
  then show ?case by (blast intro: cl_SendMessage_ok)
next
  case (loop_start cl)
  then show ?case by (auto simp: messageLoop_start_def Let_def intro: cl_ok_frame split: option.split)
next
  case (loop_turn a cl now)
  then show ?case by (blast intro: messageLoop_turn_ok)
next
  case (reconnect cl)
  then show ?case by (blast intro: reconnect_begin_ok)
next
  case (reconnected cl conn now)
  then show ?case by (blast intro: reconnect_end_ok)
next
  case (loop_end cl)
  then show ?case by (auto intro: cl_ok_frame)
next
  case (use cl a c c')
  then show ?case by (blast intro: cl_ok_heap)
qed


definition small_client :: "unit tcpClient" where
  "small_client = (case NewTCPClient 0 0 None of Inl _ \<Rightarrow> undefined | Inr cl \<Rightarrow> cl)"

lemma small_client_simps:
  "NewTCPClient 0 0 None = Inr small_client" "cl_maxReconnectAttempts small_client = 3" "cl_currentAttempt small_client = 0"
  "\<not> cl_connecting small_client" "\<not> cl_connected small_client" "\<not> cl_reconnecting small_client" "\<not> cl_cancelled small_client"
  "cl_reconnectLoops small_client = 0" "cl_heap small_client = Map.empty" "cl_alloc small_client = 0"
  "\<not> cl_msgHandler small_client" "cl_connectAttempts small_client = 0" "cl_totalMessages small_client = 0"
  by (simp_all add: small_client_def NewTCPClient_def DefaultNetworkConfig_def)


section \<open>Reconnecting\<close>

text \<open>A client that has lost its connection and may dial.\<close>

definition lost_client :: "'d tcpClient \<Rightarrow> bool" where
  "lost_client cl \<longleftrightarrow> \<not> cl_cancelled cl \<and> \<not> cl_connected cl \<and> \<not> cl_reconnecting cl \<and> \<not> cl_connecting cl \<and> cl_targetAddress cl \<noteq> []"

lemma failing_turn:
  assumes "lost_client cl"
  shows "reconnectLoop_turn None now cl =
    (if 0 < cl_maxReconnectAttempts cl \<and> cl_maxReconnectAttempts cl \<le> cl_currentAttempt cl then cl
     else cl\<lparr>cl_currentAttempt := cl_currentAttempt cl + 1, cl_connectAttempts := cl_connectAttempts cl + 1\<rparr>)"
  using assms
  by (simp add: reconnectLoop_turn_def attemptReconnect_def reconnect_begin_def reconnect_end_def connect_begin_def connect_end_def
      lost_client_def IsConnected_def)

definition failing_turns :: "Time list \<Rightarrow> 'd tcpClient \<Rightarrow> 'd tcpClient" where
  "failing_turns nows cl = foldl (\<lambda>cl now. reconnectLoop_turn None now cl) cl nows"

lemma failing_turns_limit:
  assumes "lost_client cl" "0 < cl_maxReconnectAttempts cl" "cl_currentAttempt cl \<le> cl_maxReconnectAttempts cl"
  shows "failing_turns nows cl =
    (let n = min (length nows) (nat (cl_maxReconnectAttempts cl - cl_currentAttempt cl))
     in cl\<lparr>cl_currentAttempt := cl_currentAttempt cl + int n, cl_connectAttempts := cl_connectAttempts cl + of_nat n\<rparr>)"
  using assms
proof (induction nows arbitrary: cl)
  case (Cons now nows)
  show ?case
  proof (cases "cl_currentAttempt cl = cl_maxReconnectAttempts cl")
    case True
    then have "reconnectLoop_turn None now cl = cl" using failing_turn [OF Cons.prems(1)] Cons.prems(2) by simp
    then show ?thesis using Cons.IH [OF Cons.prems] True by (simp add: failing_turns_def)
  next
    case False
    define cl1 where "cl1 = cl\<lparr>cl_currentAttempt := cl_currentAttempt cl + 1, cl_connectAttempts := cl_connectAttempts cl + 1\<rparr>"
    have "reconnectLoop_turn None now cl = cl1"
      using failing_turn [OF Cons.prems(1)] Cons.prems(3) False by (simp add: cl1_def)
    moreover have "lost_client cl1" "0 < cl_maxReconnectAttempts cl1" "cl_currentAttempt cl1 \<le> cl_maxReconnectAttempts cl1"
      using Cons.prems False by (simp_all add: cl1_def lost_client_def)
    note IH = Cons.IH [OF this]
    obtain k where k: "nat (cl_maxReconnectAttempts cl - cl_currentAttempt cl) = Suc k"
      "nat (cl_maxReconnectAttempts cl1 - cl_currentAttempt cl1) = k"
      using Cons.prems(3) False by (auto simp: cl1_def intro: that [of "nat (cl_maxReconnectAttempts cl - cl_currentAttempt cl - 1)"])
    ultimately show ?thesis using IH by (simp add: failing_turns_def k cl1_def Let_def add.assoc add.commute)
  qed
qed (simp add: failing_turns_def)

text \<open>
  A client that cannot reach its server dials at most as often as configured, one
  dial per tick, and gives up for good: after that many failures it does not dial again, even
  when the server is back.
\<close>

theorem reconnect_gives_up:
  assumes "lost_client cl" "0 < cl_maxReconnectAttempts cl" "cl_currentAttempt cl = 0"
    and "cl_maxReconnectAttempts cl \<le> int (length nows)"
  shows "failing_turns nows cl = cl\<lparr>cl_currentAttempt := cl_maxReconnectAttempts cl,
       cl_connectAttempts := cl_connectAttempts cl + of_int (cl_maxReconnectAttempts cl)\<rparr> \<and>
     reconnectLoop_turn (Some conn) now (failing_turns nows cl) = failing_turns nows cl"
proof -
  have "min (length nows) (nat (cl_maxReconnectAttempts cl)) = nat (cl_maxReconnectAttempts cl)" using assms(4) by linarith
  with failing_turns_limit [OF assms(1,2), of nows] assms(2,3)
  have f: "failing_turns nows cl = cl\<lparr>cl_currentAttempt := cl_maxReconnectAttempts cl,
       cl_connectAttempts := cl_connectAttempts cl + of_int (cl_maxReconnectAttempts cl)\<rparr>" by simp
  show ?thesis
    unfolding f using assms(1,2)
    by (simp add: reconnectLoop_turn_def attemptReconnect_def reconnect_begin_def lost_client_def IsConnected_def)
qed

theorem reconnect_gives_up_witness:
  "cl_connectAttempts (failing_turns [1, 2, 3, 4, 5] (small_client\<lparr>cl_targetAddress := ''a''\<rparr>)) = 3"
proof -
  let ?cl = "small_client\<lparr>cl_targetAddress := ''a''\<rparr>"
  have "lost_client ?cl" "0 < cl_maxReconnectAttempts ?cl" "cl_currentAttempt ?cl = 0"
    "cl_maxReconnectAttempts ?cl \<le> int (length [1, 2, 3, 4, 5 :: Time])"
    by (simp_all add: lost_client_def small_client_simps)
  from reconnect_gives_up [OF this] show ?thesis by (simp add: small_client_simps)
qed

text \<open>Outages, each ended by the next turn of one of the reconnect loops.\<close>

definition outages :: "net_conn list \<Rightarrow> Time \<Rightarrow> 'd tcpClient \<Rightarrow> 'd tcpClient" where
  "outages conns now cl = foldl (\<lambda>cl conn. reconnectLoop_turn (Some conn) now (cl\<lparr>cl_connected := False\<rparr>)) cl conns"

definition steady_client :: "'d tcpClient \<Rightarrow> bool" where
  "steady_client cl \<longleftrightarrow> lost_client (cl\<lparr>cl_connected := False\<rparr>) \<and> cl_autoReconnect cl \<and> cl_currentAttempt cl = 0"

lemma outage:
  assumes "steady_client cl" and "cl1 = reconnectLoop_turn (Some conn) now (cl\<lparr>cl_connected := False\<rparr>)"
  shows "\<exists>c. cl_heap cl1 (cl_alloc cl) = Some c \<and> tcp_conn c = conn \<and> \<not> tcp_closed c" and "\<forall>a. a \<noteq> cl_alloc cl \<longrightarrow> cl_heap cl1 a = cl_heap cl a"
    and "cl_alloc cl1 = Suc (cl_alloc cl)" and "cl_reconnectLoops cl1 = Suc (cl_reconnectLoops cl)" and "steady_client cl1"
  using assms(1) unfolding assms(2)
  by (simp_all add: reconnectLoop_turn_def attemptReconnect_def reconnect_begin_def reconnect_end_def connect_begin_def connect_end_def
      steady_client_def lost_client_def IsConnected_def NewTCPConnection_def SetReadTimeout_def SetWriteTimeout_def Let_def)
    linarith

text \<open>
  A client with automatic reconnection survives any number of outages, but each one
  leaves a further reconnect loop behind, and no old connection is ever closed: after \<open>n\<close> of them
  there are \<open>n\<close> more loops, and every connection made before is still as it was.
\<close>

theorem outages_pile_up:
  assumes "steady_client cl" "\<forall>a \<ge> cl_alloc cl. cl_heap cl a = None"
  shows "cl_reconnectLoops (outages conns now cl) = cl_reconnectLoops cl + length conns \<and>
     (\<forall>a < cl_alloc cl. cl_heap (outages conns now cl) a = cl_heap cl a) \<and>
     (\<forall>i < length conns. \<exists>c. cl_heap (outages conns now cl) (cl_alloc cl + i) = Some c \<and> tcp_conn c = conns ! i \<and> \<not> tcp_closed c)"
  using assms
proof (induction conns arbitrary: cl)
  case Nil
  then show ?case by (simp add: outages_def)
next
  case (Cons conn conns)
  define cl1 where "cl1 = reconnectLoop_turn (Some conn) now (cl\<lparr>cl_connected := False\<rparr>)"
  from outage [OF Cons.prems(1) cl1_def] obtain c where c: "tcp_conn c = conn" "\<not> tcp_closed c"
    and h: "cl_heap cl1 (cl_alloc cl) = Some c" "\<forall>a. a \<noteq> cl_alloc cl \<longrightarrow> cl_heap cl1 a = cl_heap cl a" and cl1: "cl_alloc cl1 = Suc (cl_alloc cl)" "cl_reconnectLoops cl1 = Suc (cl_reconnectLoops cl)"
    and st: "steady_client cl1"
    by blast
  have run: "outages (conn # conns) now cl = outages conns now cl1" by (simp add: outages_def cl1_def)
  have "\<forall>a \<ge> cl_alloc cl1. cl_heap cl1 a = None" using Cons.prems(2) cl1 h(2) by simp
  note IH = Cons.IH [OF st this]
  have "\<exists>d. cl_heap (outages conns now cl1) (cl_alloc cl + i) = Some d \<and> tcp_conn d = (conn # conns) ! i \<and> \<not> tcp_closed d"
    if "i < length (conn # conns)" for i
  proof (cases i)
    case 0
    then show ?thesis using IH cl1 c h by simp
  next
    case (Suc j)
    then show ?thesis using IH cl1(1) that by auto
  qed
  moreover have "cl_heap (outages conns now cl1) a = cl_heap cl a" if "a < cl_alloc cl" for a
    using IH cl1(1) h(2) that by auto
  ultimately show ?case unfolding run using IH cl1(2) by auto
qed

theorem outages_pile_up_witness:
  "cl_reconnectLoops (outages (replicate 5 \<lparr>con_in = [], con_out = [], con_closed = False\<rparr>) 9
     (small_client\<lparr>cl_targetAddress := ''a'', cl_autoReconnect := True\<rparr>)) = 5"
proof -
  have "steady_client (small_client\<lparr>cl_targetAddress := ''a'', cl_autoReconnect := True\<rparr>)"
    by (simp add: steady_client_def lost_client_def small_client_simps)
  from outages_pile_up [OF this, of "replicate 5 \<lparr>con_in = [], con_out = [], con_closed = False\<rparr>" 9]
  show ?thesis by (simp add: small_client_simps)
qed

section \<open>Sending\<close>

fun client_send_all :: "(Time \<times> 'd NetMessage) list \<Rightarrow> 'd tcpClient \<Rightarrow> 'd tcpClient" where
  "client_send_all [] cl = cl"
| "client_send_all ((now, m) # ms) cl = client_send_all ms (snd (cl_SendMessage now (Some m) cl))"

lemma cl_SendMessage_open:
  assumes "cl_conn cl = Some a" "cl_heap cl a = Some c" "writable c" "sendable m"
    "length (ch_buf (tcp_sendChan c)) < ch_cap (tcp_sendChan c)"
  obtains c' m' where "tcp_SendMessage now (Some m) c = (Ok (), m', c')" "writable c'"
    "length (ch_buf (tcp_sendChan c')) = Suc (length (ch_buf (tcp_sendChan c)))" "ch_cap (tcp_sendChan c') = ch_cap (tcp_sendChan c)"
    "cl_SendMessage now (Some m) cl = (Ok (), cl\<lparr>cl_heap := (cl_heap cl)(a \<mapsto> c'), cl_totalMessages := cl_totalMessages cl + 1\<rparr>)"
proof -
  obtain c' m' where s: "tcp_SendMessage now (Some m) c = (Ok (), m', c')" "writable c'"
    "length (ch_buf (tcp_sendChan c')) = Suc (length (ch_buf (tcp_sendChan c)))" "ch_cap (tcp_sendChan c') = ch_cap (tcp_sendChan c)"
    using assms(3,5) by (simp add: SendMessage_open [OF assms(3,4)] Let_def writable_def)
  moreover have "cl_SendMessage now (Some m) cl = (Ok (), cl\<lparr>cl_heap := (cl_heap cl)(a \<mapsto> c'), cl_totalMessages := cl_totalMessages cl + 1\<rparr>)"
    using assms(1,2) s(1) by (simp add: cl_SendMessage_def cl_GetConnection_def send_message_def)
  ultimately show thesis by (rule that)
qed

lemma client_send_all_sends:
  assumes "cl_conn cl = Some a" "cl_heap cl a = Some c" "writable c" "\<forall>(now, m)\<in>set ms. sendable m"
    "length (ch_buf (tcp_sendChan c)) + length ms \<le> ch_cap (tcp_sendChan c)" "sends c0 sent c"
  shows "\<exists>c'. cl_heap (client_send_all ms cl) a = Some c' \<and> cl_conn (client_send_all ms cl) = Some a \<and>
     cl_totalMessages (client_send_all ms cl) = cl_totalMessages cl + of_nat (length ms) \<and> sends c0 (sent @ map snd ms) c'"
  using assms
proof (induction ms arbitrary: cl c sent)
  case Nil
  then show ?case by simp
next
  case (Cons nm ms)
  obtain now m where nm: "nm = (now, m)" by force
  have m: "sendable m" "length (ch_buf (tcp_sendChan c)) < ch_cap (tcp_sendChan c)" using Cons.prems(4,5) nm by auto
  from cl_SendMessage_open [OF Cons.prems(1-3) m, of now] obtain c1 m' where
    c1: "tcp_SendMessage now (Some m) c = (Ok (), m', c1)" "writable c1"
    "length (ch_buf (tcp_sendChan c1)) = Suc (length (ch_buf (tcp_sendChan c)))" "ch_cap (tcp_sendChan c1) = ch_cap (tcp_sendChan c)"
    and run: "cl_SendMessage now (Some m) cl = (Ok (), cl\<lparr>cl_heap := (cl_heap cl)(a \<mapsto> c1), cl_totalMessages := cl_totalMessages cl + 1\<rparr>)"
    by blast
  define cl1 where "cl1 = cl\<lparr>cl_heap := (cl_heap cl)(a \<mapsto> c1), cl_totalMessages := cl_totalMessages cl + 1\<rparr>"
  have "cl_conn cl1 = Some a" "cl_heap cl1 a = Some c1" using Cons.prems(1) by (simp_all add: cl1_def)
  moreover have "sends c0 (sent @ [m]) c1" by (rule sends.message [OF Cons.prems(6) m(2) c1(1)])
  ultimately have "\<exists>c'. cl_heap (client_send_all ms cl1) a = Some c' \<and> cl_conn (client_send_all ms cl1) = Some a \<and>
     cl_totalMessages (client_send_all ms cl1) = cl_totalMessages cl1 + of_nat (length ms) \<and> sends c0 ((sent @ [m]) @ map snd ms) c'"
    using Cons.prems(4,5) c1(2-4) nm by (intro Cons.IH) auto
  moreover have "client_send_all (nm # ms) cl = client_send_all ms cl1" using run by (simp add: nm cl1_def)
  ultimately show ?case by (simp add: nm cl1_def add.assoc)
qed

end
