(* ===== verification/Echo_Example.thy ===== *)
theory Echo_Example
  imports Tcp_Client
begin

text \<open>
  \<^verbatim>\<open>examples/echo_server/main.go\<close> and \<^verbatim>\<open>examples/echo_client/main.go\<close>: a server and a client on the
  network layer. The handlers work on the connection they are called with; \<open>None\<close> is the panic
  of a send on a connection closed meanwhile. \<open>rfc3339\<close> formats a time.
\<close>

section \<open>The server\<close>

definition OnConnect_echo :: "Time \<Rightarrow> nat \<Rightarrow> 'd connectionManager \<Rightarrow> 'd connectionManager option" where
  "OnConnect_echo now a cm =
     (let cm1 = snd (AddConnection (Some a) cm);
          welcome = NewMessage NetMessageTypeData (Some (bytes_of_string ''Welcome to SNGO Echo Server!'')) now
      in case cmg_heap cm1 a of
           None \<Rightarrow> Some cm1
         | Some c \<Rightarrow>
             (case send_message now (Some welcome) c of
                (Panic, _) \<Rightarrow> None
              | (_, c') \<Rightarrow> Some (cm1\<lparr>cmg_heap := (cmg_heap cm1)(a \<mapsto> c')\<rparr>)))"

definition OnDisconnect_echo :: "nat \<Rightarrow> 'd connectionManager \<Rightarrow> 'd connectionManager option" where
  "OnDisconnect_echo a cm =
     (case cmg_heap cm a of None \<Rightarrow> Some cm | Some c \<Rightarrow> map_option snd (RemoveConnection (tcp_id c) cm))"

definition handleRPC :: "(Time \<Rightarrow> string) \<Rightarrow> Time \<Rightarrow> 'd NetMessage \<Rightarrow> 'd tcpConnection \<Rightarrow> 'd NetMessage" where
  "handleRPC rfc3339 now msg conn =
     (let rpcCall = string_of_bytes (data_bytes (nm_Data msg));
          stats = tcp_GetStatistics conn;
          response =
            (if rpcCall = ''ping'' then ''pong''
             else if rpcCall = ''time'' then rfc3339 now
             else if rpcCall = ''stats'' then
               ''Bytes: R/W='' @ decimal (unat (cst_BytesRead stats)) @ ''/'' @ decimal (unat (cst_BytesWritten stats)) @
               '', Messages: R/S='' @ decimal (unat (cst_MessagesRead stats)) @ ''/'' @ decimal (unat (cst_MessagesSent stats))
             else ''Unknown RPC call: '' @ rpcCall)
      in NewRPCMessage (nm_Destination msg) (nm_Source msg) (Some (bytes_of_string response)) now)"

definition echo_reply :: "(Time \<Rightarrow> string) \<Rightarrow> Time \<Rightarrow> 'd NetMessage \<Rightarrow> 'd tcpConnection \<Rightarrow> 'd NetMessage option" where
  "echo_reply rfc3339 now msg conn =
     (if nm_Type msg = NetMessageTypeHeartbeat then Some (NewAckMessage (nm_Sequence msg) now)
      else if nm_Type msg = NetMessageTypeData then
        Some (NewMessage NetMessageTypeData (Some (bytes_of_string (''Echo: '' @ string_of_bytes (data_bytes (nm_Data msg))))) now)
      else if nm_Type msg = NetMessageTypeRPC then Some (handleRPC rfc3339 now msg conn)
      else None)"

definition OnMessage_echo :: "(Time \<Rightarrow> string) \<Rightarrow> Time \<Rightarrow> 'd NetMessage \<Rightarrow> 'd tcpConnection \<Rightarrow> 'd tcpConnection option" where
  "OnMessage_echo rfc3339 now msg conn =
     (case echo_reply rfc3339 now msg conn of
        None \<Rightarrow> Some conn
      | Some r \<Rightarrow> (case send_message now (Some r) conn of (Panic, _) \<Rightarrow> None | (_, conn') \<Rightarrow> Some conn'))"

section \<open>The client\<close>

definition rpc_call :: "string \<Rightarrow> Time \<Rightarrow> 'd NetMessage" where
  "rpc_call call now = NewRPCMessage ''client'' ''server'' (Some (bytes_of_string call)) now"

text \<open>Whether the program quits, and what the command sends.\<close>

definition handleCommand_client :: "Time \<Rightarrow> string \<Rightarrow> bool \<times> 'd NetMessage option" where
  "handleCommand_client now command =
     (if command = ''/quit'' then (True, None)
      else if command = ''/ping'' then (False, Some (rpc_call ''ping'' now))
      else if command = ''/time'' then (False, Some (rpc_call ''time'' now))
      else if command = ''/stats'' then (False, Some (rpc_call ''stats'' now))
      else (False, None))"

text \<open>One line of input: whether the loop ends, and what is sent.\<close>

definition input_message :: "Time \<Rightarrow> string \<Rightarrow> bool \<times> 'd NetMessage option" where
  "input_message now line =
     (let input = TrimSpace line
      in if input = [] then (False, None)
         else if HasPrefix input ''/'' then handleCommand_client now input
         else (False, Some (NewMessage NetMessageTypeData (Some (bytes_of_string input)) now)))"

text \<open>The loop of the program, on the lines it is given: it ends with \<^verbatim>\<open>/quit\<close> or the last line.\<close>

fun input_loop :: "(Time \<times> string) list \<Rightarrow> 'd tcpClient \<Rightarrow> 'd tcpClient option" where
  "input_loop [] cl = Some cl"
| "input_loop ((now, line) # rest) cl =
     (case input_message now line of
        (True, _) \<Rightarrow> Some cl
      | (False, None) \<Rightarrow> input_loop rest cl
      | (False, Some m) \<Rightarrow>
          (case cl_SendMessage now (Some m) cl of (Panic, _) \<Rightarrow> None | (_, cl') \<Rightarrow> input_loop rest cl'))"

text \<open>What the client's message handler prints.\<close>

definition OnMessage_client :: "'d NetMessage \<Rightarrow> string" where
  "OnMessage_client msg =
     (let text = string_of_bytes (data_bytes (nm_Data msg))
      in (if nm_Type msg = NetMessageTypeData then
            (if HasPrefix text ''Welcome'' then ''Server: '' @ text else ''Server echo: '' @ text)
          else if nm_Type msg = NetMessageTypeRPC then ''RPC response: '' @ text
          else if nm_Type msg = NetMessageTypeAck then ''Server acknowledged sequence '' @ decimal (unat (nm_Sequence msg))
          else ''Received message type '' @ NetMessageType_String (nm_Type msg) @ '': '' @ text) @ [CHR 0x0A])"

section \<open>A connection that is served\<close>

lemma read_loop_chan: "read_loop n buf tc = (ok, b, tc') \<Longrightarrow> tcp_sendChan tc' = tcp_sendChan tc"
proof (induction n buf tc arbitrary: ok b tc' rule: read_loop.induct)
  case (1 n buf tc)
  show ?case using "1.prems" "1.IH" by (subst (asm) read_loop.simps) (auto split: if_splits prod.splits option.splits)
qed

lemma ReadMessage_chan: "tcp_ReadMessage now tc = (r, tc') \<Longrightarrow> tcp_sendChan tc' = tcp_sendChan tc"
  by (auto simp: tcp_ReadMessage_def readFull_def updateActivity_def dest!: read_loop_chan
      split: if_splits prod.splits sum.splits bool.splits option.splits)

text \<open>The server's reader on one connection: it reads a message and calls the handler.\<close>

fun echo_turns :: "(Time \<Rightarrow> string) \<Rightarrow> Time list \<Rightarrow> 'd tcpConnection \<Rightarrow> 'd tcpConnection option" where
  "echo_turns rfc3339 [] tc = Some tc"
| "echo_turns rfc3339 (now # nows) tc =
     (case tcp_ReadMessage now tc of
        (Inl e, tc1) \<Rightarrow> Some tc1
      | (Inr m, tc1) \<Rightarrow> Option.bind (OnMessage_echo rfc3339 now m tc1) (echo_turns rfc3339 nows))"

lemma data_bytes_Some [simp]: "data_bytes (Some b) = b"
  by (simp add: data_bytes_def)

lemma bytes_of_string_of_bytes: "bytes_of_string (string_of_bytes b) = b"
proof -
  have "(of_nat (of_char (char_of (unat w))) :: u8) = w" for w :: u8
    using unsigned_less [where 'a = nat and w = w] by simp
  then show ?thesis by (induction b) (simp_all add: bytes_of_string_def string_of_bytes_def)
qed

lemma echo_bytes: "bytes_of_string (''Echo: '' @ string_of_bytes b) = bytes_of_string ''Echo: '' @ b"
  using bytes_of_string_of_bytes [of b] by (simp add: bytes_of_string_def)

text \<open>The reply to data.\<close>

definition echo_of :: "Time \<Rightarrow> 'd NetMessage \<Rightarrow> 'd NetMessage" where
  "echo_of now m = NewMessage NetMessageTypeData (Some (bytes_of_string ''Echo: '' @ data_bytes (nm_Data m))) now"

definition clock_ok :: "Time \<Rightarrow> bool" where
  "clock_ok now \<longleftrightarrow> - (2 ^ 63) \<le> time_Unix now \<and> time_Unix now < 2 ^ 63"

definition echoable :: "'d NetMessage \<Rightarrow> bool" where
  "echoable m \<longleftrightarrow> nm_Type m = NetMessageTypeData \<and> length (data_bytes (nm_Data m)) + 6 \<le> MaxDataSize \<and> timestamp_ok m"

lemma wire_data [simp]: "data_bytes (nm_Data (on_the_wire m)) = data_bytes (nm_Data m)" "nm_Type (on_the_wire m) = nm_Type m"
  "nm_Source (on_the_wire m) = []" "nm_Destination (on_the_wire m) = []" "nm_Sequence (on_the_wire m) = nm_Sequence m"
  by (auto simp: on_the_wire_def data_bytes_def)

lemma echo_of_sendable: "echoable m \<Longrightarrow> clock_ok now \<Longrightarrow> sendable (echo_of now m)"
  by (simp add: echoable_def clock_ok_def sendable_def echo_of_def NewMessage_def timestamp_ok_def data_bytes_def bytes_of_string_def)

lemma echo_turn:
  fixes tc :: "'d tcpConnection" and m :: "'d NetMessage"
  assumes "echoable m" "clock_ok now" "readable tc" "writable tc" "incoming tc = encoded m @ rest"
    and "length (ch_buf (tcp_sendChan tc)) < ch_cap (tcp_sendChan tc)"
  obtains tc1 tc2 where "tcp_ReadMessage now tc = (Inr ((on_the_wire m)\<lparr>nm_ConnectionID := tcp_id tc\<rparr>), tc1)"
    "OnMessage_echo rfc3339 now ((on_the_wire m)\<lparr>nm_ConnectionID := tcp_id tc\<rparr>) tc1 = Some tc2"
    "readable tc2" "writable tc2" "incoming tc2 = rest"
    "tcp_sendChan tc2 = (tcp_sendChan tc)\<lparr>ch_buf := ch_buf (tcp_sendChan tc) @ [encoded (echo_of now m)]\<rparr>"
proof -
  have "sendable m" using assms(1) by (simp add: echoable_def sendable_def)
  note enc = sendable_Encode [OF this]
  have "timestamp_ok m" using assms(1) by (simp add: echoable_def)
  from ReadMessage_stream [OF assms(3) enc this assms(5)] obtain tc1 where tc1:
    "tcp_ReadMessage now tc = (Inr ((on_the_wire m)\<lparr>nm_ConnectionID := tcp_id tc\<rparr>), tc1)" "incoming tc1 = rest" "readable tc1" by metis
  have c: "tcp_sendChan tc1 = tcp_sendChan tc" using ReadMessage_chan [OF tc1(1)] .
  have w: "writable tc1" using tc1(3) assms(4) c by (simp add: writable_def readable_def)
  have r: "echo_reply rfc3339 now ((on_the_wire m)\<lparr>nm_ConnectionID := tcp_id tc\<rparr>) tc1 = Some (echo_of now m)"
    using assms(1) by (simp add: echo_reply_def echo_of_def echoable_def NetMessageType_defs flip: echo_bytes)
  let ?tc2 = "tc1\<lparr>tcp_sendChan := (tcp_sendChan tc)\<lparr>ch_buf := ch_buf (tcp_sendChan tc) @ [encoded (echo_of now m)]\<rparr>,
      tcp_messagesSent := tcp_messagesSent tc1 + 1\<rparr>"
  have "OnMessage_echo rfc3339 now ((on_the_wire m)\<lparr>nm_ConnectionID := tcp_id tc\<rparr>) tc1 = Some ?tc2"
    using SendMessage_open [OF w echo_of_sendable [OF assms(1,2)], of now] assms(6) c
    by (simp add: OnMessage_echo_def r send_message_def Let_def)
  moreover have "readable ?tc2" "writable ?tc2" using tc1(3) w c by (simp_all add: readable_def writable_def)
  ultimately show ?thesis using that tc1(1,2) by simp
qed

section \<open>Properties\<close>



text \<open>
  What the user of the client sees: a line of text is sent as data and comes back as
  its echo, the ping command as its answer; the answer to a call has lost the names of both
  parties, which are not on the wire.
\<close>

theorem echo_shown:
  assumes "TrimSpace line \<noteq> []" "\<not> HasPrefix (TrimSpace line) ''/''"
  shows "\<exists>m r. input_message now line = (False, Some m) \<and> echo_reply rfc3339 t (on_the_wire m) conn = Some r \<and>
       OnMessage_client (on_the_wire r) = ''Server echo: Echo: '' @ TrimSpace line @ [CHR 0x0A] \<and>
     (\<exists>p q. input_message now ''/ping'' = (False, Some p) \<and> echo_reply rfc3339 t (on_the_wire p) conn = Some q \<and>
       OnMessage_client (on_the_wire q) = ''RPC response: pong'' @ [CHR 0x0A] \<and> nm_Source q = [] \<and> nm_Destination q = [])"
proof -
  have "TrimSpace ''/ping'' = ''/ping''" by (rule TrimSpace_line(2)) (simp add: printable_def)
  moreover have "HasPrefix ''/ping'' ''/''" "\<not> HasPrefix (''Echo: '' @ x) ''Welcome''" for x by (simp_all add: HasPrefix_def)
  ultimately show ?thesis
    using assms
    by (simp add: input_message_def handleCommand_client_def rpc_call_def echo_reply_def handleRPC_def NewMessage_def
        NewRPCMessage_def OnMessage_client_def NetMessageType_defs Let_def)
qed

theorem echo_shown_witness:
  "\<exists>m r. input_message 5 ''hi'' = (False, Some m) \<and> echo_reply (\<lambda>t. []) 6 (on_the_wire m) (demo_conn []) = Some r \<and>
     OnMessage_client (on_the_wire r) = ''Server echo: Echo: hi'' @ [CHR 0x0A]"
proof -
  have "TrimSpace ''hi'' = ''hi''" by (rule TrimSpace_line(2)) (simp add: printable_def)
  with echo_shown [of "''hi''" 5 "\<lambda>t. []" 6 "demo_conn []"] show ?thesis by (auto simp: HasPrefix_def)
qed

end
