(* ===== verification/Simple_Client.thy ===== *)
theory Simple_Client
  imports Wire Byte_Codec Json
begin

text \<open>
  \<^verbatim>\<open>examples/client/client.go\<close>: a client that sends messages with a length in front. \<open>dial\<close> is the
  operating system's answer to a dial, a connection or \<open>None\<close>.
\<close>

section \<open>Reading a number of bytes\<close>

text \<open>\<^verbatim>\<open>io.ReadFull\<close>: the bytes, or \<open>None\<close> when the stream ends before.\<close>

function io_ReadFull :: "nat \<Rightarrow> bytes \<Rightarrow> net_conn \<Rightarrow> bytes option \<times> net_conn" where
  "io_ReadFull n buf c =
     (if length buf < n
      then case conn_Read (n - length buf) c of
             (None, c') \<Rightarrow> (None, c')
           | (Some b, c') \<Rightarrow> io_ReadFull n (buf @ b) c'
      else (Some buf, c))"
  by pat_completeness auto
termination
  by (relation "measure (\<lambda>(n, buf, c). pending c)") (auto dest!: conn_Read_pending(2) [OF sym])

declare io_ReadFull.simps [simp del]

section \<open>The client\<close>

record SimpleClient =
  sc_conn :: "net_conn option"
  sc_addr :: string
  sc_port :: int

datatype SimpleError = Connect_failed string | Sc_not_connected | Send_failed | Read_length_failed | Read_message_failed

definition NewSimpleClient :: "string \<Rightarrow> int \<Rightarrow> SimpleClient" where
  "NewSimpleClient addr port = \<lparr>sc_conn = None, sc_addr = addr, sc_port = port\<rparr>"

text \<open>\<^verbatim>\<open>net.JoinHostPort\<close>.\<close>

definition JoinHostPort :: "string \<Rightarrow> string \<Rightarrow> string" where
  "JoinHostPort host port =
     (if CHR '':'' \<in> set host then ''['' @ host @ '']:'' @ port else host @ '':'' @ port)"

definition sc_Connect :: "(string \<Rightarrow> net_conn option) \<Rightarrow> SimpleClient \<Rightarrow> (SimpleError + unit) \<times> SimpleClient" where
  "sc_Connect dial c =
     (let address = JoinHostPort (sc_addr c) (int_text (sc_port c))
      in case dial address of
           None \<Rightarrow> (Inl (Connect_failed address), c)
         | Some conn \<Rightarrow> (Inr (), c\<lparr>sc_conn := Some conn\<rparr>))"

definition sc_SendMessage :: "string \<Rightarrow> SimpleClient \<Rightarrow> (SimpleError + unit) \<times> SimpleClient" where
  "sc_SendMessage message c =
     (case sc_conn c of
        None \<Rightarrow> (Inl Sc_not_connected, c)
      | Some conn \<Rightarrow>
          let msgBytes = bytes_of_string message
          in case conn_Write (PutUint16 (of_nat (length msgBytes))) conn of
               (False, conn1) \<Rightarrow> (Inl Send_failed, c\<lparr>sc_conn := Some conn1\<rparr>)
             | (True, conn1) \<Rightarrow>
                 (case conn_Write msgBytes conn1 of
                    (ok, conn2) \<Rightarrow> (if ok then Inr () else Inl Send_failed, c\<lparr>sc_conn := Some conn2\<rparr>)))"

definition sc_SendJSON :: "json \<Rightarrow> SimpleClient \<Rightarrow> (SimpleError + unit) \<times> SimpleClient" where
  "sc_SendJSON data c = sc_SendMessage (string_of_bytes (Marshal data)) c"

definition sc_ReceiveMessage :: "SimpleClient \<Rightarrow> (SimpleError + string) \<times> SimpleClient" where
  "sc_ReceiveMessage c =
     (case sc_conn c of
        None \<Rightarrow> (Inl Sc_not_connected, c)
      | Some conn \<Rightarrow>
          (case io_ReadFull 2 [] conn of
             (None, conn1) \<Rightarrow> (Inl Read_length_failed, c\<lparr>sc_conn := Some conn1\<rparr>)
           | (Some b, conn1) \<Rightarrow>
               (case io_ReadFull (unat (Uint16 b)) [] conn1 of
                  (None, conn2) \<Rightarrow> (Inl Read_message_failed, c\<lparr>sc_conn := Some conn2\<rparr>)
                | (Some msg, conn2) \<Rightarrow> (Inr (string_of_bytes msg), c\<lparr>sc_conn := Some conn2\<rparr>))))"

definition sc_Close :: "SimpleClient \<Rightarrow> SimpleClient" where
  "sc_Close c = c\<lparr>sc_conn := None\<rparr>"

section \<open>The test program\<close>

definition login_msg :: json where
  "login_msg = JObj [(''password'', JStr ''testpass''), (''type'', JStr ''login''), (''username'', JStr ''testuser'')]"

definition chat_msg :: json where
  "chat_msg = JObj [(''message'', JStr ''Hello, SNGO!''), (''type'', JStr ''chat'')]"

definition ping_msg :: "Time \<Rightarrow> json" where
  "ping_msg now = JObj [(''timestamp'', JInt (time_Unix now)), (''type'', JStr ''ping'')]"

text \<open>The messages are sent one after the other until one fails; at the end the client is closed.\<close>

fun send_each :: "json list \<Rightarrow> SimpleClient \<Rightarrow> SimpleClient" where
  "send_each [] c = c"
| "send_each (v # vs) c = (case sc_SendJSON v c of (Inl e, c') \<Rightarrow> c' | (Inr _, c') \<Rightarrow> send_each vs c')"

definition RunTest :: "(string \<Rightarrow> net_conn option) \<Rightarrow> Time \<Rightarrow> SimpleClient" where
  "RunTest dial now =
     (case sc_Connect dial (NewSimpleClient ''127.0.0.1'' 8888) of
        (Inl e, c) \<Rightarrow> c
      | (Inr _, c) \<Rightarrow> sc_Close (send_each [login_msg, chat_msg, ping_msg now] c))"

section \<open>Frames\<close>

lemma ReadFull_stream:
  assumes "[] \<notin> set (con_in c)" "\<not> con_closed c" "n \<le> length buf + length (concat (con_in c))"
  shows "\<exists>c'. io_ReadFull n buf c = (Some (buf @ take (n - length buf) (concat (con_in c))), c') \<and>
     concat (con_in c') = drop (n - length buf) (concat (con_in c)) \<and> [] \<notin> set (con_in c') \<and> \<not> con_closed c'"
  using assms
proof (induction n buf c rule: io_ReadFull.induct)
  case (1 n buf c)
  show ?case
  proof (cases "length buf < n")
    case False
    then show ?thesis using "1.prems" by (subst io_ReadFull.simps) simp
  next
    case True
    then obtain seg segs where c: "con_in c = seg # segs" using "1.prems"(3) by (cases "con_in c") auto
    define k where "k = n - length buf"
    define c1 where "c1 = c\<lparr>con_in := (if length seg \<le> k then segs else drop k seg # segs)\<rparr>"
    have read: "conn_Read k c = (Some (take k seg), c1)"
      using True "1.prems"(1,2) c by (auto simp: conn_Read_def c1_def k_def)
    have in1: "concat (con_in c) = take k seg @ concat (con_in c1)" by (simp add: c c1_def)
    have ok1: "[] \<notin> set (con_in c1)" "\<not> con_closed c1" using "1.prems"(1,2) c by (auto simp: c1_def)
    have step: "io_ReadFull n buf c = io_ReadFull n (buf @ take k seg) c1"
      using True read by (subst io_ReadFull.simps) (simp add: k_def)
    have len: "n \<le> length (buf @ take k seg) + length (concat (con_in c1))" using "1.prems"(3) in1 by simp
    have "length (take k seg) \<le> k" by simp
    with "1.IH" [OF True read [unfolded k_def, symmetric] refl, folded k_def, OF ok1 len] show ?thesis
      unfolding step by (simp add: in1 take_append drop_append k_def diff_diff_left add.commute)
  qed
qed

definition frame :: "string \<Rightarrow> bytes" where
  "frame message = PutUint16 (of_nat (length message)) @ bytes_of_string message"

text \<open>The bytes that arrive at a client, however they are cut.\<close>

definition receiving :: "bytes \<Rightarrow> SimpleClient \<Rightarrow> bool" where
  "receiving bs c \<longleftrightarrow> (\<exists>conn. sc_conn c = Some conn \<and> [] \<notin> set (con_in conn) \<and> \<not> con_closed conn \<and> concat (con_in conn) = bs)"

lemma length_bytes [simp]: "length (bytes_of_string s) = length s" "length (string_of_bytes b) = length b"
  by (simp_all add: bytes_of_string_def string_of_bytes_def)

lemma SendMessage_frame:
  "sc_conn c = Some conn \<Longrightarrow> \<not> con_closed conn \<Longrightarrow>
     sc_SendMessage message c = (Inr (), c\<lparr>sc_conn := Some (conn\<lparr>con_out := con_out conn @ frame message\<rparr>)\<rparr>)"
  by (simp add: sc_SendMessage_def conn_Write_def frame_def Let_def)

lemma ReceiveMessage_frame:
  assumes "receiving (frame message @ rest) c"
  obtains c' where "sc_ReceiveMessage c = (Inr (take (length message mod 65536) message), c')"
    "receiving (drop (length message mod 65536) (bytes_of_string message) @ rest) c'"
proof -
  let ?n = "length message mod 65536"
  obtain conn where conn: "sc_conn c = Some conn" "[] \<notin> set (con_in conn)" "\<not> con_closed conn"
    "concat (con_in conn) = PutUint16 (of_nat (length message)) @ bytes_of_string message @ rest"
    using assms by (auto simp: receiving_def frame_def)
  have two: "length (PutUint16 (of_nat (length message))) = 2" by simp
  obtain conn1 where r1: "io_ReadFull 2 [] conn = (Some (PutUint16 (of_nat (length message))), conn1)"
    "concat (con_in conn1) = bytes_of_string message @ rest" "[] \<notin> set (con_in conn1)" "\<not> con_closed conn1"
    using ReadFull_stream [OF conn(2,3), of 2 "[]"] conn(4) two by auto
  have n: "unat (Uint16 (PutUint16 (of_nat (length message)))) = ?n" by (simp add: unat_of_nat)
  have le: "?n \<le> length message" by simp
  obtain conn2 where r2: "io_ReadFull ?n [] conn1 = (Some (take ?n (bytes_of_string message)), conn2)"
    "concat (con_in conn2) = drop ?n (bytes_of_string message) @ rest" "[] \<notin> set (con_in conn2)" "\<not> con_closed conn2"
    using ReadFull_stream [OF r1(3,4), of ?n "[]"] r1(2) le by auto
  have "string_of_bytes (take ?n (bytes_of_string message)) = take ?n message"
    by (metis string_of_bytes_of_string string_of_bytes_def take_map)
  then have "sc_ReceiveMessage c = (Inr (take ?n message), c\<lparr>sc_conn := Some conn2\<rparr>)"
    using conn(1) r1(1) r2(1) n by (simp add: sc_ReceiveMessage_def)
  moreover have "receiving (drop ?n (bytes_of_string message) @ rest) (c\<lparr>sc_conn := Some conn2\<rparr>)"
    using r2 by (auto simp: receiving_def)
  ultimately show ?thesis by (rule that)
qed

lemma two_digits: "be_digits 2 k = [of_nat (k div 256 mod 256), of_nat (k mod 256)]"
  by (simp add: numeral_2_eq_2)

text \<open>Several messages in a row.\<close>

definition send_messages :: "string list \<Rightarrow> SimpleClient \<Rightarrow> SimpleClient" where
  "send_messages ms c = foldl (\<lambda>c m. snd (sc_SendMessage m c)) c ms"

fun receive_messages :: "nat \<Rightarrow> SimpleClient \<Rightarrow> string list \<times> SimpleClient" where
  "receive_messages 0 c = ([], c)"
| "receive_messages (Suc k) c =
     (case sc_ReceiveMessage c of (Inl e, c') \<Rightarrow> ([], c') | (Inr m, c') \<Rightarrow> (let (ms, c'') = receive_messages k c' in (m # ms, c'')))"

lemma send_messages_frames:
  "sc_conn c = Some conn \<Longrightarrow> \<not> con_closed conn \<Longrightarrow>
     sc_conn (send_messages ms c) = Some (conn\<lparr>con_out := con_out conn @ concat (map frame ms)\<rparr>)"
proof (induction ms arbitrary: c conn)
  case (Cons m ms)
  then show ?case using SendMessage_frame [OF Cons.prems, of m] by (simp add: send_messages_def)
qed (simp add: send_messages_def)

lemma receive_messages_frames:
  "receiving (concat (map frame ms) @ rest) c \<Longrightarrow> \<forall>m\<in>set ms. length m < 65536 \<Longrightarrow> fst (receive_messages (length ms) c) = ms"
proof (induction ms arbitrary: c)
  case (Cons m ms)
  then have "receiving (frame m @ (concat (map frame ms) @ rest)) c" "length m mod 65536 = length m" by simp_all
  then obtain c' where "sc_ReceiveMessage c = (Inr m, c')" "receiving (concat (map frame ms) @ rest) c'"
    using ReceiveMessage_frame [of m "concat (map frame ms) @ rest" c] by auto
  then show ?case using Cons by (simp split: prod.split) (metis fst_conv)
qed simp

section \<open>Properties\<close>

text \<open>
  Property C38. Messages shorter than 65536 bytes that one client sends reach another one whole and
  in order, however the stream is cut into segments.
\<close>

theorem frames_roundtrip:
  assumes "sc_conn a = Some conn" "\<not> con_closed conn" "con_out conn = []" "\<forall>m\<in>set ms. length m < 65536"
    and "sc_conn (send_messages ms a) = Some sent" "receiving (con_out sent) b"
  shows "fst (receive_messages (length ms) b) = ms"
proof -
  have "con_out sent = concat (map frame ms)" using send_messages_frames [OF assms(1,2), of ms] assms(3,5) by simp
  with receive_messages_frames [of ms "[]" b] assms(4,6) show ?thesis by simp
qed

theorem frames_roundtrip_witness:
  "fst (receive_messages 2 ((NewSimpleClient ''h'' 1)\<lparr>sc_conn := Some \<lparr>con_in = [[0], [2, 104, 105, 0, 1], [33]], con_out = [], con_closed = False\<rparr>\<rparr>)) =
     [''hi'', ''!'']"
proof -
  let ?a = "(NewSimpleClient ''h'' 1)\<lparr>sc_conn := Some \<lparr>con_in = [], con_out = [], con_closed = False\<rparr>\<rparr>"
  have "sc_conn (send_messages [''hi'', ''!''] ?a) = Some \<lparr>con_in = [], con_out = [0, 2, 104, 105, 0, 1, 33], con_closed = False\<rparr>"
    by (simp add: send_messages_frames frame_def PutUint16_def bytes_of_string_def two_digits)
  note sent = this
  let ?b = "(NewSimpleClient ''h'' 1)\<lparr>sc_conn := Some \<lparr>con_in = [[0], [2, 104, 105, 0, 1], [33]], con_out = [], con_closed = False\<rparr>\<rparr>"
  have "fst (receive_messages (length [''hi'', ''!'']) ?b) = [''hi'', ''!'']"
    by (rule frames_roundtrip [where conn = "\<lparr>con_in = [], con_out = [], con_closed = False\<rparr>", OF _ _ _ _ sent]) (simp_all add: receiving_def)
  then show ?thesis by (simp only: list.size) (simp add: numeral_2_eq_2)
qed

text \<open>
  A longer message is cut without an error: its length is announced modulo 65536, the
  receiver takes that many bytes for the message, and the rest of it stays in the stream, where
  it is read as the next frames.
\<close>

theorem long_message_cut:
  assumes "sc_conn a = Some conn" "\<not> con_closed conn" "con_out conn = []"
    and "sc_SendMessage message a = (r, a')" "sc_conn a' = Some sent" "receiving (con_out sent @ rest) b"
  shows "r = Inr () \<and> (\<exists>b'. sc_ReceiveMessage b = (Inr (take (length message mod 65536) message), b') \<and>
     receiving (bytes_of_string (drop (length message mod 65536) message) @ rest) b')"
proof -
  have s: "r = Inr ()" "con_out sent = frame message"
    using SendMessage_frame [OF assms(1,2), of message] assms(3-5) by auto
  have "bytes_of_string (drop k message) = drop k (bytes_of_string message)" for k by (simp add: bytes_of_string_def drop_map)
  then show ?thesis using ReceiveMessage_frame [of message rest b] assms(6) s by auto
qed

theorem long_message_cut_witness:
  "\<exists>conn b'. sc_ReceiveMessage ((NewSimpleClient ''h'' 1)\<lparr>sc_conn := Some conn\<rparr>) = (Inr ''x'', b') \<and>
     con_in conn = [frame (replicate 65537 CHR ''x'')]"
proof -
  let ?m = "replicate 65537 CHR ''x''" and ?a = "(NewSimpleClient ''h'' 1)\<lparr>sc_conn := Some \<lparr>con_in = [], con_out = [], con_closed = False\<rparr>\<rparr>"
  let ?conn = "\<lparr>con_in = [frame ?m], con_out = [], con_closed = False\<rparr>"
  have send: "sc_SendMessage ?m ?a = (Inr (), ?a\<lparr>sc_conn := Some \<lparr>con_in = [], con_out = frame ?m, con_closed = False\<rparr>\<rparr>)"
    by (simp add: SendMessage_frame)
  have "frame ?m \<noteq> []" using length_bytes(1) [of ?m] by (auto simp: frame_def simp del: length_bytes)
  then have "receiving (frame ?m @ []) ((NewSimpleClient ''h'' 1)\<lparr>sc_conn := Some ?conn\<rparr>)" by (simp add: receiving_def)
  moreover have "take (length ?m mod 65536) ?m = ''x''" by simp
  ultimately show ?thesis
    using long_message_cut [where conn = "\<lparr>con_in = [], con_out = [], con_closed = False\<rparr>" and rest = "[]"
        and sent = "\<lparr>con_in = [], con_out = frame ?m, con_closed = False\<rparr>" and b = "(NewSimpleClient ''h'' 1)\<lparr>sc_conn := Some ?conn\<rparr>",
        OF _ _ _ send]
    by (intro exI [of _ ?conn]) auto
qed

end
