(* ===== verification/Spec2Isabelle.thy ===== *)
theory Spec2Isabelle
  imports Protocol Config_Watcher Cluster_Transport Simple_DB Login_Example Watchdog Cluster_Example Echo_Example Simple_Client
begin

text \<open>
  A model of SNGO, an actor framework for game servers written in Go, and the theorems that
  make it correct. File and function names are those of the repository.

  \<^bold>\<open>The program.\<close> An \<^emph>\<open>actor system\<close> (\<^verbatim>\<open>core\<close>) owns actors, each with a mailbox and one goroutine that
  handles one message at a time. Actors are found by id, handle or name through routers, a handle
  manager, a service registry and a load-balancing discovery. \<^emph>\<open>Network\<close> components (\<^verbatim>\<open>network\<close>) carry
  framed messages over TCP: connection, server, connection manager, client and their factory. Two
  game servers (\<^verbatim>\<open>loginserver\<close>, \<^verbatim>\<open>msgserver\<close>) speak line protocols built on \<^verbatim>\<open>crypt\<close> and \<^verbatim>\<open>protocol\<close>. The
  \<^emph>\<open>cluster\<close> components keep a node table, a transport between nodes, remote calls and a service
  registry. \<^emph>\<open>Configuration\<close> is loaded, merged, validated and watched for changes (\<^verbatim>\<open>config\<close>). An
  \<^emph>\<open>application\<close> (\<^verbatim>\<open>bootstrap\<close>) builds on a dependency container and a lifecycle manager that starts
  services in the order of their dependencies and stops them in reverse. The \<^emph>\<open>examples\<close> put these
  parts to use: a key-value store behind an actor, a gate with its watchdog and agents, a login,
  an echo server, a counter called over the cluster, and a client with frames of its own.

  \<^bold>\<open>Theories.\<close>
  \<^item> \<open>Sngo_Prelude\<close>: time, outcomes with panics, Go maps ranged over in any order, buffered channels,
    strings and bytes, decimal text, the locale \<open>unique_table\<close> of tables that refuse to overwrite,
    which \<open>Routers\<close>, \<open>Registry\<close>, \<open>Container\<close> and \<open>Connection_Manager\<close> interpret, and the locales \<open>store\<close> and
    \<open>resettable_store\<close> of tables in which the last write counts, which \<open>Simple_DB\<close> interprets.
  \<^item> \<open>Core_Types\<close> (\<^verbatim>\<open>core/types.go\<close>, data of \<^verbatim>\<open>core/handle.go\<close>), \<open>Handles\<close> (\<^verbatim>\<open>core/handle.go\<close>, with the locale
    \<open>handle_directory\<close>), \<open>Actors\<close> (\<^verbatim>\<open>core/actor.go\<close>), \<open>Routers\<close> and \<open>Sessions\<close> (\<^verbatim>\<open>core/router.go\<close>,
    \<^verbatim>\<open>core/advanced_router.go\<close>), \<open>Registry\<close> (\<^verbatim>\<open>core/service_registry.go\<close>), \<open>Discovery\<close>
    (\<^verbatim>\<open>core/service_discovery.go\<close>), \<open>Actor_System\<close> (\<^verbatim>\<open>core/system.go\<close>).
  \<^item> \<open>Container\<close>, \<open>Lifecycle\<close>, \<open>Application\<close> (\<^verbatim>\<open>bootstrap\<close>).
  \<^item> \<open>Byte_Codec\<close> (big-endian integers), \<open>Go_Strings\<close> (the string functions used), \<open>Wire\<close> (sockets).
  \<^item> \<open>Network_Message\<close>, \<open>Tcp_Connection\<close>, \<open>Tcp_Server\<close>, \<open>Connection_Manager\<close>, \<open>Tcp_Client\<close> (\<^verbatim>\<open>network\<close>; the
    last one also holds the factory and the builders).
  \<^item> \<open>Crypt\<close>, \<open>Protocol\<close>, \<open>Msgserver\<close>, \<open>Loginserver\<close> (the packages of these names).
  \<^item> \<open>Config\<close>, \<open>Config_Loader\<close>, \<open>Config_Watcher\<close> (\<^verbatim>\<open>config\<close>).
  \<^item> \<open>Cluster\<close> (nodes and manager), \<open>Cluster_Service\<close> (remote calls, registry), \<open>Cluster_Transport\<close>,
    \<open>Cluster_Integration\<close> (\<^verbatim>\<open>cluster\<close>).
  \<^item> \<open>Json\<close>: Go's \<^verbatim>\<open>encoding/json\<close>, as the cluster and the examples use it: a lexer, a parser that is a
    stack machine, the encoder, the rounding of numbers to \<^verbatim>\<open>float64\<close>, the decoding into structures,
    and that what is written is read back.
  \<^item> \<open>Simple_DB\<close>, \<open>Gate\<close>, \<open>Watchdog\<close> (with the agents), \<open>Login_Example\<close>, \<open>Cluster_Example\<close>, \<open>Echo_Example\<close>,
    \<open>Simple_Client\<close> (\<^verbatim>\<open>examples\<close>).

  \<^bold>\<open>How the code is modelled.\<close> A struct is a record and a method a function of it that returns the
  changed record; names are those of the source, with a prefix where several types have a method
  of the same name. Structs that are shared by pointer live in a heap, a map from addresses, and
  tables hold addresses. Errors are values of a sum type; a panic is \<open>Panic\<close> or \<open>None\<close>. Counters are
  64-bit words, so that they wrap. Loops over maps take the visiting order as an argument, and
  theorems hold for every order. Loops are total functions with a termination proof; no fuel is used.
  Goroutines are turns or steps: a function is split where it waits or where another goroutine
  can come in between (\<open>_begin\<close> and \<open>_end\<close>), and inductive step relations (\<open>actor_step\<close>, \<open>msg_step\<close>,
  \<open>mt_step\<close>, \<open>srv_step\<close>, \<open>cm_step\<close>, \<open>cl_step\<close>, \<open>w_step\<close>, \<open>gate_step\<close>) interleave them in every way. What lies outside is an
  argument: the clock, random bytes, handlers and services of users, the results of dialling and
  listening, files and environment, the YAML and JSON of configurations, SHA-1, MD5 and DES. A socket is the list of
  segments to be read and the bytes written. Bounds: at most \<open>2 ^ 63\<close> connection ids and \<open>2 ^ 32\<close>
  actors are ever created, which keeps ids distinct.

  \<^bold>\<open>What is shown.\<close>
  \<^item> Actors handle one message at a time in the order of acceptance, calls return the handler's
    verdict, stopping drains the mailbox and answers every caller, and shutting the system down
    stops every actor. Handles, names and ids always lead to the same actor, and registration
    histories refine an abstract table.
  \<^item> Discovery returns exactly the matching services, selection is healthy, watchers
    see every change once, a completed session reaches its waiter.
  \<^item> The start order respects the dependencies and exists whenever one can; an application comes
    up in that order and shuts down completely in the reverse order.
  \<^item> Messages survive encoding; what a client sends is what the server's handler gets (below);
    the connection limit holds, no operation of manager or client panics in any interleaving,
    cleaning up and broadcasting do exactly what they say.
  \<^item> Both sides of a key exchange agree, encryption round trips but for the cases stated, frames are
    exact up to their length; a client that follows the protocol is logged in and nobody without the
    secret is; sessions of the message server stay sound.
  \<^item> The transport never closes or sends on a closed channel, remote calls return the verdict of
    the handler, the cluster registry announces every change.
  \<^item> Loaded and reloaded configurations are valid, and a burst of writes is one reload.
  \<^item> The database behind its actor holds what the last write to a key wrote; the gate's table and its
    connections agree in every interleaving; the report of a client creates an agent that knows it;
    the echo server answers in order, the cluster counter counts, short frames arrive whole.
  \<^item> Error behaviour the code has is stated as such: sends that panic while an actor stops, calls
    that go to the caller, a heartbeat that cannot be stopped, servers and cluster managers that
    cannot be restarted, services and agents that leak, messages that are reordered, an example
    login that no client can complete, a gate that no agent can be reached from, a cluster example
    that always exits, frames of 65536 bytes and more that are cut.

  \<^bold>\<open>Not modelled.\<close> Interface declarations, which have no code; printed forms of statistics; JSON
  marshalling by reflection of the configuration, whose decoders are arguments, and of message
  envelopes, which no code reads; example programs that only call modelled parts in a fixed order and print what
  they return (\<^verbatim>\<open>examples/main.go\<close>, \<^verbatim>\<open>examples/config_demo\<close>, \<^verbatim>\<open>bootstrap/example\<close>, the test clients), and of
  the echo and cluster examples the wiring in \<^verbatim>\<open>main\<close> that waits for signals; the tests. A read blocked in the kernel is
  not a state of its own: sockets deliver what is in their list of segments and then an error.
\<close>

section \<open>A client and a server\<close>

text \<open>
  Property C5. What a client sends is what the server's message handler gets: the messages given
  to a connected client, as many as its queue has room for, are written by the turns of its send
  loop, and a server that receives these bytes, cut into segments in any way, calls its message
  handler once for each of them, in order, with what is on the wire and its own connection id.
  Both sides count them.
\<close>

theorem client_to_server:
  assumes "cl_conn cl = Some a" "cl_heap cl a = Some c" "writable c" "con_out (tcp_conn c) = []" "ch_buf (tcp_sendChan c) = []"
    and "\<forall>(now, m)\<in>set ms. sendable m" "length ms \<le> ch_cap (tcp_sendChan c)"
    and "cl_heap (client_send_all ms cl) a = Some c'" "length ts = length (ch_buf (tcp_sendChan c'))"
    and "srv_heap srv b = Some r" "readable r" "incoming r = con_out (tcp_conn (turns ts c'))"
    and "\<not> srv_cancelled srv" "srv_msgHandler srv" "length nows = length ms"
  shows "srv_calls (reader_turns informed nows b srv) =
       srv_calls srv @ map (\<lambda>(now, m). OnMessage b ((on_the_wire m)\<lparr>nm_ConnectionID := tcp_id r\<rparr>)) ms \<and>
     srv_totalMessages (reader_turns informed nows b srv) = srv_totalMessages srv + of_nat (length ms) \<and>
     cl_totalMessages (client_send_all ms cl) = cl_totalMessages cl + of_nat (length ms)"
proof -
  have "length (ch_buf (tcp_sendChan c)) + length ms \<le> ch_cap (tcp_sendChan c)" using assms(5,7) by simp
  from client_send_all_sends [OF assms(1-3,6) this sends.idle] assms(8)
  have s: "sends c (map snd ms) c'" and n: "cl_totalMessages (client_send_all ms cl) = cl_totalMessages cl + of_nat (length ms)" by auto
  have ok: "\<forall>m\<in>set (map snd ms). sendable m" using assms(6) by auto
  have inv: "writable c'" "outgoing c' = concat (map encoded (map snd ms))" using sends_inv [OF s assms(3) ok] assms(4,5) by simp_all
  have "incoming r = concat (map encoded (map snd ms)) @ []" using turns_flush [OF inv(1) assms(9)] inv(2) assms(12) by simp
  from server_delivers_messages [OF assms(10,11) this ok assms(13,14), of nows informed] assms(15) n show ?thesis
    by (auto simp: comp_def case_prod_unfold)
qed

text \<open>A client that has just connected, and a server that gets its bytes one by one.\<close>

definition talking_client :: "unit tcpClient" where
  "talking_client = snd (ConnectWithTimeout (Some \<lparr>con_in = [], con_out = [], con_closed = False\<rparr>) 0 ''a'' small_client)"

definition listening_server :: "bytes \<Rightarrow> unit tcpServer" where
  "listening_server bs = small_server\<lparr>srv_msgHandler := True, srv_heap := [0 \<mapsto> demo_conn (map (\<lambda>b. [b]) bs)]\<rparr>"

lemma talking_client_conn:
  obtains c where "cl_conn talking_client = Some 0" "cl_heap talking_client 0 = Some c" "writable c" "con_out (tcp_conn c) = []"
    "ch_buf (tcp_sendChan c) = []" "ch_cap (tcp_sendChan c) = 256"
  by (simp add: talking_client_def ConnectWithTimeout_def connect_begin_def connect_end_def small_client_simps NewTCPConnection_def
      SetReadTimeout_def SetWriteTimeout_def writable_def Let_def)

theorem client_to_server_witness:
  "\<exists>bs m1 m2. srv_calls (reader_turns True [5, 6] 0 (listening_server bs)) = [OnMessage 0 m1, OnMessage 0 m2] \<and>
     nm_Sequence m1 = 7 \<and> nm_Sequence m2 = 8"
proof -
  let ?ms = "[(1, NewAckMessage 7 0), (2, NewAckMessage 8 0)] :: (Time \<times> unit NetMessage) list"
  obtain c where c: "cl_conn talking_client = Some 0" "cl_heap talking_client 0 = Some c" "writable c" "con_out (tcp_conn c) = []"
    "ch_buf (tcp_sendChan c) = []" "ch_cap (tcp_sendChan c) = 256" by (rule talking_client_conn)
  have ok: "\<forall>(now, m)\<in>set ?ms. sendable m" "length ?ms \<le> ch_cap (tcp_sendChan c)" by (simp_all add: sendable_ack c(6))
  then obtain c' where c': "cl_heap (client_send_all ?ms talking_client) 0 = Some c'"
    using client_send_all_sends [OF c(1-3) ok(1) _ sends.idle] c(5) by auto
  define ts :: "Time list" where "ts = replicate (length (ch_buf (tcp_sendChan c'))) 0"
  define bs where "bs = con_out (tcp_conn (turns ts c'))"
  have h: "srv_heap (listening_server bs) 0 = Some (demo_conn (map (\<lambda>b. [b]) bs))" by (simp add: listening_server_def)
  have r: "readable (demo_conn (map (\<lambda>b. [b]) bs))" using demo_conn_open by (auto simp: readable_def)
  have i: "incoming (demo_conn (map (\<lambda>b. [b]) bs)) = con_out (tcp_conn (turns ts c'))"
    by (simp add: demo_conn_open concat_map_singleton bs_def)
  have l: "length ts = length (ch_buf (tcp_sendChan c'))" by (simp add: ts_def)
  have "\<not> srv_cancelled (listening_server bs)" "srv_msgHandler (listening_server bs)" "srv_calls (listening_server bs) = []"
    by (simp_all add: listening_server_def small_server_def NewTCPServer_def DefaultNetworkConfig_def)
  with client_to_server [OF c(1-5) ok c' l h r i, of "[5, 6]" True]
  have calls: "srv_calls (reader_turns True [5, 6] 0 (listening_server bs)) = map (\<lambda>(now, m). OnMessage 0
      ((on_the_wire m)\<lparr>nm_ConnectionID := tcp_id (demo_conn (map (\<lambda>b. [b]) bs))\<rparr>)) ?ms" by simp
  define w where "w k = (on_the_wire (NewAckMessage k 0 :: unit NetMessage))\<lparr>nm_ConnectionID := tcp_id (demo_conn (map (\<lambda>b. [b]) bs))\<rparr>" for k
  have "nm_Sequence (w k) = k" for k by (simp add: w_def on_the_wire_def NewAckMessage_def)
  moreover have "srv_calls (reader_turns True [5, 6] 0 (listening_server bs)) = [OnMessage 0 (w 7), OnMessage 0 (w 8)]"
    using calls by (simp add: w_def)
  ultimately show ?thesis by blast
qed

end
